(* ===== verification/GK_Prelude.thy ===== *)
theory GK_Prelude
  imports Main "HOL-Library.Word"
begin

text \<open>
  Shared vocabulary of the development.

  \<^item> Rust's fixed-width integers are words: \<open>u8\<close>, \<open>u64\<close> and the 256-bit \<open>U256\<close> /
    \<open>B256\<close> are \<open>8 word\<close>, \<open>64 word\<close> and \<open>256 word\<close>, an \<open>Address\<close> is a
    \<open>160 word\<close>; the plain operators wrap (the release profile), and the
    \<open>saturating_*\<close> methods are \<open>sat_add\<close>, \<open>sat_sub\<close> and \<open>sat_mul\<close> below.
  \<^item> \<open>usize\<close> lengths and indices, and the EVM call depth, are \<open>nat\<close>.
  \<^item> A fallible operation returns \<open>'e + 'a\<close>, \<open>Inl\<close> being the error; \<open>bind_res\<close> is the
    \<open>?\<close> operator.
\<close>

section \<open>Types\<close>

type_synonym u8 = "8 word"
type_synonym u32 = "32 word"
type_synonym u64 = "64 word"
type_synonym u128 = "128 word"
type_synonym u256 = "256 word"
type_synonym b256 = "256 word"
type_synonym address = "160 word"
type_synonym bytes = "8 word list"

named_theorems res_simps \<open>rewriting of fallible results\<close>
named_theorems sat_simps \<open>saturating arithmetic read through unat\<close>

section \<open>Results and the question-mark operator\<close>

definition bind_res :: "'e + 'a \<Rightarrow> ('a \<Rightarrow> 'e + 'b) \<Rightarrow> 'e + 'b" where
  "bind_res r f = (case r of Inl e \<Rightarrow> Inl e | Inr a \<Rightarrow> f a)"

definition guard_res :: "bool \<Rightarrow> 'e \<Rightarrow> 'e + unit" where
  "guard_res b e = (if b then Inr () else Inl e)"

lemma bind_res_simps [simp]:
  "bind_res (Inl e) f = Inl e"
  "bind_res (Inr a) f = f a"
  by (simp_all add: bind_res_def)

lemma bind_res_Inr_iff [res_simps]:
  "bind_res r f = Inr b \<longleftrightarrow> (\<exists>a. r = Inr a \<and> f a = Inr b)"
  by (cases r) auto

lemma bind_res_Inl_iff [res_simps]:
  "bind_res r f = Inl e \<longleftrightarrow> r = Inl e \<or> (\<exists>a. r = Inr a \<and> f a = Inl e)"
  by (cases r) auto

lemma guard_res_Inr_iff [res_simps, simp]: "guard_res b e = Inr u \<longleftrightarrow> b"
  by (simp add: guard_res_def)

lemma guard_res_Inl_iff [res_simps, simp]: "guard_res b e = Inl e' \<longleftrightarrow> \<not> b \<and> e' = e"
  by (auto simp: guard_res_def)

lemma bind_res_cong [fundef_cong]:
  "r = r' \<Longrightarrow> (\<And>a. r' = Inr a \<Longrightarrow> f a = g a) \<Longrightarrow> bind_res r f = bind_res r' g"
  by (cases r') auto

lemma bind_res_assoc: "bind_res (bind_res r f) g = bind_res r (\<lambda>a. bind_res (f a) g)"
  by (cases r) auto

text \<open>A loop over a list whose body may fail: it stops at the first error.\<close>

fun fold_res :: "('s \<Rightarrow> 'x \<Rightarrow> 'e + 's) \<Rightarrow> 'x list \<Rightarrow> 's \<Rightarrow> 'e + 's" where
  "fold_res f [] s = Inr s"
| "fold_res f (x # xs) s = bind_res (f s x) (fold_res f xs)"

lemma fold_res_append:
  "fold_res f (xs @ ys) s = bind_res (fold_res f xs s) (fold_res f ys)"
  by (induction xs arbitrary: s) (simp_all add: bind_res_assoc bind_res_def split: sum.splits)

text \<open>The induction principle of such a loop: a property every body execution keeps.\<close>

lemma fold_res_invariant:
  assumes "fold_res f xs s = Inr t" and "P s"
    and step: "\<And>s x s'. P s \<Longrightarrow> x \<in> set xs \<Longrightarrow> f s x = Inr s' \<Longrightarrow> P s'"
  shows "P t"
proof -
  have "set ys \<subseteq> set xs \<Longrightarrow> fold_res f ys s = Inr t \<Longrightarrow> P s \<Longrightarrow> P t" for ys s
    by (induction ys arbitrary: s) (auto simp: res_simps dest: step)
  then show ?thesis using assms(1,2) by blast
qed

lemma fold_res_error:
  "fold_res f xs s = Inl e \<Longrightarrow> \<exists>x \<in> set xs. \<exists>s'. f s' x = Inl e"
  by (induction xs arbitrary: s) (auto simp: res_simps)

lemma fold_res_error_inv:
  assumes "fold_res f xs s = Inl e" and "P s"
    and step: "\<And>s x s'. P s \<Longrightarrow> x \<in> set xs \<Longrightarrow> f s x = Inr s' \<Longrightarrow> P s'"
  shows "\<exists>x \<in> set xs. \<exists>s'. P s' \<and> f s' x = Inl e"
proof -
  have "set ys \<subseteq> set xs \<Longrightarrow> fold_res f ys s = Inl e \<Longrightarrow> P s \<Longrightarrow>
      \<exists>x \<in> set ys. \<exists>s'. P s' \<and> f s' x = Inl e" for ys s
  proof (induction ys arbitrary: s)
    case (Cons y ys)
    show ?case
    proof (cases "f s y")
      case (Inr s1)
      then have "P s1" using Cons.prems step by auto
      with Cons Inr show ?thesis by auto
    qed (use Cons.prems in auto)
  qed simp
  then show ?thesis using assms(1,2) by blast
qed

lemma fold_res_map: "fold_res f (map g xs) s = fold_res (\<lambda>s x. f s (g x)) xs s"
  by (induction xs arbitrary: s) (simp_all cong: bind_res_cong)

lemma fold_res_cong:
  "(\<And>s x. x \<in> set xs \<Longrightarrow> f s x = g s x) \<Longrightarrow> fold_res f xs s = fold_res g xs s"
  by (induction xs arbitrary: s) (auto intro!: bind_res_cong)

text \<open>\<open>map_res\<close> is a map whose function may fail (\<open>collect\<close> into a \<open>Result\<close>).\<close>

fun map_res :: "('a \<Rightarrow> 'e + 'b) \<Rightarrow> 'a list \<Rightarrow> 'e + 'b list" where
  "map_res f [] = Inr []"
| "map_res f (x # xs) = bind_res (f x) (\<lambda>y. bind_res (map_res f xs) (\<lambda>ys. Inr (y # ys)))"

lemma map_res_length: "map_res f xs = Inr ys \<Longrightarrow> length ys = length xs"
  by (induction xs arbitrary: ys) (auto simp: res_simps)

lemma map_res_nth: "map_res f xs = Inr ys \<Longrightarrow> i < length xs \<Longrightarrow> f (xs ! i) = Inr (ys ! i)"
  by (induction xs arbitrary: ys i) (auto simp: res_simps nth_Cons split: nat.splits)

text \<open>\<open>errs P r\<close>: whatever error \<open>r\<close> reports satisfies \<open>P\<close>; the rules follow the program text.\<close>

definition errs :: "('e \<Rightarrow> bool) \<Rightarrow> 'e + 'a \<Rightarrow> bool" where
  "errs P r \<longleftrightarrow> (\<forall>e. r = Inl e \<longrightarrow> P e)"

named_theorems errs_intros \<open>introduction rules for error predicates\<close>

lemma errs_Inr [errs_intros]: "errs P (Inr a)"
  by (simp add: errs_def)

lemma errs_Inl [errs_intros]: "P e \<Longrightarrow> errs P (Inl e)"
  by (simp add: errs_def)

lemma errs_bind [errs_intros]:
  "errs P r \<Longrightarrow> (\<And>a. r = Inr a \<Longrightarrow> errs P (f a)) \<Longrightarrow> errs P (bind_res r f)"
  by (auto simp: errs_def res_simps)

lemma errs_if [errs_intros]: "(c \<Longrightarrow> errs P a) \<Longrightarrow> (\<not> c \<Longrightarrow> errs P b) \<Longrightarrow> errs P (if c then a else b)"
  by simp

lemma errs_option [errs_intros]:
  "(x = None \<Longrightarrow> errs P a) \<Longrightarrow> (\<And>y. x = Some y \<Longrightarrow> errs P (f y)) \<Longrightarrow>
     errs P (case x of None \<Rightarrow> a | Some y \<Rightarrow> f y)"
  by (cases x) auto

lemma errs_prod [errs_intros]: "(\<And>a b. x = (a, b) \<Longrightarrow> errs P (f a b)) \<Longrightarrow> errs P (case x of (a, b) \<Rightarrow> f a b)"
  by (cases x) auto

lemma errs_Let [errs_intros]: "errs P (f x) \<Longrightarrow> errs P (let y = x in f y)"
  by simp

lemma errs_fold [errs_intros]:
  "(\<And>s x. x \<in> set xs \<Longrightarrow> errs P (f s x)) \<Longrightarrow> errs P (fold_res f xs s)"
  by (metis errs_def fold_res_error)

section \<open>Saturating arithmetic\<close>

definition sat_sub :: "'a::len word \<Rightarrow> 'a word \<Rightarrow> 'a word" where
  "sat_sub a b = (if b \<le> a then a - b else 0)"

definition sat_add :: "'a::len word \<Rightarrow> 'a word \<Rightarrow> 'a word" where
  "sat_add a b = (if unat a + unat b < 2 ^ LENGTH('a) then a + b else - 1)"

definition sat_mul :: "'a::len word \<Rightarrow> 'a word \<Rightarrow> 'a word" where
  "sat_mul a b = (if unat a * unat b < 2 ^ LENGTH('a) then a * b else - 1)"

lemma unat_sat_sub [sat_simps]: "unat (sat_sub a b) = unat a - unat b"
  by (auto simp: sat_sub_def unat_sub word_le_nat_alt)

lemma unat_sat_add [sat_simps]:
  "unat (sat_add (a::'a::len word) b) = min (unat a + unat b) (2 ^ LENGTH('a) - 1)"
  by (auto simp: sat_add_def unat_word_ariths unsigned_minus_1_eq_mask mask_eq_exp_minus_1)

lemma unat_sat_mul [sat_simps]:
  "unat (sat_mul (a::'a::len word) b) = min (unat a * unat b) (2 ^ LENGTH('a) - 1)"
  by (auto simp: sat_mul_def unat_word_ariths unsigned_minus_1_eq_mask mask_eq_exp_minus_1)

lemma sat_sub_le: "sat_sub a b \<le> a"
  by (simp add: word_le_nat_alt sat_simps)

lemma sat_sub_self [simp]: "sat_sub a a = 0"
  by (simp add: sat_sub_def)

lemma sat_sub_zero [simp]: "sat_sub a 0 = a"
  by (simp add: sat_sub_def)

lemma unat_le_max: "unat (a::'a::len word) \<le> 2 ^ LENGTH('a) - Suc 0"
proof -
  have "unat a < 2 ^ LENGTH('a)" by (rule unsigned_less)
  then show ?thesis by linarith
qed

lemma sat_add_ge1: "a \<le> sat_add a b"
  by (simp add: word_le_nat_alt sat_simps unat_le_max)

lemma sat_add_ge2: "b \<le> sat_add a b"
  by (simp add: word_le_nat_alt sat_simps unat_le_max)

lemma sat_add_mono: "a \<le> a' \<Longrightarrow> b \<le> b' \<Longrightarrow> sat_add a b \<le> sat_add a' b'"
  by (simp add: word_le_nat_alt sat_simps)

section \<open>Words and bytes\<close>

lemma unat_of_nat_less: "n < 2 ^ LENGTH('a::len) \<Longrightarrow> unat (of_nat n :: 'a word) = n"
  by (simp add: unat_of_nat take_bit_nat_eq_self)

text \<open>The \<open>n\<close> low bytes of a number, most significant first (\<open>to_be_bytes\<close>).\<close>

fun be_bytes :: "nat \<Rightarrow> nat \<Rightarrow> bytes" where
  "be_bytes 0 v = []"
| "be_bytes (Suc n) v = be_bytes n (v div 256) @ [of_nat (v mod 256)]"

lemma be_bytes_numeral:
  "be_bytes (numeral k) v = be_bytes (pred_numeral k) (v div 256) @ [of_nat (v mod 256)]"
  by (simp only: numeral_eq_Suc [of k] be_bytes.simps)

text \<open>The number a byte string denotes, most significant byte first.\<close>

definition be_value :: "bytes \<Rightarrow> nat" where
  "be_value bs = foldl (\<lambda>acc b. acc * 256 + unat b) 0 bs"

lemma length_be_bytes [simp]: "length (be_bytes n v) = n"
  by (induction n v rule: be_bytes.induct) auto

lemma be_value_Nil [simp]: "be_value [] = 0"
  by (simp add: be_value_def)

lemma be_value_snoc: "be_value (bs @ [b]) = be_value bs * 256 + unat b"
  by (simp add: be_value_def)

lemma be_value_be_bytes: "v < 256 ^ n \<Longrightarrow> be_value (be_bytes n v) = v"
proof (induction n v rule: be_bytes.induct)
  case (1 v)
  then show ?case by simp
next
  case (2 n v)
  then have "v div 256 < 256 ^ n" by (simp add: less_mult_imp_div_less mult.commute)
  then have "be_value (be_bytes n (v div 256)) = v div 256" by (rule 2)
  moreover have "unat (of_nat (v mod 256) :: u8) = v mod 256"
    by (simp add: unat_of_nat_less)
  ultimately show ?case by (simp add: be_value_snoc)
qed

lemma be_value_replicate_0: "be_value (replicate k 0 @ bs) = be_value bs"
proof (induction k)
  case (Suc k)
  have "be_value (0 # xs) = be_value xs" for xs :: bytes
    by (simp add: be_value_def)
  with Suc show ?case by simp
qed simp

section \<open>Evaluating words\<close>

text \<open>
  Truncation to the widths of the source returns a value in range at once, so that concrete
  runs evaluate without building masks.
\<close>

definition word_range :: "nat \<Rightarrow> int" where
  "word_range n = (if n = 256 then 115792089237316195423570985008687907853269984665640564039457584007913129639936 else if n = 160 then 1461501637330902918203684832716283019655932542976 else if n = 128 then 340282366920938463463374607431768211456
     else if n = 64 then 18446744073709551616 else if n = 8 then 256 else 0)"

lemma word_range_le: "word_range n \<le> 2 ^ n"
  by (simp add: word_range_def)

lemma take_bit_int_in_range [code]:
  "take_bit n (k :: int) = (if 0 \<le> k \<and> k < word_range n then k else and k (mask n))"
proof (cases "0 \<le> k \<and> k < word_range n")
  case True
  then have "k < 2 ^ n" using word_range_le [of n] by linarith
  with True show ?thesis by (simp add: take_bit_int_eq_self)
qed (auto simp: take_bit_eq_mask)

end
