(* ===== verification/Ordered_Map.thy ===== *)
theory Ordered_Map
  imports GK_Prelude
begin

text \<open>
  Rust's \<open>BTreeMap\<close> and \<open>HashMap\<close>, as the crates use them: a finite map kept as an
  association list in ascending key order, so that iterating it is iterating the list
  (\<open>BTreeMap\<close> iterates in key order; where the source uses a \<open>HashMap\<close> its iteration
  order is never observed). The locale \<open>finite_map\<close> is the interface the extractors rely
  on, with the laws of lookup after insert and remove; \<open>om\<close> interprets it on the
  association lists.
\<close>

section \<open>The interface\<close>

locale finite_map =
  fixes emp :: "'m"
    and get :: "'m \<Rightarrow> 'k \<Rightarrow> 'v option"
    and ins :: "'k \<Rightarrow> 'v \<Rightarrow> 'm \<Rightarrow> 'm"
    and del :: "'k \<Rightarrow> 'm \<Rightarrow> 'm"
    and ok :: "'m \<Rightarrow> bool"
  assumes get_emp: "get emp k = None"
    and get_ins: "get (ins k v m) k' = (if k' = k then Some v else get m k')"
    and get_del: "ok m \<Longrightarrow> get (del k m) k' = (if k' = k then None else get m k')"
    and ok_emp: "ok emp"
    and ok_ins: "ok m \<Longrightarrow> ok (ins k v m)"
    and ok_del: "ok m \<Longrightarrow> ok (del k m)"
begin

text \<open>\<open>extend\<close>: inserting a sequence of pairs, a later pair winning over an earlier one.\<close>

lemma get_extend:
  "get (fold (\<lambda>(k, v). ins k v) kvs m) k =
     (case map_of (rev kvs) k of Some v \<Rightarrow> Some v | None \<Rightarrow> get m k)"
  by (induction kvs arbitrary: m)
    (auto simp: get_ins map_add_def split: option.splits)

lemma ok_extend: "ok m \<Longrightarrow> ok (fold (\<lambda>(k, v). ins k v) kvs m)"
  by (induction kvs arbitrary: m) (auto simp: ok_ins)

text \<open>Removing a list of keys.\<close>

lemma ok_del_all: "ok m \<Longrightarrow> ok (fold del ks m)"
  by (induction ks arbitrary: m) (auto simp: ok_del)

lemma get_del_all: "ok m \<Longrightarrow> get (fold del ks m) k = (if k \<in> set ks then None else get m k)"
  by (induction ks arbitrary: m) (auto simp: get_del ok_del)

end

section \<open>Ascending association lists\<close>

type_synonym ('k, 'v) omap = "('k \<times> 'v) list"

definition om_ok :: "('k::linorder, 'v) omap \<Rightarrow> bool" where
  "om_ok m \<longleftrightarrow> sorted_wrt (<) (map fst m)"

fun om_insert :: "'k::linorder \<Rightarrow> 'v \<Rightarrow> ('k, 'v) omap \<Rightarrow> ('k, 'v) omap" where
  "om_insert k v [] = [(k, v)]"
| "om_insert k v (e # m) =
     (if fst e < k then e # om_insert k v m
      else if fst e = k then (k, v) # m
      else (k, v) # e # m)"

definition om_remove :: "'k \<Rightarrow> ('k, 'v) omap \<Rightarrow> ('k, 'v) omap" where
  "om_remove k m = filter (\<lambda>e. fst e \<noteq> k) m"

definition om_extend :: "('k::linorder, 'v) omap \<Rightarrow> ('k, 'v) omap \<Rightarrow> ('k, 'v) omap" where
  "om_extend m kvs = fold (\<lambda>(k, v). om_insert k v) kvs m"

definition om_keys :: "('k, 'v) omap \<Rightarrow> 'k list" where
  "om_keys m = map fst m"

lemma om_ok_Nil [simp]: "om_ok []"
  by (simp add: om_ok_def)

lemma om_ok_Cons: "om_ok ((k, v) # m) \<longleftrightarrow> om_ok m \<and> (\<forall>k' \<in> set (map fst m). k < k')"
  by (auto simp: om_ok_def)

lemma om_ok_distinct: "om_ok m \<Longrightarrow> distinct (map fst m)"
  by (simp add: om_ok_def strict_sorted_iff)

lemma om_ok_sorted: "om_ok m \<Longrightarrow> sorted (map fst m)"
  by (simp add: om_ok_def strict_sorted_iff)

lemma map_of_om_insert: "map_of (om_insert k v m) k' = (if k' = k then Some v else map_of m k')"
  by (induction m) (auto split: prod.splits)

lemma set_om_insert: "set (map fst (om_insert k v m)) = insert k (set (map fst m))"
  by (induction m) auto

lemma om_ok_insert: "om_ok m \<Longrightarrow> om_ok (om_insert k v m)"
proof (induction m)
  case Nil
  then show ?case by (simp add: om_ok_def)
next
  case (Cons e m)
  obtain a b where e: "e = (a, b)" by (cases e)
  from Cons.prems have m: "om_ok m" and less: "\<forall>k' \<in> set (map fst m). a < k'"
    by (simp_all add: e om_ok_Cons)
  show ?case
    using Cons.IH [OF m] m less set_om_insert [of k v m]
    by (auto simp: e om_ok_Cons)
qed

lemma map_of_om_remove: "map_of (om_remove k m) k' = (if k' = k then None else map_of m k')"
  by (induction m) (auto simp: om_remove_def)

lemma om_ok_remove: "om_ok m \<Longrightarrow> om_ok (om_remove k m)"
  unfolding om_ok_def om_remove_def
  by (induction m) (auto simp: sorted_wrt_map)

interpretation om: finite_map "[]" map_of om_insert om_remove om_ok
  by unfold_locales
    (simp_all add: map_of_om_insert map_of_om_remove om_ok_insert om_ok_remove)

lemma map_of_rev_distinct: "distinct (map fst kvs) \<Longrightarrow> map_of (rev kvs) = map_of kvs"
proof
  fix k
  assume d: "distinct (map fst kvs)"
  have "map_of (rev kvs) k = Some v \<longleftrightarrow> map_of kvs k = Some v" for v
    using d by (simp add: rev_map [symmetric])
  then show "map_of (rev kvs) k = map_of kvs k" by (metis not_Some_eq)
qed

lemma map_of_om_extend:
  "om_ok kvs \<Longrightarrow> map_of (om_extend m kvs) = map_of m ++ map_of kvs"
proof
  fix k
  assume ok: "om_ok kvs"
  have "map_of (rev kvs) k = map_of kvs k"
    by (simp add: map_of_rev_distinct om_ok_distinct [OF ok])
  then show "map_of (om_extend m kvs) k = (map_of m ++ map_of kvs) k"
    by (simp add: om_extend_def om.get_extend map_add_def)
qed

lemma om_ok_extend [simp]: "om_ok m \<Longrightarrow> om_ok (om_extend m kvs)"
  by (simp add: om_extend_def om.ok_extend)

lemma om_remove_all:
  "om_ok m \<Longrightarrow> map_of (fold om_remove ks m) k = (if k \<in> set ks then None else map_of m k)"
  by (rule om.get_del_all)

lemma map_of_eq_Some_in_keys: "map_of m k = Some v \<Longrightarrow> k \<in> set (om_keys m)"
  by (metis om_keys_def domI dom_map_of_conv_image_fst set_map)

lemma map_of_None_iff_keys: "map_of m k = None \<longleftrightarrow> k \<notin> set (om_keys m)"
  by (simp add: om_keys_def map_of_eq_None_iff)

lemma om_insert_nonempty [simp]: "om_insert k v m \<noteq> []"
  by (cases m) auto

lemmas om_simps [simp] = map_of_om_insert map_of_om_remove om_ok_insert om_ok_remove

end
