(* ===== verification/Core_Types.thy ===== *)
theory Core_Types
  imports Ordered_Map
begin

text \<open>
  The data of \<^verbatim>\<open>crates/core/src/types.rs\<close> and the tracer records the extractors read.
  A \<open>StateUpdate\<close> is one operation of the program a settlement replays; a \<open>StructLog\<close> is
  one step of a geth struct-log trace (alloy's record, field for field).
\<close>

section \<open>State updates\<close>

datatype state_update_type =
    STORE | CALL | LOG0 | LOG1 | LOG2 | LOG3 | LOG4 | CREATE | CREATE2 | NESTED

text \<open>The discriminant of the Solidity enum, \<open>*enum_val as u8\<close>.\<close>

fun type_tag :: "state_update_type \<Rightarrow> nat" where
  "type_tag STORE = 0"
| "type_tag CALL = 1"
| "type_tag LOG0 = 2"
| "type_tag LOG1 = 3"
| "type_tag LOG2 = 4"
| "type_tag LOG3 = 5"
| "type_tag LOG4 = 6"
| "type_tag CREATE = 7"
| "type_tag CREATE2 = 8"
| "type_tag NESTED = 9"

record call_op =
  call_target :: address
  call_value :: u256
  callargs :: bytes

text \<open>
  The constructors carry the fields of the structs of \<open>IStateUpdateTypes\<close> in their order:
  \<open>Store slot value\<close>, \<open>Call {target, value, callargs}\<close>, \<open>LogN data topic1 ... topicN\<close>,
  \<open>Create value initcode\<close>, \<open>Create2 salt value initcode\<close>,
  \<open>Nested target value childLeaf\<close>.
\<close>

datatype state_update =
    Store b256 b256
  | Call call_op
  | Log0 bytes
  | Log1 bytes b256
  | Log2 bytes b256 b256
  | Log3 bytes b256 b256 b256
  | Log4 bytes b256 b256 b256 b256
  | Create u256 bytes
  | Create2 b256 u256 bytes
  | Nested address u256 b256

fun is_nested :: "state_update \<Rightarrow> bool" where
  "is_nested (Nested _ _ _) = True"
| "is_nested _ = False"

fun is_create :: "state_update \<Rightarrow> bool" where
  "is_create (Create _ _) = True"
| "is_create (Create2 _ _ _) = True"
| "is_create _ = False"

text \<open>The slot and value a \<open>Store\<close> writes; nothing for every other operation.\<close>

fun store_of :: "state_update \<Rightarrow> (b256 \<times> b256) option" where
  "store_of (Store s v) = Some (s, v)"
| "store_of _ = None"

section \<open>Traces\<close>

record struct_log =
  pc :: u64
  op :: string
  gas :: u64
  gas_cost :: u64
  depth :: nat
  error :: "string option"
  stack :: "u256 list option"
  return_data :: "bytes option"
  memory :: "string list option"
  memory_size :: "u64 option"
  storage :: "(b256, b256) omap option"
  refund_counter :: "u64 option"

record default_frame =
  failed :: bool
  frame_gas :: u64
  return_value :: bytes
  struct_logs :: "struct_log list"

text \<open>\<open>Address::from_word\<close>: the low twenty bytes of a word.\<close>

definition address_from_word :: "u256 \<Rightarrow> address" where
  "address_from_word w = ucast w"

section \<open>Errors\<close>

text \<open>
  What the core functions report. \<open>Panic\<close> is a Rust panic (an \<open>expect\<close>, an index out of
  bounds), with the message of the source, and \<open>RemainingCalls\<close> the \<open>panic!\<close> of the flat
  extractor, with its count; \<open>OutOfFuel\<close> is no error of the source but a loop that walks
  parent links and would not end. The other constructors are the \<open>bail!\<close> sites, with the
  values their messages carry.
\<close>

datatype core_error =
    Panic string
  | RemainingCalls nat
  | OutOfFuel
  | NoMemory string
  | UnexpectedOpcode string
  | FailedCreate nat
  | DepthZero nat
  | ShortStack nat
  | OpenedNoFrame nat
  | DepthJumped nat nat
  | ResumeNoStack nat
  | ResumeEmptyStack nat
  | LogNoStack string
  | OpNotLast
  | NoCallUpdate
  | UnclosedFrames nat
  | NeverReturned
  | NoLeaves
  | LeafOutside nat nat
  | NoRootFrame
  | MoreNestedThanChildren nat
  | ChildOutsidePreorder nat nat
  | MoreChildrenThanNested nat
  | NoTransitionIndex nat

type_synonym 'a res = "core_error + 'a"

end
