(* ===== verification/Trace.thy ===== *)
theory Trace
  imports Core_Types
begin

text \<open>
  \<^verbatim>\<open>crates/core/src/trace.rs\<close>: reading memory out of a struct log, the extraction of one
  state update from a log (\<open>append_state_update_from_struct_log\<close>), and the flat extractor
  \<open>compute_state_updates\<close>, whose loop body is split along the source's paragraphs:
  \<open>note_entry\<close>, \<open>resume_create\<close>, \<open>detect_reentry\<close>, \<open>leave_calls\<close>, \<open>visit_op\<close>.
  The \<open>hex\<close> crate's decoder is the parameter \<open>hexd\<close> (\<open>None\<close> where it returns an error).
\<close>

section \<open>Memory\<close>

definition usize_max :: nat where
  "usize_max = 2 ^ 64 - 1"

definition copy_memory :: "bytes \<Rightarrow> nat \<Rightarrow> nat \<Rightarrow> bytes" where
  "copy_memory mem offset len =
     (let stop = min (offset + len) usize_max
      in if stop \<le> length mem then take (stop - offset) (drop offset mem)
         else let result = replicate len 0
              in if offset < length mem
                 then let copy_len = min (length mem - offset) len
                      in take copy_len (drop offset mem) @ drop copy_len result
                 else result)"

type_synonym hexd = "string \<Rightarrow> bytes option"

definition strip_0x :: "string \<Rightarrow> string" where
  "strip_0x s = (case s of c # d # rest \<Rightarrow> if c = CHR ''0'' \<and> d = CHR ''x'' then rest else s | _ \<Rightarrow> s)"

fun parse_trace_memory :: "hexd \<Rightarrow> string list \<Rightarrow> bytes res" where
  "parse_trace_memory hexd [] = Inr []"
| "parse_trace_memory hexd (w # words) =
     (case hexd (strip_0x w) of
        None \<Rightarrow> Inl (Panic ''invalid hex'')
      | Some bs \<Rightarrow> bind_res (parse_trace_memory hexd words) (\<lambda>rest. Inr (bs @ rest)))"

section \<open>One struct log\<close>

definition reads_memory :: "string \<Rightarrow> bool" where
  "reads_memory opc \<longleftrightarrow> opc \<in> {''CREATE'', ''CREATE2'', ''CALL'', ''LOG0'', ''LOG1'', ''LOG2'', ''LOG3'', ''LOG4''}"

text \<open>Indexing a \<open>Vec\<close>, and \<open>try_into().expect(..)\<close> from \<open>U256\<close> to \<open>usize\<close>.\<close>

definition stack_at :: "u256 list \<Rightarrow> nat \<Rightarrow> u256 res" where
  "stack_at st i = (if i < length st then Inr (st ! i) else Inl (Panic ''index out of bounds''))"

definition to_usize :: "string \<Rightarrow> u256 \<Rightarrow> nat res" where
  "to_usize what w = (if unat w \<le> usize_max then Inr (unat w) else Inl (Panic what))"

text \<open>The memory slice whose offset and length are at stack positions \<open>i\<close> and \<open>j\<close>.\<close>

definition memory_arg :: "u256 list \<Rightarrow> bytes \<Rightarrow> string \<Rightarrow> string \<Rightarrow> nat \<Rightarrow> nat \<Rightarrow> bytes res" where
  "memory_arg st mem bad_offset bad_length i j =
     bind_res (stack_at st i) (\<lambda>o_word. bind_res (to_usize bad_offset o_word) (\<lambda>offset.
     bind_res (stack_at st j) (\<lambda>l_word. bind_res (to_usize bad_length l_word) (\<lambda>len.
     Inr (copy_memory mem offset len)))))"

abbreviation log_data :: "u256 list \<Rightarrow> bytes \<Rightarrow> bytes res" where
  "log_data st mem \<equiv> memory_arg st mem ''invalid data offset'' ''invalid data length'' 0 1"

text \<open>The update an opcode yields on the reversed stack; \<open>None\<close> for every other opcode.\<close>

definition decode_update :: "string \<Rightarrow> u256 list \<Rightarrow> bytes \<Rightarrow> state_update option res" where
  "decode_update opc st mem =
     (if opc = ''CREATE'' then
        bind_res (stack_at st 0) (\<lambda>v.
        bind_res (memory_arg st mem ''invalid CREATE offset'' ''invalid CREATE length'' 1 2) (\<lambda>initcode.
        Inr (Some (Create v initcode))))
      else if opc = ''CREATE2'' then
        bind_res (stack_at st 0) (\<lambda>v.
        bind_res (memory_arg st mem ''invalid CREATE2 offset'' ''invalid CREATE2 length'' 1 2) (\<lambda>initcode.
        bind_res (stack_at st 3) (\<lambda>salt.
        Inr (Some (Create2 salt v initcode)))))
      else if opc \<in> {''DELEGATECALL'', ''CALLCODE''} then Inl (UnexpectedOpcode opc)
      else if opc = ''SSTORE'' then
        bind_res (stack_at st 0) (\<lambda>slot. bind_res (stack_at st 1) (\<lambda>v.
        Inr (Some (Store slot v))))
      else if opc = ''CALL'' then
        bind_res (memory_arg st mem ''invalid args offset'' ''invalid args length'' 3 4) (\<lambda>args.
        bind_res (stack_at st 1) (\<lambda>t. bind_res (stack_at st 2) (\<lambda>v.
        Inr (Some (Call \<lparr>call_target = address_from_word t, call_value = v, callargs = args\<rparr>)))))
      else if opc = ''LOG0'' then
        bind_res (log_data st mem) (\<lambda>d. Inr (Some (Log0 d)))
      else if opc = ''LOG1'' then
        bind_res (log_data st mem) (\<lambda>d. bind_res (stack_at st 2) (\<lambda>t1.
        Inr (Some (Log1 d t1))))
      else if opc = ''LOG2'' then
        bind_res (log_data st mem) (\<lambda>d. bind_res (stack_at st 2) (\<lambda>t1.
        bind_res (stack_at st 3) (\<lambda>t2. Inr (Some (Log2 d t1 t2)))))
      else if opc = ''LOG3'' then
        bind_res (log_data st mem) (\<lambda>d. bind_res (stack_at st 2) (\<lambda>t1.
        bind_res (stack_at st 3) (\<lambda>t2. bind_res (stack_at st 4) (\<lambda>t3.
        Inr (Some (Log3 d t1 t2 t3))))))
      else if opc = ''LOG4'' then
        bind_res (log_data st mem) (\<lambda>d. bind_res (stack_at st 2) (\<lambda>t1.
        bind_res (stack_at st 3) (\<lambda>t2. bind_res (stack_at st 4) (\<lambda>t3.
        bind_res (stack_at st 5) (\<lambda>t4. Inr (Some (Log4 d t1 t2 t3 t4)))))))
      else Inr None)"

text \<open>
  The result is the extended update list and \<open>Some opcode\<close> when the opcode is one a
  program cannot express. Without memory the log is skipped, except for the depth-1
  opcodes whose operands live there.
\<close>

definition append_state_update_from_struct_log ::
  "hexd \<Rightarrow> state_update list \<Rightarrow> struct_log \<Rightarrow> (state_update list \<times> string option) res" where
  "append_state_update_from_struct_log hexd state_updates log =
     (case stack log of
        None \<Rightarrow> Inl (Panic ''stack is empty'')
      | Some st0 \<Rightarrow>
          let st = rev st0 in
          (case memory log of
             None \<Rightarrow>
               if op log \<in> {''CALL'', ''LOG0'', ''LOG1'', ''LOG2'', ''LOG3'', ''LOG4''} \<and> depth log = 1
               then Inl (NoMemory (op log))
               else Inr (state_updates, None)
           | Some words \<Rightarrow>
               bind_res (parse_trace_memory hexd words) (\<lambda>mem.
               if op log \<in> {''SELFDESTRUCT'', ''TSTORE''} then Inr (state_updates, Some (op log))
               else bind_res (decode_update (op log) st mem) (\<lambda>u.
                    Inr (state_updates @ (case u of None \<Rightarrow> [] | Some x \<Rightarrow> [x]), None)))))"

section \<open>The flat extractor\<close>

record trace_extract =
  state_updates :: "state_update list"
  skipped_opcodes :: "string set"
  call_gas_total :: u64
  callee_gas_total :: u64
  create_gas_total :: u64
  sstore_gas_total :: u64
  tx_refund_counter :: u64
  reentered :: bool

definition callee_gas :: "u64 \<Rightarrow> u64 \<Rightarrow> u64 option \<Rightarrow> u64" where
  "callee_gas gas_used cost entry_gas =
     (case entry_gas of None \<Rightarrow> 0 | Some entry \<Rightarrow> sat_sub gas_used (sat_sub cost entry))"

record call_gas =
  cg_gas :: u64
  cg_gas_cost :: u64
  cg_entry_gas :: "u64 option"

text \<open>
  The loop's mutable variables. \<open>call_stack\<close> is kept top first; the maps are the
  association lists of \<open>Ordered_Map\<close>.
\<close>

record extract_state =
  es_updates :: "state_update list"
  target_depth :: nat
  es_skipped :: "string set"
  call_stack :: "(nat \<times> nat) list"
  call_type_at_depth :: "(nat, string) omap"
  call_gas_tracking :: "(nat, call_gas) omap"
  awaiting_entry :: "(nat \<times> nat) option"
  pending_create :: "(nat \<times> u64) option"
  total_call_gas :: u64
  total_callee_gas :: u64
  total_create_gas :: u64
  total_sstore_gas :: u64
  es_reentered :: bool

definition init_extract :: extract_state where
  "init_extract = \<lparr>es_updates = [], target_depth = 1, es_skipped = {}, call_stack = [],
     call_type_at_depth = [], call_gas_tracking = [], awaiting_entry = None,
     pending_create = None, total_call_gas = 0, total_callee_gas = 0, total_create_gas = 0,
     total_sstore_gas = 0, es_reentered = False\<rparr>"

definition note_entry :: "struct_log \<Rightarrow> extract_state \<Rightarrow> extract_state" where
  "note_entry log s =
     (case awaiting_entry s of
        None \<Rightarrow> s
      | Some (call_depth, idx) \<Rightarrow>
          (let s = s\<lparr>awaiting_entry := None\<rparr>
           in if depth log = call_depth + 1
              then (case map_of (call_gas_tracking s) idx of
                      None \<Rightarrow> s
                    | Some call \<Rightarrow> s\<lparr>call_gas_tracking :=
                        om_insert idx (call\<lparr>cg_entry_gas := Some (gas log)\<rparr>) (call_gas_tracking s)\<rparr>)
              else s))"

definition stack_top :: "struct_log \<Rightarrow> u256 option" where
  "stack_top log = (case stack log of None \<Rightarrow> None | Some st \<Rightarrow> if st = [] then None else Some (last st))"

definition resume_create :: "struct_log \<Rightarrow> extract_state \<Rightarrow> extract_state res" where
  "resume_create log s =
     (case pending_create s of
        None \<Rightarrow> Inr s
      | Some (create_depth, gas_at_opcode) \<Rightarrow>
          if depth log \<le> create_depth then
            (let s = s\<lparr>pending_create := None\<rparr>;
                 deployed = (if depth log = create_depth then stack_top log else None)
             in if deployed = None \<or> deployed = Some 0 then Inl (FailedCreate create_depth)
                else Inr (s\<lparr>total_create_gas :=
                       total_create_gas s + sat_sub gas_at_opcode (gas log)\<rparr>))
          else Inr s)"

definition calls_origin :: "address option \<Rightarrow> struct_log \<Rightarrow> bool" where
  "calls_origin origin log \<longleftrightarrow>
     depth log \<ge> 2 \<and> op log \<in> {''CALL'', ''STATICCALL'', ''DELEGATECALL'', ''CALLCODE''}
     \<and> (case (origin, stack log) of
          (Some a, Some st) \<Rightarrow> length st \<ge> 2 \<and> address_from_word (st ! (length st - 2)) = a
        | _ \<Rightarrow> False)"

definition detect_reentry :: "address option \<Rightarrow> struct_log \<Rightarrow> extract_state \<Rightarrow> extract_state" where
  "detect_reentry origin log s =
     (if \<not> es_reentered s \<and> calls_origin origin log then s\<lparr>es_reentered := True\<rparr> else s)"

text \<open>The \<open>while let Some(&(d, idx)) = call_stack.last()\<close> loop, on the top-first stack.\<close>

fun pop_calls :: "struct_log \<Rightarrow> (nat \<times> nat) list \<Rightarrow> extract_state \<Rightarrow> extract_state" where
  "pop_calls log [] s = s\<lparr>call_stack := []\<rparr>"
| "pop_calls log ((d, idx) # cs) s =
     (if d \<ge> depth log then
        pop_calls log cs
          (case map_of (call_gas_tracking s) idx of
             None \<Rightarrow> s
           | Some call \<Rightarrow>
               (let gas_used = sat_sub (cg_gas call) (gas log)
                in s\<lparr>call_gas_tracking := om_remove idx (call_gas_tracking s),
                     total_call_gas := total_call_gas s + gas_used,
                     total_callee_gas := total_callee_gas s
                        + callee_gas gas_used (cg_gas_cost call) (cg_entry_gas call)\<rparr>))
      else s\<lparr>call_stack := (d, idx) # cs\<rparr>)"

definition leave_calls :: "struct_log \<Rightarrow> extract_state \<Rightarrow> extract_state" where
  "leave_calls log s =
     (if depth log < target_depth s then
        (let s = pop_calls log (call_stack s) s
         in s\<lparr>call_type_at_depth := om_remove (target_depth s) (call_type_at_depth s),
              target_depth := depth log\<rparr>)
      else s)"

definition extracted_op :: "string \<Rightarrow> bool" where
  "extracted_op opc \<longleftrightarrow> opc \<in> {''CALL'', ''SSTORE'', ''LOG0'', ''LOG1'', ''LOG2'', ''LOG3'', ''LOG4'',
     ''CREATE'', ''CREATE2''}"

text \<open>The bookkeeping after an update was added: \<open>SSTORE\<close> gas, pending create, entered \<open>CALL\<close>.\<close>

definition record_update :: "struct_log \<Rightarrow> state_update list \<Rightarrow> extract_state \<Rightarrow> extract_state" where
  "record_update log us s =
     (let s = s\<lparr>es_updates := us\<rparr>;
          s = (if op log = ''SSTORE''
               then s\<lparr>total_sstore_gas := total_sstore_gas s + gas_cost log\<rparr> else s);
          s = (if op log = ''CREATE'' \<or> op log = ''CREATE2''
               then s\<lparr>pending_create := Some (depth log, gas log)\<rparr> else s)
      in if op log = ''CALL''
         then s\<lparr>call_stack := (depth log, length us) # call_stack s,
                call_gas_tracking := om_insert (length us)
                  \<lparr>cg_gas = gas log, cg_gas_cost = gas_cost log, cg_entry_gas = None\<rparr>
                  (call_gas_tracking s),
                awaiting_entry := Some (depth log, length us),
                target_depth := depth log + 1\<rparr>
         else s)"

definition visit_op :: "hexd \<Rightarrow> struct_log \<Rightarrow> extract_state \<Rightarrow> extract_state res" where
  "visit_op hexd log s =
     (if depth log \<noteq> target_depth s then Inr s
      else if op log = ''DELEGATECALL'' \<or> op log = ''CALLCODE'' then
        Inr (s\<lparr>target_depth := depth log + 1,
               call_type_at_depth := om_insert (depth log + 1) ''DELEGATECALL'' (call_type_at_depth s)\<rparr>)
      else if extracted_op (op log) then
        (if call_stack s \<noteq> [] then Inr s
         else bind_res (append_state_update_from_struct_log hexd (es_updates s) log) (\<lambda>(us, skipped).
           case skipped of
             Some opc \<Rightarrow> Inr (s\<lparr>es_updates := us, es_skipped := insert opc (es_skipped s)\<rparr>)
           | None \<Rightarrow>
               if length us > length (es_updates s) then Inr (record_update log us s)
               else Inr (s\<lparr>es_updates := us\<rparr>)))
      else Inr s)"

definition extract_step ::
  "hexd \<Rightarrow> address option \<Rightarrow> extract_state \<Rightarrow> struct_log \<Rightarrow> extract_state res" where
  "extract_step hexd origin s log =
     bind_res (resume_create log (note_entry log s)) (\<lambda>s.
     visit_op hexd log (leave_calls log (detect_reentry origin log s)))"

definition final_refund :: "struct_log list \<Rightarrow> u64" where
  "final_refund logs =
     (if logs = [] then 0 else case refund_counter (last logs) of None \<Rightarrow> 0 | Some r \<Rightarrow> r)"

definition finish_extract :: "u64 \<Rightarrow> extract_state \<Rightarrow> trace_extract res" where
  "finish_extract refund s =
     (case pending_create s of
        Some (d, _) \<Rightarrow> Inl (FailedCreate d)
      | None \<Rightarrow>
          if call_gas_tracking s \<noteq> []
          then Inl (RemainingCalls (length (call_gas_tracking s)))
          else Inr \<lparr>state_updates = es_updates s, skipped_opcodes = es_skipped s,
                    call_gas_total = total_call_gas s, callee_gas_total = total_callee_gas s,
                    create_gas_total = total_create_gas s, sstore_gas_total = total_sstore_gas s,
                    tx_refund_counter = refund, reentered = es_reentered s\<rparr>)"

definition compute_state_updates ::
  "hexd \<Rightarrow> default_frame \<Rightarrow> address option \<Rightarrow> trace_extract res" where
  "compute_state_updates hexd trace origin =
     bind_res (fold_res (extract_step hexd origin) (struct_logs trace) init_extract)
       (finish_extract (final_refund (struct_logs trace)))"

section \<open>Call outcome\<close>

definition ensure_call_succeeded :: "default_frame \<Rightarrow> bytes + unit" where
  "ensure_call_succeeded trace = (if failed trace then Inl (return_value trace) else Inr ())"

section \<open>Memory: the zero-padded slice\<close>

lemma length_copy_memory: "length mem < usize_max \<Longrightarrow> length (copy_memory mem offset len) = len"
  by (auto simp: copy_memory_def Let_def min_def)

text \<open>
  Reading a memory slice is total and byte-exact: for every offset and length (also
  those whose sum overflows \<open>usize\<close>) \<open>copy_memory\<close> returns \<open>length\<close> bytes, byte \<open>i\<close>
  being memory byte \<open>offset + i\<close> where memory has one and zero beyond its end.
\<close>

lemma copy_memory_zero_padded:
  assumes "length mem < usize_max"
  shows "copy_memory mem offset len =
    map (\<lambda>i. if offset + i < length mem then mem ! (offset + i) else 0) [0..<len]"
proof (rule nth_equalityI)
  show "length (copy_memory mem offset len)
      = length (map (\<lambda>i. if offset + i < length mem then mem ! (offset + i) else 0) [0..<len])"
    using assms by (simp add: length_copy_memory)
next
  fix i assume "i < length (copy_memory mem offset len)"
  then have "i < len" using assms by (simp add: length_copy_memory)
  then show "copy_memory mem offset len ! i
      = map (\<lambda>i. if offset + i < length mem then mem ! (offset + i) else 0) [0..<len] ! i"
    using assms by (auto simp: copy_memory_def Let_def min_def nth_append)
qed

section \<open>One log adds at most one update\<close>

lemma decode_update_None_iff:
  "decode_update opc st mem = Inr None \<longleftrightarrow> \<not> extracted_op opc \<and> opc \<notin> {''DELEGATECALL'', ''CALLCODE''}"
  by (auto simp: decode_update_def extracted_op_def res_simps)

lemma append_result:
  assumes "append_state_update_from_struct_log hexd us log = Inr (us', sk)"
  shows "us' = us \<or> (\<exists>u. us' = us @ [u] \<and> sk = None)"
  using assms
  by (auto simp: append_state_update_from_struct_log_def Let_def res_simps
      split: option.splits if_splits)

lemma append_extracted_op_not_skipped:
  assumes "append_state_update_from_struct_log hexd us log = Inr (us', sk)"
    and "extracted_op (op log)"
  shows "sk = None"
  using assms
  by (auto simp: append_state_update_from_struct_log_def Let_def res_simps extracted_op_def
      split: option.splits if_splits)

text \<open>The updates one log contributes, whatever the list they are appended to.\<close>

definition log_updates :: "hexd \<Rightarrow> struct_log \<Rightarrow> state_update list" where
  "log_updates hexd log =
     (case append_state_update_from_struct_log hexd [] log of Inl _ \<Rightarrow> [] | Inr (us, _) \<Rightarrow> us)"

lemma append_log_updates:
  assumes "append_state_update_from_struct_log hexd us log = Inr (us', sk)"
  shows "us' = us @ log_updates hexd log"
  using assms
  by (auto simp: append_state_update_from_struct_log_def log_updates_def Let_def res_simps
      split: option.splits if_splits)

section \<open>The loop of the flat extractor\<close>

text \<open>
  Effects of the paragraphs of the loop body, field by field: only \<open>visit_op\<close> touches the
  updates, the skipped opcodes and the \<open>SSTORE\<close> total, only \<open>detect_reentry\<close> the re-entry
  flag.
\<close>

lemma note_entry_fields [simp]:
  "es_updates (note_entry log s) = es_updates s"
  "es_skipped (note_entry log s) = es_skipped s"
  "es_reentered (note_entry log s) = es_reentered s"
  "total_sstore_gas (note_entry log s) = total_sstore_gas s"
  "target_depth (note_entry log s) = target_depth s"
  "call_stack (note_entry log s) = call_stack s"
  "pending_create (note_entry log s) = pending_create s"
  by (auto simp: note_entry_def Let_def split: option.splits)

lemma resume_create_fields:
  assumes "resume_create log s = Inr s'"
  shows "es_updates s' = es_updates s" "es_skipped s' = es_skipped s"
    "es_reentered s' = es_reentered s" "total_sstore_gas s' = total_sstore_gas s"
    "target_depth s' = target_depth s" "call_stack s' = call_stack s"
    "call_gas_tracking s' = call_gas_tracking s"
  using assms by (auto simp: resume_create_def Let_def split: option.splits if_splits)

lemma detect_reentry_fields [simp]:
  "es_updates (detect_reentry origin log s) = es_updates s"
  "es_skipped (detect_reentry origin log s) = es_skipped s"
  "es_reentered (detect_reentry origin log s) \<longleftrightarrow> es_reentered s \<or> calls_origin origin log"
  "total_sstore_gas (detect_reentry origin log s) = total_sstore_gas s"
  "target_depth (detect_reentry origin log s) = target_depth s"
  "call_stack (detect_reentry origin log s) = call_stack s"
  "call_gas_tracking (detect_reentry origin log s) = call_gas_tracking s"
  by (auto simp: detect_reentry_def)

lemma pop_calls_fields [simp]:
  "es_updates (pop_calls log cs s) = es_updates s"
  "es_skipped (pop_calls log cs s) = es_skipped s"
  "es_reentered (pop_calls log cs s) = es_reentered s"
  "total_sstore_gas (pop_calls log cs s) = total_sstore_gas s"
  "target_depth (pop_calls log cs s) = target_depth s"
  "call_stack (pop_calls log cs s) = dropWhile (\<lambda>(d, idx). d \<ge> depth log) cs"
  by (induction log cs s rule: pop_calls.induct) (auto simp: Let_def split: option.splits)

lemma leave_calls_fields [simp]:
  "es_updates (leave_calls log s) = es_updates s"
  "es_skipped (leave_calls log s) = es_skipped s"
  "es_reentered (leave_calls log s) = es_reentered s"
  "total_sstore_gas (leave_calls log s) = total_sstore_gas s"
  "target_depth (leave_calls log s) = min (depth log) (target_depth s)"
  "call_stack (leave_calls log s) =
     (if depth log < target_depth s then dropWhile (\<lambda>(d, idx). d \<ge> depth log) (call_stack s)
      else call_stack s)"
  by (auto simp: leave_calls_def Let_def min_def)

lemma record_update_fields [simp]:
  "es_updates (record_update log us s) = us"
  "es_skipped (record_update log us s) = es_skipped s"
  "es_reentered (record_update log us s) = es_reentered s"
  "total_sstore_gas (record_update log us s) =
     total_sstore_gas s + (if op log = ''SSTORE'' then gas_cost log else 0)"
  "target_depth (record_update log us s) =
     (if op log = ''CALL'' then depth log + 1 else target_depth s)"
  "call_stack (record_update log us s) =
     (if op log = ''CALL'' then (depth log, length us) # call_stack s else call_stack s)"
  by (simp_all add: record_update_def Let_def)

text \<open>The ways through \<open>visit_op\<close>.\<close>

definition enters_delegate :: "struct_log \<Rightarrow> bool" where
  "enters_delegate log \<longleftrightarrow> op log = ''DELEGATECALL'' \<or> op log = ''CALLCODE''"

lemma extracted_op_not_delegate: "extracted_op (op log) \<Longrightarrow> \<not> enters_delegate log"
  by (auto simp: extracted_op_def enters_delegate_def)

lemma visit_op_elim:
  assumes "visit_op hexd log s = Inr s'"
  obtains (idle) "s' = s" "depth log \<noteq> target_depth s \<or> call_stack s \<noteq> [] \<or> \<not> extracted_op (op log)"
      "depth log = target_depth s \<Longrightarrow> \<not> enters_delegate log"
  | (delegate) "depth log = target_depth s" "enters_delegate log"
      "s' = s\<lparr>target_depth := depth log + 1,
         call_type_at_depth := om_insert (depth log + 1) ''DELEGATECALL'' (call_type_at_depth s)\<rparr>"
  | (emit) "depth log = target_depth s" "extracted_op (op log)" "call_stack s = []"
      "append_state_update_from_struct_log hexd (es_updates s) log =
         Inr (es_updates s @ log_updates hexd log, None)"
      "s' = (if log_updates hexd log = [] then s
             else record_update log (es_updates s @ log_updates hexd log) s)"
proof -
  consider "depth log \<noteq> target_depth s" | "depth log = target_depth s" "enters_delegate log"
    | "depth log = target_depth s" "\<not> enters_delegate log" "\<not> extracted_op (op log)"
    | "depth log = target_depth s" "\<not> enters_delegate log" "extracted_op (op log)" "call_stack s \<noteq> []"
    | "depth log = target_depth s" "\<not> enters_delegate log" "extracted_op (op log)" "call_stack s = []"
    by blast
  then show thesis
  proof cases
    case 1
    with assms idle show ?thesis by (simp add: visit_op_def)
  next
    case 2
    with assms delegate show ?thesis by (simp add: visit_op_def enters_delegate_def)
  next
    case 3
    with assms idle show ?thesis by (simp add: visit_op_def enters_delegate_def)
  next
    case 4
    with assms idle show ?thesis by (simp add: visit_op_def enters_delegate_def)
  next
    case 5
    with assms obtain us sk
      where app: "append_state_update_from_struct_log hexd (es_updates s) log = Inr (us, sk)"
      by (auto simp: visit_op_def enters_delegate_def res_simps)
    have us: "us = es_updates s @ log_updates hexd log" and sk: "sk = None"
      using append_log_updates [OF app] append_extracted_op_not_skipped [OF app] 5 by auto
    have s': "s' = (if log_updates hexd log = [] then s else record_update log us s)"
      using assms 5 app us sk by (simp add: visit_op_def enters_delegate_def split: if_splits)
    show ?thesis
      using emit [OF 5(1,3,4)] app us sk s' by simp
  qed
qed

lemma visit_op_reentered: "visit_op hexd log s = Inr s' \<Longrightarrow> es_reentered s' = es_reentered s"
  by (erule visit_op_elim) (auto split: if_splits)

lemma visit_op_skipped: "visit_op hexd log s = Inr s' \<Longrightarrow> es_skipped s' = es_skipped s"
  by (erule visit_op_elim) (auto split: if_splits)

lemma extract_step_elim:
  assumes "extract_step hexd origin s log = Inr s'"
  obtains s1 where "resume_create log (note_entry log s) = Inr s1"
    "visit_op hexd log (leave_calls log (detect_reentry origin log s1)) = Inr s'"
  using assms by (auto simp: extract_step_def res_simps)

lemma extract_step_reentered:
  "extract_step hexd origin s log = Inr s' \<Longrightarrow>
     es_reentered s' \<longleftrightarrow> es_reentered s \<or> calls_origin origin log"
  by (erule extract_step_elim) (simp add: visit_op_reentered resume_create_fields)

lemma extract_step_skipped:
  "extract_step hexd origin s log = Inr s' \<Longrightarrow> es_skipped s' = es_skipped s"
  by (erule extract_step_elim) (simp add: visit_op_skipped resume_create_fields)

lemma extract_fold_reentered:
  "fold_res (extract_step hexd origin) logs s = Inr s' \<Longrightarrow>
     es_reentered s' \<longleftrightarrow> es_reentered s \<or> (\<exists>log \<in> set logs. calls_origin origin log)"
proof (induction logs arbitrary: s)
  case (Cons log logs)
  then obtain s1 where "extract_step hexd origin s log = Inr s1"
    "fold_res (extract_step hexd origin) logs s1 = Inr s'"
    by (auto simp: res_simps)
  with Cons.IH [of s1] show ?case by (auto simp: extract_step_reentered)
qed simp

lemma compute_state_updates_elim:
  assumes "compute_state_updates hexd trace origin = Inr ex"
  obtains s where "fold_res (extract_step hexd origin) (struct_logs trace) init_extract = Inr s"
    "pending_create s = None" "call_gas_tracking s = []"
    "state_updates ex = es_updates s" "skipped_opcodes ex = es_skipped s"
    "sstore_gas_total ex = total_sstore_gas s" "reentered ex = es_reentered s"
    "call_gas_total ex = total_call_gas s" "callee_gas_total ex = total_callee_gas s"
    "tx_refund_counter ex = final_refund (struct_logs trace)"
proof -
  from assms obtain s
    where run: "fold_res (extract_step hexd origin) (struct_logs trace) init_extract = Inr s"
      and fin: "finish_extract (final_refund (struct_logs trace)) s = Inr ex"
    by (auto simp: compute_state_updates_def res_simps)
  from fin have "pending_create s = None"
    by (cases "pending_create s") (auto simp: finish_extract_def)
  with run fin that show thesis by (auto simp: finish_extract_def split: if_splits)
qed

text \<open>
  The re-entry flag is exact: \<open>reentered\<close> is set if and only if some log at depth two
  or more is a call-family opcode whose target, the second word from the top of its stack,
  is the origin contract. Without an origin the flag is never set.
\<close>

lemma reentered_iff_callback:
  assumes "compute_state_updates hexd trace origin = Inr ex"
  shows "reentered ex \<longleftrightarrow> (\<exists>log \<in> set (struct_logs trace). calls_origin origin log)"
  using assms
  by (elim compute_state_updates_elim)
    (auto dest!: extract_fold_reentered simp: init_extract_def)

lemma extracted_skipped_empty:
  assumes "compute_state_updates hexd trace origin = Inr ex"
  shows "skipped_opcodes ex = {}"
proof -
  obtain s where run: "fold_res (extract_step hexd origin) (struct_logs trace) init_extract = Inr s"
    and sk: "skipped_opcodes ex = es_skipped s"
    using assms by (elim compute_state_updates_elim)
  have "es_skipped s = {}"
    by (rule fold_res_invariant [OF run]) (auto simp: init_extract_def dest: extract_step_skipped)
  with sk show ?thesis by simp
qed

text \<open>
  \<open>compute_state_updates\<close> never reports a skipped opcode: its dispatch hands only
  \<open>CALL\<close>, \<open>SSTORE\<close>, \<open>LOG*\<close> and \<open>CREATE*\<close> to \<open>append_state_update_from_struct_log\<close>,
  whose \<open>SELFDESTRUCT\<close>/\<open>TSTORE\<close> branch is therefore dead, so a trace that executes them
  yields the same empty set as one that does not.
\<close>

lemma skipped_opcodes_always_empty:
  assumes "compute_state_updates hexd trace origin = Inr ex"
  shows "skipped_opcodes ex = {}"
  using assms by (rule extracted_skipped_empty)

section \<open>Calls that never return\<close>

text \<open>
  At most one extracted \<open>CALL\<close> is open at a time, it is the only tracked one, and the
  target depth is then below it.
\<close>

definition calls_tracked :: "extract_state \<Rightarrow> bool" where
  "calls_tracked s \<longleftrightarrow>
     call_stack s = [] \<and> call_gas_tracking s = []
   \<or> (\<exists>d idx g. call_stack s = [(d, idx)] \<and> call_gas_tracking s = [(idx, g)]
          \<and> 1 \<le> d \<and> d < target_depth s)"

lemma calls_tracked_init: "calls_tracked init_extract"
  by (simp add: calls_tracked_def init_extract_def)

lemma calls_tracked_note_entry: "calls_tracked s \<Longrightarrow> calls_tracked (note_entry log s)"
  by (auto simp: calls_tracked_def note_entry_def Let_def split: option.splits if_splits)

lemma calls_tracked_cong:
  "calls_tracked s \<Longrightarrow> call_stack s' = call_stack s \<Longrightarrow> call_gas_tracking s' = call_gas_tracking s
    \<Longrightarrow> target_depth s \<le> target_depth s' \<Longrightarrow> calls_tracked s'"
  by (auto simp: calls_tracked_def)

text \<open>Leaving to a depth keeps the invariant and closes every call opened at or below it.\<close>

lemma calls_tracked_leave_calls:
  assumes "calls_tracked s"
  shows "calls_tracked (leave_calls log s)
    \<and> (depth log \<le> 1 \<longrightarrow> call_stack (leave_calls log s) = [])"
proof (cases "call_stack s")
  case Nil
  with assms show ?thesis by (auto simp: calls_tracked_def leave_calls_def Let_def)
next
  case (Cons c cs)
  with assms obtain d idx g where "call_stack s = [(d, idx)]" "call_gas_tracking s = [(idx, g)]"
    "1 \<le> d" "d < target_depth s"
    by (auto simp: calls_tracked_def)
  then show ?thesis by (auto simp: calls_tracked_def leave_calls_def Let_def om_remove_def)
qed

lemma calls_tracked_visit_op:
  assumes "visit_op hexd log s = Inr s'" and "calls_tracked s" and "1 \<le> depth log"
  shows "calls_tracked s' \<and> (call_stack s' \<noteq> [] \<longrightarrow> call_stack s \<noteq> [] \<or> op log = ''CALL'')"
  using assms(1)
proof (cases rule: visit_op_elim)
  case emit
  then show ?thesis using assms(2,3)
    by (cases "log_updates hexd log = []")
      (auto simp: calls_tracked_def record_update_def Let_def)
next
  case delegate
  then show ?thesis using assms(2) by (auto simp: calls_tracked_def)
qed (use assms in auto)

lemma calls_tracked_step:
  assumes step: "extract_step hexd origin s log = Inr s'" and inv: "calls_tracked s"
    and d: "1 \<le> depth log"
  shows "calls_tracked s'"
    and "depth log = 1 \<Longrightarrow> op log \<noteq> ''CALL'' \<Longrightarrow> call_stack s' = []"
proof -
  obtain s1 where s1: "resume_create log (note_entry log s) = Inr s1"
    and visit: "visit_op hexd log (leave_calls log (detect_reentry origin log s1)) = Inr s'"
    using step by (rule extract_step_elim)
  have "calls_tracked (detect_reentry origin log s1)"
    by (rule calls_tracked_cong [OF calls_tracked_note_entry [OF inv, of log]])
      (simp_all add: resume_create_fields [OF s1])
  from calls_tracked_leave_calls [OF this, of log] calls_tracked_visit_op [OF visit _ d]
  show "calls_tracked s'" and "depth log = 1 \<Longrightarrow> op log \<noteq> ''CALL'' \<Longrightarrow> call_stack s' = []"
    by fastforce+
qed

lemma calls_tracked_fold:
  assumes "fold_res (extract_step hexd origin) logs init_extract = Inr s"
    and "\<forall>log \<in> set logs. 1 \<le> depth log"
  shows "calls_tracked s"
  using assms(1) calls_tracked_init
proof (rule fold_res_invariant)
  fix s log s'
  assume "calls_tracked s" "log \<in> set logs" "extract_step hexd origin s log = Inr s'"
  with assms(2) show "calls_tracked s'" by (blast intro: calls_tracked_step(1))
qed

abbreviation not_remaining :: "core_error \<Rightarrow> bool" where
  "not_remaining e \<equiv> (\<forall>n. e \<noteq> RemainingCalls n)"

lemma not_remaining_stack_at [errs_intros]: "errs not_remaining (stack_at st i)"
  by (simp add: stack_at_def errs_def)

lemma not_remaining_memory_arg [errs_intros]: "errs not_remaining (memory_arg st mem x y i j)"
  by (auto simp: memory_arg_def to_usize_def intro!: errs_intros)

lemma not_remaining_decode_update [errs_intros]: "errs not_remaining (decode_update opc st mem)"
  unfolding decode_update_def by (intro errs_intros) simp

lemma not_remaining_parse_trace_memory [errs_intros]:
  "errs not_remaining (parse_trace_memory hexd ws)"
  by (induction ws) (auto intro!: errs_intros)

lemma not_remaining_append [errs_intros]:
  "errs not_remaining (append_state_update_from_struct_log hexd us log)"
  unfolding append_state_update_from_struct_log_def by (intro errs_intros) simp_all

lemma not_remaining_step [errs_intros]: "errs not_remaining (extract_step hexd origin s log)"
  unfolding extract_step_def resume_create_def visit_op_def by (intro errs_intros) simp_all

text \<open>
  The "remaining CALL(s)" panic cannot fire on a trace of a finished transaction: when
  every log is at depth one or more and the last one is a depth-1 opcode other than
  \<open>CALL\<close> (a \<open>STOP\<close>, \<open>RETURN\<close>, \<open>REVERT\<close> ...), each extracted \<open>CALL\<close> has been left.
\<close>

lemma no_remaining_call_panic:
  assumes "\<forall>log \<in> set (struct_logs trace). 1 \<le> depth log"
    and "struct_logs trace \<noteq> []" "depth (last (struct_logs trace)) = 1"
    and "op (last (struct_logs trace)) \<noteq> ''CALL''"
  shows "compute_state_updates hexd trace origin \<noteq> Inl (RemainingCalls n)"
proof -
  obtain logs l where logs: "struct_logs trace = logs @ [l]" "depth l = 1" "op l \<noteq> ''CALL''"
    using assms by (metis append_butlast_last_id)
  have fin: "call_gas_tracking s' = []"
    if s: "fold_res (extract_step hexd origin) logs init_extract = Inr s"
      and s': "extract_step hexd origin s l = Inr s'" for s s'
  proof -
    have "calls_tracked s" using calls_tracked_fold [OF s] assms(1) logs(1) by simp
    then have "calls_tracked s'" "call_stack s' = []"
      using calls_tracked_step [OF s'] logs by auto
    then show ?thesis by (auto simp: calls_tracked_def)
  qed
  have "fold_res (extract_step hexd origin) (struct_logs trace) init_extract \<noteq> Inl (RemainingCalls n)"
    using errs_fold [of "struct_logs trace" not_remaining "extract_step hexd origin"]
      not_remaining_step by (auto simp: errs_def)
  with fin show ?thesis
    by (auto simp: compute_state_updates_def finish_extract_def res_simps logs(1)
        fold_res_append split: option.splits if_splits)
qed

section \<open>The extractor against the call tree\<close>

text \<open>
  A transaction's execution as a tree: a \<open>Step\<close> is a log that opens no frame, a \<open>Frame\<close>
  a call or create log followed by the callee's execution. \<open>flat\<close> is the order the tracer
  emits; \<open>visible\<close> the logs whose effects belong to the root contract's own program: those
  of the root frame and, transparently, of its delegate frames, never those inside a
  \<open>CALL\<close>, \<open>STATICCALL\<close> or create.
\<close>

datatype exec_node = Step struct_log | Frame struct_log "exec_node list"

fun flat :: "exec_node \<Rightarrow> struct_log list" where
  "flat (Step l) = [l]"
| "flat (Frame l ns) = l # concat (map flat ns)"

fun visible :: "exec_node \<Rightarrow> struct_log list" where
  "visible (Step l) = (if extracted_op (op l) then [l] else [])"
| "visible (Frame l ns) =
     (if enters_delegate l then concat (map visible ns)
      else if extracted_op (op l) then [l] else [])"

fun at_depth :: "nat \<Rightarrow> exec_node \<Rightarrow> bool" where
  "at_depth d (Step l) \<longleftrightarrow> depth l = d"
| "at_depth d (Frame l ns) \<longleftrightarrow> depth l = d \<and> (\<forall>n \<in> set ns. at_depth (d + 1) n)"

lemma flat_deeper: "at_depth d n \<Longrightarrow> l \<in> set (flat n) \<Longrightarrow> d \<le> depth l"
  by (induction n arbitrary: d rule: flat.induct) (auto dest: Suc_leD)

text \<open>
  Between two nodes at depth \<open>d\<close> the loop may still carry the previous node's deeper
  target depth and open call; the next log at depth \<open>d\<close> clears both.
\<close>

definition settled :: "nat \<Rightarrow> extract_state \<Rightarrow> bool" where
  "settled d s \<longleftrightarrow> d \<le> target_depth s \<and> (\<forall>c \<in> set (call_stack s). d \<le> fst c)
     \<and> (call_stack s \<noteq> [] \<longrightarrow> d < target_depth s)"

text \<open>What a step leaves untouched once it is beside the program: inside a call or below the target depth.\<close>

lemma step_beside:
  assumes step: "extract_step hexd origin s log = Inr s'"
    and deep: "d < depth log"
    and pos: "call_stack s = [] \<and> target_depth s = d
      \<or> call_stack s = [(d, idx)] \<and> d < target_depth s"
  shows "es_updates s' = es_updates s \<and> total_sstore_gas s' = total_sstore_gas s
    \<and> call_stack s' = call_stack s
    \<and> (call_stack s = [] \<longrightarrow> target_depth s' = d) \<and> (call_stack s \<noteq> [] \<longrightarrow> d < target_depth s')"
proof -
  obtain s1 where s1: "resume_create log (note_entry log s) = Inr s1"
    and visit: "visit_op hexd log (leave_calls log (detect_reentry origin log s1)) = Inr s'"
    using step by (rule extract_step_elim)
  note fields = resume_create_fields [OF s1]
  show ?thesis
    using visit
  proof (cases rule: visit_op_elim)
    case idle
    then show ?thesis using deep pos by (auto simp: fields)
  next
    case delegate
    then show ?thesis using deep pos by (auto simp: fields)
  next
    case emit
    then show ?thesis using deep pos by (auto simp: fields split: if_splits)
  qed
qed

lemma fold_beside:
  assumes "fold_res (extract_step hexd origin) logs s = Inr s'"
    and "\<forall>log \<in> set logs. d < depth log"
    and "call_stack s = [] \<and> target_depth s = d
      \<or> call_stack s = [(d, idx)] \<and> d < target_depth s"
  shows "es_updates s' = es_updates s \<and> total_sstore_gas s' = total_sstore_gas s
    \<and> settled d s'"
  using assms
proof (induction logs arbitrary: s)
  case Nil
  then show ?case by (auto simp: settled_def)
next
  case (Cons log logs)
  then obtain s1 where s1: "extract_step hexd origin s log = Inr s1"
    and rest: "fold_res (extract_step hexd origin) logs s1 = Inr s'"
    by (auto simp: res_simps)
  have "d < depth log" using Cons.prems(2) by simp
  note beside = step_beside [OF s1 this Cons.prems(3)]
  then show ?case using Cons.IH [OF rest] Cons.prems(2,3) by auto
qed

text \<open>A log at depth \<open>d\<close> met in a settled state acts on the program.\<close>

lemma step_settled:
  assumes step: "extract_step hexd origin s log = Inr s'"
    and sett: "settled d s" and here: "depth log = d"
  shows "es_updates s' = es_updates s @ (if extracted_op (op log) then log_updates hexd log else [])"
    "total_sstore_gas s' = total_sstore_gas s
       + (if op log = ''SSTORE'' \<and> log_updates hexd log \<noteq> [] then gas_cost log else 0)"
    "enters_delegate log \<Longrightarrow> call_stack s' = [] \<and> target_depth s' = d + 1"
    "\<not> enters_delegate log \<Longrightarrow> call_stack s' = [] \<and> target_depth s' = d
       \<or> (\<exists>idx. call_stack s' = [(d, idx)]) \<and> d < target_depth s'"
proof -
  obtain s1 where s1: "resume_create log (note_entry log s) = Inr s1"
    and visit: "visit_op hexd log (leave_calls log (detect_reentry origin log s1)) = Inr s'"
    using step by (rule extract_step_elim)
  define s2 where "s2 = leave_calls log (detect_reentry origin log s1)"
  have s2: "call_stack s2 = []" "target_depth s2 = d" "es_updates s2 = es_updates s"
    "total_sstore_gas s2 = total_sstore_gas s"
    using sett here by (auto simp: s2_def settled_def resume_create_fields [OF s1] min_def)
  have sstore: "op log = ''SSTORE'' \<Longrightarrow> extracted_op (op log)" by (simp add: extracted_op_def)
  have "visit_op hexd log s2 = Inr s'" using visit by (simp add: s2_def)
  then have "es_updates s' = es_updates s @ (if extracted_op (op log) then log_updates hexd log else [])
    \<and> total_sstore_gas s' = total_sstore_gas s
       + (if op log = ''SSTORE'' \<and> log_updates hexd log \<noteq> [] then gas_cost log else 0)
    \<and> (enters_delegate log \<longrightarrow> call_stack s' = [] \<and> target_depth s' = d + 1)
    \<and> (\<not> enters_delegate log \<longrightarrow> call_stack s' = [] \<and> target_depth s' = d
       \<or> (\<exists>idx. call_stack s' = [(d, idx)]) \<and> d < target_depth s')"
  proof (cases rule: visit_op_elim)
    case idle
    then show ?thesis using s2 here sstore by auto
  next
    case delegate
    then show ?thesis using s2 here sstore extracted_op_not_delegate by auto
  next
    case emit
    then show ?thesis using s2 here extracted_op_not_delegate [of log] by auto
  qed
  then show "es_updates s' = es_updates s @ (if extracted_op (op log) then log_updates hexd log else [])"
    "total_sstore_gas s' = total_sstore_gas s
       + (if op log = ''SSTORE'' \<and> log_updates hexd log \<noteq> [] then gas_cost log else 0)"
    "enters_delegate log \<Longrightarrow> call_stack s' = [] \<and> target_depth s' = d + 1"
    "\<not> enters_delegate log \<Longrightarrow> call_stack s' = [] \<and> target_depth s' = d
       \<or> (\<exists>idx. call_stack s' = [(d, idx)]) \<and> d < target_depth s'"
    by blast+
qed

definition program_updates :: "hexd \<Rightarrow> struct_log list \<Rightarrow> state_update list" where
  "program_updates hexd logs = concat (map (log_updates hexd) logs)"

definition program_sstore_gas :: "hexd \<Rightarrow> struct_log list \<Rightarrow> u64" where
  "program_sstore_gas hexd logs =
     sum_list (map gas_cost (filter (\<lambda>l. op l = ''SSTORE'' \<and> log_updates hexd l \<noteq> []) logs))"

lemma program_append [simp]:
  "program_updates hexd (xs @ ys) = program_updates hexd xs @ program_updates hexd ys"
  "program_sstore_gas hexd (xs @ ys) = program_sstore_gas hexd xs + program_sstore_gas hexd ys"
  by (simp_all add: program_updates_def program_sstore_gas_def)

lemma program_Nil [simp]: "program_updates hexd [] = []" "program_sstore_gas hexd [] = 0"
  by (simp_all add: program_updates_def program_sstore_gas_def)

lemma program_single [simp]:
  "program_updates hexd [l] = log_updates hexd l"
  "program_sstore_gas hexd [l] =
     (if op l = ''SSTORE'' \<and> log_updates hexd l \<noteq> [] then gas_cost l else 0)"
  by (simp_all add: program_updates_def program_sstore_gas_def)

definition extracts :: "hexd \<Rightarrow> nat \<Rightarrow> struct_log list \<Rightarrow> extract_state \<Rightarrow> extract_state \<Rightarrow> bool" where
  "extracts hexd d logs s s' \<longleftrightarrow> settled d s' \<and> es_updates s' = es_updates s @ program_updates hexd logs
     \<and> total_sstore_gas s' = total_sstore_gas s + program_sstore_gas hexd logs"

lemma extracts_nodes:
  assumes "\<And>n s s'. n \<in> set ns \<Longrightarrow> at_depth d n \<Longrightarrow> settled d s \<Longrightarrow>
      fold_res (extract_step hexd origin) (flat n) s = Inr s' \<Longrightarrow> extracts hexd d (visible n) s s'"
    and "\<forall>n \<in> set ns. at_depth d n" and "settled d s"
    and "fold_res (extract_step hexd origin) (concat (map flat ns)) s = Inr s'"
  shows "extracts hexd d (concat (map visible ns)) s s'"
  using assms
proof (induction ns arbitrary: s)
  case Nil
  then show ?case by (simp add: extracts_def)
next
  case (Cons n ns)
  from Cons.prems(4) obtain s1
    where s1: "fold_res (extract_step hexd origin) (flat n) s = Inr s1"
      and rest: "fold_res (extract_step hexd origin) (concat (map flat ns)) s1 = Inr s'"
    by (auto simp: fold_res_append res_simps)
  have n: "extracts hexd d (visible n) s s1"
    by (rule Cons.prems(1)) (use Cons.prems s1 in auto)
  then have "extracts hexd d (concat (map visible ns)) s1 s'"
    by (intro Cons.IH [OF _ _ _ rest] Cons.prems(1)) (use Cons.prems in \<open>auto simp: extracts_def\<close>)
  with n show ?case by (simp add: extracts_def add.assoc)
qed

lemma extracts_node:
  "at_depth d n \<Longrightarrow> settled d s \<Longrightarrow> fold_res (extract_step hexd origin) (flat n) s = Inr s' \<Longrightarrow>
     extracts hexd d (visible n) s s'"
proof (induction n arbitrary: d s s' rule: flat.induct)
  case (1 l)
  then have "extract_step hexd origin s l = Inr s'" "depth l = d" by (auto simp: res_simps)
  note step = step_settled [OF this(1) 1(2) this(2)]
  have "settled d s'"
    using step(3,4) by (cases "enters_delegate l") (auto simp: settled_def)
  then show ?case using step(1,2) by (auto simp: extracts_def extracted_op_def)
next
  case (2 l ns)
  then obtain s1 where s1: "extract_step hexd origin s l = Inr s1"
    and body: "fold_res (extract_step hexd origin) (concat (map flat ns)) s1 = Inr s'"
    and l: "depth l = d" and kids: "\<forall>n \<in> set ns. at_depth (d + 1) n"
    by (auto simp: res_simps)
  note step = step_settled [OF s1 2(3) l]
  show ?case
  proof (cases "enters_delegate l")
    case True
    then have "settled (d + 1) s1" using step(3) by (simp add: settled_def)
    then have "extracts hexd (d + 1) (concat (map visible ns)) s1 s'"
      by (intro extracts_nodes [OF _ kids _ body] 2(1))
    then show ?thesis
      using True step(1,2) extracted_op_not_delegate [of l]
      by (auto simp: extracts_def settled_def extracted_op_def)
  next
    case False
    have "\<forall>log \<in> set (concat (map flat ns)). d < depth log"
      using kids flat_deeper by fastforce
    then have "es_updates s' = es_updates s1 \<and> total_sstore_gas s' = total_sstore_gas s1 \<and> settled d s'"
      using fold_beside [OF body] step(4) [OF False] by blast
    then show ?thesis using False step(1,2) by (auto simp: extracts_def extracted_op_def)
  qed
qed

text \<open>
  C2. The flat extractor computes the program of the call tree: on the trace of any
  execution tree whose root frame is at depth one, the extracted updates are exactly the
  decoded updates of the visible logs, in execution order, and \<open>sstore_gas_total\<close> is the
  sum of the gas charged to the visible \<open>SSTORE\<close>s. Nothing inside a \<open>CALL\<close>,
  \<open>STATICCALL\<close> or create frame is extracted, and delegate frames are transparent at any
  nesting.
\<close>

theorem compute_state_updates_call_tree:
  assumes "struct_logs trace = concat (map flat ns)" and "\<forall>n \<in> set ns. at_depth 1 n"
    and "compute_state_updates hexd trace origin = Inr ex"
  shows "state_updates ex = concat (map (log_updates hexd) (concat (map visible ns)))
    \<and> sstore_gas_total ex = sum_list (map gas_cost
        (filter (\<lambda>l. op l = ''SSTORE'' \<and> log_updates hexd l \<noteq> []) (concat (map visible ns))))"
proof -
  obtain s where run: "fold_res (extract_step hexd origin) (concat (map flat ns)) init_extract = Inr s"
    and out: "state_updates ex = es_updates s" "sstore_gas_total ex = total_sstore_gas s"
    using assms(1,3) by (auto elim: compute_state_updates_elim)
  have "settled 1 init_extract" by (simp add: settled_def init_extract_def)
  from extracts_nodes [OF extracts_node assms(2) this run]
  show ?thesis
    by (simp add: extracts_def out init_extract_def program_updates_def program_sstore_gas_def)
qed

section \<open>A sample execution\<close>

text \<open>
  The root stores, delegates to a library that stores, and calls the account \<open>0xbb\<close>,
  whose code stores and calls back into the origin \<open>0xaa\<close>.
\<close>

definition sample_log :: "string \<Rightarrow> nat \<Rightarrow> u64 \<Rightarrow> u64 \<Rightarrow> u256 list \<Rightarrow> struct_log" where
  "sample_log opc d g cost st =
     \<lparr>pc = 0, op = opc, gas = g, gas_cost = cost, depth = d, error = None, stack = Some st,
      return_data = None, memory = Some [], memory_size = None, storage = None,
      refund_counter = Some 7\<rparr>"

definition sample_tree :: "exec_node list" where
  "sample_tree =
     [Step (sample_log ''SSTORE'' 1 1000 100 [5, 1]),
      Frame (sample_log ''DELEGATECALL'' 1 900 300 [0, 0, 0, 0, 204, 250])
        [Step (sample_log ''SSTORE'' 2 250 120 [6, 2]), Step (sample_log ''RETURN'' 2 130 0 [0, 0])],
      Frame (sample_log ''CALL'' 1 700 400 [0, 0, 0, 0, 3, 187, 300])
        [Step (sample_log ''SSTORE'' 2 300 100 [9, 9]),
         Frame (sample_log ''CALL'' 2 200 90 [0, 0, 0, 0, 0, 170, 60])
           [Step (sample_log ''STOP'' 3 60 0 [])],
         Step (sample_log ''STOP'' 2 140 0 [1])],
      Step (sample_log ''STOP'' 1 500 0 [1])]"

definition sample_trace :: default_frame where
  "sample_trace = \<lparr>failed = False, frame_gas = 22000, return_value = [],
     struct_logs = concat (map flat sample_tree)\<rparr>"

definition sample_hexd :: hexd where
  "sample_hexd s = (if s = [] then Some [] else None)"

definition sample_extract :: trace_extract where
  "sample_extract = \<lparr>
     state_updates = [Store 1 5, Store 2 6,
       Call \<lparr>call_target = 187, call_value = 3, callargs = []\<rparr>],
     skipped_opcodes = {}, call_gas_total = 200, callee_gas_total = 100, create_gas_total = 0,
     sstore_gas_total = 220, tx_refund_counter = 7, reentered = True\<rparr>"

lemmas extract_eval = compute_state_updates_def init_extract_def extract_step_def note_entry_def
  resume_create_def detect_reentry_def calls_origin_def leave_calls_def visit_op_def
  extracted_op_def append_state_update_from_struct_log_def decode_update_def memory_arg_def
  stack_at_def to_usize_def usize_max_def copy_memory_def address_from_word_def
  record_update_def om_remove_def sat_sub_def callee_gas_def finish_extract_def final_refund_def

lemmas sample_defs = sample_trace_def sample_tree_def sample_log_def

lemma sample_extracted:
  "compute_state_updates sample_hexd sample_trace (Some 170) = Inr sample_extract"
  by (simp add: extract_eval sample_defs sample_extract_def Let_def cong: if_cong)

lemma sample_at_depth: "\<forall>n \<in> set sample_tree. at_depth 1 n"
  by code_simp

theorem compute_state_updates_call_tree_witness:
  "state_updates sample_extract
     = concat (map (log_updates sample_hexd) (concat (map visible sample_tree)))"
  using compute_state_updates_call_tree [OF _ sample_at_depth sample_extracted]
  by (simp add: sample_trace_def)

end
