(* ===== verification/Encoding.thy ===== *)
theory Encoding
  imports Core_Types
begin

text \<open>
  \<^verbatim>\<open>crates/core/src/encoding.rs\<close>: the signature schemes and their gas floors, and the ABI
  encoding of a program as the tuple \<open>(uint8[] types, bytes[] data)\<close>. The per-struct
  \<open>abi_encode_sequence\<close> is alloy's; it is the parameter \<open>abi_seq\<close>.
\<close>

section \<open>Signature schemes\<close>

definition TURETZKY_UPPER_GAS_LIMIT_BLS :: u64 where
  "TURETZKY_UPPER_GAS_LIMIT_BLS = 250000"

definition TURETZKY_UPPER_GAS_LIMIT_SCHNORR :: u64 where
  "TURETZKY_UPPER_GAS_LIMIT_SCHNORR = 50000"

datatype signature_type = Bls | Schnorr

definition ALL_SIGNATURES :: "signature_type list" where
  "ALL_SIGNATURES = [Bls, Schnorr]"

fun turetzky_upper_gas_limit :: "signature_type \<Rightarrow> u64" where
  "turetzky_upper_gas_limit Bls = TURETZKY_UPPER_GAS_LIMIT_BLS"
| "turetzky_upper_gas_limit Schnorr = TURETZKY_UPPER_GAS_LIMIT_SCHNORR"

definition total_gas_estimate :: "signature_type \<Rightarrow> u64 \<Rightarrow> u64" where
  "total_gas_estimate sig base_estimate = base_estimate + turetzky_upper_gas_limit sig"

text \<open>
  \<open>savings\<close> returns the total estimate, the saved gas and the percentage. The source
  computes the percentage in \<open>f64\<close>; here it is the exact quotient \<open>(numerator,
  denominator)\<close> of \<open>gas_savings / gas_used * 100\<close>, with \<open>(0, 1)\<close> where the source
  returns \<open>0.0\<close>.
\<close>

definition savings :: "signature_type \<Rightarrow> u64 \<Rightarrow> u64 \<Rightarrow> u64 \<times> u64 \<times> (nat \<times> nat)" where
  "savings sig base_estimate gas_used =
     (let total_estimate = total_gas_estimate sig base_estimate;
          gas_savings = sat_sub gas_used total_estimate;
          percent_savings = (if gas_used > 0 then (unat gas_savings * 100, unat gas_used) else (0, 1))
      in (total_estimate, gas_savings, percent_savings))"

fun label :: "signature_type \<Rightarrow> string" where
  "label Bls = ''BLS''"
| "label Schnorr = ''Schnorr''"

section \<open>ABI encoding\<close>

fun update_type :: "state_update \<Rightarrow> state_update_type" where
  "update_type (Store _ _) = STORE"
| "update_type (Call _) = CALL"
| "update_type (Log0 _) = LOG0"
| "update_type (Log1 _ _) = LOG1"
| "update_type (Log2 _ _ _) = LOG2"
| "update_type (Log3 _ _ _ _) = LOG3"
| "update_type (Log4 _ _ _ _ _) = LOG4"
| "update_type (Create _ _) = CREATE"
| "update_type (Create2 _ _ _) = CREATE2"
| "update_type (Nested _ _ _) = NESTED"

type_synonym abi_seq = "state_update \<Rightarrow> bytes"

definition encode_state_updates_to_sol ::
  "abi_seq \<Rightarrow> state_update list \<Rightarrow> state_update_type list \<times> bytes list" where
  "encode_state_updates_to_sol abi_seq us = (map update_type us, map abi_seq us)"

text \<open>A \<open>usize\<close> as a 32-byte word: sixteen zero bytes and the big-endian \<open>u128\<close>.\<close>

definition write_u256_word :: "nat \<Rightarrow> bytes" where
  "write_u256_word v = replicate 16 0 @ be_bytes 16 v"

definition pad32_len :: "nat \<Rightarrow> nat" where
  "pad32_len len = (len + 31) div 32 * 32"

definition encode_bytes :: "bytes \<Rightarrow> bytes" where
  "encode_bytes value =
     write_u256_word (length value) @ value @ replicate (pad32_len (length value) - length value) 0"

text \<open>The head of a \<open>bytes[]\<close>: the running offset of each encoded element.\<close>

fun encode_offsets :: "nat \<Rightarrow> bytes list \<Rightarrow> bytes" where
  "encode_offsets running_offset [] = []"
| "encode_offsets running_offset (enc # encs) =
     write_u256_word running_offset @ encode_offsets (running_offset + length enc) encs"

definition encode_bytes_array :: "bytes list \<Rightarrow> bytes" where
  "encode_bytes_array values =
     (let encoded_elements = map encode_bytes values;
          head_size = 32 * length values
      in write_u256_word (length values) @ encode_offsets head_size encoded_elements
         @ concat encoded_elements)"

definition encode_types :: "state_update_type list \<Rightarrow> bytes" where
  "encode_types ts =
     write_u256_word (length ts) @ concat (map (\<lambda>t. write_u256_word (type_tag t)) ts)"

definition encode_state_updates_to_abi :: "abi_seq \<Rightarrow> state_update list \<Rightarrow> bytes" where
  "encode_state_updates_to_abi abi_seq us =
     (let (state_update_types, datas) = encode_state_updates_to_sol abi_seq us;
          types_payload = encode_types state_update_types;
          datas_payload = encode_bytes_array datas;
          offset_types = 64;
          offset_datas = offset_types + length types_payload
      in write_u256_word offset_types @ write_u256_word offset_datas
         @ types_payload @ datas_payload)"

section \<open>The decoder\<close>

text \<open>
  \<open>decode_state_updates_tuple\<close> (\<^verbatim>\<open>crates/anvil/src/lib.rs\<close>, the decoder the repository
  checks its encoder against): it follows the two outer offsets, then reads each element
  through its own offset. A read past the end is an error.
\<close>

definition read_u256_as_usize :: "bytes \<Rightarrow> nat" where
  "read_u256_as_usize word =
     be_value (drop (length word - min (length word) 16) word) mod 2 ^ 64"

definition get_slice :: "bytes \<Rightarrow> nat \<Rightarrow> nat \<Rightarrow> bytes option" where
  "get_slice data start len =
     (if start + len > length data then None else Some (take len (drop start data)))"

definition read_word_at :: "bytes \<Rightarrow> nat \<Rightarrow> nat option" where
  "read_word_at data start = map_option read_u256_as_usize (get_slice data start 32)"

fun decode_type_words :: "bytes \<Rightarrow> nat \<Rightarrow> nat \<Rightarrow> bytes list option" where
  "decode_type_words data pos 0 = Some []"
| "decode_type_words data pos (Suc n) =
     (case get_slice data pos 32 of None \<Rightarrow> None
      | Some w \<Rightarrow> map_option ((#) w) (decode_type_words data (pos + 32) n))"

fun decode_elements :: "bytes \<Rightarrow> nat \<Rightarrow> nat \<Rightarrow> nat \<Rightarrow> bytes list option" where
  "decode_elements data head pos 0 = Some []"
| "decode_elements data head pos (Suc n) =
     (case read_word_at data pos of None \<Rightarrow> None
      | Some rel \<Rightarrow>
          (case read_word_at data (head + rel) of None \<Rightarrow> None
           | Some len \<Rightarrow>
               (case get_slice data (head + rel + 32) len of None \<Rightarrow> None
                | Some el \<Rightarrow> map_option ((#) el) (decode_elements data head (pos + 32) n))))"

definition decode_state_updates_tuple :: "bytes \<Rightarrow> (nat list \<times> bytes list) option" where
  "decode_state_updates_tuple data =
     (case (read_word_at data 0, read_word_at data 32) of
        (Some types_offset, Some data_offset) \<Rightarrow>
          (case (read_word_at data types_offset, read_word_at data data_offset) of
             (Some n_types, Some n_data) \<Rightarrow>
               (case (decode_type_words data (types_offset + 32) n_types,
                      decode_elements data (data_offset + 32) (data_offset + 32) n_data) of
                  (Some types, Some out) \<Rightarrow> Some (map be_value types, out)
                | _ \<Rightarrow> None)
           | _ \<Rightarrow> None)
      | _ \<Rightarrow> None)"

section \<open>Round trip\<close>

lemma length_write_u256_word [simp]: "length (write_u256_word v) = 32"
  by (simp add: write_u256_word_def)

lemma get_slice_middle: "get_slice (xs @ ys @ zs) (length xs) (length ys) = Some ys"
  by (simp add: get_slice_def)

lemma get_slice_at:
  "data = xs @ ys @ zs \<Longrightarrow> start = length xs \<Longrightarrow> len = length ys \<Longrightarrow>
     get_slice data start len = Some ys"
  by (simp add: get_slice_middle)

lemma read_u256_as_usize_write: "v < 2 ^ 64 \<Longrightarrow> read_u256_as_usize (write_u256_word v) = v"
  by (simp add: read_u256_as_usize_def write_u256_word_def be_value_be_bytes)

lemma read_word_at_write:
  assumes "data = xs @ write_u256_word v @ zs" and "start = length xs" and "v < 2 ^ 64"
  shows "read_word_at data start = Some v"
  using get_slice_at [OF assms(1,2), of 32] assms(3)
  by (simp add: read_word_at_def read_u256_as_usize_write)

lemma be_value_write_u256_word: "v < 2 ^ 64 \<Longrightarrow> be_value (write_u256_word v) = v"
  by (simp add: write_u256_word_def be_value_replicate_0 be_value_be_bytes)

lemma type_tag_less: "type_tag t < 10"
  by (cases t) auto

lemma decode_type_words_encoded:
  assumes "data = P @ concat (map (\<lambda>t. write_u256_word (type_tag t)) ts) @ R"
  shows "decode_type_words data (length P) (length ts)
           = Some (map (\<lambda>t. write_u256_word (type_tag t)) ts)"
  using assms
proof (induction ts arbitrary: P)
  case Nil
  then show ?case by simp
next
  case (Cons t ts)
  let ?w = "write_u256_word (type_tag t)"
  have "get_slice data (length P) 32 = Some ?w"
    by (rule get_slice_at [OF Cons.prems [simplified]]) simp_all
  moreover have "decode_type_words data (length (P @ ?w)) (length ts)
                   = Some (map (\<lambda>t. write_u256_word (type_tag t)) ts)"
    by (rule Cons.IH) (simp add: Cons.prems)
  ultimately show ?case by simp
qed

lemma length_encode_offsets [simp]: "length (encode_offsets off encs) = 32 * length encs"
  by (induction off encs rule: encode_offsets.induct) auto

lemma decode_elements_encoded:
  assumes "data = P @ H @ encode_offsets off (map encode_bytes vs) @ B
                    @ concat (map encode_bytes vs) @ R"
    and "off = length H + 32 * length vs + length B"
    and "length data < 2 ^ 64"
  shows "decode_elements data (length P) (length P + length H) (length vs) = Some vs"
  using assms(1,2)
proof (induction vs arbitrary: H off B)
  case Nil
  then show ?case by simp
next
  case (Cons v vs)
  let ?w = "write_u256_word off"
  let ?enc = "encode_bytes v"
  let ?pad = "replicate (pad32_len (length v) - length v) 0 :: bytes"
  let ?rest = "concat (map encode_bytes vs) @ R"
  let ?offs = "encode_offsets (off + length ?enc) (map encode_bytes vs)"
  have "off \<le> length data" "length v \<le> length data"
    by (simp_all add: Cons.prems encode_bytes_def)
  with assms(3) have small: "off < 2 ^ 64" "length v < 2 ^ 64"
    by linarith+
  have rel: "read_word_at data (length P + length H) = Some off"
    by (rule read_word_at_write [where xs = "P @ H" and zs = "?offs @ B @ ?enc @ ?rest"])
      (simp add: Cons.prems(1), simp, rule small)
  have len: "read_word_at data (length P + off) = Some (length v)"
    by (rule read_word_at_write [where xs = "P @ H @ ?w @ ?offs @ B" and zs = "v @ ?pad @ ?rest"])
      (simp add: Cons.prems(1) encode_bytes_def [of v], simp add: Cons.prems(2), rule small)
  have el: "get_slice data (length P + off + 32) (length v) = Some v"
    by (rule get_slice_at [where xs = "P @ H @ ?w @ ?offs @ B @ write_u256_word (length v)"
          and zs = "?pad @ ?rest"])
      (simp add: Cons.prems(1) encode_bytes_def [of v], simp add: Cons.prems(2), simp)
  have "decode_elements data (length P) (length P + length (H @ ?w)) (length vs) = Some vs"
    by (rule Cons.IH [where off = "off + length ?enc" and B = "B @ ?enc"])
      (simp_all add: Cons.prems)
  then show ?case
    using rel len el by (simp add: add.assoc)
qed

lemma encode_state_updates_to_abi_layout:
  "encode_state_updates_to_abi abi us =
     write_u256_word 64 @ write_u256_word (96 + 32 * length us)
     @ write_u256_word (length us)
     @ concat (map (\<lambda>t. write_u256_word (type_tag t)) (map update_type us))
     @ write_u256_word (length us)
     @ encode_offsets (32 * length us) (map encode_bytes (map abi us))
     @ concat (map encode_bytes (map abi us))"
proof -
  have "length (concat (map (\<lambda>t. write_u256_word (type_tag t)) ts)) = 32 * length ts" for ts
    by (induction ts) auto
  then show ?thesis
    by (simp add: encode_state_updates_to_abi_def encode_state_updates_to_sol_def
        encode_types_def encode_bytes_array_def Let_def o_def)
qed

lemma be_bytes_zero: "be_bytes n 0 = replicate n 0"
  by (induction n) (simp_all add: replicate_append_same)

lemma write_small_word: "v < 256 \<Longrightarrow> write_u256_word v = replicate 31 0 @ [of_nat v]"
  by (simp add: write_u256_word_def be_bytes_numeral be_bytes_zero replicate_add [symmetric])

lemma length_encode_ge: "32 * length us \<le> length (encode_state_updates_to_abi abi us)"
  by (simp add: encode_state_updates_to_abi_layout)

text \<open>Four words of framing, and at least a type, an offset and a length word per operation.\<close>

lemma length_encode_words: "128 + 96 * length us \<le> length (encode_state_updates_to_abi abi us)"
proof -
  have "32 * length us \<le> length (concat (map encode_bytes (map abi us)))"
    by (induction us) (simp_all add: encode_bytes_def)
  moreover have "length (concat (map (\<lambda>t. write_u256_word (type_tag t)) ts)) = 32 * length ts" for ts
    by (induction ts) simp_all
  ultimately show ?thesis
    by (simp add: encode_state_updates_to_abi_layout del: map_map)
qed

lemma length_encode_empty [simp]: "length (encode_state_updates_to_abi abi []) = 128"
  by (simp add: encode_state_updates_to_abi_layout)

text \<open>
  C1. Encoding is lossless: the decoder the repository's tests use recovers, from the
  ABI encoding of any program that fits the address space, exactly the operation types
  and the encoded operand of every operation, in order.
\<close>

theorem encode_decode_roundtrip:
  assumes "length (encode_state_updates_to_abi abi us) < 2 ^ 64"
  shows "decode_state_updates_tuple (encode_state_updates_to_abi abi us)
           = Some (map (type_tag \<circ> update_type) us, map abi us)"
proof -
  let ?n = "length us"
  let ?ts = "map update_type us"
  let ?T = "concat (map (\<lambda>t. write_u256_word (type_tag t)) ?ts)"
  let ?w0 = "write_u256_word 64"
  let ?w1 = "write_u256_word (96 + 32 * ?n)"
  let ?wn = "write_u256_word ?n"
  let ?O = "encode_offsets (32 * ?n) (map encode_bytes (map abi us))"
  let ?E = "concat (map encode_bytes (map abi us))"
  let ?d = "encode_state_updates_to_abi abi us"
  note d = encode_state_updates_to_abi_layout [of abi us]
  have lenT: "length ?T = 32 * ?n" by (induction us) auto
  have n: "?n < 2 ^ 64" "96 + 32 * ?n < 2 ^ 64"
    using assms lenT by (simp_all add: d)
  have o0: "read_word_at ?d 0 = Some 64"
    by (rule read_word_at_write [where xs = "[]" and zs = "?w1 @ ?wn @ ?T @ ?wn @ ?O @ ?E"])
      (simp_all add: d)
  have o1: "read_word_at ?d 32 = Some (96 + 32 * ?n)"
    by (rule read_word_at_write [where xs = ?w0 and zs = "?wn @ ?T @ ?wn @ ?O @ ?E"])
      (simp_all only: d append_assoc length_write_u256_word n)
  have n0: "read_word_at ?d 64 = Some ?n"
    by (rule read_word_at_write [where xs = "?w0 @ ?w1" and zs = "?T @ ?wn @ ?O @ ?E"])
      (simp add: d, simp, rule n)
  have n1: "read_word_at ?d (96 + 32 * ?n) = Some ?n"
    by (rule read_word_at_write [where xs = "?w0 @ ?w1 @ ?wn @ ?T" and zs = "?O @ ?E"])
      (simp add: d, simp add: lenT del: map_map, rule n)
  have "decode_type_words ?d (length (?w0 @ ?w1 @ ?wn)) (length ?ts)
          = Some (map (\<lambda>t. write_u256_word (type_tag t)) ?ts)"
    by (rule decode_type_words_encoded [where R = "?wn @ ?O @ ?E"]) (simp add: d)
  then have types: "decode_type_words ?d (64 + 32) ?n
          = Some (map (\<lambda>t. write_u256_word (type_tag t)) ?ts)"
    by simp
  have "decode_elements ?d (length (?w0 @ ?w1 @ ?wn @ ?T @ ?wn))
          (length (?w0 @ ?w1 @ ?wn @ ?T @ ?wn) + length ([] :: bytes)) (length (map abi us))
          = Some (map abi us)"
    by (rule decode_elements_encoded [where off = "32 * ?n" and B = "[]" and R = "[]"])
      (use assms in \<open>simp_all add: d\<close>)
  then have els: "decode_elements ?d (96 + 32 * ?n + 32) (96 + 32 * ?n + 32) ?n = Some (map abi us)"
    by (simp add: lenT add.commute del: map_map)
  have tags: "be_value (write_u256_word (type_tag t)) = type_tag t" for t
    using type_tag_less [of t] by (simp add: be_value_write_u256_word)
  show ?thesis
    unfolding decode_state_updates_tuple_def o0 o1
    by (simp only: option.case prod.case n0 n1 types els) (simp add: tags)
qed

theorem encode_decode_roundtrip_witness:
  "decode_state_updates_tuple
     (encode_state_updates_to_abi (\<lambda>u. case u of Store s v \<Rightarrow> [1, 2] | _ \<Rightarrow> [7]) [Store 1 2, Log0 [9]])
     = Some ([0, 2], [[1, 2], [7]])"
proof -
  let ?abi = "\<lambda>u. case u of Store s v \<Rightarrow> [1, 2] | _ \<Rightarrow> [7 :: u8]"
  have "length (encode_state_updates_to_abi ?abi [Store 1 2, Log0 [9]]) < 2 ^ 64"
    by (simp add: encode_state_updates_to_abi_layout encode_bytes_def pad32_len_def)
  from encode_decode_roundtrip [OF this] show ?thesis by simp
qed

end
