(* ===== verification/Sim_Profile.thy ===== *)
theory Sim_Profile
  imports Encoding
begin

text \<open>
  \<^verbatim>\<open>crates/core/src/sim_profile.rs\<close>: the simulation profiles and the gate that decides
  whether a program is cheap enough to apply on chain. All arithmetic of the estimate
  saturates except a log's data price, which wraps as the source's \<open>*\<close> and \<open>+\<close> do.
\<close>

section \<open>Profiles\<close>

definition STATE_TRACKER_SLOT :: b256 where
  "STATE_TRACKER_SLOT = 0xdebfdfd5a50ad117c10898d68b5ccf0893c6b40d4f443f902e2e7646601bdeaf"

definition UNBOUNDED_BLOCK_GAS_LIMIT :: u64 where
  "UNBOUNDED_BLOCK_GAS_LIMIT = 2 ^ 40"

definition UNBOUNDED_TX_GAS_LIMIT :: u64 where
  "UNBOUNDED_TX_GAS_LIMIT = UNBOUNDED_BLOCK_GAS_LIMIT"

definition UNBOUNDED_PAYLOAD_GAS_BUDGET :: u64 where
  "UNBOUNDED_PAYLOAD_GAS_BUDGET = 2 ^ 24"

datatype sim_profile = Chain | Unbounded

fun tx_gas_limit_override :: "sim_profile \<Rightarrow> u64 option" where
  "tx_gas_limit_override Chain = None"
| "tx_gas_limit_override Unbounded = Some UNBOUNDED_TX_GAS_LIMIT"

fun block_gas_limit_override :: "sim_profile \<Rightarrow> u64 option" where
  "block_gas_limit_override Chain = None"
| "block_gas_limit_override Unbounded = Some UNBOUNDED_BLOCK_GAS_LIMIT"

fun payload_gas_budget :: "sim_profile \<Rightarrow> u64 option" where
  "payload_gas_budget Chain = None"
| "payload_gas_budget Unbounded = Some UNBOUNDED_PAYLOAD_GAS_BUDGET"

record env_overrides =
  env_block_gas_limit :: "u64 option"
  env_tx_gas_limit :: "u64 option"

definition env_overrides_from :: "sim_profile \<Rightarrow> env_overrides" where
  "env_overrides_from profile = \<lparr>env_block_gas_limit = block_gas_limit_override profile,
     env_tx_gas_limit = tx_gas_limit_override profile\<rparr>"

section \<open>Prices\<close>

definition COLD_SLOAD :: u64 where "COLD_SLOAD = 2100"

definition SSTORE_SET :: u64 where "SSTORE_SET = 20000"

definition UNBOUNDED_COLD_SSTORE_COST :: u64 where
  "UNBOUNDED_COLD_SSTORE_COST = COLD_SLOAD + SSTORE_SET"

definition LOG_BASE :: u64 where "LOG_BASE = 375"

definition LOG_TOPIC :: u64 where "LOG_TOPIC = 375"

definition LOG_BYTE :: u64 where "LOG_BYTE = 8"

definition TX_BASE :: u64 where "TX_BASE = 21000"

definition CALLDATA_ZERO_BYTE :: u64 where "CALLDATA_ZERO_BYTE = 4"

definition CALLDATA_NONZERO_BYTE :: u64 where "CALLDATA_NONZERO_BYTE = 16"

definition CALLDATA_FLOOR_TOKEN :: u64 where "CALLDATA_FLOOR_TOKEN = 10"

definition CALLDATA_FLOOR_NONZERO_TOKENS :: u64 where "CALLDATA_FLOOR_NONZERO_TOKENS = 4"

definition UNBOUNDED_APPLY_BASE_GAS :: u64 where "UNBOUNDED_APPLY_BASE_GAS = 2000"

definition UNBOUNDED_APPLY_GAS_PER_PAYLOAD_BYTE :: u64 where
  "UNBOUNDED_APPLY_GAS_PER_PAYLOAD_BYTE = 14"

lemmas gate_costs = COLD_SLOAD_def SSTORE_SET_def UNBOUNDED_COLD_SSTORE_COST_def LOG_BASE_def
  LOG_TOPIC_def LOG_BYTE_def TX_BASE_def CALLDATA_ZERO_BYTE_def CALLDATA_NONZERO_BYTE_def
  CALLDATA_FLOOR_TOKEN_def CALLDATA_FLOOR_NONZERO_TOKENS_def UNBOUNDED_APPLY_BASE_GAS_def
  UNBOUNDED_APPLY_GAS_PER_PAYLOAD_BYTE_def

section \<open>The gate\<close>

record unbounded_cost =
  stores :: nat
  tracker_stores :: nat
  calls :: nat
  logs :: nat
  creates :: nat
  applied_gas_upper_bound :: u64

datatype unbounded_cost_violation =
    PayloadTooExpensive u64 u64 nat
  | CreateNotAllowed nat

fun op_cost :: "state_update \<Rightarrow> u64" where
  "op_cost (Store _ _) = UNBOUNDED_COLD_SSTORE_COST"
| "op_cost (Call _) = 0"
| "op_cost (Nested _ _ _) = 0"
| "op_cost (Log0 d) = LOG_BASE + of_nat (length d) * LOG_BYTE"
| "op_cost (Log1 d _) = LOG_BASE + LOG_TOPIC + of_nat (length d) * LOG_BYTE"
| "op_cost (Log2 d _ _) = LOG_BASE + LOG_TOPIC * 2 + of_nat (length d) * LOG_BYTE"
| "op_cost (Log3 d _ _ _) = LOG_BASE + LOG_TOPIC * 3 + of_nat (length d) * LOG_BYTE"
| "op_cost (Log4 d _ _ _ _) = LOG_BASE + LOG_TOPIC * 4 + of_nat (length d) * LOG_BYTE"
| "op_cost (Create _ _) = 0"
| "op_cost (Create2 _ _ _) = 0"

definition estimate_applied_payload_gas :: "abi_seq \<Rightarrow> state_update list \<Rightarrow> u64 \<Rightarrow> u64 \<Rightarrow> u64" where
  "estimate_applied_payload_gas abi_seq updates ext_call_gas signature_floor =
     (let g = sat_add (sat_add (sat_add TX_BASE signature_floor) ext_call_gas) UNBOUNDED_APPLY_BASE_GAS;
          g = fold (\<lambda>u g. sat_add g (op_cost u)) updates g;
          payload = encode_state_updates_to_abi abi_seq updates;
          payload_len = of_nat (length payload);
          g = sat_add g (sat_mul payload_len UNBOUNDED_APPLY_GAS_PER_PAYLOAD_BYTE);
          zero_bytes = of_nat (length (filter (\<lambda>b. b = 0) payload));
          nonzero_bytes = payload_len - zero_bytes;
          transport = sat_add (sat_mul zero_bytes CALLDATA_ZERO_BYTE)
                        (sat_mul nonzero_bytes CALLDATA_NONZERO_BYTE);
          tokens = sat_add zero_bytes (sat_mul nonzero_bytes CALLDATA_FLOOR_NONZERO_TOKENS);
          floor = sat_add TX_BASE (sat_mul tokens CALLDATA_FLOOR_TOKEN)
      in max (sat_add g transport) floor)"

text \<open>The counting loop of \<open>validate\<close>: it stops at the first create that cannot be replayed.\<close>

fun tally :: "bool \<Rightarrow> nat \<Rightarrow> state_update list \<Rightarrow> unbounded_cost \<Rightarrow>
    unbounded_cost_violation + unbounded_cost" where
  "tally replayable index [] cost = Inr cost"
| "tally replayable index (u # us) cost =
     (case u of
        Store slot _ \<Rightarrow>
          if slot = STATE_TRACKER_SLOT
          then tally replayable (index + 1) us (cost\<lparr>tracker_stores := tracker_stores cost + 1\<rparr>)
          else tally replayable (index + 1) us (cost\<lparr>stores := stores cost + 1\<rparr>)
      | Call _ \<Rightarrow> tally replayable (index + 1) us (cost\<lparr>calls := calls cost + 1\<rparr>)
      | Nested _ _ _ \<Rightarrow> tally replayable (index + 1) us (cost\<lparr>calls := calls cost + 1\<rparr>)
      | Create _ _ \<Rightarrow>
          if replayable then tally replayable (index + 1) us (cost\<lparr>creates := creates cost + 1\<rparr>)
          else Inl (CreateNotAllowed index)
      | Create2 _ _ _ \<Rightarrow>
          if replayable then tally replayable (index + 1) us (cost\<lparr>creates := creates cost + 1\<rparr>)
          else Inl (CreateNotAllowed index)
      | _ \<Rightarrow> tally replayable (index + 1) us (cost\<lparr>logs := logs cost + 1\<rparr>))"

definition zero_cost :: unbounded_cost where
  "zero_cost = \<lparr>stores = 0, tracker_stores = 0, calls = 0, logs = 0, creates = 0,
     applied_gas_upper_bound = 0\<rparr>"

definition validate :: "abi_seq \<Rightarrow> state_update list \<Rightarrow> u64 \<Rightarrow> bool \<Rightarrow> u64 \<Rightarrow> u64 \<Rightarrow>
    unbounded_cost_violation + unbounded_cost" where
  "validate abi_seq updates replayed_gas creates_replayable signature_floor budget =
     bind_res (tally creates_replayable 0 updates zero_cost) (\<lambda>cost.
     let cost = cost\<lparr>applied_gas_upper_bound :=
           estimate_applied_payload_gas abi_seq updates replayed_gas signature_floor\<rparr>
     in if applied_gas_upper_bound cost > budget
        then Inl (PayloadTooExpensive (applied_gas_upper_bound cost) budget (stores cost))
        else Inr cost)"

definition validate_unbounded_cost :: "abi_seq \<Rightarrow> state_update list \<Rightarrow> u64 \<Rightarrow> u64 \<Rightarrow> u64 \<Rightarrow>
    unbounded_cost_violation + unbounded_cost" where
  "validate_unbounded_cost abi_seq updates ext_call_gas signature_floor budget =
     validate abi_seq updates ext_call_gas False signature_floor budget"

definition validate_unbounded_tree_cost :: "abi_seq \<Rightarrow> state_update list \<Rightarrow> u64 \<Rightarrow> u64 \<Rightarrow> u64 \<Rightarrow> u64 \<Rightarrow>
    unbounded_cost_violation + unbounded_cost" where
  "validate_unbounded_tree_cost abi_seq updates ext_call_gas create_gas signature_floor budget =
     validate abi_seq updates (sat_add ext_call_gas create_gas) True signature_floor budget"

section \<open>What the tally counts\<close>

fun is_store :: "state_update \<Rightarrow> bool" where
  "is_store (Store _ _) = True"
| "is_store _ = False"

fun is_tracker_store :: "state_update \<Rightarrow> bool" where
  "is_tracker_store (Store s _) \<longleftrightarrow> s = STATE_TRACKER_SLOT"
| "is_tracker_store _ = False"

fun is_call :: "state_update \<Rightarrow> bool" where
  "is_call (Call _) = True"
| "is_call (Nested _ _ _) = True"
| "is_call _ = False"

abbreviation count :: "('a \<Rightarrow> bool) \<Rightarrow> 'a list \<Rightarrow> nat" where
  "count P xs \<equiv> length (filter P xs)"

definition first_create :: "state_update list \<Rightarrow> nat" where
  "first_create us = length (takeWhile (\<lambda>u. \<not> is_create u) us)"

lemma tally_Inl:
  "tally r i us c = Inl e \<longleftrightarrow>
     \<not> r \<and> filter is_create us \<noteq> [] \<and> e = CreateNotAllowed (i + first_create us)"
proof (induction us arbitrary: i c)
  case (Cons u us)
  then show ?case by (cases u) (auto simp: first_create_def)
qed simp

lemma tally_Inr:
  "tally r i us c = Inr c' \<Longrightarrow>
     stores c' = stores c + count (\<lambda>u. is_store u \<and> \<not> is_tracker_store u) us
   \<and> tracker_stores c' = tracker_stores c + count is_tracker_store us
   \<and> calls c' = calls c + count is_call us
   \<and> logs c' = logs c + count (\<lambda>u. \<not> is_store u \<and> \<not> is_call u \<and> \<not> is_create u) us
   \<and> creates c' = creates c + count is_create us"
proof (induction us arbitrary: r i c)
  case (Cons u us)
  note ih = Cons.IH
  from Cons.prems show ?case by (cases u) (auto split: if_splits dest!: ih)
qed simp

text \<open>
  The verdict of the gate, on every branch: a create that cannot be replayed is
  rejected with the index of the first one; otherwise a payload priced above the budget is
  rejected with its price; otherwise it is accepted, and the reported counts are those of
  the operations by kind, with the price as the bound.
\<close>

lemma validate_verdict:
  "validate abi_seq us replayed_gas r signature_floor budget =
     (let est = estimate_applied_payload_gas abi_seq us replayed_gas signature_floor;
          plain = count (\<lambda>u. is_store u \<and> \<not> is_tracker_store u) us
      in if \<not> r \<and> filter is_create us \<noteq> [] then Inl (CreateNotAllowed (first_create us))
         else if budget < est then Inl (PayloadTooExpensive est budget plain)
         else Inr \<lparr>stores = plain, tracker_stores = count is_tracker_store us,
                   calls = count is_call us,
                   logs = count (\<lambda>u. \<not> is_store u \<and> \<not> is_call u \<and> \<not> is_create u) us,
                   creates = count is_create us, applied_gas_upper_bound = est\<rparr>)"
proof (cases "tally r 0 us zero_cost")
  case (Inl e)
  then have "\<not> r \<and> filter is_create us \<noteq> [] \<and> e = CreateNotAllowed (first_create us)"
    by (simp add: tally_Inl)
  with Inl show ?thesis by (simp add: validate_def)
next
  case (Inr c)
  then have "\<not> (\<not> r \<and> filter is_create us \<noteq> [])"
    using tally_Inl [of r 0 us zero_cost "CreateNotAllowed (first_create us)"] by auto
  with Inr tally_Inr [OF Inr] show ?thesis
    by (simp add: validate_def Let_def zero_cost_def)
qed

section \<open>The price is a bound\<close>

lemma unat_add_mono_sat:
  "min (unat a + n) (2 ^ 64 - 1) \<le> unat (sat_add (a::u64) b)" if "min n (2 ^ 64 - 1) \<le> unat b"
  using that by (simp add: sat_simps)

lemma fold_op_cost:
  "min (unat g + 22100 * count is_store us) (2 ^ 64 - 1)
     \<le> unat (fold (\<lambda>u g. sat_add g (op_cost u)) us g)"
proof (induction us arbitrary: g)
  case (Cons u us)
  have "min (unat g + (if is_store u then 22100 else 0)) (2 ^ 64 - 1) \<le> unat (sat_add g (op_cost u))"
    by (rule unat_add_mono_sat) (cases u; simp add: gate_costs)
  moreover have "min (unat (sat_add g (op_cost u)) + 22100 * count is_store us) (2 ^ 64 - 1)
      \<le> unat (fold (\<lambda>u g. sat_add g (op_cost u)) us (sat_add g (op_cost u)))"
    by (rule Cons.IH)
  ultimately show ?case by (simp split: if_splits)
qed (simp add: unat_le_max)

lemma transport_ge:
  assumes "length payload < 2 ^ 64"
  shows "min (4 * length payload) (2 ^ 64 - 1)
    \<le> unat (sat_add (sat_mul (of_nat (count (\<lambda>b. b = 0) payload)) CALLDATA_ZERO_BYTE)
          (sat_mul (of_nat (length payload) - of_nat (count (\<lambda>b. b = (0::u8)) payload) :: u64)
             CALLDATA_NONZERO_BYTE))"
proof -
  define z where "z = count (\<lambda>b. b = 0) payload"
  have z: "z \<le> length payload" by (simp add: z_def)
  have "unat (of_nat z :: u64) = z" using z assms by (intro unat_of_nat_less) simp
  moreover have "unat (of_nat (length payload) - of_nat z :: u64) = length payload - z"
    using z assms by (simp add: of_nat_diff [symmetric] del: of_nat_diff) (intro unat_of_nat_less, simp)
  ultimately show ?thesis
    using z unfolding z_def [symmetric] by (simp add: sat_simps gate_costs)
qed

lemma estimate_ge:
  fixes abi_seq us
  defines "len \<equiv> length (encode_state_updates_to_abi abi_seq us)"
  assumes "len < 2 ^ 64"
  shows "min (23000 + unat sf + unat ext + 22100 * count is_store us + 18 * len) (2 ^ 64 - 1)
    \<le> unat (estimate_applied_payload_gas abi_seq us ext sf)"
proof -
  define payload where "payload = encode_state_updates_to_abi abi_seq us"
  define g0 where "g0 = sat_add (sat_add (sat_add TX_BASE sf) ext) UNBOUNDED_APPLY_BASE_GAS"
  define g1 where "g1 = fold (\<lambda>u g. sat_add g (op_cost u)) us g0"
  define g2 where "g2 = sat_add g1 (sat_mul (of_nat len) UNBOUNDED_APPLY_GAS_PER_PAYLOAD_BYTE)"
  define t where "t = sat_add (sat_mul (of_nat (count (\<lambda>b. b = 0) payload)) CALLDATA_ZERO_BYTE)
          (sat_mul (of_nat (length payload) - of_nat (count (\<lambda>b. b = (0::u8)) payload) :: u64)
             CALLDATA_NONZERO_BYTE)"
  have g0: "unat g0 = min (23000 + unat sf + unat ext) (2 ^ 64 - 1)"
    by (simp add: g0_def sat_simps gate_costs)
  have g1: "min (unat g0 + 22100 * count is_store us) (2 ^ 64 - 1) \<le> unat g1"
    unfolding g1_def by (rule fold_op_cost)
  have g2: "min (unat g1 + 14 * len) (2 ^ 64 - 1) \<le> unat g2"
    unfolding g2_def
    by (rule unat_add_mono_sat) (use assms in \<open>simp add: sat_simps gate_costs unat_of_nat_less\<close>)
  have t: "min (4 * len) (2 ^ 64 - 1) \<le> unat t"
    using transport_ge [of payload] assms unfolding t_def payload_def len_def by simp
  have "sat_add g2 t \<le> estimate_applied_payload_gas abi_seq us ext sf"
    by (simp add: estimate_applied_payload_gas_def Let_def g0_def g1_def g2_def t_def payload_def
        len_def)
  then have "unat (sat_add g2 t) \<le> unat (estimate_applied_payload_gas abi_seq us ext sf)"
    by (simp add: word_le_nat_alt)
  moreover have "min (unat g2 + 4 * len) (2 ^ 64 - 1) \<le> unat (sat_add g2 t)"
    by (rule unat_add_mono_sat [OF t])
  ultimately show ?thesis using g0 g1 g2 by linarith
qed

lemma accepted_estimate_bounds:
  assumes "estimate_applied_payload_gas abi_seq us ext sf \<le> UNBOUNDED_PAYLOAD_GAS_BUDGET"
    and "length (encode_state_updates_to_abi abi_seq us) < 2 ^ 64"
  shows "23000 + unat sf + unat ext + 22100 * count is_store us
      + 18 * length (encode_state_updates_to_abi abi_seq us) \<le> 2 ^ 24" (is ?bound)
    and "count is_store us \<le> 703"
proof -
  have "unat (estimate_applied_payload_gas abi_seq us ext sf) \<le> 2 ^ 24"
    using assms(1) by (simp add: word_le_nat_alt UNBOUNDED_PAYLOAD_GAS_BUDGET_def)
  with estimate_ge [OF assms(2), of sf ext] show b: ?bound by simp
  have "count is_store us \<le> length us" by simp
  moreover have "22100 * count is_store us + 18 * length (encode_state_updates_to_abi abi_seq us) \<le> 16754216"
    using b by simp
  ultimately show "count is_store us \<le> 703" using length_encode_words [of us abi_seq] by linarith
qed

lemma validate_Inr:
  assumes "validate abi_seq us ext r sf budget = Inr cost"
  shows "estimate_applied_payload_gas abi_seq us ext sf \<le> budget"
    and "r \<or> filter is_create us = []"
    and "stores cost + tracker_stores cost = count is_store us"
    and "creates cost = count is_create us"
proof -
  obtain c where t: "tally r 0 us zero_cost = Inr c"
    and c: "stores cost = stores c" "tracker_stores cost = tracker_stores c" "creates cost = creates c"
    and est: "estimate_applied_payload_gas abi_seq us ext sf \<le> budget"
    using assms by (auto simp: validate_def res_simps Let_def not_less split: if_splits)
  show "estimate_applied_payload_gas abi_seq us ext sf \<le> budget" by (rule est)
  show "r \<or> filter is_create us = []" using t tally_Inl [of r 0 us zero_cost] by fastforce
  have split: "count is_store us
      = count (\<lambda>u. is_store u \<and> \<not> is_tracker_store u) us + count is_tracker_store us" for us
  proof (induction us)
    case (Cons u us)
    then show ?case by (cases u) auto
  qed simp
  show "stores cost + tracker_stores cost = count is_store us"
    using tally_Inr [OF t] c split by (simp add: zero_cost_def)
  show "creates cost = count is_create us"
    using tally_Inr [OF t] c by (simp add: zero_cost_def)
qed

text \<open>
  What the gate admits fits one transaction: a flat payload accepted under the pinned
  \<open>2^24\<close> budget contains no create, carries at most 703 storage writes, the tracker's
  included, and the sum of the base costs, the signature floor, the replayed call gas, a
  cold zero-to-nonzero price per write and 18 gas per payload byte stays within the budget.
\<close>

lemma accepted_payload_fits:
  assumes "validate_unbounded_cost abi_seq us ext sf UNBOUNDED_PAYLOAD_GAS_BUDGET = Inr cost"
    and "length (encode_state_updates_to_abi abi_seq us) < 2 ^ 64"
  shows "creates cost = 0 \<and> stores cost + tracker_stores cost \<le> 703
    \<and> 23000 + unat sf + unat ext + 22100 * (stores cost + tracker_stores cost)
        + 18 * length (encode_state_updates_to_abi abi_seq us) \<le> 2 ^ 24"
proof -
  note ok = validate_Inr [OF assms(1) [unfolded validate_unbounded_cost_def]]
  from ok(2,4) have "creates cost = 0" by simp
  with accepted_estimate_bounds [OF ok(1) assms(2)] ok(3) show ?thesis by simp
qed

lemma empty_payload_estimate:
  assumes "unat sf + unat ext < 2 ^ 63"
  shows "unat (estimate_applied_payload_gas abi_seq [] ext sf) = 25328 + unat sf + unat ext"
proof -
  have zeros: "count (\<lambda>b. b = 0) (encode_state_updates_to_abi abi_seq []) = 126"
    by (simp add: encode_state_updates_to_abi_layout write_small_word)
  have "estimate_applied_payload_gas abi_seq [] ext sf
      = max (sat_add (sat_add (sat_add (sat_add (sat_add 21000 sf) ext) 2000) 1792) 536) 22340"
    unfolding estimate_applied_payload_gas_def Let_def zeros length_encode_empty
    by (simp add: sat_add_def [of "21000"] sat_add_def [of "504"] sat_add_def [of "126"] sat_mul_def gate_costs)
  moreover have "unat (max x y) = max (unat x) (unat y)" for x y :: u64
    by (simp add: max_def word_le_nat_alt)
  ultimately show ?thesis using assms by (simp add: sat_simps)
qed

end
