(* ===== verification/Frame_Scan.thy ===== *)
theory Frame_Scan
  imports Trace Sim_Profile
begin

text \<open>
  The pre-pass of \<^verbatim>\<open>crates/core/src/nested.rs\<close> (\<open>scan_candidates\<close>): which \<open>CALL\<close>s could become
  nested frames, and the root's transition index. The frame stack is kept top first; the
  candidates are a map from the log index of the \<open>CALL\<close>.
\<close>

section \<open>Data\<close>

datatype bump = Undecided | First u256 | Disqualified

record candidate =
  c_bump :: bump
  unsupported_op :: bool

datatype scope = Root | InCall nat

record scan_frame =
  sf_depth :: nat
  sf_ctx :: "address option"
  sf_scope :: "scope option"

record pending_scan =
  ps_parent_depth :: nat
  ps_ctx :: "address option"
  ps_scope :: "scope option"

record cand_state =
  candidates :: "(nat, candidate) omap"
  root_index :: "u256 option"
  scan_frames :: "scan_frame list"
  scan_pending :: "pending_scan option"

definition init_cand :: "address \<Rightarrow> cand_state" where
  "init_cand root = \<lparr>candidates = [], root_index = None,
     scan_frames = [\<lparr>sf_depth = 1, sf_ctx = Some root, sf_scope = Some Root\<rparr>], scan_pending = None\<rparr>"

section \<open>The pass\<close>

text \<open>\<open>pending.take()\<close>: the callee's frame opens, or the call opened none.\<close>

definition open_scan_frame :: "struct_log \<Rightarrow> cand_state \<Rightarrow> cand_state" where
  "open_scan_frame log s =
     (case scan_pending s of
        None \<Rightarrow> s
      | Some p \<Rightarrow>
          (let s = s\<lparr>scan_pending := None\<rparr>
           in if depth log = ps_parent_depth p + 1
              then s\<lparr>scan_frames := \<lparr>sf_depth = depth log, sf_ctx = ps_ctx p, sf_scope = ps_scope p\<rparr>
                      # scan_frames s\<rparr>
              else (case ps_scope p of
                      Some (InCall call) \<Rightarrow> s\<lparr>candidates := om_remove call (candidates s)\<rparr>
                    | _ \<Rightarrow> s)))"

text \<open>The pop loop, \<open>while frames.last().map(|f| f.depth).unwrap_or(1) > depth\<close>.\<close>

definition pop_scan_frames :: "nat \<Rightarrow> cand_state \<Rightarrow> cand_state" where
  "pop_scan_frames d s = s\<lparr>scan_frames := dropWhile (\<lambda>f. sf_depth f > d) (scan_frames s)\<rparr>"

text \<open>\<open>top(n)\<close>: the \<open>n\<close>-th word from the top of the stack, if the stack is that deep.\<close>

definition top_of :: "struct_log \<Rightarrow> nat \<Rightarrow> u256 option" where
  "top_of log n =
     (let st = (case stack log of None \<Rightarrow> [] | Some st \<Rightarrow> st)
      in if n < length st then Some (st ! (length st - (1 + n))) else None)"

text \<open>\<open>candidates.get_mut(&call)\<close> followed by an assignment through it.\<close>

definition update_cand :: "nat \<Rightarrow> (candidate \<Rightarrow> candidate) \<Rightarrow> cand_state \<Rightarrow> cand_state" where
  "update_cand call f s =
     (case map_of (candidates s) call of
        None \<Rightarrow> s
      | Some c \<Rightarrow> s\<lparr>candidates := om_insert call (f c) (candidates s)\<rparr>)"

definition decide :: "bump \<Rightarrow> candidate \<Rightarrow> candidate" where
  "decide b c = (if c_bump c = Undecided then c\<lparr>c_bump := b\<rparr> else c)"

definition scan_effect :: "nat \<Rightarrow> struct_log \<Rightarrow> scope option \<Rightarrow> cand_state \<Rightarrow> cand_state res" where
  "scan_effect i log scp s =
     (if op log = ''SSTORE'' then
        (case (top_of log 0, top_of log 1) of
           (Some slot, Some value) \<Rightarrow>
             (let tracker = (slot = STATE_TRACKER_SLOT);
                  prev = sat_sub value 1
              in Inr (case scp of
                   Some Root \<Rightarrow>
                     if tracker \<and> root_index s = None then s\<lparr>root_index := Some prev\<rparr> else s
                 | Some (InCall call) \<Rightarrow>
                     update_cand call (decide (if tracker then First prev else Disqualified)) s
                 | None \<Rightarrow> s))
         | _ \<Rightarrow> Inl (ShortStack i))
      else if op log = ''TSTORE'' \<or> op log = ''SELFDESTRUCT'' then
        Inr (case scp of
               Some (InCall call) \<Rightarrow> update_cand call (\<lambda>c. c\<lparr>unsupported_op := True\<rparr>) s
             | _ \<Rightarrow> s)
      else Inr s)"

definition observable :: "string \<Rightarrow> bool" where
  "observable opc \<longleftrightarrow> opc \<in> {''CALL'', ''STATICCALL'', ''CREATE'', ''CREATE2'', ''LOG0'', ''LOG1'', ''LOG2'',
     ''LOG3'', ''LOG4''}"

definition scan_observable :: "struct_log \<Rightarrow> scope option \<Rightarrow> cand_state \<Rightarrow> cand_state" where
  "scan_observable log scp s =
     (case scp of
        Some (InCall call) \<Rightarrow> if observable (op log) then update_cand call (decide Disqualified) s else s
      | _ \<Rightarrow> s)"

definition scan_opens :: "nat \<Rightarrow> struct_log \<Rightarrow> address option \<Rightarrow> scope option \<Rightarrow> cand_state \<Rightarrow> cand_state" where
  "scan_opens i log ctx scp s =
     (let callee = map_option address_from_word (top_of log 1)
      in if op log = ''CALL'' then
           s\<lparr>candidates := om_insert i \<lparr>c_bump = Undecided, unsupported_op = False\<rparr> (candidates s),
             scan_pending := Some \<lparr>ps_parent_depth = depth log, ps_ctx = callee, ps_scope = Some (InCall i)\<rparr>\<rparr>
         else if op log = ''STATICCALL'' then
           s\<lparr>scan_pending := Some \<lparr>ps_parent_depth = depth log, ps_ctx = callee, ps_scope = None\<rparr>\<rparr>
         else if op log = ''DELEGATECALL'' \<or> op log = ''CALLCODE'' then
           s\<lparr>scan_pending := Some \<lparr>ps_parent_depth = depth log, ps_ctx = ctx, ps_scope = scp\<rparr>\<rparr>
         else if op log = ''CREATE'' \<or> op log = ''CREATE2'' then
           s\<lparr>scan_pending := Some \<lparr>ps_parent_depth = depth log, ps_ctx = None, ps_scope = None\<rparr>\<rparr>
         else s\<lparr>scan_pending := None\<rparr>)"

definition cand_step :: "cand_state \<Rightarrow> nat \<times> struct_log \<Rightarrow> cand_state res" where
  "cand_step s ilog =
     (case ilog of (i, log) \<Rightarrow>
       if depth log = 0 then Inl (DepthZero i)
       else
         (let s = pop_scan_frames (depth log) (open_scan_frame log s)
          in case scan_frames s of
               [] \<Rightarrow> Inl (Panic ''root frame must remain'')
             | cur # _ \<Rightarrow>
                 if error log \<noteq> None then Inr s
                 else bind_res (scan_effect i log (sf_scope cur) s) (\<lambda>s.
                      Inr (scan_opens i log (sf_ctx cur) (sf_scope cur)
                             (scan_observable log (sf_scope cur) s)))))"

definition scan_candidates :: "struct_log list \<Rightarrow> address \<Rightarrow> ((nat, candidate) omap \<times> u256 option) res" where
  "scan_candidates lgs root =
     bind_res (fold_res cand_step (enumerate 0 lgs) (init_cand root)) (\<lambda>s.
     Inr (candidates s, root_index s))"

section \<open>The root frame remains\<close>

text \<open>
  The bottom of the frame stack is the root's at depth one and every other frame is deeper,
  so popping back to a log's depth (at least one) never empties the stack.
\<close>

definition scan_frames_ok :: "cand_state \<Rightarrow> bool" where
  "scan_frames_ok s \<longleftrightarrow> (\<exists>fs r. scan_frames s = fs @ [r] \<and> sf_depth r = 1 \<and> sf_scope r = Some Root)"

lemma scan_frames_ok_init: "scan_frames_ok (init_cand root)"
  by (simp add: scan_frames_ok_def init_cand_def)

lemma scan_frames_ok_open: "scan_frames_ok s \<Longrightarrow> scan_frames_ok (open_scan_frame log s)"
  by (force simp: scan_frames_ok_def open_scan_frame_def Let_def split: option.splits scope.splits)

lemma scan_frames_ok_pop: "scan_frames_ok s \<Longrightarrow> 1 \<le> d \<Longrightarrow> scan_frames_ok (pop_scan_frames d s)"
  by (auto simp: scan_frames_ok_def pop_scan_frames_def dropWhile_append)

lemma update_cand_frames [simp]:
  "scan_frames (update_cand call f s) = scan_frames s"
  "root_index (update_cand call f s) = root_index s"
  by (simp_all add: update_cand_def split: option.splits)

lemma scan_effect_frames: "scan_effect i log scp s = Inr s' \<Longrightarrow> scan_frames s' = scan_frames s"
  by (auto simp: scan_effect_def Let_def split: if_splits option.splits scope.splits)

lemma scan_tail_frames [simp]:
  "scan_frames (scan_observable log scp s) = scan_frames s"
  "scan_frames (scan_opens i log ctx scp s) = scan_frames s"
  by (simp_all add: scan_observable_def scan_opens_def Let_def split: option.splits scope.splits)

lemma cand_step_ok:
  assumes "cand_step s (i, log) = Inr s'" and "scan_frames_ok s"
  shows "scan_frames_ok s'"
proof -
  define s1 where "s1 = pop_scan_frames (depth log) (open_scan_frame log s)"
  have "1 \<le> depth log" using assms(1) by (auto simp: cand_step_def split: if_splits)
  then have "scan_frames_ok s1"
    using assms(2) by (simp add: s1_def scan_frames_ok_open scan_frames_ok_pop)
  moreover have "scan_frames s' = scan_frames s1"
    using assms(1) by (auto simp: cand_step_def s1_def [symmetric] res_simps scan_effect_frames
        split: if_splits list.splits)
  ultimately show ?thesis by (simp add: scan_frames_ok_def)
qed

text \<open>
  C36. The pre-pass is total up to malformed input: on any trace it either returns, or
  reports a depth-zero log or an \<open>SSTORE\<close> with a short stack; the root frame is never
  popped, so its \<open>expect\<close> cannot panic.
\<close>

theorem scan_candidates_no_panic:
  assumes "scan_candidates lgs root = Inl e"
  shows "\<exists>i < length lgs. e = DepthZero i \<and> depth (lgs ! i) = 0
    \<or> e = ShortStack i \<and> op (lgs ! i) = ''SSTORE''
       \<and> (top_of (lgs ! i) 0 = None \<or> top_of (lgs ! i) 1 = None)"
proof -
  have run: "fold_res cand_step (enumerate 0 lgs) (init_cand root) = Inl e"
    using assms by (auto simp: scan_candidates_def res_simps)
  obtain il s where il: "il \<in> set (enumerate 0 lgs)" and ok: "scan_frames_ok s"
    and err: "cand_step s il = Inl e"
    using fold_res_error_inv [OF run, of scan_frames_ok] scan_frames_ok_init cand_step_ok
    by (metis surj_pair)
  obtain i log where [simp]: "il = (i, log)" by (cases il)
  have i: "i < length lgs" "lgs ! i = log" using il by (auto simp: in_set_enumerate_eq)
  define s1 where "s1 = pop_scan_frames (depth log) (open_scan_frame log s)"
  have "depth log \<noteq> 0 \<Longrightarrow> scan_frames s1 \<noteq> []"
    using scan_frames_ok_pop [OF scan_frames_ok_open [OF ok], of "depth log" log]
    by (auto simp: s1_def scan_frames_ok_def)
  then have "e = DepthZero i \<and> depth log = 0
      \<or> e = ShortStack i \<and> op log = ''SSTORE'' \<and> (top_of log 0 = None \<or> top_of log 1 = None)"
    using err by (auto simp: cand_step_def s1_def [symmetric] res_simps scan_effect_def Let_def
        split: if_splits list.splits option.splits)
  with i show ?thesis by blast
qed

theorem scan_candidates_no_panic_witness:
  "scan_candidates [sample_log ''SSTORE'' 1 10 5 [7]] 170 = Inl (ShortStack 0)
   \<and> top_of (sample_log ''SSTORE'' 1 10 5 [7]) 1 = None"
proof -
  have err: "scan_candidates [sample_log ''SSTORE'' 1 10 5 [7]] 170 = Inl (ShortStack 0)"
    by (simp add: scan_candidates_def cand_step_def init_cand_def open_scan_frame_def
        pop_scan_frames_def scan_effect_def top_of_def sample_log_def)
  from scan_candidates_no_panic [OF err] err show ?thesis
    by (auto simp: top_of_def sample_log_def split: if_splits)
qed

end
