(* ===== verification/Merkle.thy ===== *)
theory Merkle
  imports Core_Types
begin

text \<open>
  The leaves and the Merkle tree of \<^verbatim>\<open>crates/core/src/nested.rs\<close>. SHA-256, Keccak-256 and
  alloy's ABI encoders are fields of the record \<open>codec\<close>, a parameter of every definition
  that uses them. \<open>process_proof\<close> is the fold OpenZeppelin's \<open>MerkleProof\<close> performs on
  chain; the locale \<open>merkle_scheme\<close> is what a settlement needs of a tree, interpreted on
  \<open>merkle_root\<close> and \<open>merkle_proof\<close>.
\<close>

unbundle bit_operations_syntax

section \<open>Leaves\<close>

definition NESTED_LEAF_TAG :: b256 where
  "NESTED_LEAF_TAG = 0x292ca629b989c44a85e556e7c24acc26f9ab093b2b23c689f951e91718228c18"

definition EXPIRY_LEAF_TAG :: b256 where
  "EXPIRY_LEAF_TAG = 0xc5763e3656f5ee85e7416218ca476fe6364ba9f67d13b29c7331d1d1131dd88a"

definition FRAME_MODE :: u8 where "FRAME_MODE = 0"

record nested_leaf_preimage =
  np_tag :: b256
  np_chain_id :: u256
  np_target :: address
  np_transition_index :: u256
  np_caller :: address
  np_value :: u256
  np_calldata_hash :: b256
  np_mode :: u8
  np_storage_updates :: bytes

record witness =
  w_calldata_hash :: b256
  w_storage_updates :: bytes
  w_proof :: "b256 list"
  w_children :: "bytes list"

record codec =
  sha256 :: "bytes \<Rightarrow> b256"
  keccak256 :: "bytes \<Rightarrow> b256"
  abi_root :: "u256 \<times> address \<times> bytes \<times> bytes \<Rightarrow> bytes"
  abi_root_value :: "u256 \<times> address \<times> bytes \<times> bytes \<times> u256 \<Rightarrow> bytes"
  abi_nested_leaf :: "nested_leaf_preimage \<Rightarrow> bytes"
  abi_expiry :: "b256 \<times> u256 \<times> address \<times> u256 \<Rightarrow> bytes"
  abi_witness :: "witness \<Rightarrow> bytes"

definition root_leaf :: "codec \<Rightarrow> u256 \<Rightarrow> address \<Rightarrow> bytes \<Rightarrow> bytes \<Rightarrow> u256 \<Rightarrow> b256" where
  "root_leaf cd transition_index target selector program value =
     (if value = 0 then sha256 cd (abi_root cd (transition_index, target, selector, program))
      else sha256 cd (abi_root_value cd (transition_index, target, selector, program, value)))"

definition nested_leaf ::
  "codec \<Rightarrow> u64 \<Rightarrow> address \<Rightarrow> u256 \<Rightarrow> address \<Rightarrow> u256 \<Rightarrow> b256 \<Rightarrow> bytes \<Rightarrow> b256" where
  "nested_leaf cd chain_id target transition_index caller value calldata_hash program =
     sha256 cd (abi_nested_leaf cd \<lparr>np_tag = NESTED_LEAF_TAG, np_chain_id = ucast chain_id,
       np_target = target, np_transition_index = transition_index, np_caller = caller,
       np_value = value, np_calldata_hash = calldata_hash, np_mode = FRAME_MODE,
       np_storage_updates = program\<rparr>)"

definition expiry_leaf :: "codec \<Rightarrow> u64 \<Rightarrow> address \<Rightarrow> u64 \<Rightarrow> b256" where
  "expiry_leaf cd chain_id root_contract expiry_block =
     sha256 cd (abi_expiry cd (EXPIRY_LEAF_TAG, ucast chain_id, root_contract, ucast expiry_block))"

section \<open>The tree\<close>

definition word_bytes :: "b256 \<Rightarrow> bytes" where
  "word_bytes w = be_bytes 32 (unat w)"

definition hash_pair :: "codec \<Rightarrow> b256 \<Rightarrow> b256 \<Rightarrow> b256" where
  "hash_pair cd a b =
     (let (lo, hi) = (if a < b then (a, b) else (b, a))
      in keccak256 cd (word_bytes lo @ word_bytes hi))"

fun up :: "codec \<Rightarrow> b256 list \<Rightarrow> b256 list" where
  "up cd [] = []"
| "up cd [a] = [a]"
| "up cd (a # b # rest) = hash_pair cd a b # up cd rest"

lemma length_up: "length (up cd xs) = (length xs + 1) div 2"
  by (induction cd xs rule: up.induct) auto

function root_loop :: "codec \<Rightarrow> b256 list \<Rightarrow> b256" where
  "root_loop cd level = (if length level > 1 then root_loop cd (up cd level) else level ! 0)"
  by auto
termination
  by (relation "measure (\<lambda>(cd, level). length level)") (auto simp: length_up)

definition merkle_root :: "codec \<Rightarrow> b256 list \<Rightarrow> b256 res" where
  "merkle_root cd leaves = (if leaves = [] then Inl NoLeaves else Inr (root_loop cd leaves))"

definition sibling :: "nat \<Rightarrow> nat" where
  "sibling index = index XOR 1"

function proof_loop :: "codec \<Rightarrow> b256 list \<Rightarrow> nat \<Rightarrow> b256 list" where
  "proof_loop cd level index =
     (if length level > 1
      then (if sibling index < length level then [level ! sibling index] else [])
           @ proof_loop cd (up cd level) (index div 2)
      else [])"
  by auto
termination
  by (relation "measure (\<lambda>(cd, level, index). length level)") (auto simp: length_up)

definition merkle_proof :: "codec \<Rightarrow> b256 list \<Rightarrow> nat \<Rightarrow> b256 list res" where
  "merkle_proof cd leaves index =
     (if index \<ge> length leaves then Inl (LeafOutside index (length leaves))
      else Inr (proof_loop cd leaves index))"

declare root_loop.simps [simp del] proof_loop.simps [simp del]

section \<open>Verification\<close>

text \<open>\<open>MerkleProof.processProof\<close>: fold the pair hash over the proof, from the leaf.\<close>

definition process_proof :: "codec \<Rightarrow> b256 list \<Rightarrow> b256 \<Rightarrow> b256" where
  "process_proof cd proof leaf = foldl (hash_pair cd) leaf proof"

lemma hash_pair_commute: "hash_pair cd a b = hash_pair cd b a"
  by (auto simp: hash_pair_def)

lemma nth_up:
  "i < length (up cd xs) \<Longrightarrow>
     up cd xs ! i = (if 2 * i + 1 < length xs then hash_pair cd (xs ! (2 * i)) (xs ! (2 * i + 1))
                     else xs ! (2 * i))"
proof (induction cd xs arbitrary: i rule: up.induct)
  case (3 cd a b rest)
  then show ?case by (cases i) auto
qed auto

lemma sibling_index: "sibling i = (if even i then i + 1 else i - 1)"
  using xor_Suc_0_eq [of i] by (auto simp: sibling_def elim: oddE)

text \<open>One level: hashing a node with its sibling, if it has one, gives its parent.\<close>

lemma parent_of:
  assumes "i < length level"
  shows "up cd level ! (i div 2) =
    (if sibling i < length level then hash_pair cd (level ! i) (level ! sibling i) else level ! i)"
proof -
  have "i div 2 < length (up cd level)" using assms by (simp add: length_up)
  note parent = nth_up [OF this]
  show ?thesis
  proof (cases "even i")
    case True
    then have "2 * (i div 2) = i" by simp
    with parent assms True show ?thesis by (simp add: sibling_index)
  next
    case False
    then have "2 * (i div 2) = i - 1" "0 < i" by (auto elim: oddE)
    with parent assms False show ?thesis
      by (auto simp: sibling_index hash_pair_commute [of _ "level ! i"])
  qed
qed

lemma process_proof_loop:
  "i < length level \<Longrightarrow> process_proof cd (proof_loop cd level i) (level ! i) = root_loop cd level"
proof (induction cd level i rule: proof_loop.induct)
  case (1 cd level i)
  show ?case
  proof (cases "length level > 1")
    case True
    then have "i div 2 < length (up cd level)" using "1.prems" by (simp add: length_up)
    then have "process_proof cd (proof_loop cd (up cd level) (i div 2)) (up cd level ! (i div 2))
        = root_loop cd (up cd level)"
      using "1.IH" True by blast
    then show ?thesis
      using True parent_of [OF "1.prems", of cd]
      by (auto simp: proof_loop.simps [of cd level] root_loop.simps [of cd level] process_proof_def)
  next
    case False
    then have "i = 0" using "1.prems" by simp
    with False show ?thesis
      by (simp add: proof_loop.simps [of cd level] root_loop.simps [of cd level] process_proof_def)
  qed
qed

lemma length_proof_loop: "length level \<le> 2 ^ k \<Longrightarrow> length (proof_loop cd level i) \<le> k"
proof (induction k arbitrary: level i)
  case 0
  then show ?case by (simp add: proof_loop.simps [of cd level])
next
  case (Suc k)
  then have "length (up cd level) \<le> 2 ^ k" by (simp add: length_up)
  from Suc.IH [OF this] show ?case
    by (simp add: proof_loop.simps [of cd level] le_SucI)
qed

section \<open>What a settlement relies on\<close>

locale merkle_scheme =
  fixes root :: "'a list \<Rightarrow> 'e + 'a"
    and prove :: "'a list \<Rightarrow> nat \<Rightarrow> 'e + 'a list"
    and verify :: "'a list \<Rightarrow> 'a \<Rightarrow> 'a"
  assumes root_total: "ls \<noteq> [] \<Longrightarrow> \<exists>r. root ls = Inr r"
    and prove_total: "i < length ls \<Longrightarrow> \<exists>p. prove ls i = Inr p"
    and prove_fails: "length ls \<le> i \<Longrightarrow> \<exists>e. prove ls i = Inl e"
    and verifies: "prove ls i = Inr p \<Longrightarrow> i < length ls \<Longrightarrow> root ls = Inr (verify p (ls ! i))"
begin

lemma prove_defined: "prove ls i = Inr p \<Longrightarrow> i < length ls"
  using prove_fails [of ls i] by (cases "i < length ls") auto

text \<open>Every position of a tree has a proof, and all of them lead to the one root.\<close>

lemma proofs_agree:
  assumes "prove ls i = Inr p" and "prove ls j = Inr q"
  shows "verify p (ls ! i) = verify q (ls ! j)"
  using assms prove_defined verifies by (metis sum.inject(2))

lemma all_proofs: "\<exists>ps. map_res (prove ls) [0..<length ls] = Inr ps"
proof -
  have "set is \<subseteq> {0..<length ls} \<Longrightarrow> \<exists>ps. map_res (prove ls) is = Inr ps" for "is"
  proof (induction "is")
    case (Cons i "is")
    then show ?case using prove_total [of i ls] by auto
  qed simp
  then show ?thesis by simp
qed

end

interpretation mk: merkle_scheme "merkle_root cd" "merkle_proof cd" "process_proof cd" for cd
proof unfold_locales
  show "merkle_proof cd ls i = Inr p \<Longrightarrow> i < length ls \<Longrightarrow>
      merkle_root cd ls = Inr (process_proof cd p (ls ! i))" for ls i p
    by (auto simp: merkle_proof_def merkle_root_def process_proof_loop split: if_splits)
qed (auto simp: merkle_root_def merkle_proof_def)

text \<open>
  C4. Every proof verifies: for every leaf of every tree, of any size, \<open>merkle_proof\<close>
  succeeds and folding the proof over the leaf as the on-chain verifier does yields exactly
  \<open>merkle_root\<close>; an odd last node that moves up unchanged contributes no proof word.
\<close>

theorem merkle_proof_verifies:
  assumes "i < length leaves"
  shows "\<exists>p. merkle_proof cd leaves i = Inr p
    \<and> merkle_root cd leaves = Inr (process_proof cd p (leaves ! i))"
  using mk.prove_total [OF assms, of cd] mk.verifies [OF _ assms, of cd] by blast

text \<open>
  Proofs are short: in a tree of at most \<open>2^k\<close> leaves a proof has at most \<open>k\<close> words.
\<close>

lemma merkle_proof_short:
  assumes "merkle_proof cd leaves i = Inr p" and "length leaves \<le> 2 ^ k"
  shows "length p \<le> k"
  using assms length_proof_loop by (auto simp: merkle_proof_def split: if_splits)

definition toy_codec :: codec where
  "toy_codec = \<lparr>sha256 = (\<lambda>bs. of_nat (be_value bs)), keccak256 = (\<lambda>bs. of_nat (be_value bs) + 1),
     abi_root = (\<lambda>(i, t, s, p). p), abi_root_value = (\<lambda>(i, t, s, p, v). p),
     abi_nested_leaf = np_storage_updates, abi_expiry = (\<lambda>_. []), abi_witness = w_storage_updates\<rparr>"

theorem merkle_proof_verifies_witness:
  "\<exists>p. merkle_proof toy_codec [1, 2, 3] 2 = Inr p
    \<and> merkle_root toy_codec [1, 2, 3] = Inr (process_proof toy_codec p 3)"
  using merkle_proof_verifies [of 2 "[1, 2, 3]" toy_codec] by simp

end
