(* ===== verification/Frame_Tree.thy ===== *)
theory Frame_Tree
  imports Frame_Scan Merkle
begin

text \<open>
  The walker of \<^verbatim>\<open>crates/core/src/nested.rs\<close>: \<open>split_frame_tree\<close> up to its final slice, with
  canonical state checkpointing. A \<open>walk_frame\<close> is an open EVM frame with the storage
  journal it has accumulated, a \<open>program_state\<close> the program of one nested frame. The frame
  stack is kept top first (the source's \<open>frames.last()\<close> is the head); \<open>programs\<close> keeps the
  source's order, its indices being the program ids.
\<close>

section \<open>State\<close>

record nesting_cost_model =
  frame_overhead_gas :: u64
  witness_byte_gas :: u64
  witness_byte_gas_per_level :: u64

definition NESTING_COST_MODEL_V1 :: nesting_cost_model where
  "NESTING_COST_MODEL_V1 = \<lparr>frame_overhead_gas = 20000, witness_byte_gas = 16,
     witness_byte_gas_per_level = 1\<rparr>"

record frame_program =
  fp_target :: address
  fp_caller :: address
  fp_value :: u256
  fp_calldata_hash :: b256
  fp_transition_index :: "u256 option"
  fp_updates :: "state_update list"
  fp_children :: "nat list"

record frame_tree_extract =
  ft_frames :: "frame_program list"
  ft_skipped_opcodes :: "string set"
  ft_call_gas_total :: u64
  ft_callee_gas_total :: u64
  ft_create_gas_total :: u64
  counter_moves :: "address list"

record program_state =
  p_target :: address
  p_caller :: address
  p_value :: u256
  p_calldata_hash :: b256
  p_transition_index :: "u256 option"
  p_parent :: "nat option"
  p_updates :: "state_update list option"
  p_children :: "nat list"
  p_fallback :: "call_op option"
  p_dropped :: bool
  p_native_gas :: u64
  p_effect_gas :: u64
  p_child_call_gas :: u64
  p_direct_call_gas :: u64
  p_native_callee_gas :: u64
  p_direct_callee_gas :: u64
  p_direct_create_gas :: u64
  p_pruned :: bool

type_synonym slots = "(b256, b256) omap"
type_synonym journal = "(address, slots) omap"

record walk_frame =
  wf_depth :: nat
  wf_ctx :: "address option"
  wf_program :: "nat option"
  wf_journal :: journal
  wf_out :: "state_update list"
  wf_call_gas :: u64
  wf_callee_gas :: u64
  wf_create_gas :: u64
  wf_entry_gas :: u64
  wf_call_gas_cost :: u64
  wf_view :: slots
  wf_emitted_call_gas :: "u64 option"
  wf_emitted_create :: bool
  wf_nested_start_gas :: "u64 option"
  wf_first_program :: nat

record pending_frame =
  pf_parent_depth :: nat
  pf_ctx :: "address option"
  pf_program :: "nat option"
  pf_view :: slots
  pf_emitted_call_gas :: "u64 option"
  pf_emitted_create :: bool
  pf_nested_start_gas :: "u64 option"
  pf_call_gas_cost :: u64

record walk_state =
  frames :: "walk_frame list"
  programs :: "program_state list"
  pending :: "pending_frame option"
  skipped :: "string set"

definition new_program ::
  "address \<Rightarrow> address \<Rightarrow> u256 \<Rightarrow> b256 \<Rightarrow> u256 option \<Rightarrow> nat option \<Rightarrow> call_op option \<Rightarrow> program_state" where
  "new_program target caller value calldata_hash transition_index parent fallback =
     \<lparr>p_target = target, p_caller = caller, p_value = value, p_calldata_hash = calldata_hash,
      p_transition_index = transition_index, p_parent = parent, p_updates = None, p_children = [],
      p_fallback = fallback, p_dropped = False, p_native_gas = 0, p_effect_gas = 0,
      p_child_call_gas = 0, p_direct_call_gas = 0, p_native_callee_gas = 0,
      p_direct_callee_gas = 0, p_direct_create_gas = 0, p_pruned = False\<rparr>"

definition root_walk_frame :: "address \<Rightarrow> walk_frame" where
  "root_walk_frame root =
     \<lparr>wf_depth = 1, wf_ctx = Some root, wf_program = Some 0, wf_journal = [], wf_out = [],
      wf_call_gas = 0, wf_callee_gas = 0, wf_create_gas = 0, wf_entry_gas = 0, wf_call_gas_cost = 0,
      wf_view = [], wf_emitted_call_gas = None, wf_emitted_create = False,
      wf_nested_start_gas = None, wf_first_program = 0\<rparr>"

definition init_walk :: "address \<Rightarrow> u256 option \<Rightarrow> walk_state" where
  "init_walk root root_idx =
     \<lparr>frames = [root_walk_frame root], programs = [new_program root 0 0 0 root_idx None None],
      pending = None, skipped = {}\<rparr>"

text \<open>Indexing \<open>programs\<close> and \<open>frames.last()\<close>, with the source's panics.\<close>

definition program_at :: "nat \<Rightarrow> walk_state \<Rightarrow> program_state res" where
  "program_at p s = (if p < length (programs s) then Inr (programs s ! p)
     else Inl (Panic ''index out of bounds''))"

definition update_program :: "nat \<Rightarrow> (program_state \<Rightarrow> program_state) \<Rightarrow> walk_state \<Rightarrow> walk_state res" where
  "update_program p f s =
     bind_res (program_at p s) (\<lambda>ps. Inr (s\<lparr>programs := (programs s)[p := f ps]\<rparr>))"

definition top_frame :: "walk_state \<Rightarrow> walk_frame res" where
  "top_frame s = (case frames s of [] \<Rightarrow> Inl (Panic ''root frame must remain'') | f # _ \<Rightarrow> Inr f)"

definition update_top :: "(walk_frame \<Rightarrow> walk_frame) \<Rightarrow> walk_state \<Rightarrow> walk_state res" where
  "update_top f s =
     (case frames s of [] \<Rightarrow> Inl (Panic ''root frame must remain'')
      | fr # rest \<Rightarrow> Inr (s\<lparr>frames := f fr # rest\<rparr>))"

section \<open>Slices\<close>

definition journal_at :: "journal \<Rightarrow> address \<Rightarrow> slots" where
  "journal_at j a = (case map_of j a of None \<Rightarrow> [] | Some sl \<Rightarrow> sl)"

text \<open>Every open frame's journal for the target, merged bottom-up.\<close>

definition visible_image :: "walk_frame list \<Rightarrow> address \<Rightarrow> slots" where
  "visible_image fs target =
     fold (\<lambda>f image. om_extend image (journal_at (wf_journal f) target)) (rev fs) []"

fun flush_slots :: "slots \<Rightarrow> walk_frame \<Rightarrow> walk_frame" where
  "flush_slots [] f = f"
| "flush_slots ((slot, value) # rest) f =
     flush_slots rest
       (if map_of (wf_view f) slot \<noteq> Some value
        then f\<lparr>wf_out := wf_out f @ [Store slot value], wf_view := om_insert slot value (wf_view f)\<rparr>
        else f)"

definition flush_slice :: "walk_state \<Rightarrow> walk_state res" where
  "flush_slice s =
     bind_res (top_frame s) (\<lambda>cur.
     case wf_program cur of
       None \<Rightarrow> Inl (Panic ''only emitting frames flush'')
     | Some p \<Rightarrow> bind_res (program_at p s) (\<lambda>ps.
         update_top (flush_slots (visible_image (frames s) (p_target ps))) s))"

text \<open>The slots of \<open>journal\<close> that belong to the target of the frame's program.\<close>

definition overwritten :: "program_state list \<Rightarrow> journal \<Rightarrow> walk_frame \<Rightarrow> b256 list res" where
  "overwritten ps jr f =
     (case wf_program f of
        None \<Rightarrow> Inr []
      | Some p \<Rightarrow> if p < length ps then Inr (om_keys (journal_at jr (p_target (ps ! p))))
                  else Inl (Panic ''index out of bounds''))"

definition forget_overwritten :: "journal \<Rightarrow> walk_state \<Rightarrow> walk_state res" where
  "forget_overwritten jr s =
     bind_res (map_res (\<lambda>f. bind_res (overwritten (programs s) jr f) (\<lambda>ks.
         Inr (f\<lparr>wf_view := fold om_remove ks (wf_view f)\<rparr>))) (frames s)) (\<lambda>fs.
     Inr (s\<lparr>frames := fs\<rparr>))"

definition merge_journal :: "journal \<Rightarrow> journal \<Rightarrow> journal" where
  "merge_journal parent child =
     fold (\<lambda>(a, sl) j. om_insert a (om_extend (journal_at j a) sl) j) child parent"

section \<open>Opening a frame\<close>

text \<open>Gas of a finished call or create, charged to the frame and program that made it.\<close>

definition charge_caller :: "bool \<Rightarrow> u64 \<Rightarrow> u64 \<Rightarrow> walk_state \<Rightarrow> walk_state res" where
  "charge_caller is_create_op g callee s =
     bind_res (update_top (\<lambda>f. if is_create_op then f\<lparr>wf_create_gas := wf_create_gas f + g\<rparr>
                 else f\<lparr>wf_call_gas := wf_call_gas f + g, wf_callee_gas := wf_callee_gas f + callee\<rparr>) s) (\<lambda>s.
     bind_res (top_frame s) (\<lambda>caller.
     case wf_program caller of
       None \<Rightarrow> Inr s
     | Some p \<Rightarrow> update_program p (\<lambda>ps. ps\<lparr>p_child_call_gas := p_child_call_gas ps + g\<rparr>) s))"

definition opened_frame :: "struct_log \<Rightarrow> pending_frame \<Rightarrow> nat \<Rightarrow> walk_frame" where
  "opened_frame log p next_program =
     \<lparr>wf_depth = depth log, wf_ctx = pf_ctx p, wf_program = pf_program p, wf_journal = [],
      wf_out = [], wf_call_gas = 0, wf_callee_gas = 0, wf_create_gas = 0, wf_entry_gas = gas log,
      wf_call_gas_cost = pf_call_gas_cost p, wf_view = pf_view p,
      wf_emitted_call_gas = pf_emitted_call_gas p, wf_emitted_create = pf_emitted_create p,
      wf_nested_start_gas = pf_nested_start_gas p,
      wf_first_program = (case (pf_nested_start_gas p, pf_program p) of
                            (Some _, Some pid) \<Rightarrow> pid | _ \<Rightarrow> next_program)\<rparr>"

definition not_deployed :: "struct_log \<Rightarrow> bool" where
  "not_deployed log \<longleftrightarrow> stack_top log = None \<or> stack_top log = Some 0"

definition take_pending :: "struct_log \<Rightarrow> walk_state \<Rightarrow> walk_state res" where
  "take_pending log s =
     (case pending s of
        None \<Rightarrow> Inr s
      | Some p \<Rightarrow>
          (let s = s\<lparr>pending := None\<rparr>
           in if depth log = pf_parent_depth p + 1
              then Inr (s\<lparr>frames := opened_frame log p (length (programs s)) # frames s\<rparr>)
              else if pf_nested_start_gas p \<noteq> None then Inl (OpenedNoFrame (pf_parent_depth p))
              else if pf_emitted_create p \<and> not_deployed log then Inl (FailedCreate (pf_parent_depth p))
              else (case pf_emitted_call_gas p of
                      None \<Rightarrow> Inr s
                    | Some g \<Rightarrow> charge_caller (pf_emitted_create p) (sat_sub g (gas log)) 0 s)))"

section \<open>Closing frames\<close>

text \<open>The success flag the resume log carries on top of the parent's stack.\<close>

definition resume_success :: "struct_log \<Rightarrow> bool res" where
  "resume_success log =
     (case stack log of
        None \<Rightarrow> Inl (ResumeNoStack (depth log))
      | Some st \<Rightarrow> if st = [] then Inl (ResumeEmptyStack (depth log)) else Inr (last st \<noteq> 0))"

definition drop_programs :: "nat \<Rightarrow> walk_state \<Rightarrow> walk_state res" where
  "drop_programs first s =
     (if first \<le> length (programs s)
      then Inr (s\<lparr>programs := take first (programs s)
                  @ map (\<lambda>p. p\<lparr>p_dropped := True\<rparr>) (drop first (programs s))\<rparr>)
      else Inl (Panic ''slice out of bounds''))"

definition merge_into_parent :: "walk_frame \<Rightarrow> walk_state \<Rightarrow> walk_state res" where
  "merge_into_parent frame s =
     update_top (\<lambda>parent. parent\<lparr>wf_journal := merge_journal (wf_journal parent) (wf_journal frame)\<rparr>) s"

definition finish_nested :: "struct_log \<Rightarrow> u64 \<Rightarrow> walk_frame \<Rightarrow> nat \<Rightarrow> nat option \<Rightarrow> walk_state \<Rightarrow> walk_state res" where
  "finish_nested log start_gas frame pid parent_program s =
     (let native = sat_sub start_gas (gas log)
      in bind_res (update_program pid (\<lambda>ps. ps\<lparr>p_native_gas := native,
             p_native_callee_gas := callee_gas native (wf_call_gas_cost frame) (Some (wf_entry_gas frame)),
             p_updates := Some (wf_out frame), p_direct_call_gas := wf_call_gas frame,
             p_direct_callee_gas := wf_callee_gas frame, p_direct_create_gas := wf_create_gas frame\<rparr>) s) (\<lambda>s.
         bind_res (case parent_program of
             None \<Rightarrow> Inr s
           | Some p \<Rightarrow> update_program p (\<lambda>ps. ps\<lparr>p_child_call_gas := p_child_call_gas ps + native\<rparr>) s) (\<lambda>s.
         bind_res (forget_overwritten (wf_journal frame) s) (merge_into_parent frame))))"

definition revert_nested :: "walk_state \<Rightarrow> walk_state res" where
  "revert_nested s =
     bind_res (top_frame s) (\<lambda>parent.
     if wf_out parent \<noteq> [] \<and> is_nested (last (wf_out parent))
     then update_top (\<lambda>parent. parent\<lparr>wf_out := butlast (wf_out parent)\<rparr>) s
     else Inl OpNotLast)"

definition finish_plain :: "walk_frame \<Rightarrow> walk_state \<Rightarrow> walk_state res" where
  "finish_plain frame s =
     bind_res (if wf_program frame = None then forget_overwritten (wf_journal frame) s else Inr s) (\<lambda>s.
     bind_res (merge_into_parent frame s) (\<lambda>s.
     update_top (\<lambda>parent. parent\<lparr>wf_out := wf_out parent @ wf_out frame,
        wf_call_gas := wf_call_gas parent + wf_call_gas frame,
        wf_callee_gas := wf_callee_gas parent + wf_callee_gas frame,
        wf_create_gas := wf_create_gas parent + wf_create_gas frame,
        wf_view := (if wf_program frame \<noteq> None then wf_view frame else wf_view parent)\<rparr>) s))"

text \<open>What remains once the frame is popped: accounting, then by kind of frame and outcome.\<close>

definition settle_frame :: "struct_log \<Rightarrow> bool \<Rightarrow> walk_frame \<Rightarrow> walk_state \<Rightarrow> walk_state res" where
  "settle_frame log success frame s =
     (if wf_emitted_create frame \<and> \<not> success then Inl (FailedCreate (depth log))
      else
        (let parent_program = (case frames s of [] \<Rightarrow> None | f # _ \<Rightarrow> wf_program f)
         in bind_res (if success then Inr s else drop_programs (wf_first_program frame) s) (\<lambda>s.
            bind_res (case wf_emitted_call_gas frame of
                None \<Rightarrow> Inr s
              | Some g0 \<Rightarrow>
                  (let g = sat_sub g0 (gas log)
                   in charge_caller (wf_emitted_create frame) g
                        (callee_gas g (wf_call_gas_cost frame) (Some (wf_entry_gas frame))) s)) (\<lambda>s.
            case wf_nested_start_gas frame of
              Some start_gas \<Rightarrow>
                (case wf_program frame of
                   None \<Rightarrow> Inl (Panic ''a nested frame emits'')
                 | Some pid \<Rightarrow>
                     if success then finish_nested log start_gas frame pid parent_program s
                     else revert_nested s)
            | None \<Rightarrow> if success then finish_plain frame s else Inr s))))"

definition close_frame :: "struct_log \<Rightarrow> walk_state \<Rightarrow> walk_state res" where
  "close_frame log s =
     bind_res (top_frame s) (\<lambda>top.
     if wf_depth top \<noteq> depth log + 1 then Inl (DepthJumped (wf_depth top) (depth log))
     else bind_res (resume_success log) (\<lambda>success.
     bind_res (if success \<and> wf_nested_start_gas top \<noteq> None then flush_slice s else Inr s) (\<lambda>s.
     bind_res (top_frame s) (\<lambda>frame.
     settle_frame log success frame (s\<lparr>frames := tl (frames s)\<rparr>)))))"

lemma update_top_length: "update_top f s = Inr s' \<Longrightarrow> length (frames s') = length (frames s)"
  by (auto simp: update_top_def split: list.splits)

lemma update_program_frames: "update_program p f s = Inr s' \<Longrightarrow> frames s' = frames s"
  by (auto simp: update_program_def res_simps)

lemma flush_slice_length: "flush_slice s = Inr s' \<Longrightarrow> length (frames s') = length (frames s)"
  by (auto simp: flush_slice_def res_simps split: option.splits dest: update_top_length)

lemma forget_overwritten_length:
  "forget_overwritten jr s = Inr s' \<Longrightarrow> length (frames s') = length (frames s)"
  by (auto simp: forget_overwritten_def res_simps dest: map_res_length)

lemma charge_caller_length:
  "charge_caller b g c s = Inr s' \<Longrightarrow> length (frames s') = length (frames s)"
  by (auto simp: charge_caller_def res_simps split: option.splits
      dest!: update_top_length update_program_frames)

lemma drop_programs_frames: "drop_programs n s = Inr s' \<Longrightarrow> frames s' = frames s"
  by (auto simp: drop_programs_def split: if_splits)

lemma finish_nested_length:
  "finish_nested log g fr pid pp s = Inr s' \<Longrightarrow> length (frames s') = length (frames s)"
  by (auto simp: finish_nested_def merge_into_parent_def Let_def res_simps split: option.splits
      dest!: update_top_length update_program_frames forget_overwritten_length)

lemma finish_plain_length: "finish_plain fr s = Inr s' \<Longrightarrow> length (frames s') = length (frames s)"
  by (auto simp: finish_plain_def merge_into_parent_def res_simps split: if_splits
      dest!: update_top_length forget_overwritten_length)

lemma settle_frame_length:
  "settle_frame log ok fr s = Inr s' \<Longrightarrow> length (frames s') = length (frames s)"
  by (auto simp: settle_frame_def revert_nested_def Let_def res_simps split: option.splits if_splits
      dest!: update_top_length charge_caller_length drop_programs_frames finish_nested_length
        finish_plain_length)

lemma top_frame_Inr [simp]: "top_frame s = Inr f \<longleftrightarrow> (\<exists>rest. frames s = f # rest)"
  by (auto simp: top_frame_def split: list.splits)

lemma close_frame_elim:
  assumes "close_frame log s = Inr s'"
  obtains top others success s1 frame rest where
    "frames s = top # others" "wf_depth top = depth log + 1" "resume_success log = Inr success"
    "(if success \<and> wf_nested_start_gas top \<noteq> None then flush_slice s else Inr s) = Inr s1"
    "frames s1 = frame # rest"
    "settle_frame log success frame (s1\<lparr>frames := rest\<rparr>) = Inr s'"
proof -
  obtain top others where top: "frames s = top # others"
    using assms by (cases "frames s") (auto simp: close_frame_def top_frame_def)
  then have d: "wf_depth top = depth log + 1"
    using assms by (auto simp: close_frame_def top_frame_def split: if_splits)
  have a: "bind_res (resume_success log) (\<lambda>success.
     bind_res (if success \<and> wf_nested_start_gas top \<noteq> None then flush_slice s else Inr s) (\<lambda>s.
     bind_res (top_frame s) (\<lambda>frame.
     settle_frame log success frame (s\<lparr>frames := tl (frames s)\<rparr>)))) = Inr s'"
    using assms top d unfolding close_frame_def by (simp add: top_frame_def [of s])
  then obtain success s1 frame rest where "resume_success log = Inr success"
    "(if success \<and> wf_nested_start_gas top \<noteq> None then flush_slice s else Inr s) = Inr s1"
    "frames s1 = frame # rest"
    "settle_frame log success frame (s1\<lparr>frames := tl (frames s1)\<rparr>) = Inr s'"
    unfolding bind_res_Inr_iff top_frame_Inr by blast
  with top d show thesis by (intro that) auto
qed

lemma close_frame_length: "close_frame log s = Inr s' \<Longrightarrow> length (frames s') < length (frames s)"
proof (elim close_frame_elim)
  fix success top s1 frame rest
  assume "(if success \<and> wf_nested_start_gas top \<noteq> None then flush_slice s else Inr s) = Inr s1"
    and s1: "frames s1 = frame # rest"
    and "settle_frame log success frame (s1\<lparr>frames := rest\<rparr>) = Inr s'"
  then have "length (frames s1) = length (frames s)" "length (frames s') = length rest"
    by (auto split: if_splits dest!: settle_frame_length flush_slice_length)
  with s1 show ?thesis by simp
qed

text \<open>The loop that pops every frame deeper than the log.\<close>

function close_frames :: "struct_log \<Rightarrow> walk_state \<Rightarrow> walk_state res" where
  "close_frames log s =
     (case frames s of
        [] \<Rightarrow> if 1 > depth log then Inl (Panic ''frame stack underflow'') else Inr s
      | f # _ \<Rightarrow> if wf_depth f > depth log then bind_res (close_frame log s) (close_frames log) else Inr s)"
  by auto
termination
  by (relation "measure (\<lambda>(log, s). length (frames s))") (auto dest: close_frame_length)

declare close_frames.simps [simp del]

section \<open>Which calls become frames\<close>

datatype eligibility =
    Consumers "address \<Rightarrow> bool"
  | Hypothetical "address list"

definition frame_index :: "eligibility \<Rightarrow> candidate option \<Rightarrow> address option \<Rightarrow> u256 option" where
  "frame_index el cand callee =
     (case (cand, callee) of
        (Some c, Some a) \<Rightarrow>
          if unsupported_op c then None
          else (case (el, c_bump c) of
                  (Consumers is_nestable, First index) \<Rightarrow> if is_nestable a then Some index else None
                | (Hypothetical owned, b) \<Rightarrow>
                    if a \<in> set owned
                    then Some (case b of First index \<Rightarrow> index | _ \<Rightarrow> 0) else None
                | _ \<Rightarrow> None)
      | _ \<Rightarrow> None)"

section \<open>Visiting an opcode\<close>

definition callee_of :: "struct_log \<Rightarrow> address option" where
  "callee_of log = map_option address_from_word (top_of log 1)"

definition visit_sstore :: "struct_log \<Rightarrow> walk_frame \<Rightarrow> walk_state \<Rightarrow> walk_state res" where
  "visit_sstore log cur s =
     (case wf_ctx cur of
        None \<Rightarrow> Inr s
      | Some ctx \<Rightarrow>
          if error log \<noteq> None then Inr s
          else (case stack log of
              None \<Rightarrow> Inl (LogNoStack ''SSTORE'')
            | Some st \<Rightarrow>
                bind_res (stack_at (rev st) 0) (\<lambda>slot. bind_res (stack_at (rev st) 1) (\<lambda>value.
                bind_res (update_top (\<lambda>f. f\<lparr>wf_journal :=
                    om_insert ctx (om_insert slot value (journal_at (wf_journal f) ctx)) (wf_journal f)\<rparr>) s) (\<lambda>s.
                case wf_program cur of
                  None \<Rightarrow> Inr s
                | Some p \<Rightarrow> bind_res (program_at p s) (\<lambda>ps.
                    if p_target ps = ctx
                    then update_program p (\<lambda>ps. ps\<lparr>p_effect_gas := p_effect_gas ps + gas_cost log\<rparr>) s
                    else Inr s))))))"

definition plain_pending :: "nat \<Rightarrow> address option \<Rightarrow> nat option \<Rightarrow> slots \<Rightarrow> pending_frame" where
  "plain_pending d ctx prog view =
     \<lparr>pf_parent_depth = d, pf_ctx = ctx, pf_program = prog, pf_view = view,
      pf_emitted_call_gas = None, pf_emitted_create = False, pf_nested_start_gas = None,
      pf_call_gas_cost = 0\<rparr>"

definition visit_delegate :: "struct_log \<Rightarrow> walk_frame \<Rightarrow> walk_state \<Rightarrow> walk_state" where
  "visit_delegate log cur s =
     (if error log \<noteq> None then s
      else s\<lparr>pending := Some (plain_pending (depth log) (wf_ctx cur) (wf_program cur)
               (if wf_program cur \<noteq> None then wf_view cur else []))\<rparr>)"

definition visit_static :: "struct_log \<Rightarrow> walk_state \<Rightarrow> walk_state res" where
  "visit_static log s =
     (if error log \<noteq> None then Inr s
      else if stack log = None then Inl (LogNoStack ''STATICCALL'')
      else Inr (s\<lparr>pending := Some (plain_pending (depth log) (callee_of log) None [])\<rparr>))"

text \<open>A \<open>CALL\<close> from an emitting frame: a slice, then a \<open>NESTED\<close> op or the \<open>CALL\<close> itself.\<close>

definition open_nested :: "(bytes \<Rightarrow> b256) \<Rightarrow> u64 \<Rightarrow> u256 \<Rightarrow> call_op \<Rightarrow> walk_frame \<Rightarrow> nat \<Rightarrow> pending_frame \<Rightarrow>
    walk_state \<Rightarrow> walk_state res" where
  "open_nested kecc gas_after index call cur parent next s =
     (let pid = length (programs s);
          caller = (case wf_ctx cur of None \<Rightarrow> 0 | Some a \<Rightarrow> a);
          s = s\<lparr>programs := programs s @ [new_program (call_target call) caller (call_value call)
                 (kecc (callargs call)) (Some index) (Some parent) (Some call)]\<rparr>
      in bind_res (update_program parent (\<lambda>ps. ps\<lparr>p_children := p_children ps @ [pid]\<rparr>) s) (\<lambda>s.
         bind_res (update_top (\<lambda>f. f\<lparr>wf_out := wf_out f
             @ [Nested (call_target call) (call_value call) 0]\<rparr>) s) (\<lambda>s.
         Inr (s\<lparr>pending := Some (next\<lparr>pf_program := Some pid, pf_nested_start_gas := Some gas_after\<rparr>)\<rparr>))))"

definition emit_call :: "hexd \<Rightarrow> (bytes \<Rightarrow> b256) \<Rightarrow> eligibility \<Rightarrow> (nat, candidate) omap \<Rightarrow> nat \<Rightarrow>
    struct_log \<Rightarrow> walk_frame \<Rightarrow> nat \<Rightarrow> pending_frame \<Rightarrow> walk_state \<Rightarrow> walk_state res" where
  "emit_call hexd kecc el cands log_index log cur parent next s =
     bind_res (flush_slice s) (\<lambda>s.
     bind_res (append_state_update_from_struct_log hexd [] log) (\<lambda>(decoded, sk).
     if sk \<noteq> None then Inl (Panic ''CALL is never a skipped opcode'')
     else if decoded = [] then Inl NoCallUpdate
     else
       (case (frame_index el (map_of cands log_index) (callee_of log), last decoded) of
          (Some index, Call call) \<Rightarrow> open_nested kecc (gas log) index call cur parent next s
        | (_, u) \<Rightarrow>
            bind_res (update_top (\<lambda>f. f\<lparr>wf_out := wf_out f @ [u]\<rparr>) s) (\<lambda>s.
            Inr (s\<lparr>pending := Some (next\<lparr>pf_emitted_call_gas := Some (gas log)\<rparr>)\<rparr>)))))"

definition visit_call :: "hexd \<Rightarrow> (bytes \<Rightarrow> b256) \<Rightarrow> eligibility \<Rightarrow> (nat, candidate) omap \<Rightarrow> nat \<Rightarrow>
    struct_log \<Rightarrow> walk_frame \<Rightarrow> walk_state \<Rightarrow> walk_state res" where
  "visit_call hexd kecc el cands log_index log cur s =
     (if stack log = None then Inl (LogNoStack ''CALL'')
      else
        (let next = (plain_pending (depth log) (callee_of log) None [])\<lparr>pf_call_gas_cost := gas_cost log\<rparr>
         in if error log \<noteq> None then Inr s
            else (case wf_program cur of
                    Some parent \<Rightarrow> emit_call hexd kecc el cands log_index log cur parent next s
                  | None \<Rightarrow> Inr (s\<lparr>pending := Some next\<rparr>))))"

definition append_to_top :: "hexd \<Rightarrow> struct_log \<Rightarrow> walk_state \<Rightarrow> (walk_state \<times> string option) res" where
  "append_to_top hexd log s =
     bind_res (top_frame s) (\<lambda>f.
     bind_res (append_state_update_from_struct_log hexd (wf_out f) log) (\<lambda>(us, sk).
     bind_res (update_top (\<lambda>f. f\<lparr>wf_out := us\<rparr>) s) (\<lambda>s. Inr (s, sk))))"

definition visit_create :: "hexd \<Rightarrow> struct_log \<Rightarrow> walk_frame \<Rightarrow> walk_state \<Rightarrow> walk_state res" where
  "visit_create hexd log cur s =
     (let emitted = (wf_program cur \<noteq> None \<and> error log = None)
      in bind_res (if emitted
            then bind_res (flush_slice s) (\<lambda>s.
                 bind_res (append_to_top hexd log s) (\<lambda>(s, sk).
                 if sk \<noteq> None then Inl (Panic ''CREATE/CREATE2 are never skipped opcodes'') else Inr s))
            else Inr s) (\<lambda>s.
         if error log \<noteq> None then Inr s
         else Inr (s\<lparr>pending := Some ((plain_pending (depth log) None None [])
                \<lparr>pf_emitted_call_gas := (if emitted then Some (gas log) else None),
                 pf_emitted_create := emitted\<rparr>)\<rparr>)))"

definition visit_log :: "hexd \<Rightarrow> struct_log \<Rightarrow> walk_frame \<Rightarrow> walk_state \<Rightarrow> walk_state res" where
  "visit_log hexd log cur s =
     (case wf_program cur of
        None \<Rightarrow> Inr s
      | Some p \<Rightarrow>
          if error log \<noteq> None then Inr s
          else bind_res (append_to_top hexd log s) (\<lambda>(s, _).
               update_program p (\<lambda>ps. ps\<lparr>p_effect_gas := p_effect_gas ps + gas_cost log\<rparr>) s))"

definition walk_op :: "hexd \<Rightarrow> (bytes \<Rightarrow> b256) \<Rightarrow> eligibility \<Rightarrow> (nat, candidate) omap \<Rightarrow> nat \<Rightarrow>
    struct_log \<Rightarrow> walk_state \<Rightarrow> walk_state res" where
  "walk_op hexd kecc el cands log_index log s =
     bind_res (top_frame s) (\<lambda>cur.
     if op log = ''SSTORE'' then visit_sstore log cur s
     else if op log = ''TSTORE'' \<or> op log = ''SELFDESTRUCT'' then
       Inr (if wf_program cur \<noteq> None then s\<lparr>skipped := insert (op log) (skipped s)\<rparr> else s)
     else if op log = ''DELEGATECALL'' \<or> op log = ''CALLCODE'' then Inr (visit_delegate log cur s)
     else if op log = ''STATICCALL'' then visit_static log s
     else if op log = ''CALL'' then visit_call hexd kecc el cands log_index log cur s
     else if op log = ''CREATE'' \<or> op log = ''CREATE2'' then visit_create hexd log cur s
     else if op log \<in> {''LOG0'', ''LOG1'', ''LOG2'', ''LOG3'', ''LOG4''} then visit_log hexd log cur s
     else Inr s)"

definition walk_step :: "hexd \<Rightarrow> (bytes \<Rightarrow> b256) \<Rightarrow> eligibility \<Rightarrow> (nat, candidate) omap \<Rightarrow>
    walk_state \<Rightarrow> nat \<times> struct_log \<Rightarrow> walk_state res" where
  "walk_step hexd kecc el cands s ilog =
     (case ilog of (i, log) \<Rightarrow>
       bind_res (take_pending log s) (\<lambda>s.
       bind_res (close_frames log s) (walk_op hexd kecc el cands i log)))"

text \<open>The final slice; the root's program, and the contracts whose counter moved.\<close>

definition finish_walk :: "walk_state \<Rightarrow> (walk_state \<times> address list) res" where
  "finish_walk s =
     (if length (frames s) \<noteq> 1 then Inl (UnclosedFrames (length (frames s) - 1))
      else bind_res (flush_slice s) (\<lambda>s.
           bind_res (top_frame s) (\<lambda>root_frame.
           bind_res (update_program 0 (\<lambda>ps. ps\<lparr>p_updates := Some (wf_out root_frame),
               p_direct_call_gas := wf_call_gas root_frame,
               p_direct_callee_gas := wf_callee_gas root_frame,
               p_direct_create_gas := wf_create_gas root_frame\<rparr>) s) (\<lambda>s.
           Inr (s, map fst (filter (\<lambda>(a, sl). STATE_TRACKER_SLOT \<in> set (om_keys sl))
                      (wf_journal root_frame)))))))"

definition walk_trace :: "hexd \<Rightarrow> (bytes \<Rightarrow> b256) \<Rightarrow> eligibility \<Rightarrow> address \<Rightarrow> struct_log list \<Rightarrow>
    (walk_state \<times> address list) res" where
  "walk_trace hexd kecc el root lgs =
     bind_res (scan_candidates lgs root) (\<lambda>(cands, root_idx).
     bind_res (fold_res (walk_step hexd kecc el cands) (enumerate 0 lgs) (init_walk root root_idx))
       finish_walk)"

end
