(* ===== verification/Heuristic.thy ===== *)
theory Heuristic
  imports Encoding Trace
begin

text \<open>
  \<^verbatim>\<open>crates/core/src/heuristic.rs\<close>: the gas estimates used when a program is not simulated,
  and the fallback scan that counts operations straight off a trace. Gas is \<open>u64\<close> and
  wraps, as the release build does; the theorems say under which bound it does not.
\<close>

section \<open>Prices\<close>

definition BASE_TX_COST :: u64 where "BASE_TX_COST = 21000"

definition MAX_REFUND_QUOTIENT :: u64 where "MAX_REFUND_QUOTIENT = 5"

definition CALLDATA_ZERO_BYTE_COST :: u64 where "CALLDATA_ZERO_BYTE_COST = 4"

definition CALLDATA_NONZERO_BYTE_COST :: u64 where "CALLDATA_NONZERO_BYTE_COST = 16"

definition LOG_BASE_COST :: u64 where "LOG_BASE_COST = 375"

definition LOG_TOPIC_COST :: u64 where "LOG_TOPIC_COST = 375"

definition LOG_DATA_COST_PER_BYTE :: u64 where "LOG_DATA_COST_PER_BYTE = 8"

lemmas heuristic_costs = BASE_TX_COST_def MAX_REFUND_QUOTIENT_def CALLDATA_ZERO_BYTE_COST_def
  CALLDATA_NONZERO_BYTE_COST_def LOG_BASE_COST_def LOG_TOPIC_COST_def LOG_DATA_COST_PER_BYTE_def

section \<open>Estimates\<close>

definition calldata_gas :: "bytes \<Rightarrow> u64" where
  "calldata_gas data =
     sum_list (map (\<lambda>b. if b = 0 then CALLDATA_ZERO_BYTE_COST else CALLDATA_NONZERO_BYTE_COST) data)"

definition apply_refund :: "u64 \<Rightarrow> u64 \<Rightarrow> u64" where
  "apply_refund gross refund = gross - min refund (gross div MAX_REFUND_QUOTIENT)"

definition log_gas :: "u64 \<Rightarrow> bytes \<Rightarrow> u64" where
  "log_gas topics data =
     LOG_BASE_COST + LOG_TOPIC_COST * topics + of_nat (length data) * LOG_DATA_COST_PER_BYTE"

fun update_gas :: "state_update \<Rightarrow> u64" where
  "update_gas (Store _ _) = 0"
| "update_gas (Call _) = 0"
| "update_gas (Nested _ _ _) = 0"
| "update_gas (Log0 d) = log_gas 0 d"
| "update_gas (Log1 d _) = log_gas 1 d"
| "update_gas (Log2 d _ _) = log_gas 2 d"
| "update_gas (Log3 d _ _ _) = log_gas 3 d"
| "update_gas (Log4 d _ _ _ _) = log_gas 4 d"
| "update_gas (Create _ _) = 0"
| "update_gas (Create2 _ _ _) = 0"

definition estimate_gas_from_state_updates :: "abi_seq \<Rightarrow> trace_extract \<Rightarrow> u64" where
  "estimate_gas_from_state_updates abi_seq ex =
     (let g = BASE_TX_COST;
          g = g + calldata_gas (encode_state_updates_to_abi abi_seq (state_updates ex));
          g = g + call_gas_total ex;
          g = g + create_gas_total ex;
          g = g + sstore_gas_total ex;
          g = fold (\<lambda>u g. g + update_gas u) (state_updates ex) g
      in apply_refund g (tx_refund_counter ex))"

record trace_operations =
  ops_sstore_gas :: u64
  log_counts :: "u64 list"
  external_call_gas :: u64
  ops_refund :: u64

definition estimate_gas_from_operations :: "trace_operations \<Rightarrow> u64" where
  "estimate_gas_from_operations ops =
     (let g = BASE_TX_COST;
          g = g + ops_sstore_gas ops;
          g = g + log_counts ops ! 0 * LOG_BASE_COST;
          g = g + log_counts ops ! 1 * (LOG_BASE_COST + LOG_TOPIC_COST);
          g = g + log_counts ops ! 2 * (LOG_BASE_COST + LOG_TOPIC_COST * 2);
          g = g + log_counts ops ! 3 * (LOG_BASE_COST + LOG_TOPIC_COST * 3);
          g = g + log_counts ops ! 4 * (LOG_BASE_COST + LOG_TOPIC_COST * 4);
          g = g + external_call_gas ops
      in apply_refund g (ops_refund ops))"

section \<open>The fallback scan\<close>

record scan_state =
  sc_ops :: trace_operations
  gas_after_call_opcode :: "u64 option"
  previous_depth :: nat
  in_external_call :: bool
  sc_call_type :: "(nat, string) omap"
  current_call_type :: "string option"

definition init_scan :: "struct_log list \<Rightarrow> scan_state" where
  "init_scan logs = \<lparr>
     sc_ops = \<lparr>ops_sstore_gas = 0, log_counts = [0, 0, 0, 0, 0], external_call_gas = 0,
               ops_refund = final_refund logs\<rparr>,
     gas_after_call_opcode = None, previous_depth = 0, in_external_call = False,
     sc_call_type = [], current_call_type = None\<rparr>"

text \<open>The gas of a finished sub-call, added when the frame at depth two was a tracked one.\<close>

definition account_call :: "u64 \<Rightarrow> scan_state \<Rightarrow> scan_state" where
  "account_call gas_after_subcall s =
     (case gas_after_call_opcode s of
        None \<Rightarrow> s
      | Some gas_after_opcode \<Rightarrow>
          if map_of (sc_call_type s) 2 = Some ''CALL'' \<or> map_of (sc_call_type s) 2 = Some ''DELEGATECALL''
          then s\<lparr>sc_ops := (sc_ops s)\<lparr>external_call_gas :=
                   external_call_gas (sc_ops s) + sat_sub gas_after_opcode gas_after_subcall\<rparr>\<rparr>
          else s)"

definition track_depth :: "struct_log \<Rightarrow> scan_state \<Rightarrow> scan_state" where
  "track_depth log s =
     (if depth log = 1 \<and> previous_depth s = 2 then
        (if in_external_call s
         then (account_call (gas log) s)\<lparr>in_external_call := False, gas_after_call_opcode := None,
                sc_call_type := om_remove 2 (sc_call_type s), current_call_type := None\<rparr>
         else s)
      else if depth log = 2 \<and> previous_depth s = 1 then
        (case current_call_type s of
           Some t \<Rightarrow> s\<lparr>sc_call_type := om_insert 2 t (sc_call_type s), in_external_call := True\<rparr>
         | None \<Rightarrow> s\<lparr>in_external_call := True\<rparr>)
      else s)"

definition track_call :: "struct_log \<Rightarrow> scan_state \<Rightarrow> scan_state" where
  "track_call log s =
     (let s = (if op log = ''CALL'' \<and> depth log = 1
               then s\<lparr>gas_after_call_opcode := Some (gas log), current_call_type := Some ''CALL''\<rparr>
               else s);
          s = (if (op log = ''DELEGATECALL'' \<or> op log = ''CALLCODE'') \<and> depth log = 1
               then s\<lparr>current_call_type := Some ''DELEGATECALL''\<rparr> else s)
      in if op log = ''CALL'' \<and> depth log = 2 \<and> map_of (sc_call_type s) 2 = Some ''DELEGATECALL''
         then s\<lparr>gas_after_call_opcode := Some (gas log)\<rparr> else s)"

definition bump :: "nat \<Rightarrow> u64 list \<Rightarrow> u64 list" where
  "bump i xs = xs[i := xs ! i + 1]"

definition count_log :: "string \<Rightarrow> u64 \<Rightarrow> trace_operations \<Rightarrow> trace_operations" where
  "count_log opc cost ops =
     (if opc = ''SSTORE'' then ops\<lparr>ops_sstore_gas := ops_sstore_gas ops + cost\<rparr>
      else if opc = ''LOG0'' then ops\<lparr>log_counts := bump 0 (log_counts ops)\<rparr>
      else if opc = ''LOG1'' then ops\<lparr>log_counts := bump 1 (log_counts ops)\<rparr>
      else if opc = ''LOG2'' then ops\<lparr>log_counts := bump 2 (log_counts ops)\<rparr>
      else if opc = ''LOG3'' then ops\<lparr>log_counts := bump 3 (log_counts ops)\<rparr>
      else if opc = ''LOG4'' then ops\<lparr>log_counts := bump 4 (log_counts ops)\<rparr>
      else ops)"

definition count_op :: "struct_log \<Rightarrow> scan_state \<Rightarrow> scan_state" where
  "count_op log s =
     (if depth log = 1 \<or> depth log = 2 \<and> map_of (sc_call_type s) 2 = Some ''DELEGATECALL''
      then s\<lparr>sc_ops := count_log (op log) (gas_cost log) (sc_ops s)\<rparr>
      else s)"

definition scan_step :: "struct_log \<Rightarrow> scan_state \<Rightarrow> scan_state" where
  "scan_step log s = (count_op log (track_call log (track_depth log s)))\<lparr>previous_depth := depth log\<rparr>"

definition finish_scan :: "struct_log list \<Rightarrow> scan_state \<Rightarrow> trace_operations" where
  "finish_scan logs s =
     (if in_external_call s \<and> logs \<noteq> [] then sc_ops (account_call (gas (last logs)) s) else sc_ops s)"

definition extract_operation_counts_from_trace :: "default_frame \<Rightarrow> trace_operations" where
  "extract_operation_counts_from_trace trace =
     finish_scan (struct_logs trace) (fold scan_step (struct_logs trace) (init_scan (struct_logs trace)))"

section \<open>Bounds\<close>

lemma unat_sum_list_bounded:
  fixes f :: "'a \<Rightarrow> u64"
  shows "(\<Sum>x\<leftarrow>xs. unat (f x)) < 2 ^ 64 \<Longrightarrow> unat (\<Sum>x\<leftarrow>xs. f x) = (\<Sum>x\<leftarrow>xs. unat (f x))"
proof (induction xs)
  case (Cons x xs)
  then have "unat (\<Sum>x\<leftarrow>xs. f x) = (\<Sum>x\<leftarrow>xs. unat (f x))" by simp
  with Cons.prems show ?case by (simp add: unat_word_ariths)
qed simp

lemma calldata_nat_sum:
  "(\<Sum>b\<leftarrow>data. unat (if b = 0 then CALLDATA_ZERO_BYTE_COST else CALLDATA_NONZERO_BYTE_COST))
     = 4 * length (filter (\<lambda>b. b = 0) data) + 16 * length (filter (\<lambda>b. b \<noteq> 0) data)"
  by (induction data) (auto simp: heuristic_costs)

text \<open>
  Calldata pricing is EIP-2028's without wrap-around: for any payload below \<open>2^60\<close>
  bytes the result is four gas for each zero byte plus sixteen for each other byte.
\<close>

lemma calldata_gas_exact:
  assumes "length data < 2 ^ 60"
  shows "unat (calldata_gas data) =
    4 * length (filter (\<lambda>b. b = 0) data) + 16 * length (filter (\<lambda>b. b \<noteq> 0) data)"
proof -
  have "length (filter (\<lambda>b. b = 0) data) + length (filter (\<lambda>b. b \<noteq> 0) data) = length data"
    by (rule sum_length_filter_compl)
  then have "4 * length (filter (\<lambda>b. b = 0) data) + 16 * length (filter (\<lambda>b. b \<noteq> 0) data)
      \<le> 16 * length data" by linarith
  also have "\<dots> < 2 ^ 64" using assms by simp
  finally show ?thesis
    unfolding calldata_gas_def by (subst unat_sum_list_bounded) (simp_all add: calldata_nat_sum [symmetric])
qed

lemma apply_refund_net:
  "unat (apply_refund gross refund) = unat gross - min (unat refund) (unat gross div 5)"
proof -
  have "min refund (gross div 5) \<le> gross"
    by (auto simp: word_le_nat_alt unat_div min_def intro: order_trans [OF _ div_le_dividend])
  moreover have "unat (min refund (gross div 5)) = min (unat refund) (unat gross div 5)"
    by (simp add: min_def word_le_nat_alt unat_div)
  ultimately show ?thesis
    by (simp add: apply_refund_def MAX_REFUND_QUOTIENT_def unat_sub)
qed

text \<open>
  The refund cap: netting refunds never underflows, removes exactly
  \<open>min refund (gross / 5)\<close>, and so never takes off more than a fifth of the gross estimate
  nor more than the refund counter.
\<close>

lemma apply_refund_capped:
  "unat (apply_refund gross refund) = unat gross - min (unat refund) (unat gross div 5)
   \<and> apply_refund gross refund \<le> gross
   \<and> 5 * unat (apply_refund gross refund) \<ge> 4 * unat gross"
proof -
  have "unat (apply_refund gross refund) = unat gross - min (unat refund) (unat gross div 5)"
    by (rule apply_refund_net)
  then show ?thesis by (simp add: word_le_nat_alt)
qed

section \<open>What the fallback scan counts\<close>

lemma account_call_fields [simp]:
  "ops_sstore_gas (sc_ops (account_call g s)) = ops_sstore_gas (sc_ops s)"
  "log_counts (sc_ops (account_call g s)) = log_counts (sc_ops s)"
  "sc_call_type (account_call g s) = sc_call_type s"
  "current_call_type (account_call g s) = current_call_type s"
  by (auto simp: account_call_def split: option.splits)

lemma track_depth_ops [simp]:
  "ops_sstore_gas (sc_ops (track_depth log s)) = ops_sstore_gas (sc_ops s)"
  "log_counts (sc_ops (track_depth log s)) = log_counts (sc_ops s)"
  by (auto simp: track_depth_def split: option.splits)

lemma track_call_ops [simp]: "sc_ops (track_call log s) = sc_ops s"
  by (simp add: track_call_def Let_def)

text \<open>No delegate frame opened from depth one is on record.\<close>

definition no_delegate :: "scan_state \<Rightarrow> bool" where
  "no_delegate s \<longleftrightarrow> current_call_type s \<noteq> Some ''DELEGATECALL''
     \<and> map_of (sc_call_type s) 2 \<noteq> Some ''DELEGATECALL''"

lemma no_delegate_track:
  assumes "no_delegate s" and "\<not> (depth log = 1 \<and> enters_delegate log)"
  shows "no_delegate (track_call log (track_depth log s))"
proof -
  have "no_delegate (track_depth log s)"
    using assms(1) by (auto simp: no_delegate_def track_depth_def split: option.splits)
  then show ?thesis
    using assms(2) by (auto simp: no_delegate_def track_call_def Let_def enters_delegate_def)
qed

definition log_op :: "nat \<Rightarrow> string" where
  "log_op i = [''LOG0'', ''LOG1'', ''LOG2'', ''LOG3'', ''LOG4''] ! i"

lemma count_log_sstore:
  "ops_sstore_gas (count_log opc cost ops) = ops_sstore_gas ops + (if opc = ''SSTORE'' then cost else 0)"
  by (simp add: count_log_def)

lemma count_log_counts:
  assumes "length (log_counts ops) = 5" and "i < 5"
  shows "length (log_counts (count_log opc cost ops)) = 5"
    and "log_counts (count_log opc cost ops) ! i =
      log_counts ops ! i + (if opc = log_op i then 1 else 0)"
proof -
  have "i = 0 \<or> i = 1 \<or> i = 2 \<or> i = 3 \<or> i = 4" using assms(2) by auto
  then show "log_counts (count_log opc cost ops) ! i =
      log_counts ops ! i + (if opc = log_op i then 1 else 0)"
    using assms(1)
    by (elim disjE) (simp_all add: count_log_def bump_def log_op_def nth_list_update)
  show "length (log_counts (count_log opc cost ops)) = 5"
    using assms(1) by (simp add: count_log_def bump_def)
qed

lemma scan_step_counts:
  assumes inv: "no_delegate s" "length (log_counts (sc_ops s)) = 5"
    and nd: "\<not> (depth log = 1 \<and> enters_delegate log)"
  shows "no_delegate (scan_step log s)" "length (log_counts (sc_ops (scan_step log s))) = 5"
    "ops_sstore_gas (sc_ops (scan_step log s)) = ops_sstore_gas (sc_ops s)
       + (if depth log = 1 \<and> op log = ''SSTORE'' then gas_cost log else 0)"
    "i < 5 \<Longrightarrow> log_counts (sc_ops (scan_step log s)) ! i = log_counts (sc_ops s) ! i
       + (if depth log = 1 \<and> op log = log_op i then 1 else 0)"
proof -
  define s1 where "s1 = track_call log (track_depth log s)"
  have s1: "no_delegate s1" "length (log_counts (sc_ops s1)) = 5"
    "ops_sstore_gas (sc_ops s1) = ops_sstore_gas (sc_ops s)"
    "log_counts (sc_ops s1) = log_counts (sc_ops s)"
    using inv no_delegate_track [OF inv(1) nd] by (simp_all add: s1_def)
  have step: "scan_step log s = (count_op log s1)\<lparr>previous_depth := depth log\<rparr>"
    by (simp add: scan_step_def s1_def)
  have cnt: "sc_ops (count_op log s1) =
      (if depth log = 1 then count_log (op log) (gas_cost log) (sc_ops s1) else sc_ops s1)"
    using s1(1) by (simp add: count_op_def no_delegate_def)
  show "no_delegate (scan_step log s)"
    using s1(1) by (simp add: step no_delegate_def count_op_def)
  show "length (log_counts (sc_ops (scan_step log s))) = 5"
    using s1(2) count_log_counts(1) [OF s1(2), of 0] by (simp add: step cnt)
  show "ops_sstore_gas (sc_ops (scan_step log s)) = ops_sstore_gas (sc_ops s)
       + (if depth log = 1 \<and> op log = ''SSTORE'' then gas_cost log else 0)"
    by (simp add: step cnt count_log_sstore s1)
  show "i < 5 \<Longrightarrow> log_counts (sc_ops (scan_step log s)) ! i = log_counts (sc_ops s) ! i
       + (if depth log = 1 \<and> op log = log_op i then 1 else 0)"
    by (simp add: step cnt count_log_counts(2) [OF s1(2)] s1)
qed

lemma scan_fold_counts:
  assumes "no_delegate s" "length (log_counts (sc_ops s)) = 5"
    and "\<forall>log \<in> set logs. \<not> (depth log = 1 \<and> enters_delegate log)"
  shows "ops_sstore_gas (sc_ops (fold scan_step logs s)) = ops_sstore_gas (sc_ops s)
      + (\<Sum>l\<leftarrow>filter (\<lambda>l. depth l = 1 \<and> op l = ''SSTORE'') logs. gas_cost l)"
    and "i < 5 \<Longrightarrow> log_counts (sc_ops (fold scan_step logs s)) ! i = log_counts (sc_ops s) ! i
      + of_nat (length (filter (\<lambda>l. depth l = 1 \<and> op l = log_op i) logs))"
  using assms
proof (induction logs arbitrary: s)
  case (Cons log logs)
  {
    case 1
    then have nd: "\<not> (depth log = 1 \<and> enters_delegate log)" by simp
    note step = scan_step_counts [OF 1(1,2) nd]
    show ?case using Cons.IH(1) [OF step(1,2)] 1(3) by (simp add: step(3) add.assoc)
  next
    case 2
    then have nd: "\<not> (depth log = 1 \<and> enters_delegate log)" by simp
    note step = scan_step_counts [OF 2(2,3) nd]
    show ?case using Cons.IH(2) [OF 2(1) step(1,2)] 2(1,4) by (simp add: step(4) add.assoc)
  }
qed simp_all

text \<open>
  The fallback scan counts no operation twice: when the root frame opens no delegate
  frame, \<open>sstore_gas_total\<close> is the gas of exactly the depth-1 \<open>SSTORE\<close>s and each
  \<open>log_counts\<close> entry the number of depth-1 \<open>LOGi\<close>s, so nothing that runs inside an
  external call (whose gas is measured separately) is counted.
\<close>

lemma scan_counts_depth_one:
  assumes "\<forall>l \<in> set (struct_logs trace). \<not> (depth l = 1 \<and> enters_delegate l)"
  shows "ops_sstore_gas (extract_operation_counts_from_trace trace)
      = (\<Sum>l\<leftarrow>filter (\<lambda>l. depth l = 1 \<and> op l = ''SSTORE'') (struct_logs trace). gas_cost l)
    \<and> (\<forall>i < 5. log_counts (extract_operation_counts_from_trace trace) ! i
      = of_nat (length (filter (\<lambda>l. depth l = 1 \<and> op l = log_op i) (struct_logs trace))))"
proof -
  have init: "no_delegate (init_scan logs)" "length (log_counts (sc_ops (init_scan logs))) = 5"
    "ops_sstore_gas (sc_ops (init_scan logs)) = 0"
    "i < 5 \<Longrightarrow> log_counts (sc_ops (init_scan logs)) ! i = 0" for logs i
    by (auto simp: no_delegate_def init_scan_def less_Suc_eq eval_nat_numeral)
  show ?thesis
    using scan_fold_counts [OF init(1,2) assms]
    by (simp add: extract_operation_counts_from_trace_def finish_scan_def init)
qed

text \<open>
  A stale call type: a \<open>CALL\<close> that opens no frame (an account without code) leaves
  \<open>current_call_type\<close> and the gas at the opcode behind, so when the root frame later makes
  a \<open>STATICCALL\<close> that does open one, the scan charges everything since the \<open>CALL\<close>, the
  root's own \<open>SSTORE\<close> included, as external call gas, and that \<open>SSTORE\<close> is also counted
  on its own.
\<close>

lemma stale_call_type_double_counts:
  "let ops = extract_operation_counts_from_trace
       \<lparr>failed = False, frame_gas = 0, return_value = [], struct_logs =
         [sample_log ''CALL'' 1 100000 2600 [], sample_log ''SSTORE'' 1 97400 22100 [],
          sample_log ''STATICCALL'' 1 75300 2600 [], sample_log ''STOP'' 2 70000 0 [],
          sample_log ''STOP'' 1 72700 0 []]\<rparr>
   in ops_sstore_gas ops = 22100 \<and> external_call_gas ops = 27300"
  by (simp add: extract_operation_counts_from_trace_def init_scan_def scan_step_def track_depth_def
      track_call_def count_op_def count_log_def account_call_def finish_scan_def sample_log_def
      om_remove_def sat_sub_def final_refund_def)

section \<open>Estimates from below\<close>

lemma fold_add_gas: "fold (\<lambda>u g. g + update_gas u) us g = g + (\<Sum>u\<leftarrow>us. update_gas u)"
  by (induction us arbitrary: g) (simp_all add: add.assoc)

text \<open>The gross estimate, summed without wrap-around.\<close>

definition gross_estimate :: "abi_seq \<Rightarrow> trace_extract \<Rightarrow> nat" where
  "gross_estimate abi_seq ex =
     21000 + unat (calldata_gas (encode_state_updates_to_abi abi_seq (state_updates ex)))
       + unat (call_gas_total ex) + unat (create_gas_total ex) + unat (sstore_gas_total ex)
       + (\<Sum>u\<leftarrow>state_updates ex. unat (update_gas u))"

text \<open>
  The estimate of an extraction is the sum of its parts net of the capped refund: as
  long as the exact sum fits \<open>u64\<close>, the estimate is that sum less
  \<open>min refund (sum / 5)\<close>, the sum being the base transaction cost, the calldata cost of the
  encoded program, the measured call, create and storage gas, and the price of each log.
\<close>

lemma estimate_from_updates_exact:
  assumes "gross_estimate abi_seq ex < 2 ^ 64"
  shows "unat (estimate_gas_from_state_updates abi_seq ex) =
      gross_estimate abi_seq ex - min (unat (tx_refund_counter ex)) (gross_estimate abi_seq ex div 5)"
proof -
  define parts where "parts = [BASE_TX_COST,
    calldata_gas (encode_state_updates_to_abi abi_seq (state_updates ex)), call_gas_total ex,
    create_gas_total ex, sstore_gas_total ex] @ map update_gas (state_updates ex)"
  have est: "estimate_gas_from_state_updates abi_seq ex =
      apply_refund (\<Sum>x\<leftarrow>parts. x) (tx_refund_counter ex)"
    by (simp add: estimate_gas_from_state_updates_def Let_def fold_add_gas parts_def add.assoc)
  have "(\<Sum>x\<leftarrow>parts. unat x) = gross_estimate abi_seq ex"
    by (simp add: parts_def gross_estimate_def BASE_TX_COST_def o_def)
  then have "unat (\<Sum>x\<leftarrow>parts. x) = gross_estimate abi_seq ex"
    using unat_sum_list_bounded [of "\<lambda>x. x" parts] assms by simp
  then show ?thesis
    unfolding est by (simp add: apply_refund_net)
qed

lemma calldata_gas_append: "calldata_gas (xs @ ys) = calldata_gas xs + calldata_gas ys"
  by (simp add: calldata_gas_def)

lemma calldata_gas_zeros: "calldata_gas (replicate n 0) = of_nat n * 4"
  by (simp add: calldata_gas_def heuristic_costs sum_list_replicate)

lemma empty_calldata_gas: "calldata_gas (encode_state_updates_to_abi (\<lambda>_. []) []) = 536"
proof -
  have "calldata_gas (write_u256_word v) = 124 + calldata_gas [of_nat v]" if "v < 256" for v
    using that calldata_gas_zeros [of 31] by (simp add: write_small_word calldata_gas_append)
  then show ?thesis
    by (simp add: encode_state_updates_to_abi_layout calldata_gas_append)
      (simp add: calldata_gas_def heuristic_costs)
qed

end
