(* ===== verification/Frame_Prune.thy ===== *)
theory Frame_Prune
  imports Frame_Tree Encoding Heuristic
begin

text \<open>
  The second half of \<open>split_frame_tree\<close> (\<^verbatim>\<open>crates/core/src/nested.rs\<close>): dropping the programs of
  reverted frames, pruning frames that do not pay for their nesting, the gas totals, and
  the compaction into \<open>frame_program\<close>s; then the two public splits and the helpers that
  read a frame tree.
\<close>

definition ESTIMATED_PROOF_WORDS :: nat where "ESTIMATED_PROOF_WORDS = 8"

definition WITNESS_HEAD_BYTES :: nat where "WITNESS_HEAD_BYTES = 8 * 32"

section \<open>Dropped programs\<close>

definition parent_dropped :: "program_state list \<Rightarrow> nat \<Rightarrow> bool" where
  "parent_dropped ps i =
     (case p_parent (ps ! i) of None \<Rightarrow> False | Some q \<Rightarrow> q < length ps \<and> p_dropped (ps ! q))"

text \<open>One forward pass over the ids in \<open>is\<close>: a program whose parent is dropped is dropped.\<close>

definition drop_children :: "nat list \<Rightarrow> program_state list \<Rightarrow> program_state list" where
  "drop_children is ps =
     fold (\<lambda>i ps. if parent_dropped ps i then ps[i := (ps ! i)\<lparr>p_dropped := True\<rparr>] else ps) is ps"

definition drop_descendants_of_dropped :: "program_state list \<Rightarrow> program_state list" where
  "drop_descendants_of_dropped ps = drop_children [1..<length ps] ps"

definition retain_children :: "program_state list \<Rightarrow> program_state list" where
  "retain_children ps =
     map (\<lambda>p. p\<lparr>p_children := filter (\<lambda>c. \<not> p_dropped (ps ! c)) (p_children p)\<rparr>) ps"

section \<open>Pruning\<close>

text \<open>
  Walks the parent links; the source loops until a program has no parent. A program's
  parent has a smaller id, so \<open>Suc id\<close> steps are enough; running out is \<open>OutOfFuel\<close>.
\<close>

fun depth_of :: "nat \<Rightarrow> program_state list \<Rightarrow> nat \<Rightarrow> u64 res" where
  "depth_of 0 ps i = Inl OutOfFuel"
| "depth_of (Suc fuel) ps i =
     (if i < length ps
      then (case p_parent (ps ! i) of
              None \<Rightarrow> Inr 0
            | Some q \<Rightarrow> bind_res (depth_of fuel ps q) (\<lambda>d. Inr (d + 1)))
      else Inl (Panic ''index out of bounds''))"

text \<open>Replaces the \<open>n\<close>-th \<open>NESTED\<close> op.\<close>

fun replace_nested :: "nat \<Rightarrow> state_update \<Rightarrow> state_update list \<Rightarrow> state_update list option" where
  "replace_nested n u [] = None"
| "replace_nested n u (x # xs) =
     (if is_nested x
      then (case n of 0 \<Rightarrow> Some (u # xs) | Suc m \<Rightarrow> map_option ((#) x) (replace_nested m u xs))
      else map_option ((#) x) (replace_nested n u xs))"

fun position :: "nat \<Rightarrow> nat list \<Rightarrow> nat option" where
  "position x [] = None"
| "position x (y # ys) = (if y = x then Some 0 else map_option Suc (position x ys))"

definition remove_nth :: "nat \<Rightarrow> 'a list \<Rightarrow> 'a list" where
  "remove_nth n xs = take n xs @ drop (Suc n) xs"

definition expect :: "string \<Rightarrow> 'a option \<Rightarrow> 'a res" where
  "expect msg v = (case v of None \<Rightarrow> Inl (Panic msg) | Some x \<Rightarrow> Inr x)"

text \<open>Turns frame \<open>i\<close> back into the \<open>CALL\<close> it stood for, and drops its subtree.\<close>

definition prune_frame :: "nat \<Rightarrow> program_state list \<Rightarrow> program_state list res" where
  "prune_frame i ps =
     bind_res (expect ''non-root frames have a parent'' (p_parent (ps ! i))) (\<lambda>parent.
     if \<not> parent < length ps then Inl (Panic ''index out of bounds'')
     else
     bind_res (expect ''a kept frame is among its parent's children''
       (position i (p_children (ps ! parent)))) (\<lambda>pos.
     bind_res (expect ''nested frames keep their CALL'' (p_fallback (ps ! i))) (\<lambda>fallback.
     bind_res (expect ''a kept parent has a program'' (p_updates (ps ! parent))) (\<lambda>updates.
     bind_res (expect ''one NESTED op per child'' (replace_nested pos (Call fallback) updates)) (\<lambda>updates.
     let ps = ps[parent := (ps ! parent)\<lparr>p_updates := Some updates,
                   p_children := remove_nth pos (p_children (ps ! parent))\<rparr>];
         ps = ps[i := (ps ! i)\<lparr>p_dropped := True, p_pruned := True\<rparr>]
     in Inr (drop_children [i + 1..<length ps] ps))))))"

record prune_state =
  pr_programs :: "program_state list"
  witness_bytes :: "nat list"
  net_savings :: "u64 list"

definition computation :: "program_state \<Rightarrow> u64" where
  "computation p = sat_sub (sat_sub (p_native_gas p) (p_effect_gas p)) (p_child_call_gas p)"

definition nesting_overhead :: "nesting_cost_model \<Rightarrow> nat \<Rightarrow> u64 \<Rightarrow> u64" where
  "nesting_overhead cost bytes_len d =
     (let per_byte = witness_byte_gas cost + d * witness_byte_gas_per_level cost
      in sat_add (frame_overhead_gas cost) (sat_mul (of_nat bytes_len) per_byte))"

definition prune_step :: "abi_seq \<Rightarrow> nesting_cost_model \<Rightarrow> prune_state \<Rightarrow> nat \<Rightarrow> prune_state res" where
  "prune_step abi_seq cost st i =
     (let ps = pr_programs st; p = ps ! i
      in if p_dropped p then Inr st
         else
           (let program_bytes = length (encode_state_updates_to_abi abi_seq
                  (case p_updates p of None \<Rightarrow> [] | Some us \<Rightarrow> us));
                children_bytes = sum_list (map (\<lambda>c. witness_bytes st ! c) (p_children p));
                wb = WITNESS_HEAD_BYTES + program_bytes + ESTIMATED_PROOF_WORDS * 32 + children_bytes;
                st = st\<lparr>witness_bytes := (witness_bytes st)[i := wb]\<rparr>
            in bind_res (depth_of (Suc (length ps)) ps i) (\<lambda>d.
               let overhead = nesting_overhead cost wb d;
                   children_savings = sum_list (map (\<lambda>c. net_savings st ! c) (p_children p));
                   benefit = sat_add (computation p) children_savings
               in if benefit > overhead
                  then Inr (st\<lparr>net_savings := (net_savings st)[i := benefit - overhead]\<rparr>)
                  else bind_res (prune_frame i ps) (\<lambda>ps. Inr (st\<lparr>pr_programs := ps\<rparr>)))))"

definition prune_unprofitable :: "abi_seq \<Rightarrow> nesting_cost_model \<Rightarrow> program_state list \<Rightarrow> program_state list res" where
  "prune_unprofitable abi_seq cost ps =
     bind_res (fold_res (prune_step abi_seq cost) (rev [1..<length ps])
        \<lparr>pr_programs = ps, witness_bytes = replicate (length ps) 0, net_savings = replicate (length ps) 0\<rparr>)
       (\<lambda>st. Inr (pr_programs st))"

section \<open>Totals and compaction\<close>

definition native_call_gas :: "(program_state \<Rightarrow> u64 \<times> u64) \<Rightarrow> program_state list \<Rightarrow> u64" where
  "native_call_gas g ps =
     sum_list (map (\<lambda>p. if \<not> p_dropped p then fst (g p)
        else if p_pruned p \<and> (case p_parent p of None \<Rightarrow> False | Some q \<Rightarrow> \<not> p_dropped (ps ! q))
        then snd (g p) else 0) ps)"

text \<open>The new id of each kept program: how many kept ones precede it (\<open>usize::MAX\<close> for the others).\<close>

fun remap_from :: "nat \<Rightarrow> program_state list \<Rightarrow> nat list" where
  "remap_from next [] = []"
| "remap_from next (p # ps) =
     (if \<not> p_dropped p then next # remap_from (next + 1) ps else usize_max # remap_from next ps)"

definition compact_program :: "nat list \<Rightarrow> program_state \<Rightarrow> frame_program res" where
  "compact_program remap p =
     (case p_updates p of
        None \<Rightarrow> Inl NeverReturned
      | Some us \<Rightarrow> Inr \<lparr>fp_target = p_target p, fp_caller = p_caller p, fp_value = p_value p,
          fp_calldata_hash = p_calldata_hash p, fp_transition_index = p_transition_index p,
          fp_updates = us, fp_children = map (\<lambda>c. remap ! c) (p_children p)\<rparr>)"

definition compact :: "program_state list \<Rightarrow> frame_program list res" where
  "compact ps = map_res (compact_program (remap_from 0 ps)) (filter (\<lambda>p. \<not> p_dropped p) ps)"

section \<open>The splits\<close>

definition split_frame_tree :: "hexd \<Rightarrow> codec \<Rightarrow> abi_seq \<Rightarrow> default_frame \<Rightarrow> address \<Rightarrow> eligibility \<Rightarrow>
    nesting_cost_model \<Rightarrow> frame_tree_extract res" where
  "split_frame_tree hexd cd abi_seq trace root el cost =
     bind_res (walk_trace hexd (keccak256 cd) el root (struct_logs trace)) (\<lambda>(s, moves).
     let ps = retain_children (drop_descendants_of_dropped (programs s))
     in bind_res (prune_unprofitable abi_seq cost ps) (\<lambda>ps.
        bind_res (compact ps) (\<lambda>fs.
        Inr \<lparr>ft_frames = fs, ft_skipped_opcodes = skipped s,
             ft_call_gas_total = native_call_gas (\<lambda>p. (p_direct_call_gas p, p_native_gas p)) ps,
             ft_callee_gas_total = native_call_gas (\<lambda>p. (p_direct_callee_gas p, p_native_callee_gas p)) ps,
             ft_create_gas_total = native_call_gas (\<lambda>p. (p_direct_create_gas p, 0)) ps,
             counter_moves = moves\<rparr>)))"

definition compute_frame_tree_canonical :: "hexd \<Rightarrow> codec \<Rightarrow> abi_seq \<Rightarrow> default_frame \<Rightarrow> address \<Rightarrow>
    (address \<Rightarrow> bool) \<Rightarrow> nesting_cost_model \<Rightarrow> frame_tree_extract res" where
  "compute_frame_tree_canonical hexd cd abi_seq trace root is_nestable cost =
     split_frame_tree hexd cd abi_seq trace root (Consumers is_nestable) cost"

definition compute_frame_tree_hypothetical :: "hexd \<Rightarrow> codec \<Rightarrow> abi_seq \<Rightarrow> default_frame \<Rightarrow> address \<Rightarrow>
    address list \<Rightarrow> nesting_cost_model \<Rightarrow> frame_tree_extract res" where
  "compute_frame_tree_hypothetical hexd cd abi_seq trace root owned cost =
     split_frame_tree hexd cd abi_seq trace root (Hypothetical owned) cost"

text \<open>\<open>compute_state_updates_canonical\<close> (\<^verbatim>\<open>trace.rs\<close>): the tree with no callee nested.\<close>

definition compute_state_updates_canonical :: "hexd \<Rightarrow> codec \<Rightarrow> abi_seq \<Rightarrow> default_frame \<Rightarrow> address \<Rightarrow>
    (state_update list \<times> string set \<times> u64) res" where
  "compute_state_updates_canonical hexd cd abi_seq trace target =
     bind_res (compute_frame_tree_canonical hexd cd abi_seq trace target (\<lambda>_. False) NESTING_COST_MODEL_V1) (\<lambda>tree.
     case ft_frames tree of
       [] \<Rightarrow> Inl (Panic ''a frame tree always has its root frame'')
     | root # _ \<Rightarrow> Inr (fp_updates root, ft_skipped_opcodes tree, ft_call_gas_total tree))"

section \<open>Reading a tree\<close>

definition without_nested_ops :: "state_update list \<Rightarrow> state_update list" where
  "without_nested_ops us = filter (\<lambda>u. \<not> is_nested u) us"

definition frame_tree_total :: "u64 list \<Rightarrow> nesting_cost_model \<Rightarrow> u64" where
  "frame_tree_total frame_gases cost =
     fold (\<lambda>(i, g) total. sat_add total
        (if i = 0 then g else sat_add (sat_sub g BASE_TX_COST) (frame_overhead_gas cost)))
       (enumerate (0::nat) frame_gases) 0"

datatype not_nested_reason = KeptAsCall | NotReached

definition called_targets :: "frame_program list \<Rightarrow> address list" where
  "called_targets fs =
     List.map_filter (\<lambda>u. case u of Call c \<Rightarrow> Some (call_target c) | _ \<Rightarrow> None) (concat (map fp_updates fs))"

definition unnested_owned :: "address list \<Rightarrow> frame_program list \<Rightarrow> (address \<times> not_nested_reason) list" where
  "unnested_owned owned fs =
     (let framed = map fp_target fs; called = called_targets fs
      in map (\<lambda>a. (a, if a \<in> set called then KeptAsCall else NotReached))
           (filter (\<lambda>a. a \<notin> set framed) owned))"

end
