(* ===== verification/Frame_Encode.thy ===== *)
theory Frame_Encode
  imports Frame_Prune
begin

text \<open>
  \<open>encode_frame_tree\<close> of \<^verbatim>\<open>crates/core/src/nested.rs\<close>: frames are hashed last to first (a
  \<open>NESTED\<close> op names its child's leaf), the tree is built over the expiry leaf and the frame
  leaves, and witnesses are built last to first (a witness carries its children's).
\<close>

section \<open>Encoding\<close>

record encoded_tree =
  et_root :: b256
  et_leaves :: "b256 list"
  et_frame_leaves :: "b256 list"
  et_programs :: "bytes list"
  et_witnesses :: "bytes list"
  et_root_children :: "bytes list"
  et_root_proof :: "b256 list"
  et_expiry_proof :: "b256 list"

text \<open>
  The loop over a program's operations with the iterator over its children: each \<open>NESTED\<close>
  op takes the next child's leaf. The rest of the iterator is returned.
\<close>

fun fill_leaves :: "nat \<Rightarrow> b256 list \<Rightarrow> nat list \<Rightarrow> state_update list \<Rightarrow>
    (state_update list \<times> nat list) res" where
  "fill_leaves i leaves cs [] = Inr ([], cs)"
| "fill_leaves i leaves cs (u # us) =
     (case u of
        Nested t v _ \<Rightarrow>
          (case cs of
             [] \<Rightarrow> Inl (MoreNestedThanChildren i)
           | c # cs' \<Rightarrow>
               if c \<le> i \<or> length leaves \<le> c then Inl (ChildOutsidePreorder i c)
               else bind_res (fill_leaves i leaves cs' us) (\<lambda>(us', rest).
                    Inr (Nested t v (leaves ! c) # us', rest)))
      | _ \<Rightarrow> bind_res (fill_leaves i leaves cs us) (\<lambda>(us', rest). Inr (u # us', rest)))"

definition frame_leaf :: "codec \<Rightarrow> bytes \<Rightarrow> u256 \<Rightarrow> u64 \<Rightarrow> nat \<Rightarrow> frame_program \<Rightarrow> u256 \<Rightarrow> bytes \<Rightarrow> b256" where
  "frame_leaf cd root_selector root_value chain_id i frame index program =
     (if i = 0 then root_leaf cd index (fp_target frame) root_selector program root_value
      else nested_leaf cd chain_id (fp_target frame) index (fp_caller frame) (fp_value frame)
             (fp_calldata_hash frame) program)"

definition hash_frame :: "codec \<Rightarrow> abi_seq \<Rightarrow> frame_program list \<Rightarrow> bytes \<Rightarrow> u256 \<Rightarrow> u64 \<Rightarrow>
    b256 list \<times> bytes list \<Rightarrow> nat \<Rightarrow> (b256 list \<times> bytes list) res" where
  "hash_frame cd abi_seq fs root_selector root_value chain_id st i =
     (case st of (frame_leaves, progs) \<Rightarrow>
        let frame = fs ! i
        in bind_res (fill_leaves i frame_leaves (fp_children frame) (fp_updates frame)) (\<lambda>(updates, rest).
           if rest \<noteq> [] then Inl (MoreChildrenThanNested i)
           else
             (let program = encode_state_updates_to_abi abi_seq updates
              in case fp_transition_index frame of
                   None \<Rightarrow> Inl (NoTransitionIndex i)
                 | Some index \<Rightarrow>
                     Inr (frame_leaves[i := frame_leaf cd root_selector root_value chain_id i frame index program],
                          progs[i := program]))))"

definition hash_frames :: "codec \<Rightarrow> abi_seq \<Rightarrow> frame_program list \<Rightarrow> bytes \<Rightarrow> u256 \<Rightarrow> u64 \<Rightarrow>
    (b256 list \<times> bytes list) res" where
  "hash_frames cd abi_seq fs root_selector root_value chain_id =
     fold_res (hash_frame cd abi_seq fs root_selector root_value chain_id) (rev [0..<length fs])
       (replicate (length fs) 0, replicate (length fs) [])"

definition build_witness :: "codec \<Rightarrow> frame_program list \<Rightarrow> b256 list \<Rightarrow> bytes list \<Rightarrow> bytes list \<Rightarrow> nat \<Rightarrow>
    bytes list res" where
  "build_witness cd fs leaves progs witnesses i =
     bind_res (merkle_proof cd leaves (i + 1)) (\<lambda>prf.
     Inr (witnesses[i := abi_witness cd \<lparr>w_calldata_hash = fp_calldata_hash (fs ! i),
        w_storage_updates = progs ! i, w_proof = prf,
        w_children = map (\<lambda>c. witnesses ! c) (fp_children (fs ! i))\<rparr>]))"

definition encode_frame_tree :: "codec \<Rightarrow> abi_seq \<Rightarrow> frame_program list \<Rightarrow> bytes \<Rightarrow> u256 \<Rightarrow> u64 \<Rightarrow> u64 \<Rightarrow>
    encoded_tree res" where
  "encode_frame_tree cd abi_seq fs root_selector root_value chain_id expiry_block =
     (if fs = [] then Inl NoRootFrame
      else
        bind_res (hash_frames cd abi_seq fs root_selector root_value chain_id) (\<lambda>(frame_leaves, progs).
        let leaves = expiry_leaf cd chain_id (fp_target (fs ! 0)) expiry_block # frame_leaves
        in bind_res (merkle_root cd leaves) (\<lambda>root.
           bind_res (fold_res (build_witness cd fs leaves progs) (rev [1..<length fs])
                       (replicate (length fs) [])) (\<lambda>witnesses.
           bind_res (merkle_proof cd leaves 1) (\<lambda>root_proof.
           bind_res (merkle_proof cd leaves 0) (\<lambda>expiry_proof.
           Inr \<lparr>et_root = root, et_leaves = leaves, et_frame_leaves = frame_leaves,
                et_programs = progs, et_witnesses = witnesses,
                et_root_children = map (\<lambda>c. witnesses ! c) (fp_children (fs ! 0)),
                et_root_proof = root_proof, et_expiry_proof = expiry_proof\<rparr>))))))"

section \<open>Well-formed trees\<close>

text \<open>
  What the encoder checks of its input: a transition index per frame, one child per
  \<open>NESTED\<close> op, and every child after its parent.
\<close>

definition nested_count :: "state_update list \<Rightarrow> nat" where
  "nested_count us = length (filter is_nested us)"

definition frame_ok :: "frame_program list \<Rightarrow> nat \<Rightarrow> bool" where
  "frame_ok fs i \<longleftrightarrow>
     nested_count (fp_updates (fs ! i)) = length (fp_children (fs ! i))
   \<and> list_all (\<lambda>c. i < c \<and> c < length fs) (fp_children (fs ! i))
   \<and> fp_transition_index (fs ! i) \<noteq> None"

definition tree_ok :: "frame_program list \<Rightarrow> bool" where
  "tree_ok fs \<longleftrightarrow> fs \<noteq> [] \<and> list_all (frame_ok fs) [0..<length fs]"

text \<open>The program with its \<open>NESTED\<close> ops naming the given leaves, in order.\<close>

fun with_leaves :: "b256 list \<Rightarrow> state_update list \<Rightarrow> state_update list" where
  "with_leaves ls [] = []"
| "with_leaves (l # ls) (Nested t v x # us) = Nested t v l # with_leaves ls us"
| "with_leaves ls (u # us) = u # with_leaves ls us"

lemma with_leaves_other: "\<not> is_nested u \<Longrightarrow> with_leaves ls (u # us) = u # with_leaves ls us"
  by (cases u; cases ls) auto

lemma fill_leaves_ok:
  "nested_count us = length cs \<Longrightarrow> \<forall>c \<in> set cs. i < c \<and> c < length leaves \<Longrightarrow>
     fill_leaves i leaves cs us = Inr (with_leaves (map ((!) leaves) cs) us, [])"
proof (induction us arbitrary: cs)
  case Nil
  then show ?case by (simp add: nested_count_def)
next
  case (Cons u us)
  show ?case
  proof (cases "is_nested u")
    case True
    then obtain t v x c cs' where "u = Nested t v x" "cs = c # cs'"
      using Cons.prems(1) by (cases u; cases cs) (auto simp: nested_count_def)
    with Cons show ?thesis by (auto simp: nested_count_def not_le)
  next
    case False
    then have "nested_count us = length cs" using Cons.prems(1) by (simp add: nested_count_def)
    with Cons False show ?thesis by (cases u) (simp_all add: with_leaves_other)
  qed
qed

lemma fill_leaves_Inr:
  "fill_leaves i leaves cs us = Inr (us', []) \<Longrightarrow>
     nested_count us = length cs \<and> (\<forall>c \<in> set cs. i < c \<and> c < length leaves)"
proof (induction us arbitrary: cs us')
  case Nil
  then show ?case by (simp add: nested_count_def)
next
  case (Cons u us)
  show ?case
  proof (cases "is_nested u")
    case True
    then obtain t v x c cs' us'' where "u = Nested t v x" "cs = c # cs'" "i < c" "c < length leaves"
      "fill_leaves i leaves cs' us = Inr (us'', [])"
      using Cons.prems by (cases u; cases cs) (auto simp: res_simps not_le split: if_splits)
    with Cons.IH show ?thesis by (auto simp: nested_count_def)
  next
    case False
    then obtain us'' where "fill_leaves i leaves cs us = Inr (us'', [])"
      using Cons.prems by (cases u) (auto simp: res_simps)
    with Cons.IH False show ?thesis by (auto simp: nested_count_def)
  qed
qed

section \<open>The hashing loop\<close>

text \<open>Frame \<open>i\<close> is hashed: its program names its children's leaves, its leaf hashes its program.\<close>

definition frame_hashed :: "codec \<Rightarrow> abi_seq \<Rightarrow> frame_program list \<Rightarrow> bytes \<Rightarrow> u256 \<Rightarrow> u64 \<Rightarrow>
    b256 list \<Rightarrow> bytes list \<Rightarrow> nat \<Rightarrow> bool" where
  "frame_hashed cd abi_seq fs sel val chain fl progs i \<longleftrightarrow>
     progs ! i = encode_state_updates_to_abi abi_seq
       (with_leaves (map ((!) fl) (fp_children (fs ! i))) (fp_updates (fs ! i)))
   \<and> fl ! i = frame_leaf cd sel val chain i (fs ! i) (the (fp_transition_index (fs ! i))) (progs ! i)"

definition hashed :: "codec \<Rightarrow> abi_seq \<Rightarrow> frame_program list \<Rightarrow> bytes \<Rightarrow> u256 \<Rightarrow> u64 \<Rightarrow> nat \<Rightarrow>
    b256 list \<times> bytes list \<Rightarrow> bool" where
  "hashed cd abi_seq fs sel val chain k st \<longleftrightarrow>
     length (fst st) = length fs \<and> length (snd st) = length fs
   \<and> (\<forall>i \<in> {k..<length fs}. frame_hashed cd abi_seq fs sel val chain (fst st) (snd st) i)"

lemma tree_ok_frame:
  assumes "tree_ok fs" and "i < length fs"
  shows "nested_count (fp_updates (fs ! i)) = length (fp_children (fs ! i))"
    "\<forall>c \<in> set (fp_children (fs ! i)). i < c \<and> c < length fs"
    "\<exists>index. fp_transition_index (fs ! i) = Some index"
proof -
  have "frame_ok fs i" using assms by (simp add: tree_ok_def list_all_iff)
  then show "nested_count (fp_updates (fs ! i)) = length (fp_children (fs ! i))"
    "\<forall>c \<in> set (fp_children (fs ! i)). i < c \<and> c < length fs"
    "\<exists>index. fp_transition_index (fs ! i) = Some index"
    by (auto simp: frame_ok_def list_all_iff)
qed

lemma map_nth_update: "i \<notin> set cs \<Longrightarrow> map ((!) (xs[i := x])) cs = map ((!) xs) cs"
  by (induction cs) auto

lemma frame_hashed_update:
  assumes "j \<noteq> i" and "i \<notin> set (fp_children (fs ! j))"
  shows "frame_hashed cd abi_seq fs sel val chain (fl[i := l]) (progs[i := p]) j
    = frame_hashed cd abi_seq fs sel val chain fl progs j"
  using assms by (simp add: frame_hashed_def map_nth_update)

lemma hash_frame_ok:
  assumes ok: "tree_ok fs" and i: "i < length fs"
    and h: "hashed cd abi_seq fs sel val chain (Suc i) st"
  shows "\<exists>st'. hash_frame cd abi_seq fs sel val chain st i = Inr st'
    \<and> hashed cd abi_seq fs sel val chain i st'"
proof -
  obtain fl progs where st: "st = (fl, progs)" by (cases st)
  have len: "length fl = length fs" "length progs = length fs" using h by (simp_all add: hashed_def st)
  note kids = tree_ok_frame [OF ok i]
  obtain index where index: "fp_transition_index (fs ! i) = Some index" using kids(3) by blast
  define prog where "prog = encode_state_updates_to_abi abi_seq
      (with_leaves (map ((!) fl) (fp_children (fs ! i))) (fp_updates (fs ! i)))"
  define leaf where "leaf = frame_leaf cd sel val chain i (fs ! i) index prog"
  have run: "hash_frame cd abi_seq fs sel val chain st i = Inr (fl[i := leaf], progs[i := prog])"
    using fill_leaves_ok [OF kids(1), of i fl] kids(2) len index
    by (simp add: hash_frame_def st prog_def leaf_def Let_def)
  have "i \<notin> set (fp_children (fs ! i))" using kids(2) by blast
  then have here: "frame_hashed cd abi_seq fs sel val chain (fl[i := leaf]) (progs[i := prog]) i"
    using i len index by (simp add: frame_hashed_def map_nth_update prog_def [symmetric] leaf_def)
  have "frame_hashed cd abi_seq fs sel val chain (fl[i := leaf]) (progs[i := prog]) j"
    if "i \<le> j" "j < length fs" for j
  proof (cases "j = i")
    case False
    have "i \<notin> set (fp_children (fs ! j))" using tree_ok_frame(2) [OF ok that(2)] that(1) by auto
    with False that h show ?thesis by (simp add: frame_hashed_update hashed_def st)
  qed (use here in simp)
  then have "hashed cd abi_seq fs sel val chain i (fl[i := leaf], progs[i := prog])"
    using len by (simp add: hashed_def)
  with run show ?thesis by blast
qed

lemma hash_frames_loop:
  assumes ok: "tree_ok fs"
  shows "k \<le> length fs \<Longrightarrow> hashed cd abi_seq fs sel val chain k st \<Longrightarrow>
    \<exists>st'. fold_res (hash_frame cd abi_seq fs sel val chain) (rev [0..<k]) st = Inr st'
      \<and> hashed cd abi_seq fs sel val chain 0 st'"
proof (induction k arbitrary: st)
  case (Suc k)
  from hash_frame_ok [OF ok _ Suc.prems(2)] Suc.prems(1)
  obtain st1 where "hash_frame cd abi_seq fs sel val chain st k = Inr st1"
    and st1: "hashed cd abi_seq fs sel val chain k st1"
    by (metis Suc_le_lessD)
  with Suc.IH [OF _ st1] Suc.prems(1) show ?case by simp
qed auto

lemma hash_frames_ok:
  assumes "tree_ok fs"
  shows "\<exists>fl progs. hash_frames cd abi_seq fs sel val chain = Inr (fl, progs)
    \<and> hashed cd abi_seq fs sel val chain 0 (fl, progs)"
proof -
  have "hashed cd abi_seq fs sel val chain (length fs) (replicate (length fs) 0, replicate (length fs) [])"
    by (simp add: hashed_def)
  from hash_frames_loop [OF assms order_refl this] show ?thesis
    unfolding hash_frames_def by (metis surj_pair)
qed

section \<open>The witness loop\<close>

definition witness_of :: "codec \<Rightarrow> frame_program list \<Rightarrow> b256 list \<Rightarrow> bytes list \<Rightarrow> bytes list \<Rightarrow> nat \<Rightarrow> bytes" where
  "witness_of cd fs leaves progs witnesses i =
     abi_witness cd \<lparr>w_calldata_hash = fp_calldata_hash (fs ! i), w_storage_updates = progs ! i,
       w_proof = proof_loop cd leaves (i + 1),
       w_children = map ((!) witnesses) (fp_children (fs ! i))\<rparr>"

lemma build_witness_run:
  "i + 1 < length leaves \<Longrightarrow> build_witness cd fs leaves progs ws i
     = Inr (ws[i := witness_of cd fs leaves progs ws i])"
  by (simp add: build_witness_def merkle_proof_def witness_of_def)

lemma build_witnesses_loop:
  assumes ok: "tree_ok fs" and leaves: "length leaves = Suc (length fs)"
  shows "k \<le> length fs \<Longrightarrow> length ws = length fs \<Longrightarrow>
    \<forall>i \<in> {k..<length fs}. ws ! i = witness_of cd fs leaves progs ws i \<Longrightarrow>
    \<exists>ws'. fold_res (build_witness cd fs leaves progs) (rev [1..<k]) ws = Inr ws'
      \<and> length ws' = length fs
      \<and> (\<forall>i \<in> {1..<length fs}. ws' ! i = witness_of cd fs leaves progs ws' i)"
proof (induction k arbitrary: ws)
  case (Suc k)
  show ?case
  proof (cases "k = 0")
    case True
    with Suc.prems show ?thesis by auto
  next
    case False
    let ?w = "witness_of cd fs leaves progs ws k"
    have same: "witness_of cd fs leaves progs (ws[k := ?w]) i = witness_of cd fs leaves progs ws i"
      if "k \<le> i" "i < length fs" for i
    proof -
      have "k \<notin> set (fp_children (fs ! i))" using tree_ok_frame(2) [OF ok that(2)] that(1) by auto
      then show ?thesis by (simp add: witness_of_def [of _ _ _ _ _ i] map_nth_update)
    qed
    have "\<forall>i \<in> {k..<length fs}. (ws[k := ?w]) ! i = witness_of cd fs leaves progs (ws[k := ?w]) i"
      using Suc.prems same by (auto simp: nth_list_update)
    then have "\<exists>ws'. fold_res (build_witness cd fs leaves progs) (rev [1..<k]) (ws[k := ?w]) = Inr ws'
        \<and> length ws' = length fs
        \<and> (\<forall>i \<in> {1..<length fs}. ws' ! i = witness_of cd fs leaves progs ws' i)"
      using Suc.prems by (intro Suc.IH) auto
    with False Suc.prems leaves show ?thesis by (simp add: build_witness_run)
  qed
qed auto

section \<open>Correctness\<close>

text \<open>The tree \<open>t\<close> settles \<open>fs\<close>: what each contract recomputes on chain.\<close>

definition settles :: "codec \<Rightarrow> abi_seq \<Rightarrow> frame_program list \<Rightarrow> bytes \<Rightarrow> u256 \<Rightarrow> u64 \<Rightarrow> u64 \<Rightarrow> encoded_tree \<Rightarrow> bool" where
  "settles cd abi_seq fs sel val chain expiry t \<longleftrightarrow>
     et_leaves t = expiry_leaf cd chain (fp_target (fs ! 0)) expiry # et_frame_leaves t
   \<and> length (et_frame_leaves t) = length fs
   \<and> process_proof cd (et_expiry_proof t) (et_leaves t ! 0) = et_root t
   \<and> process_proof cd (et_root_proof t) (et_frame_leaves t ! 0) = et_root t
   \<and> (\<forall>i < length fs. frame_hashed cd abi_seq fs sel val chain (et_frame_leaves t) (et_programs t) i)
   \<and> (\<forall>i < length fs. 0 < i \<longrightarrow> (\<exists>prf.
        et_witnesses t ! i = abi_witness cd \<lparr>w_calldata_hash = fp_calldata_hash (fs ! i),
          w_storage_updates = et_programs t ! i, w_proof = prf,
          w_children = map ((!) (et_witnesses t)) (fp_children (fs ! i))\<rparr>
        \<and> process_proof cd prf (et_frame_leaves t ! i) = et_root t))
   \<and> et_root_children t = map ((!) (et_witnesses t)) (fp_children (fs ! 0))"

text \<open>
  C6. Encoding a well-formed frame tree succeeds and yields a tree that settles it: the
  leaves are the expiry leaf and the frame leaves in pre-order, each frame's program names
  its children's leaves in the order of its \<open>NESTED\<close> ops and is what its leaf hashes, every
  child's witness carries its program, its children's witnesses and a proof, and all the
  proofs, the root frame's and the expiry leaf's included, lead to the one signed root.
\<close>

theorem encode_frame_tree_settles:
  assumes "tree_ok fs"
  shows "\<exists>t. encode_frame_tree cd abi_seq fs sel val chain expiry = Inr t
    \<and> settles cd abi_seq fs sel val chain expiry t"
proof -
  obtain fl progs where run: "hash_frames cd abi_seq fs sel val chain = Inr (fl, progs)"
    and h: "hashed cd abi_seq fs sel val chain 0 (fl, progs)"
    using hash_frames_ok [OF assms] by blast
  define leaves where "leaves = expiry_leaf cd chain (fp_target (fs ! 0)) expiry # fl"
  have len: "length leaves = Suc (length fs)" "length fl = length fs"
    using h by (simp_all add: leaves_def hashed_def)
  obtain ws where ws: "fold_res (build_witness cd fs leaves progs) (rev [1..<length fs])
      (replicate (length fs) []) = Inr ws"
    and wit: "\<forall>i \<in> {1..<length fs}. ws ! i = witness_of cd fs leaves progs ws i"
    using build_witnesses_loop [OF assms len(1), of "length fs" "replicate (length fs) []" cd progs]
    by (metis atLeastLessThan_empty empty_iff length_replicate order_refl)
  have ne: "fs \<noteq> []" using assms by (simp add: tree_ok_def)
  with len(2) have fl: "fl \<noteq> []" by auto
  have root: "merkle_root cd leaves = Inr (root_loop cd leaves)" by (simp add: merkle_root_def leaves_def)
  have proofs: "process_proof cd (proof_loop cd leaves i) (leaves ! i) = root_loop cd leaves"
    if "i < length leaves" for i
    using that by (rule process_proof_loop)
  let ?t = "\<lparr>et_root = root_loop cd leaves, et_leaves = leaves, et_frame_leaves = fl,
    et_programs = progs, et_witnesses = ws,
    et_root_children = map (\<lambda>c. ws ! c) (fp_children (fs ! 0)),
    et_root_proof = proof_loop cd leaves 1, et_expiry_proof = proof_loop cd leaves 0\<rparr>"
  have "encode_frame_tree cd abi_seq fs sel val chain expiry = Inr ?t"
    using run ne fl ws root len
    by (simp add: encode_frame_tree_def leaves_def [symmetric] merkle_proof_def Let_def)
  moreover have "settles cd abi_seq fs sel val chain expiry ?t"
    unfolding settles_def
    using h wit proofs [of 0] proofs [of 1] proofs [of "Suc i" for i] len ne
    by (auto simp: leaves_def hashed_def witness_of_def)
  ultimately show ?thesis by blast
qed

lemma hash_frame_Inr:
  assumes "hash_frame cd abi_seq fs sel val chain st i = Inr st'" and "length (fst st) = length fs"
  shows "frame_ok fs i \<and> length (fst st') = length fs"
proof -
  obtain fl progs where st: "st = (fl, progs)" by (cases st)
  from assms(1) obtain us index where
    fill: "fill_leaves i fl (fp_children (fs ! i)) (fp_updates (fs ! i)) = Inr (us, [])"
    and "fp_transition_index (fs ! i) = Some index" "length (fst st') = length fl"
    by (auto simp: hash_frame_def st res_simps Let_def split: if_splits option.splits)
  with fill_leaves_Inr [OF fill] assms(2) show ?thesis
    by (simp add: frame_ok_def list_all_iff st)
qed

lemma hash_frames_loop_Inr:
  "fold_res (hash_frame cd abi_seq fs sel val chain) (rev [0..<k]) st = Inr st' \<Longrightarrow>
     length (fst st) = length fs \<Longrightarrow> \<forall>i < k. frame_ok fs i"
proof (induction k arbitrary: st)
  case (Suc k)
  then obtain st1 where st1: "hash_frame cd abi_seq fs sel val chain st k = Inr st1"
    "fold_res (hash_frame cd abi_seq fs sel val chain) (rev [0..<k]) st1 = Inr st'"
    by (auto simp: res_simps)
  with hash_frame_Inr [OF st1(1) Suc.prems(2)] Suc.IH [of st1] show ?case
    by (auto simp: less_Suc_eq)
qed simp

text \<open>
  The encoder accepts exactly the well-formed trees: it returns a tree if and only if
  there is a root frame, every frame has a transition index and one child per \<open>NESTED\<close> op,
  and every child comes after its parent; otherwise it reports an error before anything is
  signed.
\<close>

lemma encode_frame_tree_accepts_iff:
  "(\<exists>t. encode_frame_tree cd abi_seq fs sel val chain expiry = Inr t) \<longleftrightarrow> tree_ok fs"
proof
  assume "\<exists>t. encode_frame_tree cd abi_seq fs sel val chain expiry = Inr t"
  then obtain st where ne: "fs \<noteq> []" and "hash_frames cd abi_seq fs sel val chain = Inr st"
    by (auto simp: encode_frame_tree_def res_simps split: if_splits)
  then have "\<forall>i < length fs. frame_ok fs i"
    unfolding hash_frames_def by (intro hash_frames_loop_Inr) auto
  with ne show "tree_ok fs" by (simp add: tree_ok_def list_all_iff)
next
  assume "tree_ok fs"
  then obtain fl progs where run: "hash_frames cd abi_seq fs sel val chain = Inr (fl, progs)"
    and len: "length fl = length fs"
    using hash_frames_ok [of fs cd abi_seq sel val chain] by (auto simp: hashed_def)
  have ne: "fs \<noteq> []" using \<open>tree_ok fs\<close> by (simp add: tree_ok_def)
  with len have fl: "fl \<noteq> []" by auto
  obtain ws where "fold_res (build_witness cd fs
        (expiry_leaf cd chain (fp_target (fs ! 0)) expiry # fl) progs) (rev [1..<length fs])
      (replicate (length fs) []) = Inr ws"
    using build_witnesses_loop [OF \<open>tree_ok fs\<close>, of "expiry_leaf cd chain (fp_target (fs ! 0)) expiry # fl"
        "length fs" "replicate (length fs) []" cd progs] len
    by auto
  with run ne fl show "\<exists>t. encode_frame_tree cd abi_seq fs sel val chain expiry = Inr t"
    by (simp add: encode_frame_tree_def merkle_root_def merkle_proof_def Let_def)
qed

definition sample_frames :: "frame_program list" where
  "sample_frames =
     [\<lparr>fp_target = 170, fp_caller = 0, fp_value = 0, fp_calldata_hash = 0,
       fp_transition_index = Some 3, fp_updates = [Store 1 5, Nested 187 2 0], fp_children = [1]\<rparr>,
      \<lparr>fp_target = 187, fp_caller = 170, fp_value = 2, fp_calldata_hash = 99,
       fp_transition_index = Some 0, fp_updates = [Store 4 4], fp_children = []\<rparr>]"

theorem encode_frame_tree_settles_witness:
  "\<exists>t. encode_frame_tree toy_codec (\<lambda>_. []) sample_frames [] 0 1 900 = Inr t
    \<and> settles toy_codec (\<lambda>_. []) sample_frames [] 0 1 900 t"
  by (rule encode_frame_tree_settles) code_simp

end
