(* ===== verification/Rpc_Layer.thy ===== *)
theory Rpc_Layer
  imports GK_Prelude
begin

text \<open>
  The rate limiter and retry layer of \<^verbatim>\<open>crates/indexer-rpc/src/lib.rs\<close>. The token bucket
  (\<open>governor\<close>) is the parameter \<open>until_n_ready\<close>, a transition of its state that is \<open>None\<close>
  where the crate reports insufficient capacity; the concurrency semaphore (\<open>tokio\<close>) is
  its count of free permits. A retried operation is the sequence of its outcomes, the
  \<open>k\<close>-th call of the closure returning \<open>f k\<close>; the random jitter is the parameter \<open>jitter\<close>.
  Strings are the bytes of the rendered error, as \<open>char list\<close>s.
\<close>

section \<open>Weights and configuration\<close>

definition HEAD_POLL :: u32 where "HEAD_POLL = 1"
definition BLOCK_HEADER :: u32 where "BLOCK_HEADER = 12"
definition BLOCK_FULL :: u32 where "BLOCK_FULL = 25"
definition RECEIPT :: u32 where "RECEIPT = 15"
definition TX_BY_HASH :: u32 where "TX_BY_HASH = 15"
definition TRACE_TX :: u32 where "TRACE_TX = 80"
definition ANALYZE_TX :: u32 where "ANALYZE_TX = 250"
definition HEURISTIC_ANALYZE_TX :: u32 where "HEURISTIC_ANALYZE_TX = 150"

record rate_limiter_config =
  rps_budget :: u32
  rl_burst :: u32
  max_concurrency :: nat

definition default_rate_limiter_config :: rate_limiter_config where
  "default_rate_limiter_config = \<lparr>rps_budget = 240, rl_burst = 60, max_concurrency = 16\<rparr>"

record rate_limiter =
  quota_rps :: u32
  burst :: u32
  permits :: nat

definition new_rate_limiter :: "rate_limiter_config \<Rightarrow> rate_limiter" where
  "new_rate_limiter config =
     \<lparr>quota_rps = max (rps_budget config) 1, burst = max (rl_burst config) 1,
      permits = max_concurrency config\<rparr>"

section \<open>Acquiring\<close>

datatype limiter_error = ChunkZero

text \<open>
  The charging loop: the chunks charged and the bucket afterwards. A bucket error stops
  charging; a zero chunk is the \<open>expect\<close>.
\<close>

function charge_loop :: "(u32 \<Rightarrow> 'b \<Rightarrow> 'b option) \<Rightarrow> u32 \<Rightarrow> u32 \<Rightarrow> 'b \<Rightarrow> limiter_error + u32 list \<times> 'b" where
  "charge_loop until_n_ready bst remaining b =
     (if remaining = 0 then Inr ([], b)
      else
        (let chunk = min remaining bst
         in if chunk = 0 then Inl ChunkZero
            else (case until_n_ready chunk b of
                    None \<Rightarrow> Inr ([], b)
                  | Some b' \<Rightarrow> bind_res (charge_loop until_n_ready bst (remaining - chunk) b') (\<lambda>(cs, b'').
                      Inr (chunk # cs, b'')))))"
  by pat_completeness auto
termination
proof (relation "measure (\<lambda>(_, _, r, _). unat r)", goal_cases)
  case (2 until bst r b chunk b')
  then have "0 < chunk" "chunk \<le> r" by (auto simp: word_gt_0)
  then have "unat (r - chunk) < unat r"
    by (metis unat_sub word_gt_0 diff_less unat_gt_0 leD linorder_neqE_nat order_less_le_trans word_le_nat_alt word_neq_0_conv)
  then show ?case by simp
qed simp

declare charge_loop.simps [simp del]

text \<open>
  \<open>acquire\<close>: the tokens, then a slot of the semaphore. \<open>None\<close> is waiting: no permit is
  free until a holder drops one (\<open>release\<close>).
\<close>

definition acquire :: "(u32 \<Rightarrow> 'b \<Rightarrow> 'b option) \<Rightarrow> u32 \<Rightarrow> rate_limiter \<Rightarrow> 'b \<Rightarrow>
    limiter_error + u32 list \<times> 'b \<times> rate_limiter option" where
  "acquire until_n_ready weight lim b =
     bind_res (charge_loop until_n_ready (burst lim) (max weight 1) b) (\<lambda>(chunks, b).
     Inr (chunks, b, if permits lim = 0 then None else Some (lim\<lparr>permits := permits lim - 1\<rparr>)))"

definition release :: "rate_limiter \<Rightarrow> rate_limiter" where
  "release lim = lim\<lparr>permits := permits lim + 1\<rparr>"

section \<open>Retrying\<close>

record retry_config =
  max_attempts :: u32
  base_delay_ms :: u64
  max_delay_ms :: u64

definition default_retry_config :: retry_config where
  "default_retry_config = \<lparr>max_attempts = 3, base_delay_ms = 200, max_delay_ms = 8000\<rparr>"

datatype 'e retry_error = Exhausted u32 'e

definition backoff_with_jitter :: "(u64 \<Rightarrow> u64) \<Rightarrow> retry_config \<Rightarrow> u32 \<Rightarrow> u64" where
  "backoff_with_jitter jitter config attempt =
     (let exp = base_delay_ms config * 4 ^ unat (sat_sub attempt 1);
          exp = min exp (max_delay_ms config)
      in jitter exp)"

text \<open>The loop, from the number of attempts made: the outcome and the delays slept.\<close>

lemma unat_bounded: "unat (x :: u32) < 2 ^ 32"
  using unsigned_less [of x] by simp

lemma unat_max_u32: "unat (- 1 :: u32) = 2 ^ 32 - 1"
  by (simp add: unsigned_minus_1_eq_mask mask_eq_exp_minus_1)

lemma unat_Suc_u32: "x \<noteq> - 1 \<Longrightarrow> unat (x + 1 :: u32) = Suc (unat x)"
proof -
  assume "x \<noteq> - 1"
  then have "unat x \<noteq> 2 ^ 32 - 1" using unat_max_u32 by (metis word_unat_eq_iff)
  with unat_bounded [of x] have "unat x + 1 < 2 ^ 32" by simp
  then show ?thesis by (simp add: unat_word_ariths)
qed

lemma unat_of_nat_u32: "n < 2 ^ 32 \<Longrightarrow> unat (of_nat n :: u32) = n"
  by (simp add: unsigned_of_nat take_bit_nat_eq_self)

function retry_loop :: "(u64 \<Rightarrow> u64) \<Rightarrow> retry_config \<Rightarrow> ('e \<Rightarrow> bool) \<Rightarrow> (u32 \<Rightarrow> 'e + 'a) \<Rightarrow> u32 \<Rightarrow>
    ('e retry_error + 'a) \<times> u64 list" where
  "retry_loop jitter config is_transient f made =
     (let attempt = made + 1
      in case f attempt of
           Inr v \<Rightarrow> (Inr v, [])
         | Inl e \<Rightarrow>
             if attempt \<ge> max_attempts config \<or> \<not> is_transient e
             then (Inl (Exhausted attempt e), [])
             else (case retry_loop jitter config is_transient f attempt of
                     (r, sleeps) \<Rightarrow> (r, backoff_with_jitter jitter config attempt # sleeps)))"
  by pat_completeness auto
termination
proof (relation "measure (\<lambda>(_, c, _, _, made). (if made = - 1 then 2 ^ 32 else 0) + (2 ^ 32 - unat made))", goal_cases)
  case (2 jitter config tr f made attempt e)
  then have lt: "made + 1 < max_attempts config" by auto
  then have "made + 1 \<noteq> - 1" by (metis word_order.extremum_strict)
  then show ?case
    using unat_bounded [of made] unat_bounded [of "made + 1"] 2(1)
    by (cases "made = - 1") (auto simp: unat_Suc_u32)
qed simp

declare retry_loop.simps [simp del]

definition with_retry :: "(u64 \<Rightarrow> u64) \<Rightarrow> retry_config \<Rightarrow> ('e \<Rightarrow> bool) \<Rightarrow> (u32 \<Rightarrow> 'e + 'a) \<Rightarrow>
    ('e retry_error + 'a) \<times> u64 list" where
  "with_retry jitter config is_transient f = retry_loop jitter config is_transient f 0"

section \<open>Transient errors\<close>

definition to_lowercase_char :: "char \<Rightarrow> char" where
  "to_lowercase_char c =
     (if 65 \<le> (of_char c :: nat) \<and> (of_char c :: nat) \<le> 90 then char_of ((of_char c :: nat) + 32) else c)"

definition to_lowercase :: "string \<Rightarrow> string" where
  "to_lowercase = map to_lowercase_char"

definition is_ascii_hexdigit :: "char \<Rightarrow> bool" where
  "is_ascii_hexdigit c =
     (let n = (of_char c :: nat)
      in 48 \<le> n \<and> n \<le> 57 \<or> 97 \<le> n \<and> n \<le> 102 \<or> 65 \<le> n \<and> n \<le> 70)"

definition starts_with :: "string \<Rightarrow> string \<Rightarrow> bool" where
  "starts_with code s \<longleftrightarrow> take (length code) s = code"

text \<open>\<open>str::find\<close>: the first position of the pattern.\<close>

fun find_str :: "string \<Rightarrow> string \<Rightarrow> nat option" where
  "find_str code [] = (if code = [] then Some 0 else None)"
| "find_str code (c # s) =
     (if starts_with code (c # s) then Some 0 else map_option Suc (find_str code s))"

definition str_contains :: "string \<Rightarrow> string \<Rightarrow> bool" where
  "str_contains s code \<longleftrightarrow> find_str code s \<noteq> None"

definition standalone :: "string \<Rightarrow> string \<Rightarrow> nat \<Rightarrow> bool" where
  "standalone s code start =
     (let stop = start + length code;
          hex_prefixed = (start \<ge> 2 \<and> take 2 (drop (start - 2) s) = ''0x'');
          boundary_before = (\<not> hex_prefixed \<and> (start = 0 \<or> \<not> is_ascii_hexdigit (s ! (start - 1))));
          boundary_after = (stop = length s \<or> \<not> is_ascii_hexdigit (s ! stop))
      in boundary_before \<and> boundary_after)"

text \<open>
  The search loop; it ends because each round starts past the last match. A match ends
  within the string, so the next round's slice is within it too; the last branch, where a
  match starts at the very end, is only taken for an empty code.
\<close>

lemma find_str_bound: "find_str code s = Some pos \<Longrightarrow> pos + length code \<le> length s"
  by (induction s arbitrary: pos)
    (auto simp: starts_with_def split: if_splits dest: arg_cong [where f = length])

function status_loop :: "string \<Rightarrow> string \<Rightarrow> nat \<Rightarrow> bool" where
  "status_loop s code start_at =
     (case find_str code (drop start_at s) of
        None \<Rightarrow> False
      | Some pos \<Rightarrow>
          (let start = start_at + pos
           in if standalone s code start then True
              else if start < length s then status_loop s code (start + 1) else False))"
  by pat_completeness auto
termination
  by (relation "measure (\<lambda>(s, _, i). length s - i)") auto

declare status_loop.simps [simp del]

definition contains_status_code :: "string \<Rightarrow> string \<Rightarrow> bool" where
  "contains_status_code s code = status_loop s code 0"

definition is_transient_rpc_error :: "string \<Rightarrow> bool" where
  "is_transient_rpc_error e =
     (let s = to_lowercase e
      in contains_status_code s ''503'' \<or> contains_status_code s ''502''
       \<or> contains_status_code s ''504'' \<or> contains_status_code s ''429''
       \<or> str_contains s ''error sending request'' \<or> str_contains s ''connection reset''
       \<or> str_contains s ''connection closed'' \<or> str_contains s ''connection refused''
       \<or> str_contains s ''timed out'' \<or> str_contains s ''timeout''
       \<or> str_contains s ''temporarily unavailable'' \<or> str_contains s ''unexpected eof'')"

section \<open>What is charged\<close>

lemma charge_loop_spec:
  assumes "\<And>n b. 0 < n \<Longrightarrow> n \<le> bst \<Longrightarrow> until_n_ready n b \<noteq> None" and "0 < bst"
  shows "\<exists>cs b'. charge_loop until_n_ready bst r b = Inr (cs, b')
    \<and> sum_list (map unat cs) = unat r \<and> list_all (\<lambda>c. 0 < c \<and> c \<le> bst) cs
    \<and> length cs = (unat r + unat bst - 1) div unat bst"
  using assms
proof (induction until_n_ready bst r b rule: charge_loop.induct)
  case (1 until bst r b)
  have bst: "0 < unat bst" using 1(3) by (simp add: unat_gt_0 word_gt_0)
  show ?case
  proof (cases "r = 0")
    case True
    with bst show ?thesis by (simp add: charge_loop.simps)
  next
    case False
    let ?c = "min r bst"
    have c: "0 < ?c" "?c \<le> bst" "?c \<noteq> 0" "?c \<le> r" using False 1(3) by (auto simp: word_gt_0 min_def)
    obtain b1 where b1: "until ?c b = Some b1" using 1(2) [OF c(1,2)] by blast
    have "\<exists>cs b'. charge_loop until bst (r - ?c) b1 = Inr (cs, b')
      \<and> sum_list (map unat cs) = unat (r - ?c) \<and> list_all (\<lambda>c. 0 < c \<and> c \<le> bst) cs
      \<and> length cs = (unat (r - ?c) + unat bst - 1) div unat bst"
      by (rule 1(1) [OF False refl c(3) b1]) (use 1(2,3) in auto)
    then obtain cs b' where cs: "charge_loop until bst (r - ?c) b1 = Inr (cs, b')"
      "sum_list (map unat cs) = unat (r - ?c)" "list_all (\<lambda>c. 0 < c \<and> c \<le> bst) cs"
      "length cs = (unat (r - ?c) + unat bst - 1) div unat bst" by blast
    have u: "unat (r - ?c) = unat r - unat ?c" "unat ?c \<le> unat r" "unat ?c = min (unat r) (unat bst)"
      using c(4) by (simp_all add: unat_sub word_le_nat_alt min_def)
    have r: "0 < unat r" using False by (simp add: unat_gt_0)
    have "Suc ((unat (r - ?c) + unat bst - 1) div unat bst) = (unat r + unat bst - 1) div unat bst"
    proof (cases "unat r \<le> unat bst")
      case True
      then have "unat r + unat bst - 1 = (unat r - 1) + 1 * unat bst" using r by simp
      then have "(unat r + unat bst - 1) div unat bst = Suc ((unat r - 1) div unat bst)"
        using bst by (simp only: div_mult_self1)
      with True r bst u show ?thesis by simp
    next
      case False
      then have "unat r + unat bst - 1 = (unat r - unat bst + unat bst - 1) + 1 * unat bst" using bst by simp
      with False u bst show ?thesis by (simp only: div_mult_self1) simp
    qed
    with cs b1 c False u show ?thesis
      by (simp add: charge_loop.simps [of until bst r b] Let_def)
  qed
qed

text \<open>
  Acquiring charges the whole weight: on a bucket that accepts any request up to its
  burst, \<open>acquire\<close> neither panics nor stops early, the chunks it charges add up to the weight
  (one for a zero weight), none is zero or above the burst, there are
  \<open>ceil (weight / burst)\<close> of them, and a slot is taken exactly when one is free.
\<close>

lemma acquire_charges_weight:
  assumes "\<forall>n b. 0 < n \<and> n \<le> max (rl_burst cfg) 1 \<longrightarrow> until_n_ready n b \<noteq> None"
  shows "\<exists>chunks b' lim'. acquire until_n_ready weight (new_rate_limiter cfg) b = Inr (chunks, b', lim')
    \<and> sum_list (map unat chunks) = max (unat weight) 1
    \<and> list_all (\<lambda>c. 0 < c \<and> c \<le> max (rl_burst cfg) 1) chunks
    \<and> length chunks = (max (unat weight) 1 + max (unat (rl_burst cfg)) 1 - 1) div max (unat (rl_burst cfg)) 1
    \<and> (lim' = None \<longleftrightarrow> max_concurrency cfg = 0)
    \<and> (case lim' of None \<Rightarrow> True | Some l \<Rightarrow> release l = new_rate_limiter cfg)"
proof -
  have pos: "0 < max (rl_burst cfg) 1" by (simp add: less_max_iff_disj)
  have m: "unat (max w 1) = max (unat w) 1" for w :: u32 by (simp add: max_def word_le_nat_alt)
  obtain cs b' where cs: "charge_loop until_n_ready (max (rl_burst cfg) 1) (max weight 1) b = Inr (cs, b')"
    "sum_list (map unat cs) = unat (max weight 1)" "list_all (\<lambda>c. 0 < c \<and> c \<le> max (rl_burst cfg) 1) cs"
    "length cs = (unat (max weight 1) + unat (max (rl_burst cfg) 1) - 1) div unat (max (rl_burst cfg) 1)"
    using charge_loop_spec [of "max (rl_burst cfg) 1" until_n_ready "max weight 1" b] assms pos by blast
  then show ?thesis
    unfolding m by (simp add: acquire_def new_rate_limiter_def release_def)
qed

section \<open>What is retried\<close>

lemma retry_loop_spec:
  assumes "unat made < max 1 (unat (max_attempts cfg))"
    and "retry_loop jitter cfg tr f made = (r, sleeps)"
  shows "\<exists>k. unat made < unat k \<and> unat k \<le> max 1 (unat (max_attempts cfg))
    \<and> (\<forall>j. unat made < unat j \<and> unat j < unat k \<longrightarrow> (\<exists>e. f j = Inl e \<and> tr e))
    \<and> length sleeps = unat k - unat made - 1
    \<and> (case f k of Inr v \<Rightarrow> r = Inr v
         | Inl e \<Rightarrow> r = Inl (Exhausted k e) \<and> (max_attempts cfg \<le> k \<or> \<not> tr e))"
  using assms
proof (induction jitter cfg tr f made arbitrary: r sleeps rule: retry_loop.induct)
  case (1 jitter cfg tr f made)
  let ?k = "made + 1"
  have "made \<noteq> - 1"
    using 1(2) unat_bounded [of "max_attempts cfg"] unat_max_u32 by (auto simp: max_def split: if_splits)
  then have k: "unat ?k = Suc (unat made)" by (rule unat_Suc_u32)
  show ?case
  proof (cases "\<exists>e. f ?k = Inl e \<and> \<not> (max_attempts cfg \<le> ?k \<or> \<not> tr e)")
    case False
    then have "sleeps = [] \<and> (case f ?k of Inr v \<Rightarrow> r = Inr v
       | Inl e \<Rightarrow> r = Inl (Exhausted ?k e) \<and> (max_attempts cfg \<le> ?k \<or> \<not> tr e))"
      using 1(3) by (cases "f ?k") (auto simp: retry_loop.simps [of jitter cfg tr f made] Let_def)
    with k 1(2) show ?thesis by (intro exI [of _ ?k]) auto
  next
    case True
    then obtain e where e: "f ?k = Inl e" "\<not> (max_attempts cfg \<le> ?k \<or> \<not> tr e)" by blast
    obtain r' sl where rec: "retry_loop jitter cfg tr f ?k = (r', sl)" by fastforce
    have r: "r = r'" "length sleeps = Suc (length sl)"
      using 1(3) rec e by (auto simp: retry_loop.simps [of jitter cfg tr f made] Let_def)
    have "unat ?k < max 1 (unat (max_attempts cfg))" using e(2) by (auto simp: word_le_nat_alt not_le)
    from 1(1) [OF refl e this rec] obtain k where k': "unat ?k < unat k" "unat k \<le> max 1 (unat (max_attempts cfg))"
      "\<forall>j. unat ?k < unat j \<and> unat j < unat k \<longrightarrow> (\<exists>e. f j = Inl e \<and> tr e)"
      "length sl = unat k - unat ?k - 1"
      "case f k of Inr v \<Rightarrow> r' = Inr v | Inl e \<Rightarrow> r' = Inl (Exhausted k e) \<and> (max_attempts cfg \<le> k \<or> \<not> tr e)"
      by blast
    have "\<exists>e. f j = Inl e \<and> tr e" if "unat made < unat j" "unat j < unat k" for j
    proof (cases "j = ?k")
      case True
      with e show ?thesis by auto
    next
      case False
      then have "unat j \<noteq> unat ?k" using word_unat_eq_iff by blast
      with that k k'(3) show ?thesis by auto
    qed
    with k' k r show ?thesis by (intro exI [of _ k]) auto
  qed
qed

text \<open>
  C35. Retrying ends and is faithful to the operation: there is an attempt \<open>k\<close>, between one
  and \<open>max_attempts\<close> (one when that is zero), such that every earlier call failed with a
  transient error and was followed by one delay, and the result is that of call \<open>k\<close>: its
  value, or \<open>Exhausted\<close> with its error, which is permanent or used the last attempt.
\<close>

theorem with_retry_outcome:
  "\<exists>k. 1 \<le> unat k \<and> unat k \<le> max 1 (unat (max_attempts cfg))
    \<and> list_all (\<lambda>j. \<exists>e. f (of_nat j) = Inl e \<and> is_transient e) [1..<unat k]
    \<and> length (snd (with_retry jitter cfg is_transient f)) = unat k - 1
    \<and> (case f k of Inr v \<Rightarrow> fst (with_retry jitter cfg is_transient f) = Inr v
         | Inl e \<Rightarrow> fst (with_retry jitter cfg is_transient f) = Inl (Exhausted k e)
             \<and> (if is_transient e then max_attempts cfg \<le> k else True))"
proof -
  obtain r sleeps where r: "retry_loop jitter cfg is_transient f 0 = (r, sleeps)" by fastforce
  have "unat (0 :: u32) < max 1 (unat (max_attempts cfg))" by simp
  from retry_loop_spec [OF this r] obtain k where
    k: "0 < unat k" "unat k \<le> max 1 (unat (max_attempts cfg))"
    and before: "\<forall>j. 0 < unat j \<and> unat j < unat k \<longrightarrow> (\<exists>e. f j = Inl e \<and> is_transient e)"
    and fin: "length sleeps = unat k - 1"
      "case f k of Inr v \<Rightarrow> r = Inr v | Inl e \<Rightarrow> r = Inl (Exhausted k e) \<and> (max_attempts cfg \<le> k \<or> \<not> is_transient e)"
    by auto
  have "\<exists>e. f (of_nat j) = Inl e \<and> is_transient e" if "1 \<le> j" "j < unat k" for j
  proof -
    have "unat (of_nat j :: u32) = j"
      using that(2) unat_bounded [of k] by (intro unat_of_nat_u32) simp
    with before that show ?thesis by auto
  qed
  with k fin r show ?thesis
    by (intro exI [of _ k]) (auto simp: with_retry_def list_all_iff split: sum.splits)
qed

section \<open>Status codes\<close>

lemma find_str_first:
  "find_str code s = Some pos \<Longrightarrow> starts_with code (drop pos s) \<and> (\<forall>i < pos. \<not> starts_with code (drop i s))"
proof (induction s arbitrary: pos)
  case (Cons c s)
  show ?case
  proof (cases "starts_with code (c # s)")
    case True
    with Cons.prems show ?thesis by simp
  next
    case False
    then obtain p where p: "find_str code s = Some p" "pos = Suc p" using Cons.prems by auto
    with Cons.IH [OF p(1)] False show ?thesis by (auto simp: less_Suc_eq_0_disj)
  qed
qed (simp add: starts_with_def split: if_splits)

lemma find_str_none: "find_str code s = None \<Longrightarrow> i \<le> length s \<Longrightarrow> \<not> starts_with code (drop i s)"
proof (induction s arbitrary: i)
  case (Cons c s)
  then show ?case by (cases i) (auto split: if_splits)
qed (auto simp: starts_with_def split: if_splits)

lemma status_loop_iff:
  assumes "code \<noteq> []"
  shows "status_loop s code n \<longleftrightarrow>
    (\<exists>i \<ge> n. i < length s \<and> starts_with code (drop i s) \<and> standalone s code i)"
proof (induction "length s - n" arbitrary: n rule: less_induct)
  case less
  show ?case
  proof (cases "find_str code (drop n s)")
    case None
    have "\<not> starts_with code (drop i s)" if "n \<le> i" "i < length s" for i
      using find_str_none [OF None, of "i - n"] that by simp
    with None show ?thesis by (subst status_loop.simps) auto
  next
    case (Some pos)
    let ?i = "n + pos"
    have at: "starts_with code (drop ?i s)" and before: "\<And>i. n \<le> i \<Longrightarrow> i < ?i \<Longrightarrow> \<not> starts_with code (drop i s)"
    proof -
      show "starts_with code (drop ?i s)" using find_str_first [OF Some] by (simp add: add.commute)
    next
      show "\<not> starts_with code (drop i s)" if "n \<le> i" "i < ?i" for i
      proof -
        have "\<not> starts_with code (drop (i - n) (drop n s))"
          using conjunct2 [OF find_str_first [OF Some], rule_format, of "i - n"] that by linarith
        then show ?thesis using that(1) by simp
      qed
    qed
    have len: "?i < length s"
      using find_str_bound [OF Some] assms by (cases code) auto
    show ?thesis
    proof (cases "standalone s code ?i")
      case True
      then have "status_loop s code n" by (subst status_loop.simps) (simp add: Some)
      with True at len show ?thesis using le_add1 [of n pos] by blast
    next
      case False
      then have "status_loop s code n \<longleftrightarrow> status_loop s code (?i + 1)"
        using len Some by (subst status_loop.simps) simp
      also have "\<dots> \<longleftrightarrow> (\<exists>i \<ge> ?i + 1. i < length s \<and> starts_with code (drop i s) \<and> standalone s code i)"
        using len by (intro less) simp
      also have "\<dots> \<longleftrightarrow> (\<exists>i \<ge> n. i < length s \<and> starts_with code (drop i s) \<and> standalone s code i)"
      proof -
        have "i \<ge> ?i + 1" if "n \<le> i" "starts_with code (drop i s)" "standalone s code i" for i
        proof -
          have "i \<noteq> ?i" using False that(3) by auto
          moreover have "\<not> i < ?i" using before [of i] that by blast
          ultimately show ?thesis by linarith
        qed
        then show ?thesis by (meson add_leD1 le_trans le_add1)
      qed
      finally show ?thesis .
    qed
  qed
qed

text \<open>
  The status-code scan is exact: a non-empty code is found if and only if it occurs in the
  text at a position whose preceding character, if any, is no hex digit, which is not
  preceded by \<open>0x\<close>, and whose following character, if any, is no hex digit; every
  occurrence is examined, overlapping ones included.
\<close>

lemma contains_status_code_iff:
  assumes "code \<noteq> []"
  shows "contains_status_code s code \<longleftrightarrow>
    (\<exists>before after. s = before @ code @ after
       \<and> (before = [] \<or> \<not> is_ascii_hexdigit (last before))
       \<and> \<not> (\<exists>b. before = b @ ''0x'')
       \<and> (after = [] \<or> \<not> is_ascii_hexdigit (hd after)))" (is "_ \<longleftrightarrow> ?R")
proof
  assume "contains_status_code s code"
  then obtain i where i: "i < length s" "starts_with code (drop i s)" "standalone s code i"
    unfolding contains_status_code_def status_loop_iff [OF assms] by blast
  define after where "after = drop (i + length code) s"
  have s: "s = take i s @ code @ after"
    using i(2) by (metis after_def append_take_drop_id drop_drop starts_with_def add.commute)
  have "take i s = [] \<or> \<not> is_ascii_hexdigit (last (take i s))"
    using i by (cases "i = 0") (auto simp: standalone_def Let_def last_conv_nth min_def)
  moreover have "\<not> (\<exists>b. take i s = b @ ''0x'')"
  proof
    assume "\<exists>b. take i s = b @ ''0x''"
    then obtain b where b: "take i s = b @ ''0x''" by blast
    then have len: "i = length b + 2" using i(1) length_take [of i s] by (simp add: b)
    then have "take 2 (drop (i - 2) s) = drop (length b) (take i s)" by (simp add: drop_take)
    also have "\<dots> = ''0x''" using b by simp
    finally show False using i(3) len by (simp add: standalone_def Let_def)
  qed
  moreover have "after = [] \<or> \<not> is_ascii_hexdigit (hd after)"
  proof (cases "after = []")
    case False
    then have "i + length code < length s" by (simp add: after_def)
    with i(3) show ?thesis by (simp add: after_def hd_drop_conv_nth standalone_def Let_def)
  qed simp
  ultimately show ?R using s by blast
next
  assume ?R
  then obtain before after where s: "s = before @ code @ after"
    and pre: "before = [] \<or> \<not> is_ascii_hexdigit (last before)" "\<not> (\<exists>b. before = b @ ''0x'')"
    and post: "after = [] \<or> \<not> is_ascii_hexdigit (hd after)" by blast
  let ?i = "length before"
  have "starts_with code (drop ?i s)" by (simp add: s starts_with_def)
  moreover have "?i < length s" using assms by (cases code) (simp_all add: s)
  moreover have "standalone s code ?i"
  proof -
    have "\<not> (2 \<le> ?i \<and> take 2 (drop (?i - 2) s) = ''0x'')"
    proof
      assume a: "2 \<le> ?i \<and> take 2 (drop (?i - 2) s) = ''0x''"
      then have "Suc (Suc (?i - 2)) = ?i" by linarith
      with a have "drop (?i - 2) before = ''0x''" by (simp add: s)
      then have "before = take (?i - 2) before @ ''0x''" by (metis append_take_drop_id)
      with pre(2) show False by blast
    qed
    moreover have "?i = 0 \<or> \<not> is_ascii_hexdigit (s ! (?i - 1))"
      using pre(1) by (cases before rule: rev_cases) (auto simp: s nth_append)
    moreover have "?i + length code = length s \<or> \<not> is_ascii_hexdigit (s ! (?i + length code))"
      using post by (cases after) (auto simp: s nth_append)
    ultimately show ?thesis by (simp add: standalone_def Let_def)
  qed
  ultimately show "contains_status_code s code"
    unfolding contains_status_code_def status_loop_iff [OF assms] by blast
qed

end
