(* ===== verification/Prestate.thy ===== *)
theory Prestate
  imports Core_Types "HOL-Library.Option_ord" "HOL-Library.Multiset"
begin

text \<open>
  \<^verbatim>\<open>crates/core/src/prestate.rs\<close>: the net form of a program, built from a
  \<open>prestateTracer\<close> diff and a \<open>callTracer\<close> call tree instead of a struct-log trace, and
  the classifier that says for which calls it exists. Of the tracer types only the fields
  the module reads are kept.
\<close>

section \<open>Tracer outputs\<close>

record call_log_frame =
  lg_topics :: "b256 list option"
  lg_data :: "bytes option"
  lg_position :: "nat option"
  lg_index :: "nat option"

datatype call_frame = CallFrame
  (cf_typ: string) (cf_to: "address option") (cf_error: "string option")
  (cf_revert_reason: "string option") (cf_logs: "call_log_frame list") (cf_calls: "call_frame list")

type_synonym account_storage = "(b256, b256) omap"

record diff_mode =
  pre :: "(address, account_storage) omap"
  post :: "(address, account_storage) omap"

section \<open>Eligibility\<close>

datatype fallback_reason =
    RootTargets address address
  | TopLevelReverted string
  | NonConsumerChanged address
  | RegularCall "address option"
  | Creation string
  | SelfDestruct
  | UnhandledFrame string

datatype prestate_eligibility = Eligible | Fallback fallback_reason

definition frame_failure :: "call_frame \<Rightarrow> string option" where
  "frame_failure f = (case cf_error f of Some e \<Rightarrow> Some e | None \<Rightarrow> cf_revert_reason f)"

definition transparent :: "string \<Rightarrow> bool" where
  "transparent typ \<longleftrightarrow> typ = ''DELEGATECALL'' \<or> typ = ''CALLCODE''"

fun scan_target_depth :: "call_frame \<Rightarrow> fallback_reason option"
  and scan_calls :: "call_frame list \<Rightarrow> fallback_reason option" where
  "scan_target_depth (CallFrame typ to err rr lgs cs) = scan_calls cs"
| "scan_calls [] = None"
| "scan_calls (c # cs) =
     (if cf_typ c = ''CALL'' then Some (RegularCall (cf_to c))
      else if cf_typ c = ''CREATE'' \<or> cf_typ c = ''CREATE2'' then Some (Creation (cf_typ c))
      else if cf_typ c = ''SELFDESTRUCT'' then Some SelfDestruct
      else if transparent (cf_typ c) then
        (case scan_target_depth c of Some r \<Rightarrow> Some r | None \<Rightarrow> scan_calls cs)
      else if cf_typ c = ''STATICCALL'' then scan_calls cs
      else Some (UnhandledFrame (cf_typ c)))"

text \<open>A \<open>BTreeSet\<close> filled from two maps: the keys of both, ascending, each once.\<close>

definition key_union :: "('k::linorder, 'v) omap \<Rightarrow> ('k, 'v) omap \<Rightarrow> 'k list" where
  "key_union m n = sort (remdups (om_keys m @ om_keys n))"

definition storage_in :: "(address, account_storage) omap \<Rightarrow> address \<Rightarrow> account_storage" where
  "storage_in accounts a = (case map_of accounts a of None \<Rightarrow> [] | Some s \<Rightarrow> s)"

definition slot_or_zero :: "account_storage \<Rightarrow> b256 \<Rightarrow> b256" where
  "slot_or_zero m k = (case map_of m k of None \<Rightarrow> 0 | Some v \<Rightarrow> v)"

definition account_storage_changed :: "diff_mode \<Rightarrow> address \<Rightarrow> bool" where
  "account_storage_changed diff a =
     (let old = storage_in (pre diff) a; new = storage_in (post diff) a
      in list_ex (\<lambda>k. slot_or_zero old k \<noteq> slot_or_zero new k) (key_union old new))"

fun first_changed :: "diff_mode \<Rightarrow> address \<Rightarrow> address list \<Rightarrow> address option" where
  "first_changed diff consumer [] = None"
| "first_changed diff consumer (a # as) =
     (if a \<noteq> consumer \<and> account_storage_changed diff a then Some a
      else first_changed diff consumer as)"

definition classify_prestate_eligibility ::
  "call_frame \<Rightarrow> diff_mode \<Rightarrow> address \<Rightarrow> prestate_eligibility" where
  "classify_prestate_eligibility frame diff consumer =
     (case (case cf_to frame of Some t \<Rightarrow> if t \<noteq> consumer then Some t else None | None \<Rightarrow> None) of
        Some t \<Rightarrow> Fallback (RootTargets t consumer)
      | None \<Rightarrow>
     (case frame_failure frame of
        Some err \<Rightarrow> Fallback (TopLevelReverted err)
      | None \<Rightarrow>
     (case first_changed diff consumer (key_union (pre diff) (post diff)) of
        Some a \<Rightarrow> Fallback (NonConsumerChanged a)
      | None \<Rightarrow>
     (case scan_target_depth frame of
        Some reason \<Rightarrow> Fallback reason
      | None \<Rightarrow> Eligible))))"

section \<open>Building the net form\<close>

definition position_of :: "call_log_frame \<Rightarrow> nat" where
  "position_of l = (case lg_position l of None \<Rightarrow> 0 | Some p \<Rightarrow> p)"

text \<open>
  The loop over a frame's calls with the cursor \<open>li\<close> into its position-sorted logs: the
  rest of the sorted logs is carried instead of the cursor.
\<close>

fun collect_target_depth_logs :: "call_frame \<Rightarrow> call_log_frame list"
  and collect_calls :: "nat \<Rightarrow> call_log_frame list \<Rightarrow> call_frame list \<Rightarrow> call_log_frame list" where
  "collect_target_depth_logs (CallFrame typ to err rr lgs cs) =
     collect_calls 0 (sort_key position_of lgs) cs"
| "collect_calls call_idx rest [] = rest"
| "collect_calls call_idx rest (c # cs) =
     takeWhile (\<lambda>l. position_of l \<le> call_idx) rest
     @ (if transparent (cf_typ c) \<and> frame_failure c = None then collect_target_depth_logs c else [])
     @ collect_calls (call_idx + 1) (dropWhile (\<lambda>l. position_of l \<le> call_idx) rest) cs"

definition ordered_target_depth_logs :: "call_frame \<Rightarrow> call_log_frame list" where
  "ordered_target_depth_logs frame =
     (let lgs = collect_target_depth_logs frame
      in if length lgs > 1 \<and> list_all (\<lambda>l. lg_index l \<noteq> None) lgs
         then sort_key lg_index lgs else lgs)"

definition log_to_update :: "call_log_frame \<Rightarrow> state_update" where
  "log_to_update l =
     (let topics = (case lg_topics l of None \<Rightarrow> [] | Some ts \<Rightarrow> ts);
          d = (case lg_data l of None \<Rightarrow> [] | Some bs \<Rightarrow> bs)
      in if length topics = 0 then Log0 d
         else if length topics = 1 then Log1 d (topics ! 0)
         else if length topics = 2 then Log2 d (topics ! 0) (topics ! 1)
         else if length topics = 3 then Log3 d (topics ! 0) (topics ! 1) (topics ! 2)
         else Log4 d (topics ! 0) (topics ! 1) (topics ! 2) (topics ! 3))"

definition net_stores :: "account_storage \<Rightarrow> account_storage \<Rightarrow> state_update list" where
  "net_stores old new =
     map (\<lambda>slot. Store slot (slot_or_zero new slot))
       (filter (\<lambda>slot. slot_or_zero old slot \<noteq> slot_or_zero new slot) (key_union old new))"

definition build_state_updates_from_prestate ::
  "address \<Rightarrow> diff_mode \<Rightarrow> call_frame \<Rightarrow> state_update list" where
  "build_state_updates_from_prestate consumer diff frame =
     net_stores (storage_in (pre diff) consumer) (storage_in (post diff) consumer)
     @ map log_to_update (ordered_target_depth_logs frame)"

section \<open>The effect of a program on storage\<close>

fun apply_update :: "state_update \<Rightarrow> (b256 \<Rightarrow> b256) \<Rightarrow> b256 \<Rightarrow> b256" where
  "apply_update (Store s v) st = st(s := v)"
| "apply_update _ st = st"

definition apply_program :: "state_update list \<Rightarrow> (b256 \<Rightarrow> b256) \<Rightarrow> b256 \<Rightarrow> b256" where
  "apply_program us st = fold apply_update us st"

lemma apply_program_append: "apply_program (us @ vs) st = apply_program vs (apply_program us st)"
  by (simp add: apply_program_def)

lemma apply_program_logs: "apply_program (map log_to_update ls) st = st"
  by (induction ls arbitrary: st) (auto simp: apply_program_def log_to_update_def Let_def)

lemma apply_program_stores:
  "distinct ks \<Longrightarrow> apply_program (map (\<lambda>k. Store k (f k)) ks) st =
     (\<lambda>k. if k \<in> set ks then f k else st k)"
  by (induction ks arbitrary: st) (auto simp: apply_program_def fun_eq_iff)

lemma set_key_union [simp]: "set (key_union m n) = set (om_keys m) \<union> set (om_keys n)"
  by (simp add: key_union_def)

lemma distinct_key_union [simp]: "distinct (key_union m n)"
  by (simp add: key_union_def)

lemma sorted_key_union: "sorted_wrt (<) (key_union m n)"
  by (simp add: strict_sorted_iff) (simp add: key_union_def)

lemma slot_outside: "k \<notin> set (om_keys m) \<Longrightarrow> slot_or_zero m k = 0"
  by (simp add: slot_or_zero_def map_of_None_iff_keys [symmetric])

lemma net_stores_reach:
  "apply_program (net_stores old new) (slot_or_zero old) = slot_or_zero new"
  by (auto simp: net_stores_def apply_program_stores fun_eq_iff slot_outside)

lemma account_storage_changed_iff:
  "account_storage_changed diff a \<longleftrightarrow>
     (\<exists>k. slot_or_zero (storage_in (pre diff) a) k \<noteq> slot_or_zero (storage_in (post diff) a) k)"
  using slot_outside by (fastforce simp: account_storage_changed_def Let_def list_ex_iff)

lemma first_changed_None:
  "first_changed diff consumer as = None \<longleftrightarrow>
     (\<forall>a \<in> set as. a = consumer \<or> \<not> account_storage_changed diff a)"
  by (induction as) auto

lemma storage_in_outside: "a \<notin> set (om_keys m) \<Longrightarrow> storage_in m a = []"
  by (simp add: storage_in_def map_of_None_iff_keys [symmetric])

section \<open>Soundness of the net form\<close>

text \<open>The shape of an eligible call tree: only static and delegate frames at target depth.\<close>

fun only_transparent :: "call_frame \<Rightarrow> bool" where
  "only_transparent (CallFrame typ to err rr lgs cs) \<longleftrightarrow>
     (\<forall>c \<in> set cs. cf_typ c = ''STATICCALL'' \<or> transparent (cf_typ c) \<and> only_transparent c)"

lemma scan_None_iff:
  "scan_target_depth f = None \<longleftrightarrow> only_transparent f"
  "scan_calls cs = None \<longleftrightarrow>
     (\<forall>c \<in> set cs. cf_typ c = ''STATICCALL'' \<or> transparent (cf_typ c) \<and> only_transparent c)"
  by (induction f and cs rule: scan_target_depth_scan_calls.induct)
    (auto simp: transparent_def split: option.splits)

lemma unchanged_elsewhere:
  "first_changed diff consumer (key_union (pre diff) (post diff)) = None \<longleftrightarrow>
     (\<forall>a k. a \<noteq> consumer \<longrightarrow>
        slot_or_zero (storage_in (post diff) a) k = slot_or_zero (storage_in (pre diff) a) k)"
proof -
  have "\<not> account_storage_changed diff a"
    if "a \<notin> set (om_keys (pre diff)) \<union> set (om_keys (post diff))" for a
    using that by (simp add: account_storage_changed_iff storage_in_outside)
  then have "first_changed diff consumer (key_union (pre diff) (post diff)) = None \<longleftrightarrow>
      (\<forall>a. a = consumer \<or> \<not> account_storage_changed diff a)"
    unfolding first_changed_None set_key_union by blast
  then show ?thesis unfolding account_storage_changed_iff by metis
qed

text \<open>
  C25. The classifier is exact: a call has a net form if and only if its root frame is the
  consumer's (or names no target), it did not fail, no other account's storage differs
  between the two sides of the diff, and its target-depth context consists of static and
  delegate frames only.
\<close>

theorem classify_eligible_iff:
  "classify_prestate_eligibility frame diff consumer = Eligible \<longleftrightarrow>
     cf_to frame \<in> {None, Some consumer} \<and> cf_error frame = None \<and> cf_revert_reason frame = None
   \<and> (\<forall>a k. a \<noteq> consumer \<longrightarrow>
        slot_or_zero (storage_in (post diff) a) k = slot_or_zero (storage_in (pre diff) a) k)
   \<and> only_transparent frame"
  unfolding unchanged_elsewhere [symmetric] scan_None_iff(1) [symmetric]
  by (auto simp: classify_prestate_eligibility_def frame_failure_def split: option.splits if_splits)

text \<open>
  C3. The net form reproduces the diff: for an eligible call, running the built program's
  stores on the consumer and nothing elsewhere takes every account's storage from its
  pre-state to its post-state, slot by slot.
\<close>

theorem net_form_reaches_post_state:
  assumes "classify_prestate_eligibility frame diff consumer = Eligible"
  shows "(if a = consumer
          then apply_program (build_state_updates_from_prestate consumer diff frame)
                 (slot_or_zero (storage_in (pre diff) a))
          else slot_or_zero (storage_in (pre diff) a))
         = slot_or_zero (storage_in (post diff) a)"
proof (cases "a = consumer")
  case True
  then show ?thesis
    by (simp add: build_state_updates_from_prestate_def apply_program_append apply_program_logs
        net_stores_reach)
next
  case False
  have "first_changed diff consumer (key_union (pre diff) (post diff)) = None"
    using assms
    by (auto simp: classify_prestate_eligibility_def split: option.splits if_splits)
  with False show ?thesis unfolding unchanged_elsewhere by (auto simp: fun_eq_iff)
qed

text \<open>
  The net form is canonical: its stores come first, in strictly ascending slot order
  with no slot twice, and every one of them changes the value its slot had, so two provers
  with the same diff build the same stores.
\<close>

lemma net_stores_canonical:
  "sorted_wrt (<) (map fst (List.map_filter store_of (build_state_updates_from_prestate consumer diff frame)))
   \<and> filter (\<lambda>u. store_of u \<noteq> None) (build_state_updates_from_prestate consumer diff frame)
       = net_stores (storage_in (pre diff) consumer) (storage_in (post diff) consumer)
   \<and> list_all (\<lambda>(s, v). v \<noteq> slot_or_zero (storage_in (pre diff) consumer) s
        \<and> v = slot_or_zero (storage_in (post diff) consumer) s)
      (List.map_filter store_of (build_state_updates_from_prestate consumer diff frame))"
proof -
  have logs: "store_of (log_to_update l) = None" for l
    by (simp add: log_to_update_def Let_def)
  have none: "List.map_filter store_of (map log_to_update ls) = []"
    "filter (\<lambda>u. store_of u \<noteq> None) (map log_to_update ls) = []" for ls
    by (induction ls) (simp_all add: map_filter_simps logs)
  have stores: "List.map_filter store_of (map (\<lambda>k. Store k (f k)) ks) = map (\<lambda>k. (k, f k)) ks"
    "filter (\<lambda>u. store_of u \<noteq> None) (map (\<lambda>k. Store k (f k)) ks) = map (\<lambda>k. Store k (f k)) ks"
    for f ks
    by (induction ks) (simp_all add: map_filter_simps)
  have app: "List.map_filter store_of (us @ vs) = List.map_filter store_of us @ List.map_filter store_of vs"
    for us vs by (simp add: List.map_filter_def)
  show ?thesis
    unfolding build_state_updates_from_prestate_def app filter_append none net_stores_def stores
    by (auto simp: sorted_key_union sorted_wrt_filter list_all_iff o_def)
qed

section \<open>Emission order\<close>

text \<open>
  The order in which the EVM emitted the logs: before the \<open>i\<close>-th sub-call the frame's own
  logs at position \<open>i\<close>, then the sub-call's if it is a delegate frame that succeeded, and
  the remaining own logs by position.
\<close>

fun emission_order :: "call_frame \<Rightarrow> call_log_frame list" where
  "emission_order (CallFrame typ to err rr lgs cs) =
     concat (map (\<lambda>(i, inner). filter (\<lambda>l. position_of l = i) lgs @ inner)
       (enumerate 0 (map (\<lambda>c. if transparent (cf_typ c) \<and> frame_failure c = None
                               then emission_order c else []) cs)))
     @ sort_key position_of (filter (\<lambda>l. length cs \<le> position_of l) lgs)"

lemma takeWhile_sorted_le:
  "sorted (map f xs) \<Longrightarrow> takeWhile (\<lambda>x. f x \<le> (i::nat)) xs = filter (\<lambda>x. f x \<le> i) xs"
  by (induction xs) (auto intro!: filter_False [symmetric])

lemma dropWhile_sorted_le:
  "sorted (map f xs) \<Longrightarrow> dropWhile (\<lambda>x. f x \<le> (i::nat)) xs = filter (\<lambda>x. \<not> f x \<le> i) xs"
  by (induction xs) (auto intro!: filter_True [symmetric])

lemma collect_calls_spec:
  assumes "\<And>c. c \<in> set cs \<Longrightarrow> transparent (cf_typ c) \<and> frame_failure c = None \<Longrightarrow>
      collect_target_depth_logs c = emission_order c"
  shows "collect_calls i (filter (\<lambda>l. i \<le> position_of l) (sort_key position_of lgs)) cs =
    concat (map (\<lambda>(i, inner). filter (\<lambda>l. position_of l = i) lgs @ inner)
       (enumerate i (map (\<lambda>c. if transparent (cf_typ c) \<and> frame_failure c = None
                               then emission_order c else []) cs)))
     @ sort_key position_of (filter (\<lambda>l. i + length cs \<le> position_of l) lgs)"
  using assms
proof (induction cs arbitrary: i)
  case Nil
  then show ?case by (simp add: filter_sort)
next
  case (Cons c cs)
  let ?S = "sort_key position_of lgs"
  let ?R = "filter (\<lambda>l. i \<le> position_of l) ?S"
  have sorted: "sorted (map position_of ?R)" by (simp add: filter_sort)
  have "takeWhile (\<lambda>l. position_of l \<le> i) ?R = filter (\<lambda>l. position_of l = i) ?S"
    unfolding takeWhile_sorted_le [OF sorted] filter_filter by (intro filter_cong) auto
  also have "\<dots> = filter (\<lambda>l. position_of l = i) lgs" by (rule sort_key_stable)
  finally have tk: "takeWhile (\<lambda>l. position_of l \<le> i) ?R = filter (\<lambda>l. position_of l = i) lgs" .
  have "dropWhile (\<lambda>l. position_of l \<le> i) ?R = filter (\<lambda>l. Suc i \<le> position_of l) ?S"
    unfolding dropWhile_sorted_le [OF sorted] filter_filter
    by (intro filter_cong) auto
  with tk Cons.IH [of "Suc i"] Cons.prems show ?case by simp
qed

lemma collect_emission_order: "collect_target_depth_logs f = emission_order f"
proof (induction f rule: emission_order.induct)
  case (1 ty t err rr lgs cs)
  have "collect_target_depth_logs (CallFrame ty t err rr lgs cs)
      = collect_calls 0 (filter (\<lambda>l. 0 \<le> position_of l) (sort_key position_of lgs)) cs" by simp
  also have "\<dots> = emission_order (CallFrame ty t err rr lgs cs)"
    by (subst collect_calls_spec) (simp_all add: 1)
  finally show ?case .
qed

text \<open>
  Logs are collected in emission order: the cursor-based interleaving of a frame's
  position-sorted logs with its sub-calls equals the positional specification, at every
  level of delegate frames; logs of failed, static and regular-call frames never appear.
\<close>

lemma collected_logs_in_emission_order:
  "collect_target_depth_logs frame = emission_order frame"
  by (rule collect_emission_order)

text \<open>
  The index override only reorders: the ordered logs are a permutation of the logs in
  emission order, and when every one of several logs carries a global index they come out
  sorted by it.
\<close>

lemma ordered_logs_permutation:
  "mset (ordered_target_depth_logs frame) = mset (emission_order frame)
   \<and> (if 1 < length (emission_order frame) \<and> list_all (\<lambda>l. lg_index l \<noteq> None) (emission_order frame)
      then sorted (map lg_index (ordered_target_depth_logs frame))
      else ordered_target_depth_logs frame = emission_order frame)"
  by (simp add: ordered_target_depth_logs_def Let_def collect_emission_order)

section \<open>Witnesses\<close>

definition sample_frame :: call_frame where
  "sample_frame = CallFrame ''CALL'' (Some 170) None None
     [\<lparr>lg_topics = Some [7], lg_data = Some [1], lg_position = Some 1, lg_index = None\<rparr>]
     [CallFrame ''DELEGATECALL'' (Some 204) None None
        [\<lparr>lg_topics = None, lg_data = Some [2], lg_position = Some 0, lg_index = None\<rparr>] []]"

definition sample_diff :: diff_mode where
  "sample_diff = \<lparr>pre = [(170, [(1, 5), (2, 9)])], post = [(170, [(1, 5), (3, 4)])]\<rparr>"

theorem classify_eligible_iff_witness:
  "classify_prestate_eligibility sample_frame sample_diff 170 = Eligible"
  by (subst classify_eligible_iff)
    (simp add: sample_frame_def sample_diff_def storage_in_def transparent_def)

theorem net_form_reaches_post_state_witness:
  "apply_program (build_state_updates_from_prestate 170 sample_diff sample_frame)
     (slot_or_zero [(1, 5), (2, 9)]) = slot_or_zero [(1, 5), (3, 4)]"
proof -
  have "classify_prestate_eligibility sample_frame sample_diff 170 = Eligible"
    by (simp add: classify_prestate_eligibility_def sample_frame_def sample_diff_def
        frame_failure_def key_union_def om_keys_def transparent_def)
  from net_form_reaches_post_state [OF this, of 170] show ?thesis
    by (simp add: sample_diff_def storage_in_def)
qed

end
