(* ===== verification/Rpc_Traces.thy ===== *)
theory Rpc_Traces
  imports Rpc_Layer Prestate Trace Sim_Profile
begin

text \<open>
  Trace fetching, \<^verbatim>\<open>crates/rpc/src/lib.rs\<close>: the requests sent to a node, and what becomes of
  its answers. The node (an \<open>alloy\<close> provider) is the record \<open>node\<close> of its responses; the
  rendering of transport errors and the JSON parser are fields of it too. Strings are
  lowercased byte by byte (\<open>to_ascii_lowercase\<close>, and \<open>to_lowercase\<close> on ASCII text).
\<close>

section \<open>Requests and answers\<close>

datatype tx_kind = CallTo address | CreateKind

record tx_request =
  tr_from :: "address option"
  tr_to :: "tx_kind option"
  tr_gas :: "u64 option"
  tr_value :: "u256 option"
  tr_input :: bytes
  tr_access_list :: "(address \<times> b256 list) list option"

datatype tracer_type = PreStateTracer | CallTracer

text \<open>
  The tracer a request names, with the configuration the crate sets: the default struct
  logger (memory, storage disabled), the prestate tracer (diff mode, code disabled), the
  call tracer (logs), or several at once.
\<close>

datatype tracing =
    DefaultTracing bool bool
  | PreStateTracing bool bool
  | CallTracing bool
  | MuxTracing "(tracer_type \<times> tracing) list"

record tracing_call_options =
  tracing_options :: tracing
  block_override_gas_limit :: "u64 option"

datatype geth_trace =
    DefaultTrace default_frame
  | PreStateDiff diff_mode
  | PreStateDefault
  | CallTrace call_frame
  | MuxTrace "(tracer_type \<times> geth_trace) list"
  | OtherTrace

record error_payload =
  ep_code :: int
  ep_message :: string

datatype transport_error =
    ErrorResp error_payload
  | HttpError nat string
  | OtherTransport string

text \<open>A transaction of a fetched block, as far as replay reads it.\<close>

record block_tx =
  bt_signer :: address
  bt_to :: "address option"
  bt_input :: bytes
  bt_value :: u256
  bt_gas_limit :: u64
  bt_nonce :: u64
  bt_effective_gas_price :: "u64 option \<Rightarrow> u128"
  bt_access_list :: "(address \<times> b256 list) list option"
  bt_authorization_list :: "bytes list option"

record full_block =
  base_fee_per_gas :: "u64 option"
  transactions :: "block_tx list"

record node =
  debug_trace_call :: "tx_request \<Rightarrow> u64 \<Rightarrow> tracing_call_options \<Rightarrow> transport_error + geth_trace"
  debug_trace_transaction :: "b256 \<Rightarrow> bool \<Rightarrow> transport_error + geth_trace"
  eth_call :: "address \<Rightarrow> bytes \<Rightarrow> u64 \<Rightarrow> u64 \<Rightarrow> transport_error + bytes"
  get_full_block :: "u64 \<Rightarrow> transport_error + full_block option"
  show_payload :: "error_payload \<Rightarrow> string"
  show_http :: "nat \<Rightarrow> string \<Rightarrow> string"
  json_rpc_error_in :: "string \<Rightarrow> error_payload option"

datatype fetch_error =
    TransactionFailed
  | NotDefaultTrace
  | NotPrestateDiff
  | NotCallFrame
  | TraceCallFailed transport_error
  | MuxFailed string
  | EvmFailure string
  | CallReverted bytes
  | CoreError core_error
  | EmptyTrace b256
  | BlockNotFound u64
  | TxIndexExceeds u64 nat
  | NoToAddress
  | LegacyCannotSplit
  | PayloadRejected unbounded_cost_violation
  | ExecutorFailed string

text \<open>The \<open>?\<close> operator's conversion of an error into the caller's error type.\<close>

definition map_err :: "('e \<Rightarrow> 'f) \<Rightarrow> 'e + 'a \<Rightarrow> 'f + 'a" where
  "map_err f r = (case r of Inl e \<Rightarrow> Inl (f e) | Inr a \<Rightarrow> Inr a)"

lemma map_err_Inr [simp, res_simps]: "map_err f r = Inr a \<longleftrightarrow> r = Inr a"
  by (cases r) (auto simp: map_err_def)

lemma map_err_simps [simp]: "map_err f (Inl e) = Inl (f e)" "map_err f (Inr a) = Inr a"
  by (simp_all add: map_err_def)

section \<open>Requests\<close>

definition apply_sim_profile :: "tx_request \<Rightarrow> tracing_call_options \<Rightarrow> sim_profile \<Rightarrow>
    tx_request \<times> tracing_call_options" where
  "apply_sim_profile req options profile =
     ((case tx_gas_limit_override profile of None \<Rightarrow> req | Some g \<Rightarrow> req\<lparr>tr_gas := Some g\<rparr>),
      (case block_gas_limit_override profile of None \<Rightarrow> options
       | Some g \<Rightarrow> options\<lparr>block_override_gas_limit := Some g\<rparr>))"

definition trace_call :: "node \<Rightarrow> tx_request \<Rightarrow> u64 \<Rightarrow> tracing \<Rightarrow> sim_profile \<Rightarrow> transport_error + geth_trace" where
  "trace_call nd req block tr profile =
     (case apply_sim_profile req \<lparr>tracing_options = tr, block_override_gas_limit = None\<rparr> profile of
        (req, options) \<Rightarrow> debug_trace_call nd req block options)"

definition get_tx_trace :: "node \<Rightarrow> b256 \<Rightarrow> bool \<Rightarrow> fetch_error + default_frame" where
  "get_tx_trace nd tx_hash status =
     (if \<not> status then Inl TransactionFailed
      else bind_res (map_err TraceCallFailed (debug_trace_transaction nd tx_hash True)) (\<lambda>t.
           case t of DefaultTrace trace \<Rightarrow> Inr trace | _ \<Rightarrow> Inl NotDefaultTrace))"

definition get_trace_from_call_with_profile :: "node \<Rightarrow> tx_request \<Rightarrow> u64 \<Rightarrow> sim_profile \<Rightarrow>
    fetch_error + default_frame" where
  "get_trace_from_call_with_profile nd req block profile =
     bind_res (map_err TraceCallFailed (trace_call nd req block (DefaultTracing True True) profile)) (\<lambda>t.
     case t of
       DefaultTrace trace \<Rightarrow>
         bind_res (map_err CallReverted (ensure_call_succeeded trace)) (\<lambda>_. Inr trace)
     | _ \<Rightarrow> Inl NotDefaultTrace)"

definition get_trace_from_call :: "node \<Rightarrow> tx_request \<Rightarrow> u64 \<Rightarrow> fetch_error + default_frame" where
  "get_trace_from_call nd req block = get_trace_from_call_with_profile nd req block Chain"

definition prestate_diff_config :: tracing where
  "prestate_diff_config = PreStateTracing True True"

definition call_with_log_config :: tracing where
  "call_with_log_config = CallTracing True"

definition get_prestate_diff_from_call_with_profile :: "node \<Rightarrow> tx_request \<Rightarrow> u64 \<Rightarrow> sim_profile \<Rightarrow>
    fetch_error + diff_mode" where
  "get_prestate_diff_from_call_with_profile nd req block profile =
     bind_res (map_err TraceCallFailed (trace_call nd req block prestate_diff_config profile)) (\<lambda>t.
     case t of PreStateDiff diff \<Rightarrow> Inr diff | _ \<Rightarrow> Inl NotPrestateDiff)"

definition get_prestate_diff_from_call :: "node \<Rightarrow> tx_request \<Rightarrow> u64 \<Rightarrow> fetch_error + diff_mode" where
  "get_prestate_diff_from_call nd req block = get_prestate_diff_from_call_with_profile nd req block Chain"

definition get_call_frame_from_call_with_profile :: "node \<Rightarrow> tx_request \<Rightarrow> u64 \<Rightarrow> sim_profile \<Rightarrow>
    fetch_error + call_frame" where
  "get_call_frame_from_call_with_profile nd req block profile =
     bind_res (map_err TraceCallFailed (trace_call nd req block call_with_log_config profile)) (\<lambda>t.
     case t of CallTrace frame \<Rightarrow> Inr frame | _ \<Rightarrow> Inl NotCallFrame)"

definition get_call_frame_from_call :: "node \<Rightarrow> tx_request \<Rightarrow> u64 \<Rightarrow> fetch_error + call_frame" where
  "get_call_frame_from_call nd req block = get_call_frame_from_call_with_profile nd req block Chain"

section \<open>The mux tracer\<close>

definition is_rate_limited :: "int \<Rightarrow> string \<Rightarrow> bool" where
  "is_rate_limited code message =
     (let message = to_lowercase message
      in code = 429 \<or> code = - 32005 \<or> str_contains message ''rate limit''
       \<or> str_contains message ''too many requests'')"

definition is_unsupported_tracer :: "string \<Rightarrow> bool" where
  "is_unsupported_tracer message =
     (let message = to_lowercase message
      in str_contains message ''tracer''
       \<and> list_ex (str_contains message) [''unsupported'', ''unknown'', ''not supported'', ''not found'',
            ''not available'', ''not allowed'', ''disabled''])"

datatype muxed_traces =
    Frames diff_mode call_frame
  | Unsupported
  | Rejected string "error_payload option"
  | Malformed

definition classify_mux_error :: "node \<Rightarrow> transport_error \<Rightarrow> fetch_error + muxed_traces" where
  "classify_mux_error nd e =
     bind_res
       (case e of
          ErrorResp resp \<Rightarrow> Inr (show_payload nd resp, Some resp)
        | HttpError status body \<Rightarrow>
            if 400 \<le> status \<and> status < 500 \<and> status \<noteq> 408 \<and> status \<noteq> 429
            then Inr (show_http nd status body, json_rpc_error_in nd body)
            else Inl (MuxFailed (show_http nd status body))
        | OtherTransport msg \<Rightarrow> Inl (MuxFailed msg)) (\<lambda>(reason, payload).
     if (case payload of None \<Rightarrow> False | Some p \<Rightarrow> is_rate_limited (ep_code p) (ep_message p))
     then Inl (MuxFailed reason)
     else Inr (if is_unsupported_tracer reason then Unsupported else Rejected reason payload))"

definition split_prestate_and_call :: "geth_trace \<Rightarrow> (diff_mode \<times> call_frame) option" where
  "split_prestate_and_call t =
     (case t of
        MuxTrace fs \<Rightarrow>
          (case (map_of fs PreStateTracer, map_of fs CallTracer) of
             (Some (PreStateDiff diff), Some (CallTrace frame)) \<Rightarrow> Some (diff, frame)
           | _ \<Rightarrow> None)
      | _ \<Rightarrow> None)"

definition get_prestate_diff_and_call_frame_with_profile :: "node \<Rightarrow> tx_request \<Rightarrow> u64 \<Rightarrow> sim_profile \<Rightarrow>
    fetch_error + muxed_traces" where
  "get_prestate_diff_and_call_frame_with_profile nd req block profile =
     (case trace_call nd req block
        (MuxTracing [(PreStateTracer, prestate_diff_config), (CallTracer, call_with_log_config)]) profile of
        Inr t \<Rightarrow> Inr (case split_prestate_and_call t of Some (d, f) \<Rightarrow> Frames d f | None \<Rightarrow> Malformed)
      | Inl e \<Rightarrow> classify_mux_error nd e)"

section \<open>Historical transactions\<close>

definition compute_state_updates_from_tx :: "hexd \<Rightarrow> node \<Rightarrow> b256 \<Rightarrow> bool \<Rightarrow> address option \<Rightarrow>
    fetch_error + trace_extract" where
  "compute_state_updates_from_tx hexd nd tx_hash status origin =
     bind_res (get_tx_trace nd tx_hash status) (\<lambda>trace.
     if length (struct_logs trace) > 0 then map_err CoreError (compute_state_updates hexd trace origin)
     else Inl (EmptyTrace tx_hash))"

record preceding_tx =
  px_from :: address
  px_kind :: tx_kind
  px_input :: bytes
  px_value :: u256
  px_gas_limit :: u64
  px_nonce :: u64
  px_gas_price :: u128
  px_access_list :: "(address \<times> b256 list) list"
  px_authorization_list :: "bytes list"

definition preceding_of :: "u64 option \<Rightarrow> block_tx \<Rightarrow> preceding_tx" where
  "preceding_of base_fee tx =
     \<lparr>px_from = bt_signer tx,
      px_kind = (case bt_to tx of Some a \<Rightarrow> CallTo a | None \<Rightarrow> CreateKind),
      px_input = bt_input tx, px_value = bt_value tx, px_gas_limit = bt_gas_limit tx,
      px_nonce = bt_nonce tx, px_gas_price = bt_effective_gas_price tx base_fee,
      px_access_list = (case bt_access_list tx of None \<Rightarrow> [] | Some l \<Rightarrow> l),
      px_authorization_list = (case bt_authorization_list tx of None \<Rightarrow> [] | Some l \<Rightarrow> l)\<rparr>"

definition get_preceding_transactions :: "node \<Rightarrow> u64 \<Rightarrow> u64 \<Rightarrow> fetch_error + preceding_tx list" where
  "get_preceding_transactions nd block_number tx_index =
     (if tx_index = 0 then Inr []
      else bind_res (map_err TraceCallFailed (get_full_block nd block_number)) (\<lambda>b.
           case b of
             None \<Rightarrow> Inl (BlockNotFound block_number)
           | Some block \<Rightarrow>
               if unat tx_index \<ge> length (transactions block)
               then Inl (TxIndexExceeds tx_index (length (transactions block)))
               else Inr (map (preceding_of (base_fee_per_gas block))
                          (take (unat tx_index) (transactions block)))))"

end
