(* ===== verification/Estimator.thy ===== *)
theory Estimator
  imports Frame_Encode Rpc_Traces
begin

text \<open>
  The gas estimator, \<^verbatim>\<open>crates/gas-estimator/src/lib.rs\<close>: the estimator contract is injected at
  a target, the program is its calldata, and the EVM's verdict is the gas. The EVM and its
  database (\<open>revm\<close>'s \<open>CacheDB\<close>) are the record \<open>evm\<close> of parameters over a database type;
  hashing, alloy's parameter encoding and the estimator's bytecode are fields of it.
\<close>

section \<open>Environment and EVM\<close>

record sim_env_opts =
  se_number :: u64
  se_timestamp :: u64
  se_gas_limit :: u64
  se_coinbase :: address
  se_prevrandao :: b256
  se_gas_price :: u128
  se_basefee :: u64
  se_difficulty :: u256
  se_spec :: nat
  se_value :: u256

record account_info =
  ai_balance :: u256
  ai_nonce :: u64
  ai_code_hash :: b256
  ai_code :: "bytes option"

definition default_account :: "b256 \<Rightarrow> account_info" where
  "default_account keccak_empty = \<lparr>ai_balance = 0, ai_nonce = 0, ai_code_hash = keccak_empty, ai_code = Some []\<rparr>"

record tx_env =
  te_caller :: address
  te_kind :: tx_kind
  te_data :: bytes
  te_value :: u256
  te_gas_limit :: u64
  te_nonce :: "u64 option"
  te_gas_price :: u128
  te_access_list :: "(address \<times> b256 list) list"
  te_authorization_list :: "bytes list"

datatype execution_result =
    Success u64
  | Revert u64 bytes
  | Halt u64 string

text \<open>
  \<open>build_tx\<close> is the check of \<open>TxEnv::builder().build()\<close>; \<open>transact\<close> runs a transaction and
  returns its result and the state it would commit.
\<close>

record 'db evm =
  basic_ref :: "address \<Rightarrow> 'db \<Rightarrow> account_info option"
  insert_account_info :: "address \<Rightarrow> account_info \<Rightarrow> 'db \<Rightarrow> 'db"
  set_code_hash :: "address \<Rightarrow> b256 \<Rightarrow> 'db \<Rightarrow> 'db"
  insert_account_storage :: "address \<Rightarrow> u256 \<Rightarrow> u256 \<Rightarrow> 'db \<Rightarrow> string + 'db"
  build_tx :: "tx_env \<Rightarrow> string + unit"
  transact :: "sim_env_opts \<Rightarrow> tx_env \<Rightarrow> 'db \<Rightarrow> string + execution_result \<times> 'db"
  osaka :: nat
  hash_slow :: "bytes \<Rightarrow> b256"
  keccak_empty :: b256
  ev_keccak :: "bytes \<Rightarrow> b256"
  estimator_bytecode :: bytes
  impl_slot :: u256
  abi_encode_params :: "state_update_type list \<Rightarrow> bytes list \<Rightarrow> bytes"

datatype est_error =
    ImplSlotFailed string
  | BuildTxFailed string
  | EstimationFailed string
  | Reverted u64 bytes
  | Halted u64 string
  | TreeNeedsRoot
  | FrameMissing nat
  | TooManyNested nat
  | ChildNotAfter nat nat
  | TooManyChildren nat
  | InPiece nat nat est_error
  | IndexPanic nat
  | PrecedingBuildFailed nat string
  | PrecedingFailed nat string

section \<open>One program\<close>

definition EIP7825_TX_GAS_CAP :: u64 where
  "EIP7825_TX_GAS_CAP = 2 ^ 24"

definition effective_tx_gas_limit :: "'db evm \<Rightarrow> u64 \<Rightarrow> nat \<Rightarrow> u64" where
  "effective_tx_gas_limit ev gas_limit spec =
     (if spec \<ge> osaka ev then min gas_limit EIP7825_TX_GAS_CAP else gas_limit)"

definition build_gas_estimation_calldata :: "'db evm \<Rightarrow> abi_seq \<Rightarrow> state_update list \<Rightarrow> bytes" where
  "build_gas_estimation_calldata ev abi_seq us =
     (case encode_state_updates_to_sol abi_seq us of
        (types, args) \<Rightarrow> [0x7a, 0x88, 0x8d, 0xbc] @ abi_encode_params ev types args)"

definition backup_address :: "'db evm \<Rightarrow> address \<Rightarrow> address" where
  "backup_address ev a =
     ucast (ev_keccak ev (map (of_nat \<circ> of_char) ''gas.estimator.backup'' @ be_bytes 20 (unat a)))"

definition original_hash :: "'db evm \<Rightarrow> account_info \<Rightarrow> bytes \<Rightarrow> b256" where
  "original_hash ev acc code =
     (if ai_code_hash acc = 0 \<or> ai_code_hash acc = keccak_empty ev then hash_slow ev code
      else ai_code_hash acc)"

definition inject_estimator :: "'db evm \<Rightarrow> address \<Rightarrow> 'db \<Rightarrow> est_error + 'db" where
  "inject_estimator ev contract db =
     (let backup = backup_address ev contract;
          original = (case basic_ref ev contract db of None \<Rightarrow> default_account (keccak_empty ev) | Some a \<Rightarrow> a);
          estimator_hash = hash_slow ev (estimator_bytecode ev);
          (db, h) = (case ai_code original of
              Some code \<Rightarrow>
                if code \<noteq> []
                then (insert_account_info ev backup \<lparr>ai_balance = 0, ai_nonce = 0,
                        ai_code_hash = original_hash ev original code, ai_code = Some code\<rparr> db,
                      original_hash ev original code)
                else (db, estimator_hash)
            | None \<Rightarrow> (db, estimator_hash));
          db = insert_account_info ev contract \<lparr>ai_balance = ai_balance original,
                 ai_nonce = ai_nonce original, ai_code_hash = estimator_hash,
                 ai_code = Some (estimator_bytecode ev)\<rparr> db;
          db = set_code_hash ev contract h db
      in map_err ImplSlotFailed (insert_account_storage ev contract (impl_slot ev) (ucast backup) db))"

definition top_up_caller :: "'db evm \<Rightarrow> address \<Rightarrow> u256 \<Rightarrow> 'db \<Rightarrow> 'db" where
  "top_up_caller ev caller value db =
     (if value = 0 then db
      else
        (let acc = (case basic_ref ev caller db of None \<Rightarrow> default_account (keccak_empty ev) | Some a \<Rightarrow> a)
         in insert_account_info ev caller (acc\<lparr>ai_balance := sat_add (ai_balance acc) value\<rparr>) db))"

definition run_estimator :: "'db evm \<Rightarrow> address \<Rightarrow> address \<Rightarrow> bytes \<Rightarrow> u256 \<Rightarrow> sim_env_opts \<Rightarrow> bool \<Rightarrow>
    'db \<Rightarrow> est_error + u64 \<times> 'db" where
  "run_estimator ev contract caller calldata value env commit db =
     (let db = top_up_caller ev caller value db;
          tx = \<lparr>te_caller = caller, te_kind = CallTo contract, te_data = calldata, te_value = value,
                te_gas_limit = effective_tx_gas_limit ev (se_gas_limit env) (se_spec env),
                te_nonce = None, te_gas_price = se_gas_price env, te_access_list = [],
                te_authorization_list = []\<rparr>
      in bind_res (map_err BuildTxFailed (build_tx ev tx)) (\<lambda>_.
         bind_res (map_err EstimationFailed (transact ev env tx db)) (\<lambda>(result, db').
         case result of
           Success g \<Rightarrow> Inr (g, if commit then db' else db)
         | Revert g output \<Rightarrow> Inl (Reverted g output)
         | Halt g reason \<Rightarrow> Inl (Halted g reason))))"

definition estimate_gas_raw :: "'db evm \<Rightarrow> address \<Rightarrow> address \<Rightarrow> bytes \<Rightarrow> sim_env_opts \<Rightarrow> 'db \<Rightarrow> est_error + u64" where
  "estimate_gas_raw ev contract caller calldata env db =
     bind_res (inject_estimator ev contract db) (\<lambda>db.
     bind_res (run_estimator ev contract caller calldata (se_value env) env False db) (\<lambda>(g, _). Inr g))"

definition estimate_state_changes_gas :: "'db evm \<Rightarrow> abi_seq \<Rightarrow> address \<Rightarrow> address \<Rightarrow> state_update list \<Rightarrow>
    sim_env_opts \<Rightarrow> 'db \<Rightarrow> est_error + u64" where
  "estimate_state_changes_gas ev abi_seq contract caller us env db =
     estimate_gas_raw ev contract caller (build_gas_estimation_calldata ev abi_seq us) env db"

section \<open>A frame tree\<close>

record 'db tree_run =
  tr_evm :: "'db evm"
  tr_abi :: abi_seq
  tr_frames :: "frame_program list"
  tr_caller :: address
  tr_env :: sim_env_opts

definition piece_gas :: "'db tree_run \<Rightarrow> nat \<Rightarrow> nat \<Rightarrow> state_update list \<Rightarrow> u256 \<Rightarrow> 'db \<Rightarrow> est_error + u64 \<times> 'db" where
  "piece_gas t i piece_index us value db =
     (let frame = tr_frames t ! i;
          value = (if piece_index = 0 then value else 0)
      in bind_res (map_err (InPiece i piece_index)
             (run_estimator (tr_evm t) (fp_target frame) (tr_caller t)
                (build_gas_estimation_calldata (tr_evm t) (tr_abi t) us) value (tr_env t) True db)) (\<lambda>(g, db).
         Inr (if piece_index = 0 then g else sat_sub g BASE_TX_COST, db)))"

text \<open>
  \<open>FrameTreeRun::run\<close> and its loop. The loop carries the children not yet consumed, the
  piece collected so far, the number of pieces run, the frame's gas, and the database with
  the gas of the frames that are done.
\<close>

function run_tree :: "'db tree_run \<Rightarrow> nat \<Rightarrow> u256 \<Rightarrow> 'db \<times> u64 list \<Rightarrow> est_error + 'db \<times> u64 list"
  and run_ops :: "'db tree_run \<Rightarrow> nat \<Rightarrow> u256 \<Rightarrow> state_update list \<Rightarrow> nat list \<Rightarrow> state_update list \<Rightarrow> nat \<Rightarrow>
    u64 \<Rightarrow> 'db \<times> u64 list \<Rightarrow> est_error + 'db \<times> u64 list" where
  "run_tree t i value st =
     (if i < length (tr_frames t)
      then run_ops t i value (fp_updates (tr_frames t ! i)) (fp_children (tr_frames t ! i)) [] 0 0 st
      else Inl (FrameMissing i))"
| "run_ops t i value [] cs piece pieces g st =
     bind_res (if pieces = 0 \<or> piece \<noteq> []
               then bind_res (piece_gas t i pieces piece value (fst st)) (\<lambda>(pg, db).
                    Inr (sat_add g pg, db, snd st))
               else Inr (g, st)) (\<lambda>(g, db, gs).
     if cs \<noteq> [] then Inl (TooManyChildren i) else Inr (db, gs[i := g]))"
| "run_ops t i value (u # us) cs piece pieces g st =
     (if \<not> is_nested u then run_ops t i value us cs (piece @ [u]) pieces g st
      else
        bind_res (if pieces = 0 \<or> piece \<noteq> []
                  then bind_res (piece_gas t i pieces piece value (fst st)) (\<lambda>(pg, db).
                       Inr (pieces + 1, [], sat_add g pg, db, snd st))
                  else Inr (pieces, piece, g, st)) (\<lambda>(pieces, piece, g, st).
        case cs of
          [] \<Rightarrow> Inl (TooManyNested i)
        | c # cs \<Rightarrow>
            if c \<le> i then Inl (ChildNotAfter i c)
            else if \<not> c < length (tr_frames t) then Inl (IndexPanic c)
            else bind_res (run_tree t c (fp_value (tr_frames t ! c)) st)
                   (run_ops t i value us cs piece pieces g)))"
  by pat_completeness auto
termination
  by (relation "inv_image (less_than <*lex*> less_than)
      (\<lambda>x. case x of
         Inl (t, i, _, _) \<Rightarrow> (length (tr_frames t) - i, Suc (length (fp_updates (tr_frames t ! i))))
       | Inr (t, i, _, us, _) \<Rightarrow> (length (tr_frames t) - i, length us))") auto

declare run_tree.simps [simp del] run_ops.simps [simp del]

definition inject_all :: "'db evm \<Rightarrow> frame_program list \<Rightarrow> 'db \<Rightarrow> est_error + 'db" where
  "inject_all ev fs db =
     bind_res (fold_res (\<lambda>(injected, db) frame.
         if fp_target frame \<in> injected then Inr (injected, db)
         else bind_res (inject_estimator ev (fp_target frame) db) (\<lambda>db.
              Inr (insert (fp_target frame) injected, db))) fs ({}, db)) (\<lambda>(_, db). Inr db)"

definition estimate_frame_tree_gas :: "'db evm \<Rightarrow> abi_seq \<Rightarrow> frame_program list \<Rightarrow> address \<Rightarrow> u256 \<Rightarrow>
    sim_env_opts \<Rightarrow> 'db \<Rightarrow> est_error + u64 list" where
  "estimate_frame_tree_gas ev abi_seq fs caller root_value env db =
     (if fs = [] then Inl TreeNeedsRoot
      else
        bind_res (inject_all ev fs db) (\<lambda>db.
        bind_res (run_tree \<lparr>tr_evm = ev, tr_abi = abi_seq, tr_frames = fs, tr_caller = caller, tr_env = env\<rparr>
            0 root_value (db, replicate (length fs) 0)) (\<lambda>(_, gs). Inr gs)))"

section \<open>Preceding transactions\<close>

definition replay_tx :: "preceding_tx \<Rightarrow> tx_env" where
  "replay_tx tx = \<lparr>te_caller = px_from tx, te_kind = px_kind tx, te_data = px_input tx,
     te_value = px_value tx, te_gas_limit = px_gas_limit tx, te_nonce = Some (px_nonce tx),
     te_gas_price = px_gas_price tx, te_access_list = px_access_list tx,
     te_authorization_list = px_authorization_list tx\<rparr>"

definition replay_preceding_transactions :: "'db evm \<Rightarrow> preceding_tx list \<Rightarrow> sim_env_opts \<Rightarrow> 'db \<Rightarrow>
    est_error + execution_result list \<times> 'db" where
  "replay_preceding_transactions ev txs env db =
     fold_res (\<lambda>(results, db) (i, tx).
         bind_res (map_err (PrecedingBuildFailed i) (build_tx ev (replay_tx tx))) (\<lambda>_.
         bind_res (map_err (PrecedingFailed i) (transact ev env (replay_tx tx) db)) (\<lambda>(r, db).
         Inr (results @ [r], db)))) (enumerate 0 txs) ([], db)"

section \<open>Well-formed trees are priced\<close>

text \<open>An EVM that accepts and completes every transaction, on a database that stores.\<close>

definition evm_total :: "'db evm \<Rightarrow> bool" where
  "evm_total ev \<longleftrightarrow>
     (\<forall>tx. build_tx ev tx = Inr ())
   \<and> (\<forall>env tx db. \<exists>g db'. transact ev env tx db = Inr (Success g, db'))
   \<and> (\<forall>a k v db. \<exists>db'. insert_account_storage ev a k v db = Inr db')"

definition well_nested :: "frame_program list \<Rightarrow> bool" where
  "well_nested fs \<longleftrightarrow> (\<forall>i < length fs.
     nested_count (fp_updates (fs ! i)) = length (fp_children (fs ! i))
   \<and> list_all (\<lambda>c. i < c \<and> c < length fs) (fp_children (fs ! i)))"

lemma tree_ok_well_nested: "tree_ok fs \<Longrightarrow> well_nested fs"
proof -
  assume "tree_ok fs"
  then have "frame_ok fs i" if "i < length fs" for i
    using that by (simp add: tree_ok_def list_all_length)
  then show ?thesis by (simp add: well_nested_def frame_ok_def)
qed

lemma piece_gas_total:
  assumes "evm_total (tr_evm t)"
  shows "\<exists>g db'. piece_gas t i k us v db = Inr (g, db')"
proof -
  have "\<exists>g db'. run_estimator (tr_evm t) c a d w env True db = Inr (g, db')" for c a d w env
  proof -
    let ?tx = "\<lparr>te_caller = a, te_kind = CallTo c, te_data = d, te_value = w,
                te_gas_limit = effective_tx_gas_limit (tr_evm t) (se_gas_limit env) (se_spec env),
                te_nonce = None, te_gas_price = se_gas_price env, te_access_list = [],
                te_authorization_list = []\<rparr>"
    obtain g db' where "transact (tr_evm t) env ?tx (top_up_caller (tr_evm t) a w db) = Inr (Success g, db')"
      using assms evm_total_def by metis
    moreover have "build_tx (tr_evm t) ?tx = Inr ()" using assms by (simp add: evm_total_def)
    ultimately show ?thesis by (simp add: run_estimator_def Let_def)
  qed
  then obtain g db' where "run_estimator (tr_evm t) (fp_target (tr_frames t ! i)) (tr_caller t)
      (build_gas_estimation_calldata (tr_evm t) (tr_abi t) us) (if k = 0 then v else 0) (tr_env t) True db
      = Inr (g, db')" by blast
  then show ?thesis by (simp add: piece_gas_def Let_def)
qed

text \<open>The errors a run may report on a well-formed tree: those of the EVM and its database.\<close>

fun evm_fault :: "est_error \<Rightarrow> bool" where
  "evm_fault (ImplSlotFailed _) = True"
| "evm_fault (InPiece _ _ _) = True"
| "evm_fault _ = False"

definition priced :: "'db evm \<Rightarrow> nat \<Rightarrow> est_error + 'db \<times> u64 list \<Rightarrow> bool" where
  "priced ev n r = (case r of Inl e \<Rightarrow> evm_fault e \<and> \<not> evm_total ev | Inr (_, gs) \<Rightarrow> length gs = n)"

lemma piece_gas_fault:
  assumes "piece_gas t i k us v db = Inl e"
  shows "evm_fault e \<and> \<not> evm_total (tr_evm t)"
proof -
  have "evm_fault e" using assms by (auto simp: piece_gas_def Let_def res_simps map_err_def split: sum.splits)
  with piece_gas_total [of t i k us v db] assms show ?thesis by auto
qed

text \<open>The piece run before a child, as the loop's first step.\<close>

lemma flush_piece_cases:
  fixes t :: "'db tree_run" and st :: "'db \<times> u64 list" and k i :: nat and piece v g
  defines "r \<equiv> (if k = 0 \<or> piece \<noteq> []
      then bind_res (piece_gas t i k piece v (fst st)) (\<lambda>(pg, db). Inr (k + 1, [], sat_add g pg, db, snd st))
      else Inr (k, piece, g, st))"
  obtains e where "r = Inl e" and "evm_fault e \<and> \<not> evm_total (tr_evm t)"
  | k' piece' g' st' where "r = Inr (k', piece', g', st')" and "length (snd st') = length (snd st)"
proof (cases "k = 0 \<or> piece \<noteq> []")
  case True
  show ?thesis
  proof (cases "piece_gas t i k piece v (fst st)")
    case (Inl e)
    then show ?thesis using True piece_gas_fault [OF Inl] that(1) [of e] by (simp add: r_def)
  next
    case (Inr x)
    then show ?thesis using True that(2) [of "k + 1" "[]" "sat_add g (fst x)" "(snd x, snd st)"]
      by (cases x) (simp add: r_def)
  qed
next
  case False
  then show ?thesis using that(2) [of k piece g st] by (simp add: r_def)
qed

lemma run_tree_priced:
  "well_nested (tr_frames t) \<Longrightarrow> i < length (tr_frames t) \<Longrightarrow>
     priced (tr_evm t) (length (snd st)) (run_tree t i v st)"
  "well_nested (tr_frames t) \<Longrightarrow> i < length (tr_frames t) \<Longrightarrow>
     nested_count us = length cs \<Longrightarrow> list_all (\<lambda>c. i < c \<and> c < length (tr_frames t)) cs \<Longrightarrow>
     priced (tr_evm t) (length (snd st)) (run_ops t i v us cs piece k g st)"
proof (induction t i v st and t i v us cs piece k g st rule: run_tree_run_ops.induct)
  case (1 t i v st)
  then show ?case by (simp add: run_tree.simps well_nested_def)
next
  case (2 t i v cs piece k g st)
  then have "cs = []" by (simp add: nested_count_def)
  with piece_gas_fault [of t i k piece v "fst st"] show ?case
    by (cases "piece_gas t i k piece v (fst st)"; cases st) (auto simp: run_ops.simps priced_def)
next
  case (3 t i v u us cs piece k g st)
  show ?case
  proof (cases "is_nested u")
    case False
    then show ?thesis using 3 by (simp add: run_ops.simps nested_count_def)
  next
    case True
    then have "length cs = Suc (nested_count us)" using "3.prems"(3) by (simp add: nested_count_def)
    then obtain c cs' where cs: "cs = c # cs'" "nested_count us = length cs'" by (cases cs) auto
    from "3.prems"(4) have all: "list_all (\<lambda>c. i < c \<and> c < length (tr_frames t)) (c # cs')"
      unfolding cs(1) .
    have c: "\<not> c \<le> i" and c2: "c < length (tr_frames t)" and nc2: "\<not> \<not> c < length (tr_frames t)"
      and rest_ok: "list_all (\<lambda>c. i < c \<and> c < length (tr_frames t)) cs'" using all by simp_all
    have nn: "\<not> \<not> is_nested u" using True by simp
    show ?thesis
    proof (cases rule: flush_piece_cases [of k piece t i v st g, case_names fault ran])
      case (fault e)
      with True show ?thesis by (simp add: run_ops.simps priced_def)
    next
      case (ran k' piece' g' st')
      note pre = ran(1)
      have child: "priced (tr_evm t) (length (snd st')) (run_tree t c (fp_value (tr_frames t ! c)) st')"
        by (rule 3(2) [OF nn pre refl refl refl cs(1) c nc2 "3.prems"(1) c2])
      show ?thesis
      proof (cases "run_tree t c (fp_value (tr_frames t ! c)) st'")
        case (Inl e)
        with child True pre cs(1) c c2 show ?thesis by (simp add: run_ops.simps priced_def)
      next
        case (Inr r)
        have "priced (tr_evm t) (length (snd r)) (run_ops t i v us cs' piece' k' g' r)"
          by (rule 3(3) [OF nn pre refl refl refl cs(1) c nc2 Inr "3.prems"(1,2) cs(2) rest_ok])
        with Inr child True pre cs(1) c c2 ran(2) show ?thesis
          by (cases r) (simp add: run_ops.simps priced_def)
      qed
    qed
  qed
qed

lemma inject_estimator_fault:
  assumes "inject_estimator ev a db = Inl e"
  shows "evm_fault e \<and> \<not> evm_total ev"
proof -
  obtain k v db' m where fault: "insert_account_storage ev a k v db' = Inl m" "e = ImplSlotFailed m"
    using assms by (auto simp: inject_estimator_def Let_def map_err_def split: prod.splits sum.splits)
  have "\<not> evm_total ev"
  proof
    assume "evm_total ev"
    then obtain db'' where "insert_account_storage ev a k v db' = Inr db''" unfolding evm_total_def by blast
    with fault(1) show False by simp
  qed
  with fault(2) show ?thesis by simp
qed

lemma inject_all_fault:
  assumes "inject_all ev fs db = Inl e"
  shows "evm_fault e \<and> \<not> evm_total ev"
proof -
  have "fold_res (\<lambda>(injected, db) frame.
         if fp_target frame \<in> injected then Inr (injected, db)
         else bind_res (inject_estimator ev (fp_target frame) db) (\<lambda>db.
              Inr (insert (fp_target frame) injected, db))) fs st = Inl e \<Longrightarrow> evm_fault e \<and> \<not> evm_total ev" for st
  proof (induction fs arbitrary: st)
    case (Cons f fs)
    then show ?case by (cases st) (auto simp: res_simps dest: inject_estimator_fault split: if_splits)
  qed simp
  with assms show ?thesis by (auto simp: inject_all_def res_simps)
qed

lemma estimate_frame_tree_priced:
  assumes ne: "fs \<noteq> []" and wn: "well_nested fs"
  shows "case estimate_frame_tree_gas ev abi_seq fs caller root_value env db of
      Inr gs \<Rightarrow> length gs = length fs
    | Inl e \<Rightarrow> evm_fault e \<and> \<not> evm_total ev"
proof (cases "inject_all ev fs db")
  case (Inl e)
  with ne inject_all_fault [OF Inl] show ?thesis by (simp add: estimate_frame_tree_gas_def)
next
  case (Inr db')
  let ?t = "\<lparr>tr_evm = ev, tr_abi = abi_seq, tr_frames = fs, tr_caller = caller, tr_env = env\<rparr>"
  have "priced (tr_evm ?t) (length (snd (db', replicate (length fs) (0 :: u64))))
      (run_tree ?t 0 root_value (db', replicate (length fs) 0))"
    by (rule run_tree_priced(1)) (use wn ne in auto)
  with Inr ne show ?thesis
    by (cases "run_tree ?t 0 root_value (db', replicate (length fs) 0)")
      (auto simp: estimate_frame_tree_gas_def priced_def)
qed

text \<open>
  A well-formed tree is priced or the EVM is at fault: on a tree the encoder accepts the
  estimate terminates with one gas figure per frame, or with an error of the EVM or its
  database, which an EVM that completes every transaction never causes. None of the tree's own
  error returns and no out-of-range frame access is reached.
\<close>

lemma frame_tree_estimate_total:
  assumes "tree_ok fs"
  shows "case estimate_frame_tree_gas ev abi_seq fs caller root_value env db of
      Inr gs \<Rightarrow> length gs = length fs
    | Inl e \<Rightarrow> evm_fault e \<and> \<not> evm_total ev"
  using assms by (intro estimate_frame_tree_priced tree_ok_well_nested) (simp add: tree_ok_def)

text \<open>A trivial EVM, on the database of the transactions it ran.\<close>

definition toy_evm :: "(tx_env list) evm" where
  "toy_evm = \<lparr>basic_ref = (\<lambda>_ _. None), insert_account_info = (\<lambda>_ _ db. db),
     set_code_hash = (\<lambda>_ _ db. db), insert_account_storage = (\<lambda>_ _ _ db. Inr db),
     build_tx = (\<lambda>_. Inr ()), transact = (\<lambda>_ tx db. Inr (Success 30000, tx # db)), osaka = 20,
     hash_slow = (\<lambda>_. 0), keccak_empty = 0, ev_keccak = (\<lambda>_. 0), estimator_bytecode = [],
     impl_slot = 0, abi_encode_params = (\<lambda>_ _. [])\<rparr>"

definition toy_env :: sim_env_opts where
  "toy_env = \<lparr>se_number = 1, se_timestamp = 1, se_gas_limit = 30000000, se_coinbase = 0,
     se_prevrandao = 0, se_gas_price = 0, se_basefee = 0, se_difficulty = 0, se_spec = 19, se_value = 0\<rparr>"

definition toy_frame :: "nat list \<Rightarrow> frame_program" where
  "toy_frame cs = \<lparr>fp_target = 7, fp_caller = 0, fp_value = 0, fp_calldata_hash = 0,
     fp_transition_index = Some 0, fp_updates = map (\<lambda>_. Nested 7 0 0) cs, fp_children = cs\<rparr>"

text \<open>
  The loop reads the child's value before the recursive call checks that the child exists:
  a child id past the last frame panics instead of reporting the missing frame.
\<close>

lemma missing_child_panics:
  "estimate_frame_tree_gas toy_evm (\<lambda>_. []) [toy_frame [1]] 5 0 toy_env [] = Inl (IndexPanic 1)"
  by (simp add: estimate_frame_tree_gas_def inject_all_def inject_estimator_def run_tree.simps
      run_ops.simps toy_frame_def piece_gas_def run_estimator_def toy_evm_def toy_env_def
      default_account_def top_up_caller_def effective_tx_gas_limit_def)

end
