(* ===== verification/Lean_Trace.thy ===== *)
theory Lean_Trace
  imports Trace
begin

text \<open>
  \<^verbatim>\<open>crates/wasm/src/lean_trace.rs\<close>: the struct-log parser that drops what extraction does
  not read. The JSON tokenizer is serde's: an object arrives as the list of its typed
  fields in the sender's order, \<open>FOther\<close> being any field the parser ignores.
\<close>

section \<open>The parser\<close>

datatype lean_field =
    FPc u64 | FOp string | FGas u64 | FGasCost u64 | FDepth nat
  | FError "string option" | FStack "u256 list option" | FMemory "string list option"
  | FMemSize "u64 option" | FRefund "u64 option" | FOther

datatype lean_error = MissingField string

text \<open>\<open>StructLog::default()\<close>.\<close>

definition default_log :: struct_log where
  "default_log = \<lparr>pc = 0, op = [], gas = 0, gas_cost = 0, depth = 0, error = None, stack = None,
     return_data = None, memory = None, memory_size = None, storage = None, refund_counter = None\<rparr>"

record lean_state =
  l_log :: struct_log
  l_pc :: "u64 option"
  l_op :: "string option"
  l_gas :: "u64 option"
  l_gas_cost :: "u64 option"
  l_depth :: "nat option"

definition init_lean :: lean_state where
  "init_lean = \<lparr>l_log = default_log, l_pc = None, l_op = None, l_gas = None, l_gas_cost = None,
     l_depth = None\<rparr>"

definition drop_memory :: "string list option \<Rightarrow> string list option" where
  "drop_memory m = map_option (\<lambda>_. []) m"

fun lean_field_step :: "lean_field \<Rightarrow> lean_state \<Rightarrow> lean_state" where
  "lean_field_step (FPc v) s = s\<lparr>l_pc := Some v\<rparr>"
| "lean_field_step (FOp v) s = s\<lparr>l_op := Some v\<rparr>"
| "lean_field_step (FGas v) s = s\<lparr>l_gas := Some v\<rparr>"
| "lean_field_step (FGasCost v) s = s\<lparr>l_gas_cost := Some v\<rparr>"
| "lean_field_step (FDepth v) s = s\<lparr>l_depth := Some v\<rparr>"
| "lean_field_step (FError v) s = s\<lparr>l_log := (l_log s)\<lparr>error := v\<rparr>\<rparr>"
| "lean_field_step (FStack v) s = s\<lparr>l_log := (l_log s)\<lparr>stack := v\<rparr>\<rparr>"
| "lean_field_step (FMemory v) s =
     (case l_op s of
        Some opc \<Rightarrow> if \<not> reads_memory opc then s\<lparr>l_log := (l_log s)\<lparr>memory := drop_memory v\<rparr>\<rparr>
                   else s\<lparr>l_log := (l_log s)\<lparr>memory := v\<rparr>\<rparr>
      | None \<Rightarrow> s\<lparr>l_log := (l_log s)\<lparr>memory := v\<rparr>\<rparr>)"
| "lean_field_step (FMemSize v) s = s\<lparr>l_log := (l_log s)\<lparr>memory_size := v\<rparr>\<rparr>"
| "lean_field_step (FRefund v) s = s\<lparr>l_log := (l_log s)\<lparr>refund_counter := v\<rparr>\<rparr>"
| "lean_field_step FOther s = s"

definition ok_or_missing :: "string \<Rightarrow> 'a option \<Rightarrow> lean_error + 'a" where
  "ok_or_missing name v = (case v of None \<Rightarrow> Inl (MissingField name) | Some x \<Rightarrow> Inr x)"

definition finish_lean :: "lean_state \<Rightarrow> lean_error + struct_log" where
  "finish_lean s =
     bind_res (ok_or_missing ''op'' (l_op s)) (\<lambda>opc.
     let log = l_log s;
         log = (if \<not> reads_memory opc \<and> memory log \<noteq> None then log\<lparr>memory := Some []\<rparr> else log);
         log = log\<lparr>op := opc\<rparr>
     in bind_res (ok_or_missing ''pc'' (l_pc s)) (\<lambda>v_pc.
        bind_res (ok_or_missing ''gas'' (l_gas s)) (\<lambda>v_gas.
        bind_res (ok_or_missing ''gasCost'' (l_gas_cost s)) (\<lambda>v_cost.
        bind_res (ok_or_missing ''depth'' (l_depth s)) (\<lambda>v_depth.
        Inr (log\<lparr>pc := v_pc, gas := v_gas, gas_cost := v_cost, depth := v_depth\<rparr>))))))"

definition visit_map :: "lean_field list \<Rightarrow> lean_error + struct_log" where
  "visit_map fs = finish_lean (fold lean_field_step fs init_lean)"

record lean_frame =
  lean_failed :: bool
  lean_gas :: u64
  lean_return_value :: bytes
  lean_struct_logs :: "lean_field list list"

text \<open>Parsing a \<open>LeanFrame\<close> and converting it into a \<open>DefaultFrame\<close>.\<close>

definition parse_lean_frame :: "lean_frame \<Rightarrow> lean_error + default_frame" where
  "parse_lean_frame f =
     bind_res (map_res visit_map (lean_struct_logs f)) (\<lambda>logs.
     Inr \<lparr>failed = lean_failed f, frame_gas = lean_gas f, return_value = lean_return_value f,
          struct_logs = logs\<rparr>)"

section \<open>What it returns\<close>

text \<open>The log the parser keeps of a full struct log, and the fields a client sends for it.\<close>

definition lean_log :: "struct_log \<Rightarrow> struct_log" where
  "lean_log l = l\<lparr>memory := if reads_memory (op l) then memory l else drop_memory (memory l),
     storage := None, return_data := None\<rparr>"

definition sent_fields :: "struct_log \<Rightarrow> lean_field set" where
  "sent_fields l = {FPc (pc l), FOp (op l), FGas (gas l), FGasCost (gas_cost l), FDepth (depth l),
     FError (error l), FStack (stack l), FMemory (memory l), FMemSize (memory_size l),
     FRefund (refund_counter l)}"

text \<open>The parser's state after some of a log's fields, in any order.\<close>

definition memory_parsed :: "struct_log \<Rightarrow> lean_field set \<Rightarrow> string list option \<Rightarrow> bool" where
  "memory_parsed l F m \<longleftrightarrow>
     (if FMemory (memory l) \<in> F
      then m = memory l \<or> \<not> reads_memory (op l) \<and> m = drop_memory (memory l)
      else m = None)"

definition parsed :: "struct_log \<Rightarrow> lean_field set \<Rightarrow> lean_state \<Rightarrow> bool" where
  "parsed l F s \<longleftrightarrow>
     l_pc s = (if FPc (pc l) \<in> F then Some (pc l) else None)
   \<and> l_op s = (if FOp (op l) \<in> F then Some (op l) else None)
   \<and> l_gas s = (if FGas (gas l) \<in> F then Some (gas l) else None)
   \<and> l_gas_cost s = (if FGasCost (gas_cost l) \<in> F then Some (gas_cost l) else None)
   \<and> l_depth s = (if FDepth (depth l) \<in> F then Some (depth l) else None)
   \<and> error (l_log s) = (if FError (error l) \<in> F then error l else None)
   \<and> stack (l_log s) = (if FStack (stack l) \<in> F then stack l else None)
   \<and> memory_size (l_log s) = (if FMemSize (memory_size l) \<in> F then memory_size l else None)
   \<and> refund_counter (l_log s) = (if FRefund (refund_counter l) \<in> F then refund_counter l else None)
   \<and> memory_parsed l F (memory (l_log s))
   \<and> storage (l_log s) = None \<and> return_data (l_log s) = None"

lemma memory_parsed_insert [simp]:
  "f \<noteq> FMemory (memory l) \<Longrightarrow> memory_parsed l (insert f F) m = memory_parsed l F m"
  by (simp add: memory_parsed_def)

lemma parsed_init: "parsed l {} init_lean"
  by (simp add: parsed_def init_lean_def default_log_def memory_parsed_def)

lemma parsed_step_memory:
  "parsed l F s \<Longrightarrow> parsed l (insert (FMemory (memory l)) F) (lean_field_step (FMemory (memory l)) s)"
  by (cases "FOp (op l) \<in> F"; cases "reads_memory (op l)")
    (simp_all add: parsed_def memory_parsed_def split del: if_split)

lemma parsed_step:
  "parsed l F s \<Longrightarrow> f \<in> insert FOther (sent_fields l) \<Longrightarrow> parsed l (insert f F) (lean_field_step f s)"
proof (cases "f = FMemory (memory l)")
  case True
  then show "parsed l F s \<Longrightarrow> ?thesis" by (simp only: parsed_step_memory)
next
  case False
  then show "parsed l F s \<Longrightarrow> f \<in> insert FOther (sent_fields l) \<Longrightarrow> ?thesis"
    unfolding sent_fields_def by (elim insertE) (simp_all add: parsed_def split del: if_split)
qed

lemma parsed_fold:
  "parsed l F s \<Longrightarrow> set fs \<subseteq> insert FOther (sent_fields l) \<Longrightarrow>
     parsed l (F \<union> set fs) (fold lean_field_step fs s)"
proof (induction fs arbitrary: F s)
  case (Cons f fs)
  then have "parsed l (insert f F \<union> set fs) (fold lean_field_step fs (lean_field_step f s))"
    by (intro Cons.IH parsed_step) auto
  then show ?case by simp
qed simp

text \<open>
  Parsing is independent of field order and keeps exactly what is needed: for every
  ordering of a log's fields, interleaved with any ignored fields, \<open>visit_map\<close> returns the
  log with its memory intact when the opcode reads memory, and otherwise replaced by an
  empty snapshot that is present exactly when the full log had one.
\<close>

lemma visit_map_any_order:
  assumes "set fs - {FOther} = sent_fields l"
  shows "visit_map fs = Inr (lean_log l)"
proof -
  define s where "s = fold lean_field_step fs init_lean"
  have "parsed l (set fs) s"
    using parsed_fold [OF parsed_init, of fs l] assms by (auto simp: s_def)
  moreover have "f \<in> set fs" if "f \<in> sent_fields l" for f using assms that by blast
  ultimately have all: "l_pc s = Some (pc l)" "l_op s = Some (op l)" "l_gas s = Some (gas l)"
    "l_gas_cost s = Some (gas_cost l)" "l_depth s = Some (depth l)" "error (l_log s) = error l"
    "stack (l_log s) = stack l" "memory_size (l_log s) = memory_size l"
    "refund_counter (l_log s) = refund_counter l" "storage (l_log s) = None"
    "return_data (l_log s) = None"
    and mem: "memory (l_log s) = memory l
      \<or> \<not> reads_memory (op l) \<and> memory (l_log s) = drop_memory (memory l)"
    by (simp_all add: parsed_def sent_fields_def memory_parsed_def)
  show ?thesis
    using all mem
    by (cases "memory l") (auto simp: visit_map_def s_def [symmetric] finish_lean_def
        ok_or_missing_def lean_log_def drop_memory_def intro!: struct_log.equality)
qed

section \<open>Extraction from a lean trace\<close>

lemma decode_update_ignores_memory:
  "\<not> reads_memory opc \<Longrightarrow> decode_update opc st mem = decode_update opc st mem'"
  by (simp add: reads_memory_def decode_update_def)

text \<open>Every memory word of the log is valid hex.\<close>

definition valid_memory :: "hexd \<Rightarrow> struct_log \<Rightarrow> bool" where
  "valid_memory hexd l \<longleftrightarrow>
     (case memory l of None \<Rightarrow> True | Some ws \<Rightarrow> \<forall>w \<in> set ws. hexd (strip_0x w) \<noteq> None)"

lemma parse_trace_memory_ok:
  "\<forall>w \<in> set ws. hexd (strip_0x w) \<noteq> None \<Longrightarrow> \<exists>mem. parse_trace_memory hexd ws = Inr mem"
  by (induction ws) auto

lemma lean_log_fields [simp]:
  "op (lean_log l) = op l" "depth (lean_log l) = depth l" "gas (lean_log l) = gas l"
  "gas_cost (lean_log l) = gas_cost l" "stack (lean_log l) = stack l"
  "refund_counter (lean_log l) = refund_counter l"
  "memory (lean_log l) = (if reads_memory (op l) then memory l else drop_memory (memory l))"
  by (simp_all add: lean_log_def)

lemma append_lean_log:
  assumes "valid_memory hexd l"
  shows "append_state_update_from_struct_log hexd us (lean_log l)
    = append_state_update_from_struct_log hexd us l"
proof (cases "stack l")
  case None
  then show ?thesis by (simp add: append_state_update_from_struct_log_def)
next
  case st: (Some st)
  show ?thesis
  proof (cases "memory l")
    case None
    with st show ?thesis
      by (simp add: append_state_update_from_struct_log_def drop_memory_def)
  next
    case (Some ws)
    then obtain mem where "parse_trace_memory hexd ws = Inr mem"
      using assms parse_trace_memory_ok [of ws hexd] by (auto simp: valid_memory_def)
    then show ?thesis
      using Some st decode_update_ignores_memory [of "op l" "rev st" "[]" mem]
      by (simp add: append_state_update_from_struct_log_def drop_memory_def)
  qed
qed

lemma extract_step_lean_log:
  assumes "valid_memory hexd l"
  shows "extract_step hexd origin s (lean_log l) = extract_step hexd origin s l"
proof -
  have pop: "pop_calls (lean_log l) cs s = pop_calls l cs s" for cs s
    by (induction l cs s rule: pop_calls.induct) (simp_all cong: option.case_cong)
  have "note_entry (lean_log l) s = note_entry l s" "resume_create (lean_log l) s' = resume_create l s'"
    "detect_reentry origin (lean_log l) s' = detect_reentry origin l s'"
    "leave_calls (lean_log l) s' = leave_calls l s'" for s'
    by (simp_all add: note_entry_def resume_create_def stack_top_def detect_reentry_def
        calls_origin_def leave_calls_def pop Let_def split: option.splits)
  moreover have "record_update (lean_log l) us s' = record_update l us s'" for us s'
    by (simp only: record_update_def lean_log_fields)
  then have "visit_op hexd (lean_log l) s' = visit_op hexd l s'" for s'
    by (simp only: visit_op_def append_lean_log [OF assms] lean_log_fields)
  ultimately show ?thesis by (simp add: extract_step_def)
qed



end
