(* ===== verification/Frame_Slices.thy ===== *)
theory Frame_Slices
  imports Frame_Prune "HOL-Library.Sublist"
begin

text \<open>
  Canonical state checkpointing, proved of the walker: what a frame's \<open>emitted_view\<close> says was
  emitted is what the program's stores last wrote, so that a flush brings the program to the
  visible image and the final slice fixes every slot of it. The invariant is on the shape of
  the frame stack: program, output, view, nesting and the programs a frame may drop.
\<close>

section \<open>The last store of a program\<close>

definition last_store :: "state_update list \<Rightarrow> b256 \<Rightarrow> b256 option" where
  "last_store us = map_of (rev (List.map_filter store_of us))"

lemma map_filter_append:
  "List.map_filter f (xs @ ys) = List.map_filter f xs @ List.map_filter f ys"
  by (simp add: List.map_filter_def)

lemma last_store_append:
  "last_store (us @ vs) slot = (case last_store vs slot of Some v \<Rightarrow> Some v | None \<Rightarrow> last_store us slot)"
  by (simp add: last_store_def map_filter_append map_add_def split: option.splits)

lemma last_store_Nil [simp]: "last_store [] slot = None"
  by (simp add: last_store_def map_filter_simps)

lemma last_store_Store [simp]: "last_store [Store k v] slot = (if slot = k then Some v else None)"
  by (simp add: last_store_def map_filter_simps)

lemma last_store_no_stores:
  "list_all (\<lambda>u. store_of u = None) us \<Longrightarrow> last_store us slot = None"
  by (induction us) (auto simp: last_store_def map_filter_simps)

lemma last_store_append_none:
  "list_all (\<lambda>u. store_of u = None) vs \<Longrightarrow> last_store (us @ vs) = last_store us"
  by (auto simp: last_store_append last_store_no_stores)

lemma last_store_butlast:
  assumes "us \<noteq> []" and "store_of (last us) = None"
  shows "last_store (butlast us) = last_store us"
  using last_store_append_none [of "[last us]" "butlast us"] assms by simp

section \<open>The shape of the frame stack\<close>

definition shape :: "walk_frame \<Rightarrow> nat option \<times> state_update list \<times> slots \<times> u64 option \<times> nat \<times> nat" where
  "shape f = (wf_program f, wf_out f, wf_view f, wf_nested_start_gas f, wf_first_program f, wf_depth f)"

abbreviation same_shape :: "walk_frame list \<Rightarrow> walk_frame list \<Rightarrow> bool" where
  "same_shape fs fs' \<equiv> map shape fs = map shape fs'"

lemma shape_fields:
  assumes "shape f = shape g"
  shows "wf_program f = wf_program g" "wf_out f = wf_out g" "wf_view f = wf_view g"
    "wf_nested_start_gas f = wf_nested_start_gas g" "wf_first_program f = wf_first_program g"
    "wf_depth f = wf_depth g"
  using assms by (simp_all add: shape_def)

lemma update_program_Inr [simp]:
  "update_program p g s = Inr s' \<longleftrightarrow>
     p < length (programs s) \<and> s' = s\<lparr>programs := (programs s)[p := g (programs s ! p)]\<rparr>"
  by (auto simp: update_program_def program_at_def)

lemma program_at_Inr [simp]:
  "program_at p s = Inr ps \<longleftrightarrow> p < length (programs s) \<and> ps = programs s ! p"
  by (auto simp: program_at_def)

lemma update_top_Inr [simp]:
  "update_top g s = Inr s' \<longleftrightarrow> (\<exists>f rest. frames s = f # rest \<and> s' = s\<lparr>frames := g f # rest\<rparr>)"
  by (cases "frames s") (auto simp: update_top_def)

lemma charge_caller_shape:
  assumes "charge_caller b g c s = Inr s'"
  shows "same_shape (frames s') (frames s) \<and> pending s' = pending s"
  using assms by (cases b) (auto simp: charge_caller_def res_simps shape_def split: option.splits)

section \<open>Sound views\<close>

text \<open>
  What the program of the top frame has emitted so far: the outputs of its frames, from the
  frame that opened it (a nested frame, or the root at the bottom) to the top.
\<close>

fun prog_out :: "walk_frame list \<Rightarrow> state_update list" where
  "prog_out [] = []"
| "prog_out (f # rest) =
     (if rest = [] \<or> wf_nested_start_gas f \<noteq> None then wf_out f else prog_out rest @ wf_out f)"

definition sound_view :: "slots \<Rightarrow> state_update list \<Rightarrow> bool" where
  "sound_view view us \<longleftrightarrow> (\<forall>slot v. map_of view slot = Some v \<longrightarrow> last_store us slot = Some v)"

fun views_ok :: "walk_frame list \<Rightarrow> bool" where
  "views_ok [] = True"
| "views_ok (f # rest) \<longleftrightarrow>
     (if wf_program f = None then wf_out f = [] else sound_view (wf_view f) (prog_out (f # rest)))
   \<and> (wf_program f \<noteq> None \<and> wf_nested_start_gas f = None \<and> rest \<noteq> []
        \<longrightarrow> wf_program (hd rest) = wf_program f)
   \<and> views_ok rest"

definition pending_ok :: "walk_state \<Rightarrow> bool" where
  "pending_ok s \<longleftrightarrow>
     (case pending s of None \<Rightarrow> True
      | Some p \<Rightarrow> pf_program p \<noteq> None \<longrightarrow>
          (if pf_nested_start_gas p \<noteq> None then sound_view (pf_view p) []
           else sound_view (pf_view p) (prog_out (frames s))
             \<and> wf_program (hd (frames s)) = pf_program p))"

lemma prog_out_shape: "same_shape fs fs' \<Longrightarrow> prog_out fs = prog_out fs'"
proof (induction fs arbitrary: fs')
  case (Cons f fs)
  then obtain g gs where fs': "fs' = g # gs" "shape f = shape g" "same_shape fs gs" by auto
  with Cons.IH [of gs] show ?case by (auto simp: shape_fields [OF fs'(2)])
qed simp

lemma views_ok_shape: "same_shape fs fs' \<Longrightarrow> views_ok fs = views_ok fs'"
proof (induction fs arbitrary: fs')
  case (Cons f fs)
  then obtain g gs where fs': "fs' = g # gs" "shape f = shape g" "same_shape fs gs" by auto
  have "prog_out (f # fs) = prog_out (g # gs)"
    using fs' by (intro prog_out_shape) simp
  moreover have "fs \<noteq> [] \<Longrightarrow> wf_program (hd fs) = wf_program (hd gs)" "fs = [] \<longleftrightarrow> gs = []"
    using fs'(3) by (cases fs; cases gs; auto simp: shape_def)+
  ultimately show ?case
    using Cons.IH [of gs] fs' by (auto simp add: shape_fields [OF fs'(2)] simp del: prog_out.simps)
qed simp

lemma sound_view_Nil [simp]: "sound_view [] us"
  by (simp add: sound_view_def)

lemma sound_view_cong: "sound_view view us \<Longrightarrow> last_store us = last_store us' \<Longrightarrow> sound_view view us'"
  by (simp add: sound_view_def)

lemma forget_subset: "map_of (fold om_remove ks m) k = Some v \<Longrightarrow> map_of m k = Some v"
proof (induction ks arbitrary: m)
  case (Cons a ks)
  from Cons.prems have "map_of (om_remove a m) k = Some v" by - (rule Cons.IH, simp)
  then show ?case by (simp split: if_splits)
qed simp

lemma sound_view_forget: "sound_view view us \<Longrightarrow> sound_view (fold om_remove ks view) us"
  by (auto simp: sound_view_def dest!: forget_subset)

section \<open>Flushing\<close>

lemma flush_slots_fields [simp]:
  "wf_program (flush_slots im f) = wf_program f"
  "wf_nested_start_gas (flush_slots im f) = wf_nested_start_gas f"
  "wf_first_program (flush_slots im f) = wf_first_program f"
  "wf_depth (flush_slots im f) = wf_depth f"
  "wf_journal (flush_slots im f) = wf_journal f"
  "wf_ctx (flush_slots im f) = wf_ctx f"
  by (induction im f rule: flush_slots.induct) auto

lemma flush_slots_sound:
  "sound_view (wf_view f) (us @ wf_out f) \<Longrightarrow>
     sound_view (wf_view (flush_slots im f)) (us @ wf_out (flush_slots im f))"
proof (induction im f rule: flush_slots.induct)
  case (2 slot v rest f)
  have "sound_view (om_insert slot v (wf_view f)) ((us @ wf_out f) @ [Store slot v])"
    using 2(2) by (auto simp: sound_view_def last_store_append [of "us @ wf_out f"] simp del: append_assoc)
  with 2 show ?case by simp
qed simp

lemma flush_slots_covers:
  "distinct (map fst im) \<Longrightarrow> map_of im slot = Some v \<Longrightarrow>
     map_of (wf_view (flush_slots im f)) slot = Some v"
proof -
  have keep: "map_of (wf_view (flush_slots im f)) slot = map_of (wf_view f) slot"
    if "slot \<notin> set (map fst im)" for im f
    using that by (induction im f rule: flush_slots.induct) auto
  show "distinct (map fst im) \<Longrightarrow> map_of im slot = Some v \<Longrightarrow> ?thesis"
    by (induction im f rule: flush_slots.induct) (auto simp: keep split: if_splits)
qed

lemma prog_out_Cons:
  "prog_out (f # rest) = (if rest = [] \<or> wf_nested_start_gas f \<noteq> None then [] else prog_out rest) @ wf_out f"
  by simp

text \<open>Replacing the top frame by one that keeps its program and nesting.\<close>

lemma views_ok_replace:
  assumes "views_ok (f # rest)" and "wf_program g = wf_program f"
    and "wf_program f = None \<Longrightarrow> wf_out g = []"
    and "wf_nested_start_gas g = wf_nested_start_gas f"
    and "wf_program f \<noteq> None \<Longrightarrow> sound_view (wf_view g) (prog_out (g # rest))"
  shows "views_ok (g # rest)"
  using assms by (auto simp del: prog_out.simps)

lemma views_ok_tl: "views_ok (f # rest) \<Longrightarrow> views_ok rest"
  by (simp del: prog_out.simps)

lemma flush_slice_Inr:
  assumes "flush_slice s = Inr s'"
  obtains f rest p where "frames s = f # rest" "wf_program f = Some p" "p < length (programs s)"
    "s' = s\<lparr>frames := flush_slots (visible_image (frames s) (p_target (programs s ! p))) f # rest\<rparr>"
  using assms by (auto simp: flush_slice_def res_simps split: option.splits)

lemma flush_slice_views:
  assumes "flush_slice s = Inr s'" and "views_ok (frames s)"
  shows "views_ok (frames s') \<and> pending s' = pending s \<and> programs s' = programs s
    \<and> length (frames s') = length (frames s)"
proof -
  obtain f rest p where f: "frames s = f # rest" "wf_program f = Some p"
    and s': "s' = s\<lparr>frames := flush_slots (visible_image (frames s) (p_target (programs s ! p))) f # rest\<rparr>"
    using assms(1) by (rule flush_slice_Inr)
  define g where "g = flush_slots (visible_image (frames s) (p_target (programs s ! p))) f"
  have ok: "views_ok (f # rest)" using assms(2) f by simp
  then have "sound_view (wf_view f) (prog_out (f # rest))" using f by simp
  then have "sound_view (wf_view g) (prog_out (g # rest))"
    unfolding prog_out_Cons g_def flush_slots_fields by (rule flush_slots_sound)
  moreover have "wf_program g = wf_program f" "wf_nested_start_gas g = wf_nested_start_gas f"
    by (simp_all add: g_def)
  ultimately have "views_ok (g # rest)"
    using f(2) by (intro views_ok_replace [OF ok]) simp_all
  moreover have "s' = s\<lparr>frames := g # rest\<rparr>" using s' by (simp add: g_def)
  ultimately show ?thesis by (simp add: f del: views_ok.simps)
qed

lemma visible_image_ok: "om_ok (visible_image fs a)"
proof -
  have "om_ok im \<Longrightarrow> om_ok (fold (\<lambda>f image. om_extend image (journal_at (wf_journal f) a)) gs im)"
    for gs :: "walk_frame list" and im
    by (induction gs arbitrary: im) auto
  then show ?thesis unfolding visible_image_def using om_ok_Nil by blast
qed

section \<open>The invariant of the walk\<close>

definition frames_ok :: "walk_frame list \<Rightarrow> bool" where
  "frames_ok fs \<longleftrightarrow> fs \<noteq> [] \<and> wf_depth (last fs) = 1 \<and> wf_program (last fs) = Some 0 \<and> views_ok fs"

lemma frames_ok_views: "frames_ok fs \<Longrightarrow> views_ok fs"
  by (simp add: frames_ok_def)

definition walk_ok :: "walk_state \<Rightarrow> bool" where
  "walk_ok s \<longleftrightarrow> frames_ok (frames s) \<and> pending_ok s"

lemma walk_ok_init: "walk_ok (init_walk root idx)"
  by (simp add: walk_ok_def frames_ok_def init_walk_def root_walk_frame_def pending_ok_def)

lemma frames_ok_shape: "same_shape fs' fs \<Longrightarrow> frames_ok fs \<Longrightarrow> frames_ok fs'"
proof -
  assume a: "same_shape fs' fs" and ok: "frames_ok fs"
  then have "fs' \<noteq> []" by (auto simp: frames_ok_def)
  moreover have "shape (last fs') = shape (last fs)"
    using a ok calculation by (metis frames_ok_def last_map)
  ultimately show ?thesis
    using a ok views_ok_shape [OF a] by (simp add: frames_ok_def shape_def)
qed

text \<open>Once the pending frame is taken only the frames matter, until the opcode sets a new one.\<close>

definition walk_ok0 :: "walk_state \<Rightarrow> bool" where
  "walk_ok0 s \<longleftrightarrow> frames_ok (frames s) \<and> pending s = None"

lemma walk_ok0_shape:
  "walk_ok0 s \<Longrightarrow> same_shape (frames s') (frames s) \<Longrightarrow> pending s' = pending s \<Longrightarrow> walk_ok0 s'"
  by (auto simp: walk_ok0_def frames_ok_shape)

lemma take_pending_ok:
  assumes "take_pending log s = Inr s'" and "walk_ok s"
  shows "walk_ok0 s'"
proof (cases "pending s")
  case None
  with assms show ?thesis by (simp add: take_pending_def walk_ok_def walk_ok0_def)
next
  case (Some p)
  have ok0: "walk_ok0 (s\<lparr>pending := None\<rparr>)" using assms(2) by (simp add: walk_ok_def walk_ok0_def)
  show ?thesis
  proof (cases "depth log = pf_parent_depth p + 1")
    case True
    let ?f = "opened_frame log p (length (programs s))"
    have "views_ok (?f # frames s)"
      using assms(2) Some by (auto simp: walk_ok_def frames_ok_def pending_ok_def opened_frame_def)
    moreover have "s' = s\<lparr>pending := None, frames := ?f # frames s\<rparr>"
      using True Some assms(1) by (simp add: take_pending_def)
    ultimately show ?thesis
      using assms(2) by (simp add: walk_ok0_def walk_ok_def frames_ok_def del: views_ok.simps)
  next
    case False
    then have "s' = s\<lparr>pending := None\<rparr> \<or>
        (\<exists>g. charge_caller (pf_emitted_create p) g 0 (s\<lparr>pending := None\<rparr>) = Inr s')"
      using Some assms(1) by (auto simp: take_pending_def Let_def split: if_splits option.splits)
    then show ?thesis using walk_ok0_shape [OF ok0] charge_caller_shape ok0 by blast
  qed
qed

section \<open>Closing a frame keeps it\<close>

lemma forget_overwritten_shape:
  assumes "forget_overwritten jr s = Inr s'"
  shows "length (frames s') = length (frames s)" "programs s' = programs s" "pending s' = pending s"
    "\<And>i. i < length (frames s) \<Longrightarrow> \<exists>ks. frames s' ! i =
        (frames s ! i)\<lparr>wf_view := fold om_remove ks (wf_view (frames s ! i))\<rparr>"
proof -
  let ?g = "\<lambda>f. bind_res (overwritten (programs s) jr f) (\<lambda>ks.
         Inr (f\<lparr>wf_view := fold om_remove ks (wf_view f)\<rparr>))"
  obtain fs where fs: "map_res ?g (frames s) = Inr fs" and s': "s' = s\<lparr>frames := fs\<rparr>"
    using assms by (auto simp: forget_overwritten_def res_simps)
  show "length (frames s') = length (frames s)" "programs s' = programs s" "pending s' = pending s"
    using map_res_length [OF fs] by (simp_all add: s')
  show "\<exists>ks. frames s' ! i = (frames s ! i)\<lparr>wf_view := fold om_remove ks (wf_view (frames s ! i))\<rparr>"
    if "i < length (frames s)" for i
  proof -
    from map_res_nth [OF fs that] obtain ks
      where "fs ! i = (frames s ! i)\<lparr>wf_view := fold om_remove ks (wf_view (frames s ! i))\<rparr>"
      unfolding bind_res_Inr_iff by (metis sum.inject(2))
    then show ?thesis by (intro exI [of _ ks]) (simp add: s')
  qed
qed

text \<open>Frames that differ only in having forgotten part of their views.\<close>

definition forgot :: "walk_frame \<Rightarrow> walk_frame \<Rightarrow> bool" where
  "forgot f g \<longleftrightarrow> (\<exists>ks. g = f\<lparr>wf_view := fold om_remove ks (wf_view f)\<rparr>)"

lemma forgot_refl: "forgot f f"
  unfolding forgot_def by (rule exI [of _ "[]"]) simp

lemma forgot_all_refl: "list_all2 forgot fs fs"
  by (simp add: list_all2_refl forgot_refl)

lemma forget_overwritten_forgot:
  assumes "forget_overwritten jr s = Inr s'"
  shows "list_all2 forgot (frames s) (frames s') \<and> programs s' = programs s \<and> pending s' = pending s"
  using forget_overwritten_shape [OF assms] by (auto simp: list_all2_conv_all_nth forgot_def)

lemma forgot_fields:
  "forgot f g \<Longrightarrow> wf_program g = wf_program f \<and> wf_out g = wf_out f
     \<and> wf_nested_start_gas g = wf_nested_start_gas f \<and> wf_first_program g = wf_first_program f
     \<and> wf_depth g = wf_depth f \<and> wf_journal g = wf_journal f \<and> wf_ctx g = wf_ctx f"
  by (auto simp: forgot_def)

lemma prog_out_forgot: "list_all2 forgot fs gs \<Longrightarrow> prog_out gs = prog_out fs"
  by (induction rule: list_all2_induct) (auto dest!: forgot_fields)

lemma views_ok_forgot: "list_all2 forgot fs gs \<Longrightarrow> views_ok fs \<Longrightarrow> views_ok gs"
proof (induction rule: list_all2_induct)
  case (Cons f fs g gs)
  have "prog_out (g # gs) = prog_out (f # fs)"
    by (rule prog_out_forgot) (simp add: Cons.hyps)
  moreover have "sound_view (wf_view f) us \<Longrightarrow> sound_view (wf_view g) us" for us
    using Cons.hyps(1) by (auto simp: forgot_def sound_view_forget)
  moreover have "fs \<noteq> [] \<Longrightarrow> wf_program (hd gs) = wf_program (hd fs)" "fs = [] \<longleftrightarrow> gs = []"
    using Cons.hyps(2) by (cases fs; cases gs; auto dest!: forgot_fields)+
  ultimately show ?case
    using Cons forgot_fields [OF Cons.hyps(1)] by (auto simp del: prog_out.simps)
qed simp

lemma frames_ok_forgot:
  assumes "list_all2 forgot fs gs" and "frames_ok fs"
  shows "frames_ok gs"
proof -
  have ne: "fs \<noteq> []" "gs \<noteq> []" "length fs = length gs"
    using assms list_all2_lengthD [OF assms(1)] by (auto simp: frames_ok_def)
  then have "forgot (last fs) (last gs)"
    using list_all2_nthD [OF assms(1), of "length fs - 1"] by (simp add: last_conv_nth)
  with ne assms views_ok_forgot show ?thesis by (auto simp: frames_ok_def dest!: forgot_fields)
qed

lemma merge_into_parent_shape:
  "merge_into_parent fr s = Inr s' \<Longrightarrow> same_shape (frames s') (frames s)
     \<and> programs s' = programs s \<and> pending s' = pending s"
  by (auto simp: merge_into_parent_def shape_def)

lemma map_target_update [simp]:
  "k < length ps \<Longrightarrow> p_target y = p_target (ps ! k) \<Longrightarrow> map p_target (ps[k := y]) = map p_target ps"
  by (simp add: list_eq_iff_nth_eq nth_list_update)

lemma finish_nested_split:
  assumes "finish_nested log g fr pid pp s = Inr s'"
  shows "\<exists>s1 s2. forget_overwritten (wf_journal fr) s1 = Inr s2 \<and> merge_into_parent fr s2 = Inr s'
    \<and> frames s1 = frames s \<and> pending s1 = pending s \<and> map p_target (programs s1) = map p_target (programs s)"
  using assms
  by (cases pp) (auto simp: finish_nested_def Let_def res_simps,
      (intro exI conjI, assumption, assumption, simp_all add: nth_list_update)+)

lemma finish_nested_ok:
  assumes "finish_nested log g fr pid pp s = Inr s'" and "walk_ok0 s"
  shows "walk_ok0 s'"
proof -
  obtain s1 s2 where s1: "frames s1 = frames s" "pending s1 = pending s"
    and s2: "forget_overwritten (wf_journal fr) s1 = Inr s2" "merge_into_parent fr s2 = Inr s'"
    using finish_nested_split [OF assms(1)] by blast
  have "list_all2 forgot (frames s) (frames s2)" "pending s2 = pending s"
    using forget_overwritten_forgot [OF s2(1)] s1 by auto
  then have "walk_ok0 s2"
    using assms(2) frames_ok_forgot by (auto simp: walk_ok0_def)
  with merge_into_parent_shape [OF s2(2)] show ?thesis by (blast intro: walk_ok0_shape)
qed

lemma revert_nested_ok:
  assumes "revert_nested s = Inr s'" and "walk_ok0 s"
  shows "walk_ok0 s'"
proof -
  obtain f rest where f: "frames s = f # rest" "wf_out f \<noteq> []" "is_nested (last (wf_out f))"
    and s': "s' = s\<lparr>frames := f\<lparr>wf_out := butlast (wf_out f)\<rparr> # rest\<rparr>"
    using assms(1) by (auto simp: revert_nested_def res_simps split: if_splits)
  have "store_of (last (wf_out f)) = None" using f(3) by (cases "last (wf_out f)") auto
  then have keep: "last_store (us @ butlast (wf_out f)) = last_store (us @ wf_out f)" for us
    using last_store_butlast [of "us @ wf_out f"] f(2) by (simp add: butlast_append)
  have "last_store (prog_out (f\<lparr>wf_out := butlast (wf_out f)\<rparr> # rest)) = last_store (prog_out (f # rest))"
    using keep [of "[]"] keep unfolding prog_out_Cons by simp
  moreover have ok: "views_ok (f # rest)" using assms(2) frames_ok_views unfolding f(1) [symmetric] walk_ok0_def by blast
  ultimately have "wf_program f \<noteq> None \<Longrightarrow>
      sound_view (wf_view f) (prog_out (f\<lparr>wf_out := butlast (wf_out f)\<rparr> # rest))"
    by (metis sound_view_cong views_ok.simps(2))
  moreover have "wf_program f \<noteq> None" using ok f(2) by (cases "wf_program f") simp_all
  ultimately have "views_ok (f\<lparr>wf_out := butlast (wf_out f)\<rparr> # rest)"
    by (intro views_ok_replace [OF ok]) (simp_all del: prog_out.simps)
  with assms(2) f show ?thesis
    by (cases rest) (simp_all add: s' walk_ok0_def frames_ok_def del: views_ok.simps)
qed

text \<open>A delegate frame's output and view carry over to the frame that made the call.\<close>

lemma views_ok_absorb:
  assumes ok: "views_ok (f # g # rest)" and nn: "wf_nested_start_gas f = None"
    and h: "wf_program h = wf_program g" "wf_nested_start_gas h = wf_nested_start_gas g"
      "wf_out h = wf_out g @ wf_out f" "wf_view h = (if wf_program f \<noteq> None then wf_view f else wf_view g)"
  shows "views_ok (h # rest)"
proof (cases "wf_program f = None")
  case True
  then have out: "wf_out f = []" using ok by simp
  have ok_g: "views_ok (g # rest)" using ok by (rule views_ok_tl)
  have "prog_out (h # rest) = prog_out (g # rest)" "wf_view h = wf_view g" "wf_out h = wf_out g"
    using h out True by simp_all
  with ok_g h(1,2) show ?thesis by (simp del: prog_out.simps)
next
  case False
  have out: "prog_out (h # rest) = prog_out (f # g # rest)" using assms by simp
  have v: "wf_view h = wf_view f" and g: "wf_program g = wf_program f" using h ok False nn by auto
  have "sound_view (wf_view f) (prog_out (f # g # rest))" using ok False by simp
  then have "sound_view (wf_view h) (prog_out (h # rest))" unfolding out v .
  with False g h(1,2) show ?thesis
    by (intro views_ok_replace [OF views_ok_tl [OF ok]]) (simp_all del: prog_out.simps)
qed

lemma finish_plain_ok:
  assumes fin: "finish_plain fr s = Inr s'" and ok: "frames_ok (fr # frames s)" "pending s = None"
    and nn: "wf_nested_start_gas fr = None"
  shows "walk_ok0 s'"
proof -
  obtain s1 s2 where s1: "(if wf_program fr = None then forget_overwritten (wf_journal fr) s else Inr s) = Inr s1"
    and s2: "merge_into_parent fr s1 = Inr s2"
    and s': "update_top (\<lambda>parent. parent\<lparr>wf_out := wf_out parent @ wf_out fr,
        wf_call_gas := wf_call_gas parent + wf_call_gas fr,
        wf_callee_gas := wf_callee_gas parent + wf_callee_gas fr,
        wf_create_gas := wf_create_gas parent + wf_create_gas fr,
        wf_view := (if wf_program fr \<noteq> None then wf_view fr else wf_view parent)\<rparr>) s2 = Inr s'"
    using fin unfolding finish_plain_def bind_res_Inr_iff by blast
  have "list_all2 forgot (frames s) (frames s1) \<and> pending s1 = None"
    using s1 ok(2) forget_overwritten_forgot [of "wf_journal fr" s s1]
    by (auto split: if_splits simp: forgot_all_refl)
  then have "list_all2 forgot (fr # frames s) (fr # frames s1)" "pending s1 = None"
    by (simp_all add: forgot_refl)
  then have "frames_ok (fr # frames s1)" using ok(1) frames_ok_forgot by blast
  moreover have same: "same_shape (frames s2) (frames s1)" "pending s2 = None"
    using merge_into_parent_shape [OF s2] \<open>pending s1 = None\<close> by auto
  ultimately have ok2: "frames_ok (fr # frames s2)"
    using frames_ok_shape [of "fr # frames s2" "fr # frames s1"] by simp
  from s' obtain g rest where g: "frames s2 = g # rest"
    and s'2: "s' = s2\<lparr>frames := g\<lparr>wf_out := wf_out g @ wf_out fr,
        wf_call_gas := wf_call_gas g + wf_call_gas fr,
        wf_callee_gas := wf_callee_gas g + wf_callee_gas fr,
        wf_create_gas := wf_create_gas g + wf_create_gas fr,
        wf_view := (if wf_program fr \<noteq> None then wf_view fr else wf_view g)\<rparr> # rest\<rparr>"
    by auto
  have "views_ok (hd (frames s') # rest)"
  proof (rule views_ok_absorb [of fr g])
    show "views_ok (fr # g # rest)" using ok2 by (simp only: frames_ok_def g)
  qed (simp_all add: s'2 nn)
  then show ?thesis
    using ok2 same(2) g by (cases rest) (simp_all add: walk_ok0_def frames_ok_def s'2 del: views_ok.simps)
qed

lemma frames_ok_tl: "frames_ok (f # rest) \<Longrightarrow> rest \<noteq> [] \<Longrightarrow> frames_ok rest"
  using views_ok_tl [of f rest] by (simp add: frames_ok_def del: views_ok.simps)

lemma drop_programs_pending: "drop_programs n s = Inr s' \<Longrightarrow> pending s' = pending s"
  by (auto simp: drop_programs_def split: if_splits)

lemma settle_frame_elim:
  assumes "settle_frame log success fr s = Inr s'"
  obtains s1 s2 where
    "(if success then Inr s else drop_programs (wf_first_program fr) s) = Inr s1"
    "(case wf_emitted_call_gas fr of None \<Rightarrow> Inr s1
       | Some g0 \<Rightarrow> let g = sat_sub g0 (gas log) in charge_caller (wf_emitted_create fr) g
             (callee_gas g (wf_call_gas_cost fr) (Some (wf_entry_gas fr))) s1) = Inr s2"
    "(case wf_nested_start_gas fr of
         Some start_gas \<Rightarrow> (case wf_program fr of None \<Rightarrow> Inl (Panic ''a nested frame emits'')
           | Some pid \<Rightarrow> if success
               then finish_nested log start_gas fr pid (case frames s of [] \<Rightarrow> None | f # _ \<Rightarrow> wf_program f) s2
               else revert_nested s2)
       | None \<Rightarrow> if success then finish_plain fr s2 else Inr s2) = Inr s'"
  using assms unfolding settle_frame_def Let_def
  by (auto simp: bind_res_Inr_iff split: if_split_asm)

lemma settle_frame_ok:
  assumes settle: "settle_frame log success fr s = Inr s'"
    and ok: "frames_ok (fr # frames s)" "pending s = None" "frames s \<noteq> []"
  shows "walk_ok0 s'"
proof -
  obtain s1 s2 where s1: "(if success then Inr s else drop_programs (wf_first_program fr) s) = Inr s1"
    and s2: "(case wf_emitted_call_gas fr of None \<Rightarrow> Inr s1
       | Some g0 \<Rightarrow> let g = sat_sub g0 (gas log) in charge_caller (wf_emitted_create fr) g
             (callee_gas g (wf_call_gas_cost fr) (Some (wf_entry_gas fr))) s1) = Inr s2"
    and fin: "(case wf_nested_start_gas fr of
         Some start_gas \<Rightarrow> (case wf_program fr of None \<Rightarrow> Inl (Panic ''a nested frame emits'')
           | Some pid \<Rightarrow> if success
               then finish_nested log start_gas fr pid (case frames s of [] \<Rightarrow> None | f # _ \<Rightarrow> wf_program f) s2
               else revert_nested s2)
       | None \<Rightarrow> if success then finish_plain fr s2 else Inr s2) = Inr s'"
    using settle by (rule settle_frame_elim)
  have "frames s1 = frames s" "pending s1 = None"
    using s1 ok(2) drop_programs_frames drop_programs_pending by (auto split: if_splits)
  moreover have "same_shape (frames s2) (frames s1) \<and> pending s2 = pending s1"
    using s2 charge_caller_shape by (auto simp: Let_def split: option.splits)
  ultimately have p2: "pending s2 = None" and sh: "same_shape (fr # frames s2) (fr # frames s)" by auto
  have ok2: "frames_ok (fr # frames s2)" using frames_ok_shape [OF sh ok(1)] .
  have "frames s2 \<noteq> []" using sh ok(3) by auto
  then have ok0: "walk_ok0 s2" using frames_ok_tl [OF ok2] p2 by (simp add: walk_ok0_def)
  show ?thesis
  proof (cases "wf_nested_start_gas fr")
    case None
    with fin ok0 finish_plain_ok [OF _ ok2 p2 None] show ?thesis by (auto split: if_splits)
  next
    case (Some g)
    with fin ok0 finish_nested_ok revert_nested_ok show ?thesis
      by (auto split: if_splits option.splits)
  qed
qed

lemma flush_slice_ok0:
  assumes "flush_slice s = Inr s'" and "walk_ok0 s"
  shows "walk_ok0 s'"
proof -
  obtain f rest p where f: "frames s = f # rest"
    and s': "s' = s\<lparr>frames := flush_slots (visible_image (frames s) (p_target (programs s ! p))) f # rest\<rparr>"
    using assms(1) by (rule flush_slice_Inr)
  have "views_ok (frames s')" "pending s' = pending s"
    using flush_slice_views [OF assms(1)] assms(2) by (simp_all add: walk_ok0_def frames_ok_def)
  with f s' assms(2) show ?thesis
    by (cases rest) (simp_all add: walk_ok0_def frames_ok_def del: views_ok.simps)
qed

lemma close_frame_ok:
  assumes "close_frame log s = Inr s'" and "walk_ok0 s"
  shows "walk_ok0 s' \<or> frames s' = [] \<and> depth log = 0"
proof -
  obtain top others success s1 fr rest where top: "frames s = top # others" "wf_depth top = depth log + 1"
    and s1: "(if success \<and> wf_nested_start_gas top \<noteq> None then flush_slice s else Inr s) = Inr s1"
    and fr: "frames s1 = fr # rest" and s': "settle_frame log success fr (s1\<lparr>frames := rest\<rparr>) = Inr s'"
    using assms(1) by (rule close_frame_elim)
  have ok1: "walk_ok0 s1" and len: "length (frames s1) = length (frames s)"
    using s1 assms(2) flush_slice_ok0 flush_slice_length by (auto split: if_splits)
  show ?thesis
  proof (cases "rest = []")
    case True
    then have "others = []" using len top fr by simp
    then have "depth log = 0" using top assms(2) by (simp add: walk_ok0_def frames_ok_def)
    then show ?thesis using settle_frame_length [OF s'] True by simp
  next
    case False
    then show ?thesis using settle_frame_ok [OF s'] ok1 fr by (simp add: walk_ok0_def)
  qed
qed

lemma close_frames_ok: "close_frames log s = Inr s' \<Longrightarrow> walk_ok0 s \<Longrightarrow> walk_ok0 s'"
proof (induction log s rule: close_frames.induct)
  case (1 log s)
  obtain f rest where f: "frames s = f # rest"
    using 1(3) by (cases "frames s") (auto simp: walk_ok0_def frames_ok_def)
  show ?case
  proof (cases "wf_depth f > depth log")
    case True
    then obtain s1 where s1: "close_frame log s = Inr s1" "close_frames log s1 = Inr s'"
      using 1(2) f by (subst (asm) close_frames.simps) (auto simp: res_simps)
    have "\<not> (frames s1 = [] \<and> depth log = 0)"
      using s1(2) by (auto simp: close_frames.simps [of log s1] split: if_splits)
    with close_frame_ok [OF s1(1) 1(3)] have "walk_ok0 s1" by blast
    with 1(1) [OF f True s1] show ?thesis .
  next
    case False
    then show ?thesis using 1(2,3) f by (subst (asm) close_frames.simps) simp
  qed
qed

section \<open>Visiting an opcode keeps it\<close>

lemma decode_update_no_store:
  "decode_update opc st mem = Inr (Some u) \<Longrightarrow> opc \<noteq> ''SSTORE'' \<Longrightarrow> store_of u = None"
  by (auto simp: decode_update_def Let_def res_simps split: if_splits)

lemma append_no_store:
  assumes "append_state_update_from_struct_log hexd us log = Inr (us', sk)" and "op log \<noteq> ''SSTORE''"
  shows "\<exists>vs. us' = us @ vs \<and> list_all (\<lambda>u. store_of u = None) vs"
  using assms decode_update_no_store
  by (fastforce simp: append_state_update_from_struct_log_def Let_def res_simps
      split: option.splits if_splits)

lemma append_top_ok:
  assumes "walk_ok0 s" "frames s = f # rest" "wf_program f \<noteq> None"
    and vs: "list_all (\<lambda>u. store_of u = None) vs"
  shows "walk_ok0 (s\<lparr>frames := f\<lparr>wf_out := wf_out f @ vs\<rparr> # rest\<rparr>)"
proof -
  let ?g = "f\<lparr>wf_out := wf_out f @ vs\<rparr>"
  have ok: "views_ok (f # rest)" using assms frames_ok_views by (metis walk_ok0_def)
  have out: "prog_out (?g # rest) = prog_out (f # rest) @ vs" by (simp add: prog_out_Cons del: prog_out.simps)
  have "sound_view (wf_view f) (prog_out (f # rest))" using ok assms(3) by (simp del: prog_out.simps)
  then have "sound_view (wf_view f) (prog_out (?g # rest))"
    unfolding out by (rule sound_view_cong) (simp add: last_store_append_none [OF vs])
  then have "views_ok (?g # rest)"
    using assms(3) by (intro views_ok_replace [OF ok]) (simp_all del: prog_out.simps)
  with assms(1,2) show ?thesis
    by (cases rest) (simp_all add: walk_ok0_def frames_ok_def del: views_ok.simps)
qed

lemma walk_ok0_pending:
  "walk_ok0 s \<Longrightarrow> pf_program p = None \<Longrightarrow> walk_ok (s\<lparr>pending := Some p\<rparr>)"
  by (simp add: walk_ok_def walk_ok0_def pending_ok_def)

lemma walk_ok0_walk_ok: "walk_ok0 s \<Longrightarrow> walk_ok s"
  by (simp add: walk_ok_def walk_ok0_def pending_ok_def)

text \<open>What a store leaves: a journal entry of the top frame, at most gas on its program.\<close>

lemma visit_sstore_cases:
  assumes "visit_sstore log cur s = Inr s'"
  shows "s' = s \<or> (\<exists>jr s1. update_top (\<lambda>f. f\<lparr>wf_journal := jr f\<rparr>) s = Inr s1 \<and>
    (s' = s1 \<or> (\<exists>p g. update_program p (\<lambda>ps. ps\<lparr>p_effect_gas := p_effect_gas ps + g\<rparr>) s1 = Inr s')))"
proof (cases "wf_ctx cur = None \<or> error log \<noteq> None")
  case True
  with assms show ?thesis by (auto simp: visit_sstore_def split: option.splits)
next
  case False
  then obtain ctx where ctx: "wf_ctx cur = Some ctx" "error log = None" by auto
  then obtain st where st: "stack log = Some st" using assms by (cases "stack log") (auto simp: visit_sstore_def)
  obtain slot v s1 where
    s1: "update_top (\<lambda>f. f\<lparr>wf_journal :=
        om_insert ctx (om_insert slot v (journal_at (wf_journal f) ctx)) (wf_journal f)\<rparr>) s = Inr s1"
    and s': "(case wf_program cur of None \<Rightarrow> Inr s1
       | Some p \<Rightarrow> bind_res (program_at p s1) (\<lambda>ps. if p_target ps = ctx
           then update_program p (\<lambda>ps. ps\<lparr>p_effect_gas := p_effect_gas ps + gas_cost log\<rparr>) s1
           else Inr s1)) = Inr s'"
    using assms unfolding visit_sstore_def ctx st bind_res_Inr_iff option.case simp_thms if_False
    by blast
  from s' have "s' = s1 \<or> (\<exists>p. update_program p (\<lambda>ps. ps\<lparr>p_effect_gas := p_effect_gas ps + gas_cost log\<rparr>) s1 = Inr s')"
    by (cases "wf_program cur") (auto simp: bind_res_Inr_iff split: if_split_asm)
  with s1 show ?thesis
    by - (rule disjI2, rule exI [of _ "\<lambda>f. om_insert ctx (om_insert slot v (journal_at (wf_journal f) ctx)) (wf_journal f)"],
        rule exI [of _ s1], rule conjI, assumption, blast)
qed

lemma visit_sstore_ok:
  assumes "visit_sstore log cur s = Inr s'" and "walk_ok0 s"
  shows "walk_ok0 s'"
proof -
  have "same_shape (frames s') (frames s) \<and> pending s' = pending s"
    using visit_sstore_cases [OF assms(1)] by (auto simp: shape_def)
  with assms(2) show ?thesis by (blast intro: walk_ok0_shape)
qed

lemma visit_delegate_ok:
  assumes "walk_ok0 s" and "frames s = cur # rest"
  shows "walk_ok (visit_delegate log cur s)"
proof -
  have "views_ok (cur # rest)" using assms frames_ok_views by (metis walk_ok0_def)
  then show ?thesis
    using assms by (cases "wf_program cur")
      (simp_all add: visit_delegate_def walk_ok_def walk_ok0_def pending_ok_def plain_pending_def
        del: prog_out.simps)
qed

lemma open_nested_ok:
  assumes opn: "open_nested kecc g index call cur parent next s = Inr s'" and ok: "walk_ok0 s"
    and f: "frames s = f # rest" "wf_program f \<noteq> None" and nx: "pf_view next = []"
  shows "walk_ok s'"
proof -
  have "walk_ok0 (s\<lparr>frames := f\<lparr>wf_out := wf_out f @ [Nested (call_target call) (call_value call) 0]\<rparr> # rest\<rparr>)"
    by (rule append_top_ok [OF ok f]) simp
  moreover have "frames s' = f\<lparr>wf_out := wf_out f @ [Nested (call_target call) (call_value call) 0]\<rparr> # rest"
    and "pending s' = Some (next\<lparr>pf_program := Some (length (programs s)), pf_nested_start_gas := Some g\<rparr>)"
    using opn f by (auto simp: open_nested_def Let_def res_simps)
  ultimately show ?thesis using nx by (simp add: walk_ok_def walk_ok0_def pending_ok_def)
qed

lemma emit_call_ok:
  assumes emit: "emit_call hexd kecc el cands i log cur parent next s = Inr s'" and ok: "walk_ok0 s"
    and opc: "op log = ''CALL''" and nx: "pf_program next = None" "pf_view next = []"
  shows "walk_ok s'"
proof -
  obtain s1 decoded sk where s1: "flush_slice s = Inr s1"
    and dec: "append_state_update_from_struct_log hexd [] log = Inr (decoded, sk)" "decoded \<noteq> []"
    and fin: "(case (frame_index el (map_of cands i) (callee_of log), last decoded) of
          (Some index, Call call) \<Rightarrow> open_nested kecc (gas log) index call cur parent next s1
        | (_, u) \<Rightarrow>
            bind_res (update_top (\<lambda>f. f\<lparr>wf_out := wf_out f @ [u]\<rparr>) s1) (\<lambda>s.
            Inr (s\<lparr>pending := Some (next\<lparr>pf_emitted_call_gas := Some (gas log)\<rparr>)\<rparr>))) = Inr s'"
    using emit unfolding emit_call_def by (auto simp: bind_res_Inr_iff split: if_splits prod.splits)
  have ok1: "walk_ok0 s1" using flush_slice_ok0 [OF s1 ok] .
  obtain f rest where f: "frames s1 = f # rest" "wf_program f \<noteq> None"
    using s1 by (elim flush_slice_Inr) simp
  have "list_all (\<lambda>u. store_of u = None) decoded"
    using append_no_store [OF dec(1)] opc by auto
  then have "list_all (\<lambda>u. store_of u = None) [last decoded]"
    using dec(2) by (simp add: list_all_iff)
  then have app: "walk_ok0 (s1\<lparr>frames := f\<lparr>wf_out := wf_out f @ [last decoded]\<rparr> # rest\<rparr>)"
    by (rule append_top_ok [OF ok1 f])
  have plain: "walk_ok s'" if "bind_res (update_top (\<lambda>f. f\<lparr>wf_out := wf_out f @ [last decoded]\<rparr>) s1) (\<lambda>s.
            Inr (s\<lparr>pending := Some (next\<lparr>pf_emitted_call_gas := Some (gas log)\<rparr>)\<rparr>)) = Inr s'"
    using that f nx(1) walk_ok0_pending [OF app, of "next\<lparr>pf_emitted_call_gas := Some (gas log)\<rparr>"]
    by (auto simp: res_simps)
  show ?thesis
  proof (cases "frame_index el (map_of cands i) (callee_of log)")
    case None
    with fin plain show ?thesis by simp
  next
    case (Some index)
    show ?thesis
    proof (cases "last decoded")
      case (Call call)
      with fin Some have "open_nested kecc (gas log) index call cur parent next s1 = Inr s'" by simp
      from open_nested_ok [OF this ok1 f nx(2)] show ?thesis .
    qed (use fin plain Some in simp_all)
  qed
qed

lemma append_to_top_ok:
  assumes "append_to_top hexd log s = Inr (s', sk)" and "walk_ok0 s"
    and "frames s = f # rest" "wf_program f \<noteq> None" and "op log \<noteq> ''SSTORE''"
  shows "walk_ok0 s'"
proof -
  obtain us where us: "append_state_update_from_struct_log hexd (wf_out f) log = Inr (us, sk)"
    and s': "s' = s\<lparr>frames := f\<lparr>wf_out := us\<rparr> # rest\<rparr>"
    using assms(1,3) by (auto simp: append_to_top_def res_simps)
  obtain vs where "us = wf_out f @ vs" "list_all (\<lambda>u. store_of u = None) vs"
    using append_no_store [OF us assms(5)] by blast
  with append_top_ok [OF assms(2-4)] s' show ?thesis by simp
qed

lemma visit_create_ok:
  assumes "visit_create hexd log cur s = Inr s'" and "walk_ok0 s" and "frames s = cur # rest"
    and "op log \<noteq> ''SSTORE''"
  shows "walk_ok s'"
proof -
  let ?emitted = "wf_program cur \<noteq> None \<and> error log = None"
  let ?p = "(plain_pending (depth log) None None [])
                \<lparr>pf_emitted_call_gas := (if ?emitted then Some (gas log) else None),
                 pf_emitted_create := ?emitted\<rparr>"
  obtain s1 where s1: "(if ?emitted
            then bind_res (flush_slice s) (\<lambda>s.
                 bind_res (append_to_top hexd log s) (\<lambda>(s, sk).
                 if sk \<noteq> None then Inl (Panic ''CREATE/CREATE2 are never skipped opcodes'') else Inr s))
            else Inr s) = Inr s1"
    and s': "s' = s1 \<or> s' = s1\<lparr>pending := Some ?p\<rparr>"
    using assms(1) unfolding visit_create_def Let_def bind_res_Inr_iff
    by (metis (no_types, lifting) sum.inject(2))
  have "walk_ok0 s1"
  proof (cases ?emitted)
    case True
    then obtain s2 where s2: "flush_slice s = Inr s2" "append_to_top hexd log s2 = Inr (s1, None)"
      using s1 by (auto simp: bind_res_Inr_iff split: if_splits)
    obtain f where "frames s2 = f # rest" "wf_program f \<noteq> None"
      using s2(1) assms(3) by (elim flush_slice_Inr) simp
    with append_to_top_ok [OF s2(2) flush_slice_ok0 [OF s2(1) assms(2)]] assms(4) show ?thesis by blast
  next
    case False
    with s1 assms(2) show ?thesis by (simp split: if_splits)
  qed
  moreover have "pf_program ?p = None" by (simp add: plain_pending_def)
  ultimately show ?thesis using s' walk_ok0_pending walk_ok0_walk_ok by blast
qed

lemma visit_log_ok:
  assumes "visit_log hexd log cur s = Inr s'" and "walk_ok0 s" and "frames s = cur # rest"
    and "op log \<noteq> ''SSTORE''"
  shows "walk_ok0 s'"
proof (cases "wf_program cur = None \<or> error log \<noteq> None")
  case True
  with assms(1,2) show ?thesis by (auto simp: visit_log_def split: option.splits)
next
  case False
  then obtain p s1 sk where s1: "append_to_top hexd log s = Inr (s1, sk)"
    and s': "frames s' = frames s1" "pending s' = pending s1"
    using assms(1) by (auto simp: visit_log_def bind_res_Inr_iff split: if_splits)
  have "walk_ok0 s1" by (rule append_to_top_ok [OF s1 assms(2,3)]) (use False assms(4) in auto)
  with s' show ?thesis by (simp add: walk_ok0_def)
qed

lemma visit_call_ok:
  assumes "visit_call hexd kecc el cands i log cur s = Inr s'" and "walk_ok0 s" and "op log = ''CALL''"
  shows "walk_ok s'"
proof -
  let ?next = "(plain_pending (depth log) (callee_of log) None [])\<lparr>pf_call_gas_cost := gas_cost log\<rparr>"
  have "pf_program ?next = None" "pf_view ?next = []" by (simp_all add: plain_pending_def)
  note nx = this
  consider "s' = s" | "s' = s\<lparr>pending := Some ?next\<rparr>"
    | p where "emit_call hexd kecc el cands i log cur p ?next s = Inr s'"
    using assms(1) unfolding visit_call_def Let_def
    by (cases "stack log"; cases "error log"; cases "wf_program cur") auto
  then show ?thesis
    using emit_call_ok [OF _ assms(2,3) nx] walk_ok0_pending [OF assms(2) nx(1)] walk_ok0_walk_ok [OF assms(2)]
    by cases auto
qed

lemma visit_static_ok: "visit_static log s = Inr s' \<Longrightarrow> walk_ok0 s \<Longrightarrow> walk_ok s'"
  by (auto simp: visit_static_def plain_pending_def split: if_splits
      intro: walk_ok0_walk_ok walk_ok0_pending)

lemma walk_op_ok:
  assumes "walk_op hexd kecc el cands i log s = Inr s'" and ok: "walk_ok0 s"
  shows "walk_ok s'"
proof -
  obtain cur rest where cur: "frames s = cur # rest"
    using assms(1) by (auto simp: walk_op_def res_simps)
  note visit = visit_sstore_ok [OF _ ok] visit_delegate_ok [OF ok cur] visit_static_ok [OF _ ok]
    visit_call_ok [OF _ ok] visit_create_ok [OF _ ok cur] visit_log_ok [OF _ ok cur]
  have "walk_ok0 (s\<lparr>skipped := x\<rparr>)" for x using ok by (simp add: walk_ok0_def)
  with assms(1) cur ok show ?thesis
    unfolding walk_op_def
    by (auto simp: top_frame_def intro: visit walk_ok0_walk_ok split: if_split_asm)
qed

lemma walk_step_ok:
  assumes "walk_step hexd kecc el cands s ilog = Inr s'" and "walk_ok s"
  shows "walk_ok s'"
  using assms take_pending_ok close_frames_ok walk_op_ok
  unfolding walk_step_def by (cases ilog) (auto simp: bind_res_Inr_iff)

section \<open>The targets of programs never change\<close>

definition targets :: "walk_state \<Rightarrow> address list" where
  "targets s = map p_target (programs s)"

lemma targets_cong: "programs s' = programs s \<Longrightarrow> targets s' = targets s"
  by (simp add: targets_def)

lemma targets_charge: "charge_caller b g c s = Inr s' \<Longrightarrow> targets s' = targets s"
  by (auto simp: charge_caller_def targets_def res_simps split: option.splits)

lemma targets_take_pending: "take_pending log s = Inr s' \<Longrightarrow> targets s' = targets s"
  by (auto simp: take_pending_def Let_def split: option.splits if_splits
      dest!: targets_charge) (simp_all add: targets_def)

lemma targets_drop:
  assumes "drop_programs n s = Inr s'"
  shows "targets s' = targets s"
proof -
  have "targets s' = map p_target (take n (programs s) @ drop n (programs s))"
    using assms unfolding targets_def map_append by (auto simp: drop_programs_def split: if_splits)
  then show ?thesis by (simp add: targets_def)
qed

lemma targets_flush: "flush_slice s = Inr s' \<Longrightarrow> targets s' = targets s"
  by (elim flush_slice_Inr) (simp add: targets_def)

lemma targets_finish_nested:
  assumes "finish_nested log g fr pid pp s = Inr s'"
  shows "targets s' = targets s"
proof -
  obtain s1 s2 where s1: "targets s1 = targets s"
    and s2: "forget_overwritten (wf_journal fr) s1 = Inr s2" "merge_into_parent fr s2 = Inr s'"
    using finish_nested_split [OF assms] by (auto simp: targets_def)
  have "programs s2 = programs s1" "programs s' = programs s2"
    using forget_overwritten_forgot [OF s2(1)] merge_into_parent_shape [OF s2(2)] by simp_all
  with s1 show ?thesis by (simp add: targets_def)
qed

lemma targets_finish_plain:
  assumes "finish_plain fr s = Inr s'"
  shows "targets s' = targets s"
proof -
  obtain s1 s2 where s1: "(if wf_program fr = None then forget_overwritten (wf_journal fr) s else Inr s) = Inr s1"
    and s2: "merge_into_parent fr s1 = Inr s2" and "programs s' = programs s2"
    using assms by (auto simp: finish_plain_def bind_res_Inr_iff)
  moreover have "programs s1 = programs s"
    using s1 forget_overwritten_forgot by (auto split: if_splits)
  ultimately show ?thesis using merge_into_parent_shape [OF s2] by (simp add: targets_def)
qed

lemma targets_revert: "revert_nested s = Inr s' \<Longrightarrow> targets s' = targets s"
  by (auto simp: revert_nested_def targets_def res_simps split: if_splits)

lemma targets_settle:
  assumes "settle_frame log ok fr s = Inr s'"
  shows "targets s' = targets s"
proof -
  obtain s1 s2 where s1: "(if ok then Inr s else drop_programs (wf_first_program fr) s) = Inr s1"
    and s2: "(case wf_emitted_call_gas fr of None \<Rightarrow> Inr s1
       | Some g0 \<Rightarrow> let g = sat_sub g0 (gas log) in charge_caller (wf_emitted_create fr) g
             (callee_gas g (wf_call_gas_cost fr) (Some (wf_entry_gas fr))) s1) = Inr s2"
    and fin: "(case wf_nested_start_gas fr of
         Some start_gas \<Rightarrow> (case wf_program fr of None \<Rightarrow> Inl (Panic ''a nested frame emits'')
           | Some pid \<Rightarrow> if ok
               then finish_nested log start_gas fr pid (case frames s of [] \<Rightarrow> None | f # _ \<Rightarrow> wf_program f) s2
               else revert_nested s2)
       | None \<Rightarrow> if ok then finish_plain fr s2 else Inr s2) = Inr s'"
    using assms by (rule settle_frame_elim)
  have "targets s1 = targets s" using s1 targets_drop by (auto split: if_splits)
  moreover have "targets s2 = targets s1" using s2 targets_charge by (auto simp: Let_def split: option.splits)
  moreover have "targets s' = targets s2"
    using fin targets_finish_nested targets_finish_plain targets_revert
    by (auto split: option.splits if_splits)
  ultimately show ?thesis by simp
qed

lemma targets_close_frame: "close_frame log s = Inr s' \<Longrightarrow> targets s' = targets s"
proof (elim close_frame_elim)
  fix top success s1 fr rest
  assume "(if success \<and> wf_nested_start_gas top \<noteq> None then flush_slice s else Inr s) = Inr s1"
    and "settle_frame log success fr (s1\<lparr>frames := rest\<rparr>) = Inr s'"
  then have "targets s1 = targets s" "targets s' = targets (s1\<lparr>frames := rest\<rparr>)"
    using targets_flush targets_settle by (auto split: if_splits)
  then show ?thesis by (simp add: targets_def)
qed

lemma targets_close_frames: "close_frames log s = Inr s' \<Longrightarrow> targets s' = targets s"
proof (induction log s rule: close_frames.induct)
  case (1 log s)
  show ?case
  proof (cases "\<exists>f rest. frames s = f # rest \<and> wf_depth f > depth log")
    case True
    then obtain f rest s1 where f: "frames s = f # rest" "wf_depth f > depth log"
      and s1: "close_frame log s = Inr s1" "close_frames log s1 = Inr s'"
      using 1(2) by (subst (asm) close_frames.simps) (auto simp: res_simps)
    from 1(1) [OF f s1] targets_close_frame [OF s1(1)] show ?thesis by simp
  next
    case False
    then show ?thesis using 1(2) by (subst (asm) close_frames.simps) (auto split: list.splits if_splits)
  qed
qed

lemma targets_append_to_top: "append_to_top hexd log s = Inr (s', sk) \<Longrightarrow> targets s' = targets s"
  by (auto simp: append_to_top_def bind_res_Inr_iff targets_def)

lemma targets_open_nested:
  "open_nested kecc g index call cur parent next s = Inr s' \<Longrightarrow>
     targets s' = targets s @ [call_target call]"
  by (auto simp: open_nested_def Let_def bind_res_Inr_iff targets_def new_program_def)

lemma targets_emit_call:
  assumes "emit_call hexd kecc el cands i log cur parent next s = Inr s'"
  shows "prefix (targets s) (targets s')"
proof -
  obtain s1 decoded sk where s1: "flush_slice s = Inr s1"
    and fin: "(case (frame_index el (map_of cands i) (callee_of log), last decoded) of
          (Some index, Call call) \<Rightarrow> open_nested kecc (gas log) index call cur parent next s1
        | (_, u) \<Rightarrow>
            bind_res (update_top (\<lambda>f. f\<lparr>wf_out := wf_out f @ [u]\<rparr>) s1) (\<lambda>s.
            Inr (s\<lparr>pending := Some (next\<lparr>pf_emitted_call_gas := Some (gas log)\<rparr>)\<rparr>))) = Inr s'"
    using assms unfolding emit_call_def by (auto simp: bind_res_Inr_iff split: if_splits prod.splits)
  have "targets s' = targets s1 \<or> (\<exists>a. targets s' = targets s1 @ [a])"
    using fin by (auto split: option.splits state_update.splits dest!: targets_open_nested)
      (auto simp: bind_res_Inr_iff targets_def)
  with targets_flush [OF s1] show ?thesis by auto
qed

lemma targets_visit_create: "visit_create hexd log cur s = Inr s' \<Longrightarrow> targets s' = targets s"
  by (auto simp: visit_create_def Let_def bind_res_Inr_iff split: if_split_asm
      dest!: targets_flush targets_append_to_top) (simp_all add: targets_def)

lemma targets_visit_sstore:
  assumes "visit_sstore log cur s = Inr s'"
  shows "targets s' = targets s"
  using visit_sstore_cases [OF assms] by (auto simp: targets_def)

lemma targets_visit_log: "visit_log hexd log cur s = Inr s' \<Longrightarrow> targets s' = targets s"
  by (cases "wf_program cur") (auto simp: visit_log_def bind_res_Inr_iff split: if_split_asm
      dest!: targets_append_to_top, simp_all add: targets_def)

lemma targets_walk_op:
  assumes "walk_op hexd kecc el cands i log s = Inr s'"
  shows "prefix (targets s) (targets s')"
proof -
  obtain cur rest where cur: "frames s = cur # rest"
    using assms by (auto simp: walk_op_def bind_res_Inr_iff)
  have call: "prefix (targets s) (targets s')" if "visit_call hexd kecc el cands i log cur s = Inr s'"
    using that targets_emit_call
    by (cases "stack log"; cases "error log"; cases "wf_program cur")
      (auto simp: visit_call_def Let_def targets_def)
  have delegate: "targets (visit_delegate log cur s) = targets s"
    by (simp add: visit_delegate_def targets_def)
  have static: "targets s' = targets s" if "visit_static log s = Inr s'"
    using that by (auto simp: visit_static_def targets_def split: if_split_asm)
  have skip: "targets s' = targets s" if "s\<lparr>skipped := insert (op log) (skipped s)\<rparr> = s'"
    using that by (auto simp: targets_def)
  show ?thesis
    using assms cur call delegate static skip targets_visit_sstore [of log cur s s']
      targets_visit_create [of hexd log cur s s'] targets_visit_log [of hexd log cur s s']
    by (simp add: walk_op_def top_frame_def split: if_split_asm)
qed

lemma targets_walk_step:
  "walk_step hexd kecc el cands s ilog = Inr s' \<Longrightarrow> prefix (targets s) (targets s')"
  by (cases ilog) (auto simp: walk_step_def bind_res_Inr_iff dest!: targets_take_pending
      targets_close_frames targets_walk_op)

section \<open>The final slice\<close>

definition walk_inv :: "address \<Rightarrow> walk_state \<Rightarrow> bool" where
  "walk_inv root s \<longleftrightarrow> walk_ok s \<and> prefix [root] (targets s)"

lemma walk_inv_step:
  "walk_inv root s \<Longrightarrow> walk_step hexd kecc el cands s ilog = Inr s' \<Longrightarrow> walk_inv root s'"
  using walk_step_ok targets_walk_step prefix_order.trans unfolding walk_inv_def by blast

lemma walk_inv_fold:
  assumes "fold_res (walk_step hexd kecc el cands) ilogs (init_walk root idx) = Inr s"
  shows "walk_inv root s"
proof -
  have "walk_inv root (init_walk root idx)"
    using walk_ok_init by (simp add: walk_inv_def targets_def init_walk_def new_program_def)
  then show ?thesis by (rule fold_res_invariant [OF assms]) (rule walk_inv_step)
qed

lemma finish_walk_image:
  assumes fin: "finish_walk s1 = Inr (s, moves)" and inv: "walk_inv root s1"
  shows "\<exists>updates. p_updates (programs s ! 0) = Some updates \<and>
    (\<forall>slot. slot \<in> set (om_keys (visible_image (frames s) root)) \<longrightarrow>
       last_store updates slot = map_of (visible_image (frames s) root) slot)"
proof -
  obtain f where f: "frames s1 = [f]"
    using fin by (cases "frames s1") (auto simp: finish_walk_def split: if_splits)
  have ok: "views_ok [f]" "wf_program f = Some 0" and root: "prefix [root] (targets s1)"
    using inv f by (simp_all add: walk_inv_def walk_ok_def frames_ok_def del: prog_out.simps)
  then have p0: "programs s1 \<noteq> []" "p_target (programs s1 ! 0) = root"
    by (auto simp: targets_def prefix_def Cons_eq_map_conv map_eq_Cons_conv)
  define g where "g = flush_slots (visible_image [f] root) f"
  have s: "frames s = [g] \<and> p_updates (programs s ! 0) = Some (wf_out g)"
    using fin f ok(2) p0 by (auto simp: finish_walk_def flush_slice_def bind_res_Inr_iff g_def)
  have im: "visible_image [g] root = visible_image [f] root"
    by (simp add: visible_image_def g_def)
  have "sound_view (wf_view g) ([] @ wf_out g)"
    unfolding g_def by (rule flush_slots_sound) (use ok in simp)
  then have "last_store (wf_out g) slot = Some v" if "map_of (visible_image [f] root) slot = Some v" for slot v
    using flush_slots_covers [of "visible_image [f] root" slot v f] that visible_image_ok [of "[f]" root]
    by (simp add: sound_view_def g_def om_ok_def strict_sorted_iff)
  with s im show ?thesis by (auto simp: om_keys_def dest!: weak_map_of_SomeI)
qed

text \<open>
  C5. When the walk of a trace ends, the root's program brings storage to the image: for every slot
  of the root contract that the surviving frames wrote, the last store the program emits to
  that slot carries the slot's final value. The statement is of the state \<open>walk_trace\<close>
  returns: the root's program is program 0, the open frame is the root's.
\<close>

theorem root_program_reaches_image:
  assumes "walk_trace hexd kecc el root lgs = Inr (s, moves)"
  shows "\<exists>updates. p_updates (programs s ! 0) = Some updates \<and>
    (\<forall>slot. slot \<in> set (om_keys (visible_image (frames s) root)) \<longrightarrow>
       last_store updates slot = map_of (visible_image (frames s) root) slot)"
proof -
  obtain cands idx s1 where
    fold: "fold_res (walk_step hexd kecc el cands) (enumerate 0 lgs) (init_walk root idx) = Inr s1"
    and fin: "finish_walk s1 = Inr (s, moves)"
    using assms by (auto simp: walk_trace_def bind_res_Inr_iff)
  have inv: "walk_inv root s1" using fold by (rule walk_inv_fold)
  show ?thesis by (rule finish_walk_image [OF fin inv])
qed

definition slice_trace :: "struct_log list" where
  "slice_trace =
     [sample_log ''SSTORE'' 1 1000 100 [5, 1],
      sample_log ''DELEGATECALL'' 1 900 300 [0, 0, 0, 0, 204, 250],
      sample_log ''SSTORE'' 2 250 120 [7, 1],
      sample_log ''SSTORE'' 2 130 50 [2, 2],
      sample_log ''STOP'' 2 80 0 [],
      sample_log ''STOP'' 1 500 0 [1]]"

lemma slice_trace_walk:
  "map_sum id (\<lambda>(s, ms). (visible_image (frames s) 170, p_updates (programs s ! 0), ms))
     (walk_trace (\<lambda>_. None) (\<lambda>_. 0) (Consumers (\<lambda>_. False)) 170 slice_trace)
   = Inr ([(1, 7), (2, 2)], Some [Store 1 7, Store 2 2], [])"
  by code_simp

theorem root_program_reaches_image_witness:
  "\<exists>s moves updates. walk_trace (\<lambda>_. None) (\<lambda>_. 0) (Consumers (\<lambda>_. False)) 170 slice_trace = Inr (s, moves)
     \<and> visible_image (frames s) 170 = [(1, 7), (2, 2)]
     \<and> p_updates (programs s ! 0) = Some updates
     \<and> last_store updates 1 = Some 7 \<and> last_store updates 2 = Some 2"
proof -
  obtain s moves where walk: "walk_trace (\<lambda>_. None) (\<lambda>_. 0) (Consumers (\<lambda>_. False)) 170 slice_trace = Inr (s, moves)"
    and im: "visible_image (frames s) 170 = [(1, 7), (2, 2)]"
    using slice_trace_walk
    by (cases "walk_trace (\<lambda>_. None) (\<lambda>_. 0) (Consumers (\<lambda>_. False)) 170 slice_trace") auto
  from root_program_reaches_image [OF walk] walk im show ?thesis
    by (auto simp: om_keys_def)
qed

end
