(* ===== verification/Frame_Links.thy ===== *)
theory Frame_Links
  imports Frame_Slices Frame_Encode
begin

text \<open>
  How the programs of a frame tree hang together while the walker (\<^verbatim>\<open>crates/core/src/nested.rs\<close>)
  builds it. A program's \<open>NESTED\<close> ops must match its surviving children one for one, although
  ops sit in the outputs of frames that may still revert and children are only marked dropped.
  The argument is carried out on a skeleton of the walker's state: of a frame its program, the
  number of \<open>NESTED\<close> ops it emitted, how it was opened and the first program it may drop; of a
  program its links and its number of \<open>NESTED\<close> ops. Each move of the walker is one of six moves
  on the skeleton.
\<close>

section \<open>Skeletons\<close>

record sk_frame =
  sk_prog :: "nat option"
  sk_count :: nat
  sk_nested :: bool
  sk_first :: nat

record sk_program =
  kp_parent :: "nat option"
  kp_children :: "nat list"
  kp_dropped :: bool
  kp_ops :: "nat option"
  kp_call :: bool

definition skel :: "walk_frame \<Rightarrow> sk_frame" where
  "skel f = \<lparr>sk_prog = wf_program f, sk_count = nested_count (wf_out f),
     sk_nested = (wf_nested_start_gas f \<noteq> None), sk_first = wf_first_program f\<rparr>"

definition link :: "program_state \<Rightarrow> sk_program" where
  "link p = \<lparr>kp_parent = p_parent p, kp_children = p_children p, kp_dropped = p_dropped p,
     kp_ops = map_option nested_count (p_updates p),
     kp_call = (p_fallback p \<noteq> None \<and> p_transition_index p \<noteq> None)\<rparr>"

text \<open>The surviving children of a program, from a given program on.\<close>

definition live :: "sk_program list \<Rightarrow> nat \<Rightarrow> nat \<Rightarrow> nat" where
  "live ps q lo = length (filter (\<lambda>c. lo \<le> c \<and> \<not> kp_dropped (ps ! c)) (kp_children (ps ! q)))"

section \<open>The invariant\<close>

text \<open>Parent and child links agree, and a program follows its parent.\<close>

definition parent_ok :: "sk_program list \<Rightarrow> nat \<Rightarrow> bool" where
  "parent_ok ps c \<longleftrightarrow> (\<exists>q<c. kp_parent (ps ! c) = Some q \<and> c \<in> set (kp_children (ps ! q))) \<and> kp_call (ps ! c)"

definition children_ok :: "sk_program list \<Rightarrow> nat \<Rightarrow> bool" where
  "children_ok ps q \<longleftrightarrow> sorted_wrt (<) (kp_children (ps ! q))
     \<and> (\<forall>c \<in> set (kp_children (ps ! q)). c < length ps \<and> kp_parent (ps ! c) = Some q)"

definition links_ok :: "sk_program list \<Rightarrow> bool" where
  "links_ok ps \<longleftrightarrow> ps \<noteq> [] \<and> kp_parent (ps ! 0) = None
     \<and> (\<forall>c. 0 < c \<and> c < length ps \<longrightarrow> parent_ok ps c) \<and> (\<forall>q < length ps. children_ok ps q)"

text \<open>The programs open frames write to.\<close>

definition progs :: "sk_frame list \<Rightarrow> nat set" where
  "progs fs = {q. \<exists>f \<in> set fs. sk_prog f = Some q}"

lemma progs_simps [simp]:
  "progs [] = {}"
  "progs (f # fs) = set_option (sk_prog f) \<union> progs fs"
  by (auto simp: progs_def)

text \<open>A frame opened by a delegate call shares the caller's program; a nested one owns its own.\<close>

fun stack_ok :: "sk_program list \<Rightarrow> sk_frame list \<Rightarrow> bool" where
  "stack_ok ps [] \<longleftrightarrow> False"
| "stack_ok ps [f] \<longleftrightarrow> sk_prog f = Some 0 \<and> sk_first f = 0 \<and> \<not> sk_nested f"
| "stack_ok ps (f # g # rest) \<longleftrightarrow>
     sk_first g \<le> sk_first f \<and> sk_first f \<le> length ps \<and> (\<forall>q \<in> progs (g # rest). q < sk_first f)
   \<and> (if sk_nested f then sk_prog f = Some (sk_first f) \<and> sk_prog g \<noteq> None
          \<and> kp_parent (ps ! sk_first f) = sk_prog g
      else if sk_prog f = None then sk_count f = 0 else sk_prog f = sk_prog g)
   \<and> stack_ok ps (g # rest)"

text \<open>
  From the top of the stack down, the ops a program has emitted are as many as the surviving
  children it got since the frame was opened; \<open>acc\<close> counts the ops of the frames above.
\<close>

fun counts_ok :: "sk_program list \<Rightarrow> (nat \<Rightarrow> nat) \<Rightarrow> sk_frame list \<Rightarrow> bool" where
  "counts_ok ps acc [] \<longleftrightarrow> True"
| "counts_ok ps acc (f # rest) \<longleftrightarrow>
     (case sk_prog f of
        None \<Rightarrow> counts_ok ps acc rest
      | Some p \<Rightarrow> live ps p (sk_first f) = acc p + sk_count f
          \<and> counts_ok ps (acc(p := acc p + sk_count f)) rest)"

lemma counts_ok_Some:
  "sk_prog f = Some p \<Longrightarrow> counts_ok ps acc (f # rest) \<longleftrightarrow>
     live ps p (sk_first f) = acc p + sk_count f \<and> counts_ok ps (acc(p := acc p + sk_count f)) rest"
  by simp

definition closed_ok :: "sk_program list \<Rightarrow> sk_frame list \<Rightarrow> bool" where
  "closed_ok ps fs \<longleftrightarrow>
     (\<forall>q < length ps. \<not> kp_dropped (ps ! q) \<and> q \<notin> progs fs \<longrightarrow> kp_ops (ps ! q) = Some (live ps q 0))"

definition open_ok :: "sk_program list \<Rightarrow> sk_frame list \<Rightarrow> bool" where
  "open_ok ps fs \<longleftrightarrow> (\<forall>q \<in> progs fs. q < length ps \<and> \<not> kp_dropped (ps ! q) \<and> kp_ops (ps ! q) = None)"

text \<open>Dropping a frame's programs takes children only from its own program, and itself.\<close>

definition reach_ok :: "sk_program list \<Rightarrow> sk_frame list \<Rightarrow> bool" where
  "reach_ok ps fs \<longleftrightarrow>
     (\<forall>f \<in> set fs. \<forall>q < length ps. \<forall>c \<in> set (kp_children (ps ! q)). q < sk_first f \<longrightarrow> sk_first f \<le> c \<longrightarrow>
        (if sk_nested f then c = sk_first f else sk_prog f = Some q))"

definition sk_inv :: "sk_frame list \<Rightarrow> sk_program list \<Rightarrow> bool" where
  "sk_inv fs ps \<longleftrightarrow> links_ok ps \<and> stack_ok ps fs \<and> counts_ok ps (\<lambda>_. 0) fs
     \<and> closed_ok ps fs \<and> open_ok ps fs \<and> reach_ok ps fs"

lemma sk_invI:
  assumes "links_ok ps" "stack_ok ps fs" "counts_ok ps (\<lambda>_. 0) fs" "closed_ok ps fs" "open_ok ps fs"
    "reach_ok ps fs"
  shows "sk_inv fs ps"
  using assms by (simp add: sk_inv_def)

lemma sk_invD:
  assumes "sk_inv fs ps"
  shows "links_ok ps" "stack_ok ps fs" "counts_ok ps (\<lambda>_. 0) fs" "closed_ok ps fs" "open_ok ps fs"
    "reach_ok ps fs"
  using assms by (simp_all add: sk_inv_def)

lemma links_parent:
  assumes "links_ok ps" and "q < length ps" and "c \<in> set (kp_children (ps ! q))"
  shows "q < c \<and> c < length ps \<and> kp_parent (ps ! c) = Some q"
proof -
  have c: "c < length ps" "kp_parent (ps ! c) = Some q"
    using assms by (auto simp: links_ok_def children_ok_def)
  have "c \<noteq> 0" using c(2) assms(1) unfolding links_ok_def by (metis option.distinct(1))
  then have "parent_ok ps c" using c(1) assms(1) by (simp add: links_ok_def)
  with c show ?thesis by (auto simp: parent_ok_def)
qed

lemma links_distinct: "links_ok ps \<Longrightarrow> q < length ps \<Longrightarrow> distinct (kp_children (ps ! q))"
  by (auto simp: links_ok_def children_ok_def strict_sorted_iff)

lemma links_ok_cong:
  assumes ok: "links_ok ps" and len: "length ps' = length ps"
    and same: "\<And>q. q < length ps \<Longrightarrow> kp_children (ps' ! q) = kp_children (ps ! q)
      \<and> kp_parent (ps' ! q) = kp_parent (ps ! q) \<and> kp_call (ps' ! q) = kp_call (ps ! q)"
  shows "links_ok ps'"
proof -
  have ne: "0 < length ps" using ok by (simp add: links_ok_def)
  have "parent_ok ps' c" if c: "0 < c" "c < length ps" for c
  proof -
    have "parent_ok ps c" using ok c by (simp add: links_ok_def)
    then obtain q where "q < c" "kp_parent (ps ! c) = Some q" "c \<in> set (kp_children (ps ! q))" "kp_call (ps ! c)"
      by (auto simp: parent_ok_def)
    with c same [of c] same [of q] show ?thesis by (auto simp: parent_ok_def)
  qed
  moreover have "children_ok ps' q" if "q < length ps" for q
    using links_parent [OF ok that] that same ok len by (simp add: children_ok_def links_ok_def)
  moreover have "kp_parent (ps' ! 0) = None" using same [OF ne] ok by (simp add: links_ok_def)
  ultimately show ?thesis using ne len by (simp add: links_ok_def flip: length_greater_0_conv)
qed

lemma stack_ok_tl: "stack_ok ps (f # g # rest) \<Longrightarrow> stack_ok ps (g # rest)"
  by simp

lemma stack_first_le:
  "stack_ok ps (f # rest) \<Longrightarrow> g \<in> set rest \<Longrightarrow> sk_first g \<le> sk_first f"
proof (induction rest arbitrary: f)
  case (Cons h rest)
  then have "sk_first h \<le> sk_first f" "stack_ok ps (h # rest)" by auto
  with Cons show ?case by (cases "g = h") force+
qed simp

text \<open>Below the frame that opened the top program nothing was opened later than it.\<close>

lemma stack_top_prog:
  "stack_ok ps (t # rest) \<Longrightarrow> sk_prog t = Some p \<Longrightarrow> f \<in> set (t # rest) \<Longrightarrow>
     p < sk_first f \<Longrightarrow> sk_prog f = Some p \<and> \<not> sk_nested f"
proof (induction rest arbitrary: t)
  case (Cons g rest)
  show ?case
  proof (cases "sk_nested t")
    case True
    then have "sk_first t = p" using Cons.prems by (simp split: if_splits)
    then show ?thesis using stack_first_le [OF Cons.prems(1), of f] Cons.prems(3,4) True by auto
  next
    case False
    then have "sk_prog g = Some p" "stack_ok ps (g # rest)" using Cons.prems by auto
    with Cons False show ?thesis by (cases "f = t") auto
  qed
qed simp

text \<open>Counting from another start, or after children were dropped: only the balance matters.\<close>

lemma counts_ok_shift:
  "counts_ok ps acc fs \<Longrightarrow>
   (\<And>f p. f \<in> set fs \<Longrightarrow> sk_prog f = Some p \<Longrightarrow>
      live ps' p (sk_first f) + acc p = live ps p (sk_first f) + acc' p) \<Longrightarrow>
   counts_ok ps' acc' fs"
proof (induction fs arbitrary: acc acc')
  case (Cons f fs)
  show ?case
  proof (cases "sk_prog f")
    case None
    with Cons.prems Cons.IH [of acc acc'] show ?thesis by simp
  next
    case (Some p)
    have top: "live ps' p (sk_first f) + acc p = live ps p (sk_first f) + acc' p"
      using Cons.prems(2) [of f p] Some by simp
    have c: "live ps p (sk_first f) = acc p + sk_count f"
      and "counts_ok ps (acc(p := acc p + sk_count f)) fs"
      using Cons.prems(1) unfolding counts_ok_Some [OF Some] by blast+
    from this(2) have "counts_ok ps' (acc'(p := acc' p + sk_count f)) fs"
      by (rule Cons.IH) (use Cons.prems(2) in \<open>simp split: if_splits\<close>)
    with Some top c show ?thesis by simp
  qed
qed simp

section \<open>The moves\<close>

text \<open>A frame opens that writes to its caller's program or to none.\<close>

lemma sk_push:
  assumes inv: "sk_inv (g # rest) ps" and f: "sk_prog f = None \<or> sk_prog f = sk_prog g" "sk_count f = 0"
    "\<not> sk_nested f" "sk_first f = length ps"
  shows "sk_inv (f # g # rest) ps"
proof (rule sk_invI)
  note i = sk_invD [OF inv]
  show "links_ok ps" by (rule i(1))
  have first: "sk_first g \<le> length ps" using i(2) by (cases rest) auto
  have pr: "\<forall>q \<in> progs (g # rest). q < length ps" using i(5) by (auto simp: open_ok_def)
  show "stack_ok ps (f # g # rest)" using i(2) f first pr by auto
  have none: "live ps p (length ps) = 0" if "p < length ps" for p
    using links_parent [OF i(1) that] by (force simp: live_def filter_empty_conv)
  show "counts_ok ps (\<lambda>_. 0) (f # g # rest)"
  proof (cases "sk_prog f")
    case None
    with i(3) show ?thesis by simp
  next
    case (Some p)
    then have "p < length ps" using f(1) pr by (auto simp del: counts_ok.simps)
    then show ?thesis using Some f(2,4) i(3) none by (simp add: fun_upd_idem del: counts_ok.simps(2) add: counts_ok_Some)
  qed
  have "progs (f # g # rest) = progs (g # rest)" using f(1) by auto
  then show "closed_ok ps (f # g # rest)" "open_ok ps (f # g # rest)"
    using i(4,5) by (simp_all only: closed_ok_def open_ok_def)
  have "\<not> sk_first f \<le> c" if "q < length ps" "c \<in> set (kp_children (ps ! q))" for q c
    using links_parent [OF i(1) that] f(4) by simp
  then show "reach_ok ps (f # g # rest)" using i(6) by (simp add: reach_ok_def)
qed

text \<open>A frame ends well and its output joins its caller's.\<close>

lemma sk_absorb:
  assumes inv: "sk_inv (f # g # rest) ps" and f: "\<not> sk_nested f"
  shows "sk_inv (g\<lparr>sk_count := sk_count g + sk_count f\<rparr> # rest) ps"
proof (rule sk_invI)
  let ?g = "g\<lparr>sk_count := sk_count g + sk_count f\<rparr>"
  note i = sk_invD [OF inv]
  show "links_ok ps" by (rule i(1))
  have st: "stack_ok ps (g # rest)" using i(2) by simp
  have pf: "sk_prog f = None \<and> sk_count f = 0 \<or> sk_prog f = sk_prog g" using i(2) f by (auto split: if_splits)
  then have pr: "progs (?g # rest) = progs (f # g # rest)" by auto
  have g0: "sk_count f = 0" if "sk_prog g = None" using pf that i(2) f by (auto split: if_splits)
  show "stack_ok ps (?g # rest)" using st g0 by (cases rest) auto
  show "counts_ok ps (\<lambda>_. 0) (?g # rest)"
  proof (cases "sk_prog g")
    case None
    with pf have "sk_prog f = None" by auto
    with None i(3) show ?thesis by simp
  next
    case (Some p)
    show ?thesis
    proof (cases "sk_prog f")
      case None
      with pf have "sk_count f = 0" using Some by auto
      with None i(3) Some show ?thesis by simp
    next
      case (Some p')
      then have "sk_prog f = Some p" using pf \<open>sk_prog g = Some p\<close> by auto
      then show ?thesis
        using i(3) \<open>sk_prog g = Some p\<close> unfolding counts_ok_Some [OF \<open>sk_prog f = Some p\<close>]
        by (simp add: ac_simps)
    qed
  qed
  show "closed_ok ps (?g # rest)" "open_ok ps (?g # rest)" using i(4,5) pr by (simp_all only: closed_ok_def open_ok_def)
  show "reach_ok ps (?g # rest)" using i(6) by (simp add: reach_ok_def)
qed

text \<open>A nested frame ends well: its program is complete.\<close>

lemma live_cong:
  "kp_children (ps' ! q) = kp_children (ps ! q) \<Longrightarrow>
   (\<And>c. c \<in> set (kp_children (ps ! q)) \<Longrightarrow> kp_dropped (ps' ! c) = kp_dropped (ps ! c)) \<Longrightarrow>
   live ps' q lo = live ps q lo"
  by (auto simp: live_def intro!: arg_cong [where f = length] filter_cong)

lemma live_all:
  assumes "links_ok ps" and "q < length ps" and "lo \<le> Suc q"
  shows "live ps q lo = live ps q 0"
  using links_parent [OF assms(1,2)] assms(3)
  by (force simp: live_def intro!: arg_cong [where f = length] filter_cong)

lemma sk_close:
  assumes inv: "sk_inv (f # g # rest) ps" and f: "sk_nested f" and p: "sk_prog f = Some p"
  defines "ps' \<equiv> ps[p := (ps ! p)\<lparr>kp_ops := Some (sk_count f)\<rparr>]"
  shows "sk_inv (g # rest) ps'"
proof (rule sk_invI)
  note i = sk_invD [OF inv]
  have pf: "sk_first f = p" and below: "\<forall>q \<in> progs (g # rest). q < p" and st: "stack_ok ps (g # rest)"
    using i(2) f p by auto
  have p_len: "p < length ps" using i(5) p by (simp add: open_ok_def)
  have same: "kp_children (ps' ! q) = kp_children (ps ! q)" "kp_dropped (ps' ! q) = kp_dropped (ps ! q)"
    "kp_parent (ps' ! q) = kp_parent (ps ! q)" "kp_call (ps' ! q) = kp_call (ps ! q)" "length ps' = length ps" for q
    using p_len by (simp_all add: ps'_def nth_list_update)
  have live: "live ps' q lo = live ps q lo" for q lo by (rule live_cong) (simp_all add: same)
  show "links_ok ps'" by (rule links_ok_cong [OF i(1)]) (simp_all add: same)
  show "stack_ok ps' (g # rest)"
    using st by (induction "g # rest" arbitrary: g rest rule: induct_list012) (auto simp: same)
  have c: "live ps p p = sk_count f" "counts_ok ps ((\<lambda>_. 0)(p := sk_count f)) (g # rest)"
    using i(3) unfolding counts_ok_Some [OF p] pf by simp_all
  show "counts_ok ps' (\<lambda>_. 0) (g # rest)"
  proof (rule counts_ok_shift [OF c(2)])
    fix h q assume "h \<in> set (g # rest)" "sk_prog h = Some q"
    then have "q \<noteq> p" using below by (auto simp: progs_def)
    then show "live ps' q (sk_first h) + ((\<lambda>_. 0)(p := sk_count f)) q = live ps q (sk_first h) + 0"
      by (simp add: live)
  qed
  have all: "live ps p 0 = sk_count f" using c(1) live_all [OF i(1) p_len, of p] by simp
  show "closed_ok ps' (g # rest)"
    using i(4) p all p_len by (auto simp: closed_ok_def live same) (auto simp: ps'_def nth_list_update)
  have "kp_ops (ps' ! q) = kp_ops (ps ! q)" if "q \<in> progs (g # rest)" for q
    using bspec [OF below that] by (simp add: ps'_def)
  then show "open_ok ps' (g # rest)" using i(5) by (simp add: open_ok_def same)
  show "reach_ok ps' (g # rest)" using i(6) by (simp add: reach_ok_def same)
qed

text \<open>A frame reverts: every program opened since is dropped.\<close>

definition sk_drop :: "nat \<Rightarrow> sk_program list \<Rightarrow> sk_program list" where
  "sk_drop n ps = take n ps @ map (\<lambda>p. p\<lparr>kp_dropped := True\<rparr>) (drop n ps)"

lemma sk_drop_nth:
  assumes "n \<le> length ps" and "q < length ps"
  shows "kp_children (sk_drop n ps ! q) = kp_children (ps ! q)" "kp_parent (sk_drop n ps ! q) = kp_parent (ps ! q)"
    "kp_call (sk_drop n ps ! q) = kp_call (ps ! q)" "kp_ops (sk_drop n ps ! q) = kp_ops (ps ! q)"
    "kp_dropped (sk_drop n ps ! q) \<longleftrightarrow> n \<le> q \<or> kp_dropped (ps ! q)"
  using assms by (auto simp: sk_drop_def nth_append min_def)

lemma sk_drop_length [simp]: "length (sk_drop n ps) = length ps"
  by (simp add: sk_drop_def)

lemma sk_drop_links: "links_ok ps \<Longrightarrow> n \<le> length ps \<Longrightarrow> links_ok (sk_drop n ps)"
  by (rule links_ok_cong [of ps]) (simp_all add: sk_drop_nth)

lemma stack_ok_cong:
  "stack_ok ps fs \<Longrightarrow> length ps' = length ps \<Longrightarrow> (\<And>q. q \<in> progs fs \<Longrightarrow> kp_parent (ps' ! q) = kp_parent (ps ! q)) \<Longrightarrow>
     stack_ok ps' fs"
  by (induction ps fs rule: stack_ok.induct) auto

text \<open>What dropping does to a program below the frame.\<close>

lemma length_filter_split:
  "length (filter P xs) = length (filter (\<lambda>x. P x \<and> Q x) xs) + length (filter (\<lambda>x. P x \<and> \<not> Q x) xs)"
  by (induction xs) auto

lemma live_drop:
  assumes "links_ok ps" and "n \<le> length ps" and "q < length ps" and "lo \<le> n"
  shows "live ps q lo = live (sk_drop n ps) q lo + live ps q n"
proof -
  let ?P = "\<lambda>c. lo \<le> c \<and> \<not> kp_dropped (ps ! c)"
  have "live (sk_drop n ps) q lo = length (filter (\<lambda>c. ?P c \<and> c < n) (kp_children (ps ! q)))"
    using links_parent [OF assms(1,3)] sk_drop_nth [OF assms(2)] assms(3)
    by (auto simp: live_def intro!: arg_cong [where f = length] filter_cong)
  moreover have "live ps q n = length (filter (\<lambda>c. ?P c \<and> \<not> c < n) (kp_children (ps ! q)))"
    using assms(4) by (auto simp: live_def intro!: arg_cong [where f = length] filter_cong)
  ultimately show ?thesis
    using length_filter_split [of ?P "kp_children (ps ! q)" "\<lambda>c. c < n"] by (simp add: live_def)
qed

text \<open>The parts of the invariant a revert of the top frame keeps in any case.\<close>

lemma sk_drop_keeps:
  assumes inv: "sk_inv (f # g # rest) ps"
  defines "ps' \<equiv> sk_drop (sk_first f) ps"
  shows "links_ok ps'" "stack_ok ps' (g # rest)" "open_ok ps' (g # rest)" "reach_ok ps' (g # rest)"
    "closed_ok ps' (g # rest)"
proof -
  note i = sk_invD [OF inv]
  have n: "sk_first f \<le> length ps" and st: "stack_ok ps (g # rest)"
    and below: "\<forall>q \<in> progs (g # rest). q < sk_first f"
    using i(2) by simp_all
  note same = sk_drop_nth [OF n, folded ps'_def]
  have len: "length ps' = length ps" by (simp add: ps'_def)
  have op: "q < length ps" if "q \<in> progs (g # rest)" for q using i(5) that by (simp add: open_ok_def)
  show "links_ok ps'" unfolding ps'_def using i(1) n by (rule sk_drop_links)
  show "stack_ok ps' (g # rest)"
    by (rule stack_ok_cong [OF st len]) (use op same in simp)
  show "open_ok ps' (g # rest)"
    using i(5) below same len by (auto simp: open_ok_def simp flip: not_le)
  show "reach_ok ps' (g # rest)" using i(6) by (simp add: reach_ok_def same len)
  show "closed_ok ps' (g # rest)"
    unfolding closed_ok_def
  proof (intro allI impI, elim conjE)
    fix q assume q: "q < length ps'" "\<not> kp_dropped (ps' ! q)" "q \<notin> progs (g # rest)"
    then have q': "q < length ps" "q < sk_first f" "\<not> kp_dropped (ps ! q)" using same(5) [of q] len by auto
    have nf: "sk_prog f \<noteq> Some q" using i(2) q' by (auto split: if_splits) (use q(3) in auto)
    have "c < sk_first f" if c: "c \<in> set (kp_children (ps ! q))" for c
    proof (rule ccontr)
      assume "\<not> c < sk_first f"
      then have "sk_nested f" "c = sk_first f" using i(6) q' c nf by (auto simp: reach_ok_def split: if_splits)
      then have "kp_parent (ps ! c) = sk_prog g" using i(2) by simp
      then show False using links_parent [OF i(1) q'(1) c] q(3) by simp
    qed
    then have "live ps' q 0 = live ps q 0"
      using same q' links_parent [OF i(1) q'(1)] by (intro live_cong) (auto simp flip: not_less)
    moreover have "kp_ops (ps ! q) = Some (live ps q 0)"
      using i(4) q' q(3) nf by (auto simp: closed_ok_def)
    ultimately show "kp_ops (ps' ! q) = Some (live ps' q 0)" using same q' by simp
  qed
qed

lemma sk_revert:
  assumes inv: "sk_inv (f # g # rest) ps" and f: "\<not> sk_nested f"
  shows "sk_inv (g # rest) (sk_drop (sk_first f) ps)"
proof (rule sk_invI)
  note i = sk_invD [OF inv]
  have n: "sk_first f \<le> length ps" and below: "\<forall>q \<in> progs (g # rest). q < sk_first f" using i(2) by simp_all
  define acc where "acc = (\<lambda>q. if sk_prog f = Some q then sk_count f else 0)"
  have "counts_ok ps acc (g # rest)"
  proof (cases "sk_prog f")
    case None
    then have "acc = (\<lambda>_. 0)" by (simp add: acc_def)
    with None i(3) show ?thesis by simp
  next
    case (Some p)
    then have "acc = (\<lambda>_. 0)(p := sk_count f)" by (auto simp: acc_def)
    with i(3) show ?thesis unfolding counts_ok_Some [OF Some] by simp
  qed
  then show "counts_ok (sk_drop (sk_first f) ps) (\<lambda>_. 0) (g # rest)"
  proof (rule counts_ok_shift)
    fix h q assume h: "h \<in> set (g # rest)" "sk_prog h = Some q"
    then have q: "q < length ps" "q < sk_first f" using i(5) below by (auto simp: open_ok_def progs_def)
    have "live ps q (sk_first f) = acc q"
    proof (cases "sk_prog f = Some q")
      case True
      with i(3) show ?thesis by (simp add: acc_def)
    next
      case False
      then have "\<not> sk_first f \<le> c" if "c \<in> set (kp_children (ps ! q))" for c
        using i(6) q f that by (auto simp: reach_ok_def)
      with False show ?thesis by (simp add: acc_def live_def filter_empty_conv)
    qed
    moreover have "sk_first h \<le> sk_first f" using stack_first_le [OF i(2) h(1)] .
    ultimately show "live (sk_drop (sk_first f) ps) q (sk_first h) + acc q = live ps q (sk_first h) + 0"
      using live_drop [OF i(1) n q(1), of "sk_first h"] by simp
  qed
qed (use sk_drop_keeps [OF inv] in simp_all)

text \<open>A nested frame reverts: its op is taken back from its caller's output.\<close>

lemma sk_revert_nested:
  assumes inv: "sk_inv (f # g # rest) ps" and f: "sk_nested f" and g: "sk_count g = Suc k"
  shows "sk_inv (g\<lparr>sk_count := k\<rparr> # rest) (sk_drop (sk_first f) ps)"
proof (rule sk_invI)
  note i = sk_invD [OF inv] and keep = sk_drop_keeps [OF inv]
  let ?ps = "sk_drop (sk_first f) ps" and ?g = "g\<lparr>sk_count := k\<rparr>"
  have n: "sk_first f \<le> length ps" and below: "\<forall>q \<in> progs (g # rest). q < sk_first f"
    and pf: "sk_prog f = Some (sk_first f)" and par: "kp_parent (ps ! sk_first f) = sk_prog g" "sk_prog g \<noteq> None"
    using i(2) f by simp_all
  have opn: "sk_first f < length ps" "\<not> kp_dropped (ps ! sk_first f)" using i(5) pf by (auto simp: open_ok_def)
  have "0 < sk_first f" using below par(2) by auto
  then have "parent_ok ps (sk_first f)" using i(1) opn(1) by (simp add: links_ok_def)
  then have child: "sk_prog g = Some q \<Longrightarrow> sk_first f \<in> set (kp_children (ps ! q))" for q
    using par by (auto simp: parent_ok_def)
  have taken: "live ps q (sk_first f) = (if sk_prog g = Some q then 1 else 0)"
    if q: "q < length ps" "q < sk_first f" for q
  proof -
    have "filter (\<lambda>c. sk_first f \<le> c \<and> \<not> kp_dropped (ps ! c)) (kp_children (ps ! q))
        = filter ((=) (sk_first f)) (kp_children (ps ! q))"
      using i(6) f q opn(2) by (auto simp: reach_ok_def intro!: filter_cong)
    moreover have "sk_first f \<in> set (kp_children (ps ! q)) \<longleftrightarrow> sk_prog g = Some q"
      using child [of q] links_parent [OF i(1) q(1)] par by auto
    ultimately show ?thesis
      using links_distinct [OF i(1) q(1)] by (simp add: live_def distinct_length_filter)
  qed
  have drop: "live ps q lo = live ?ps q lo + (if sk_prog g = Some q then 1 else 0)"
    if "q \<in> progs (g # rest)" "lo \<le> sk_first f" for q lo
    using live_drop [OF i(1) n _ that(2)] taken [of q] that(1) below i(5) by (simp add: open_ok_def)
  obtain p where p: "sk_prog g = Some p" using par(2) by blast
  have c: "counts_ok ps ((\<lambda>_. 0)(sk_first f := sk_count f)) (g # rest)"
    using i(3) unfolding counts_ok_Some [OF pf] by simp
  have pne: "q \<noteq> sk_first f" if "q \<in> progs (g # rest)" for q using below that by auto
  have gf: "sk_first h \<le> sk_first f" if "h \<in> set (g # rest)" for h using stack_first_le [OF i(2) that] .
  have pp: "p \<in> progs (g # rest)" using p by simp
  have cg: "live ps p (sk_first g) = Suc k"
    and cr: "counts_ok ps ((\<lambda>_. 0)(sk_first f := sk_count f, p := Suc k)) rest"
    using c pne [OF pp] g unfolding counts_ok_Some [OF p] by simp_all
  have "counts_ok ?ps ((\<lambda>_. 0)(p := k)) rest"
  proof (rule counts_ok_shift [OF cr])
    fix h q assume h: "h \<in> set rest" "sk_prog h = Some q"
    then have q: "q \<in> progs (g # rest)" by (auto simp: progs_def)
    show "live ?ps q (sk_first h) + ((\<lambda>_. 0)(sk_first f := sk_count f, p := Suc k)) q
        = live ps q (sk_first h) + ((\<lambda>_. 0)(p := k)) q"
      using drop [OF q gf, of h] h(1) pne [OF q] p by auto
  qed
  moreover have "live ?ps p (sk_first g) = k" using cg drop [OF pp gf, of g] p by simp
  ultimately show "counts_ok ?ps (\<lambda>_. 0) (?g # rest)" using p by simp
  have "progs (?g # rest) = progs (g # rest)" by simp
  then show "closed_ok ?ps (?g # rest)" "open_ok ?ps (?g # rest)"
    using keep by (simp_all only: closed_ok_def open_ok_def)
  show "stack_ok ?ps (?g # rest)" using keep(2) p by (cases rest) auto
  show "reach_ok ?ps (?g # rest)" using keep(4) by (simp add: reach_ok_def)
qed (use sk_drop_keeps [OF inv] in simp_all)

text \<open>A call becomes a nested frame: an op, a child, and a program of its own.\<close>

definition sk_child :: "nat \<Rightarrow> sk_program" where
  "sk_child p = \<lparr>kp_parent = Some p, kp_children = [], kp_dropped = False, kp_ops = None, kp_call = True\<rparr>"

definition sk_add_child :: "nat \<Rightarrow> sk_program list \<Rightarrow> sk_program list" where
  "sk_add_child p ps =
     ps[p := (ps ! p)\<lparr>kp_children := kp_children (ps ! p) @ [length ps]\<rparr>] @ [sk_child p]"

definition sk_opened :: "nat \<Rightarrow> sk_frame" where
  "sk_opened q = \<lparr>sk_prog = Some q, sk_count = 0, sk_nested = True, sk_first = q\<rparr>"

lemma sk_add_child_nth:
  assumes "p < length ps"
  shows "length (sk_add_child p ps) = Suc (length ps)"
    "sk_add_child p ps ! length ps = sk_child p"
    "q < length ps \<Longrightarrow> kp_children (sk_add_child p ps ! q)
       = kp_children (ps ! q) @ (if q = p then [length ps] else [])"
    "q < length ps \<Longrightarrow> kp_parent (sk_add_child p ps ! q) = kp_parent (ps ! q)"
    "q < length ps \<Longrightarrow> kp_dropped (sk_add_child p ps ! q) = kp_dropped (ps ! q)"
    "q < length ps \<Longrightarrow> kp_ops (sk_add_child p ps ! q) = kp_ops (ps ! q)"
    "q < length ps \<Longrightarrow> kp_call (sk_add_child p ps ! q) = kp_call (ps ! q)"
  using assms by (auto simp: sk_add_child_def nth_append nth_list_update)

lemma sk_add_child_links:
  assumes ok: "links_ok ps" and p: "p < length ps"
  shows "links_ok (sk_add_child p ps)"
proof -
  let ?ps = "sk_add_child p ps"
  note nth = sk_add_child_nth [OF p]
  have ne: "0 < length ps" using p by (rule le_less_trans [OF le0])
  have "parent_ok ?ps c" if "0 < c" "c < Suc (length ps)" for c
  proof (cases "c = length ps")
    case True
    then show ?thesis using p nth by (auto simp: parent_ok_def sk_child_def)
  next
    case False
    then have c: "c < length ps" using that by simp
    with ok that obtain q where "q < c" "kp_parent (ps ! c) = Some q" "c \<in> set (kp_children (ps ! q))" "kp_call (ps ! c)"
      by (auto simp: links_ok_def parent_ok_def)
    with c nth(3) [of q] nth(4,7) [of c] show ?thesis by (auto simp: parent_ok_def)
  qed
  moreover have "children_ok ?ps q" if "q < Suc (length ps)" for q
  proof (cases "q = length ps")
    case True
    then show ?thesis using nth by (simp add: children_ok_def sk_child_def)
  next
    case False
    then have q: "q < length ps" using that by simp
    have "sorted_wrt (<) (kp_children (ps ! q))" using ok q by (simp add: links_ok_def children_ok_def)
    moreover have "c < length ps \<and> kp_parent (ps ! c) = Some q" if "c \<in> set (kp_children (ps ! q))" for c
      using links_parent [OF ok q that] by simp
    ultimately show ?thesis
      using nth q by (auto simp: children_ok_def sorted_wrt_append sk_child_def less_Suc_eq)
  qed
  moreover have "kp_parent (?ps ! 0) = None" using ok nth(4) [OF ne] by (simp add: links_ok_def)
  moreover have "?ps \<noteq> []" by (simp add: sk_add_child_def)
  ultimately show ?thesis unfolding links_ok_def nth(1) by blast
qed

lemma live_add_child:
  assumes ok: "links_ok ps" and p: "p < length ps" and q: "q < length ps" and lo: "lo \<le> length ps"
  shows "live (sk_add_child p ps) q lo = live ps q lo + (if q = p then 1 else 0)"
proof -
  note nth = sk_add_child_nth [OF p]
  have "filter (\<lambda>c. lo \<le> c \<and> \<not> kp_dropped (sk_add_child p ps ! c)) (kp_children (ps ! q))
      = filter (\<lambda>c. lo \<le> c \<and> \<not> kp_dropped (ps ! c)) (kp_children (ps ! q))"
    using links_parent [OF ok q] nth(5) by (auto intro!: filter_cong)
  then show ?thesis using nth(2) nth(3) [of q] q lo by (simp add: live_def sk_child_def)
qed

lemma sk_nest:
  assumes inv: "sk_inv (g # rest) ps" and p: "sk_prog g = Some p"
  shows "sk_inv (sk_opened (length ps) # g\<lparr>sk_count := Suc (sk_count g)\<rparr> # rest) (sk_add_child p ps)"
proof (rule sk_invI)
  let ?ps = "sk_add_child p ps" and ?g = "g\<lparr>sk_count := Suc (sk_count g)\<rparr>"
  let ?f = "sk_opened (length ps)"
  note i = sk_invD [OF inv]
  have op: "q < length ps \<and> \<not> kp_dropped (ps ! q) \<and> kp_ops (ps ! q) = None" if "q \<in> progs (g # rest)" for q
    using i(5) that by (auto simp: open_ok_def)
  have len: "p < length ps" using op [of p] p by simp
  note nth = sk_add_child_nth [OF len] and live = live_add_child [OF i(1) len]
  have pr: "progs (?g # rest) = progs (g # rest)" by simp
  have first: "sk_first h \<le> length ps" if "h \<in> set (g # rest)" for h
  proof -
    have "sk_first g \<le> length ps" using i(2) by (cases rest) auto
    then show ?thesis using stack_first_le [OF i(2), of h] that by auto
  qed
  show "links_ok ?ps" by (rule sk_add_child_links [OF i(1) len])
  have "stack_ok ?ps (g # rest)"
    using i(2) op nth(1,4) by (induction ps "g # rest" arbitrary: g rest rule: stack_ok.induct) (auto simp: le_SucI)
  then have "stack_ok ?ps (?g # rest)" using p by (cases rest) auto
  then show "stack_ok ?ps (?f # ?g # rest)"
    using op first [of g] p nth(1,2) by (simp add: sk_opened_def sk_child_def)
  have "counts_ok ?ps ((\<lambda>_. 0)(p := Suc (sk_count g))) rest"
  proof (rule counts_ok_shift)
    show "counts_ok ps ((\<lambda>_. 0)(p := sk_count g)) rest" using i(3) unfolding counts_ok_Some [OF p] by simp
    fix h q assume h: "h \<in> set rest" "sk_prog h = Some q"
    then have "q < length ps" using op [of q] by (auto simp: progs_def)
    then show "live ?ps q (sk_first h) + ((\<lambda>_. 0)(p := sk_count g)) q
        = live ps q (sk_first h) + ((\<lambda>_. 0)(p := Suc (sk_count g))) q"
      using live [of q "sk_first h"] first [of h] h(1) by simp
  qed
  moreover have "live ?ps p (sk_first g) = Suc (sk_count g)"
    using live [OF len first, of g] i(3) p by simp
  moreover have "live ?ps (length ps) (length ps) = 0" using nth(2) by (simp add: live_def sk_child_def)
  ultimately show "counts_ok ?ps (\<lambda>_. 0) (?f # ?g # rest)" using p by (simp add: sk_opened_def fun_upd_idem)
  show "closed_ok ?ps (?f # ?g # rest)"
    unfolding closed_ok_def
  proof (intro allI impI, elim conjE)
    fix q assume "q < length ?ps" "\<not> kp_dropped (?ps ! q)" "q \<notin> progs (?f # ?g # rest)"
    then have "q < length ps" "\<not> kp_dropped (ps ! q)" "q \<notin> progs (g # rest)" "q \<noteq> p"
      using nth(1,5) p by (auto simp: sk_opened_def less_Suc_eq)
    then show "kp_ops (?ps ! q) = Some (live ?ps q 0)"
      using i(4) nth(6) live [of q 0] by (simp add: closed_ok_def)
  qed
  show "open_ok ?ps (?f # ?g # rest)"
    using op nth(1,2,5,6) by (auto simp: open_ok_def sk_opened_def sk_child_def less_SucI)
  show "reach_ok ?ps (?f # ?g # rest)"
    unfolding reach_ok_def
  proof (intro ballI allI impI)
    fix h q c assume h: "h \<in> set (?f # ?g # rest)" and q: "q < length ?ps" "c \<in> set (kp_children (?ps ! q))"
      and lo: "q < sk_first h" "sk_first h \<le> c"
    have ql: "q < length ps" using q nth(1,2) by (auto simp: less_Suc_eq sk_child_def)
    show "if sk_nested h then c = sk_first h else sk_prog h = Some q"
    proof (cases "h = ?f")
      case True
      then have "c \<notin> set (kp_children (ps ! q))" "sk_nested h" "sk_first h = length ps"
        using lo(2) links_parent [OF i(1) ql, of c] by (auto simp: sk_opened_def)
      then show ?thesis using q(2) nth(3) [OF ql] by (auto split: if_splits)
    next
      case False
      define h' where "h' = (if h = ?g then g else h)"
      have h': "h' \<in> set (g # rest)" "sk_nested h' = sk_nested h" "sk_prog h' = sk_prog h" "sk_first h' = sk_first h"
        using h False by (auto simp: h'_def)
      show ?thesis
      proof (cases "c = length ps \<and> q = p")
        case True
        then show ?thesis using stack_top_prog [OF i(2) p h'(1)] lo h' by simp
      next
        case False
        then have "c \<in> set (kp_children (ps ! q))" using q(2) nth(3) [OF ql] by (auto split: if_splits)
        then show ?thesis using i(6) h' lo ql unfolding reach_ok_def by metis
      qed
    qed
  qed
qed

end
