(* ===== verification/Frame_Walk_Links.thy ===== *)
theory Frame_Walk_Links
  imports Frame_Links
begin

text \<open>
  The walker of \<^verbatim>\<open>crates/core/src/nested.rs\<close> keeps the link invariant: every step of it is a move
  on the skeleton of its state. When the walk ends, each surviving program has as many \<open>NESTED\<close>
  ops as surviving children.
\<close>

section \<open>The walk keeps the links\<close>

definition links :: "walk_state \<Rightarrow> sk_program list" where
  "links s = map link (programs s)"

definition linked :: "walk_state \<Rightarrow> bool" where
  "linked s \<longleftrightarrow> pending s = None \<and> sk_inv (map skel (frames s)) (links s)"

text \<open>A nested frame that is about to open already counts as open.\<close>

definition linked_pending :: "walk_state \<Rightarrow> bool" where
  "linked_pending s \<longleftrightarrow>
     (case pending s of
        None \<Rightarrow> sk_inv (map skel (frames s)) (links s)
      | Some p \<Rightarrow>
          if pf_nested_start_gas p = None
          then sk_inv (map skel (frames s)) (links s)
             \<and> (pf_program p = None \<or> pf_program p = wf_program (hd (frames s)))
          else \<exists>q. pf_program p = Some q \<and> sk_inv (sk_opened q # map skel (frames s)) (links s))"

lemma linked_pending_stack:
  assumes "linked_pending s"
  shows "\<exists>pre. (pre = [] \<or> (\<exists>q. pre = [sk_opened q])) \<and> sk_inv (pre @ map skel (frames s)) (links s)"
proof (cases "sk_inv (map skel (frames s)) (links s)")
  case True
  then show ?thesis by (intro exI [of _ "[]"]) simp
next
  case False
  then obtain q where "sk_inv (sk_opened q # map skel (frames s)) (links s)"
    using assms by (auto simp: linked_pending_def split: option.splits if_splits)
  then show ?thesis by (intro exI [of _ "[sk_opened q]"]) auto
qed

lemma linked_linked_pending: "linked s \<Longrightarrow> linked_pending s"
  by (simp add: linked_def linked_pending_def)

lemma skel_shape:
  assumes "same_shape fs fs'"
  shows "map skel fs = map skel fs'"
proof -
  define h where "h = (\<lambda>(p, us, v :: slots, n :: u64 option, fp, d :: nat).
    \<lparr>sk_prog = p, sk_count = nested_count us, sk_nested = (n \<noteq> None), sk_first = fp\<rparr>)"
  have "skel f = h (shape f)" for f by (simp add: h_def skel_def shape_def)
  then have "map skel gs = map h (map shape gs)" for gs by simp
  with assms show ?thesis by (simp only:)
qed

lemma skel_forgot: "list_all2 forgot fs gs \<Longrightarrow> map skel gs = map skel fs"
  by (induction rule: list_all2_induct) (auto simp: forgot_def skel_def)

lemma map_link_update:
  "k < length ps \<Longrightarrow> link y = link (ps ! k) \<Longrightarrow> map link (ps[k := y]) = map link ps"
  by (simp add: list_eq_iff_nth_eq nth_list_update)

text \<open>Same skeleton: the move changes gas, journals or views only.\<close>

definition same_links :: "walk_state \<Rightarrow> walk_state \<Rightarrow> bool" where
  "same_links s s' \<longleftrightarrow> map skel (frames s') = map skel (frames s) \<and> links s' = links s \<and> pending s' = pending s"

lemma same_links_refl [simp]: "same_links s s"
  by (simp add: same_links_def)

lemma same_links_trans: "same_links s t \<Longrightarrow> same_links t u \<Longrightarrow> same_links s u"
  by (simp add: same_links_def)

lemma linked_same: "linked s \<Longrightarrow> same_links s s' \<Longrightarrow> linked s'"
  by (simp add: linked_def same_links_def)

lemma link_gas [simp]:
  "link (ps\<lparr>p_child_call_gas := g\<rparr>) = link ps" "link (ps\<lparr>p_effect_gas := g\<rparr>) = link ps"
  by (simp_all add: link_def)

lemma charge_caller_links: "charge_caller b g c s = Inr s' \<Longrightarrow> same_links s s'"
  by (cases b) (auto simp: same_links_def charge_caller_def links_def bind_res_Inr_iff map_link_update skel_def
      split: option.splits)

lemma flush_slots_nested: "nested_count (wf_out (flush_slots im f)) = nested_count (wf_out f)"
  by (induction im f rule: flush_slots.induct) (auto simp: nested_count_def)

lemma flush_slice_links: "flush_slice s = Inr s' \<Longrightarrow> same_links s s'"
  by (elim flush_slice_Inr) (simp add: same_links_def links_def skel_def flush_slots_nested)

lemma forget_overwritten_links: "forget_overwritten jr s = Inr s' \<Longrightarrow> same_links s s'"
  using forget_overwritten_forgot [of jr s s'] by (auto simp: same_links_def links_def dest!: skel_forgot)

lemma merge_into_parent_links: "merge_into_parent fr s = Inr s' \<Longrightarrow> same_links s s'"
  using merge_into_parent_shape [of fr s s'] by (auto simp: same_links_def links_def dest!: skel_shape)

lemma visit_sstore_links: "visit_sstore log cur s = Inr s' \<Longrightarrow> same_links s s'"
  by (drule visit_sstore_cases) (auto simp: same_links_def links_def skel_def map_link_update)

lemma drop_programs_links:
  "drop_programs n s = Inr s' \<Longrightarrow> links s' = sk_drop n (links s)"
  by (auto simp: drop_programs_def links_def sk_drop_def link_def take_map drop_map split: if_splits)

section \<open>Opening and closing frames\<close>

lemma take_pending_links:
  assumes "take_pending log s = Inr s'" and ok: "linked_pending s" and ne: "frames s \<noteq> []"
  shows "linked s'"
proof (cases "pending s")
  case None
  with assms show ?thesis by (simp add: take_pending_def linked_def linked_pending_def)
next
  case (Some p)
  let ?s = "s\<lparr>pending := None\<rparr>"
  have [simp]: "links (s\<lparr>pending := None, frames := fs\<rparr>) = links s" "links ?s = links s" for fs
    by (simp_all add: links_def)
  show ?thesis
  proof (cases "depth log = pf_parent_depth p + 1")
    case True
    let ?f = "opened_frame log p (length (programs s))"
    have s': "s' = s\<lparr>pending := None, frames := ?f # frames s\<rparr>"
      using True Some assms(1) by (simp add: take_pending_def)
    show ?thesis
    proof (cases "pf_nested_start_gas p")
      case None
      then have sk: "skel ?f = \<lparr>sk_prog = pf_program p, sk_count = 0, sk_nested = False, sk_first = length (links s)\<rparr>"
        by (simp add: skel_def opened_frame_def links_def nested_count_def)
      obtain g rest where g: "frames s = g # rest" using ne by (cases "frames s") auto
      have "sk_inv (skel g # map skel rest) (links s)" "pf_program p = None \<or> pf_program p = sk_prog (skel g)"
        using ok Some None g by (auto simp: linked_pending_def skel_def)
      then have "sk_inv (skel ?f # skel g # map skel rest) (links s)" by (intro sk_push) (simp_all add: sk)
      then show ?thesis by (simp add: s' g linked_def)
    next
      case (Some sg)
      then obtain q where q: "pf_program p = Some q" "sk_inv (sk_opened q # map skel (frames s)) (links s)"
        using ok \<open>pending s = Some p\<close> by (auto simp: linked_pending_def)
      have "skel ?f = sk_opened q" using Some q(1) by (simp add: skel_def opened_frame_def sk_opened_def nested_count_def)
      with q(2) show ?thesis by (simp add: s' linked_def)
    qed
  next
    case False
    then have n: "pf_nested_start_gas p = None" and "s' = ?s \<or>
        (\<exists>g. charge_caller (pf_emitted_create p) g 0 ?s = Inr s')"
      using Some assms(1) by (auto simp: take_pending_def Let_def split: if_splits option.splits)
    moreover have "linked ?s" using ok Some n by (simp add: linked_pending_def linked_def)
    ultimately show ?thesis using charge_caller_links linked_same by blast
  qed
qed

lemma finish_nested_links:
  assumes "finish_nested log g fr pid pp s = Inr s'"
  shows "map skel (frames s') = map skel (frames s) \<and> pending s' = pending s \<and> pid < length (links s)
    \<and> links s' = (links s)[pid := (links s ! pid)\<lparr>kp_ops := Some (nested_count (wf_out fr))\<rparr>]"
proof -
  obtain s1 s2 s3 where pid: "pid < length (programs s)"
    and s1: "s1 = s\<lparr>programs := (programs s)[pid := (programs s ! pid)\<lparr>p_native_gas := sat_sub g (gas log),
             p_native_callee_gas := callee_gas (sat_sub g (gas log)) (wf_call_gas_cost fr) (Some (wf_entry_gas fr)),
             p_updates := Some (wf_out fr), p_direct_call_gas := wf_call_gas fr,
             p_direct_callee_gas := wf_callee_gas fr, p_direct_create_gas := wf_create_gas fr\<rparr>]\<rparr>"
    and s2: "(case pp of None \<Rightarrow> Inr s1
           | Some p \<Rightarrow> update_program p (\<lambda>ps. ps\<lparr>p_child_call_gas := p_child_call_gas ps + sat_sub g (gas log)\<rparr>) s1) = Inr s2"
    and s3: "forget_overwritten (wf_journal fr) s2 = Inr s3" "merge_into_parent fr s3 = Inr s'"
    using assms unfolding finish_nested_def Let_def bind_res_Inr_iff update_program_Inr by blast
  have "links s1 = (links s)[pid := (links s ! pid)\<lparr>kp_ops := Some (nested_count (wf_out fr))\<rparr>]"
    using pid by (simp add: s1 links_def map_update link_def)
  moreover have "same_links s1 s2"
    using s2 by (cases pp) (auto simp: same_links_def links_def map_link_update)
  moreover have "same_links s2 s'"
    using forget_overwritten_links [OF s3(1)] merge_into_parent_links [OF s3(2)] by (rule same_links_trans)
  ultimately show ?thesis using pid s1 by (simp add: same_links_def links_def)
qed

lemma revert_nested_links:
  assumes "revert_nested s = Inr s'"
  shows "\<exists>f rest k. frames s = f # rest \<and> sk_count (skel f) = Suc k
    \<and> map skel (frames s') = (skel f)\<lparr>sk_count := k\<rparr> # map skel rest \<and> links s' = links s \<and> pending s' = pending s"
proof -
  obtain f rest where f: "frames s = f # rest" "wf_out f \<noteq> []" "is_nested (last (wf_out f))"
    and s': "s' = s\<lparr>frames := f\<lparr>wf_out := butlast (wf_out f)\<rparr> # rest\<rparr>"
    using assms by (auto simp: revert_nested_def bind_res_Inr_iff split: if_splits)
  have "nested_count (butlast (wf_out f) @ [last (wf_out f)]) = Suc (nested_count (butlast (wf_out f)))"
    using f(3) by (simp add: nested_count_def)
  then have "nested_count (wf_out f) = Suc (nested_count (butlast (wf_out f)))" using f(2) by simp
  with f(1) s' show ?thesis by (simp add: skel_def links_def)
qed

lemma finish_plain_links:
  assumes "finish_plain fr s = Inr s'"
  shows "\<exists>f rest. map skel (frames s) = f # rest
    \<and> map skel (frames s') = f\<lparr>sk_count := sk_count f + sk_count (skel fr)\<rparr> # rest
    \<and> links s' = links s \<and> pending s' = pending s"
proof -
  obtain s1 s2 where s1: "(if wf_program fr = None then forget_overwritten (wf_journal fr) s else Inr s) = Inr s1"
    and s2: "merge_into_parent fr s1 = Inr s2"
    and s': "update_top (\<lambda>parent. parent\<lparr>wf_out := wf_out parent @ wf_out fr,
        wf_call_gas := wf_call_gas parent + wf_call_gas fr,
        wf_callee_gas := wf_callee_gas parent + wf_callee_gas fr,
        wf_create_gas := wf_create_gas parent + wf_create_gas fr,
        wf_view := (if wf_program fr \<noteq> None then wf_view fr else wf_view parent)\<rparr>) s2 = Inr s'"
    using assms unfolding finish_plain_def bind_res_Inr_iff by blast
  have "same_links s s1" using s1 forget_overwritten_links by (auto split: if_splits)
  then have same: "same_links s s2" using merge_into_parent_links [OF s2] by (rule same_links_trans)
  obtain g rest where g: "frames s2 = g # rest" and s'2: "s' = s2\<lparr>frames := g\<lparr>wf_out := wf_out g @ wf_out fr,
        wf_call_gas := wf_call_gas g + wf_call_gas fr,
        wf_callee_gas := wf_callee_gas g + wf_callee_gas fr,
        wf_create_gas := wf_create_gas g + wf_create_gas fr,
        wf_view := (if wf_program fr \<noteq> None then wf_view fr else wf_view g)\<rparr> # rest\<rparr>"
    using s' by auto
  have "map skel (frames s) = skel g # map skel rest" using same g by (simp add: same_links_def)
  with same show ?thesis by (simp add: s'2 same_links_def links_def skel_def nested_count_def)
qed

lemma settle_frame_links:
  assumes settle: "settle_frame log success fr s = Inr s'"
    and inv: "sk_inv (skel fr # map skel (frames s)) (links s)" "pending s = None" "frames s \<noteq> []"
  shows "linked s'"
proof -
  obtain s1 s2 where s1: "(if success then Inr s else drop_programs (wf_first_program fr) s) = Inr s1"
    and s2: "(case wf_emitted_call_gas fr of None \<Rightarrow> Inr s1
       | Some g0 \<Rightarrow> let g = sat_sub g0 (gas log) in charge_caller (wf_emitted_create fr) g
             (callee_gas g (wf_call_gas_cost fr) (Some (wf_entry_gas fr))) s1) = Inr s2"
    and fin: "(case wf_nested_start_gas fr of
         Some start_gas \<Rightarrow> (case wf_program fr of None \<Rightarrow> Inl (Panic ''a nested frame emits'')
           | Some pid \<Rightarrow> if success
               then finish_nested log start_gas fr pid (case frames s of [] \<Rightarrow> None | f # _ \<Rightarrow> wf_program f) s2
               else revert_nested s2)
       | None \<Rightarrow> if success then finish_plain fr s2 else Inr s2) = Inr s'"
    using settle by (rule settle_frame_elim)
  have f1: "frames s1 = frames s" "pending s1 = None"
    "links s1 = (if success then links s else sk_drop (sk_first (skel fr)) (links s))"
    using s1 inv(2) drop_programs_frames drop_programs_pending drop_programs_links
    by (auto simp: skel_def split: if_splits)
  have "same_links s1 s2" using s2 charge_caller_links by (auto simp: Let_def split: option.splits)
  with f1 have f2: "map skel (frames s2) = map skel (frames s)" "pending s2 = None"
    "links s2 = (if success then links s else sk_drop (sk_first (skel fr)) (links s))"
    by (simp_all add: same_links_def)
  obtain g rest where g: "frames s = g # rest" using inv(3) by (cases "frames s") auto
  have top: "sk_inv (skel fr # skel g # map skel rest) (links s)" using inv(1) g by simp
  show ?thesis
  proof (cases "wf_nested_start_gas fr")
    case None
    then have nn: "\<not> sk_nested (skel fr)" by (simp add: skel_def)
    show ?thesis
    proof (cases success)
      case True
      then have "finish_plain fr s2 = Inr s'" using fin None by simp
      from finish_plain_links [OF this] f2 g True show ?thesis
        using sk_absorb [OF top nn] by (auto simp: linked_def)
    next
      case False
      then show ?thesis using fin None f2 g sk_revert [OF top nn] by (simp add: linked_def)
    qed
  next
    case (Some sg)
    then have nf: "sk_nested (skel fr)" by (simp add: skel_def)
    obtain pid where pid: "wf_program fr = Some pid" using fin Some by (cases "wf_program fr") auto
    show ?thesis
    proof (cases success)
      case True
      then have "\<exists>pp. finish_nested log sg fr pid pp s2 = Inr s'" using fin Some pid by auto
      then obtain pp where "finish_nested log sg fr pid pp s2 = Inr s'" ..
      from finish_nested_links [OF this] f2 g True show ?thesis
        using sk_close [OF top nf, of pid] pid by (simp add: linked_def skel_def)
    next
      case False
      then have "revert_nested s2 = Inr s'" using fin Some pid by simp
      from revert_nested_links [OF this] obtain f fs k where "frames s2 = f # fs" "sk_count (skel f) = Suc k"
        "map skel (frames s') = (skel f)\<lparr>sk_count := k\<rparr> # map skel fs" "links s' = links s2" "pending s' = pending s2"
        by (elim exE conjE) (rule that)
      with f2 g False show ?thesis using sk_revert_nested [OF top nf, of k] by (simp add: linked_def)
    qed
  qed
qed

lemma close_frame_links:
  assumes "close_frame log s = Inr s'" and ok: "linked s" and "frames s' \<noteq> []"
  shows "linked s'"
proof -
  obtain top others success s1 fr rest where "frames s = top # others" "wf_depth top = depth log + 1"
    and s1: "(if success \<and> wf_nested_start_gas top \<noteq> None then flush_slice s else Inr s) = Inr s1"
    and fr: "frames s1 = fr # rest" and s': "settle_frame log success fr (s1\<lparr>frames := rest\<rparr>) = Inr s'"
    using assms(1) by (rule close_frame_elim)
  have "linked s1" using s1 ok flush_slice_links linked_same by (auto split: if_splits)
  then have "sk_inv (skel fr # map skel rest) (links s1)" "pending s1 = None" using fr by (simp_all add: linked_def)
  moreover have "rest \<noteq> []" using settle_frame_length [OF s'] assms(3) by auto
  ultimately show ?thesis using settle_frame_links [OF s'] by (simp add: links_def)
qed

lemma close_frames_links:
  "close_frames log s = Inr s' \<Longrightarrow> walk_ok0 s \<Longrightarrow> linked s \<Longrightarrow> linked s'"
proof (induction log s rule: close_frames.induct)
  case (1 log s)
  obtain f rest where f: "frames s = f # rest"
    using 1(3) by (cases "frames s") (auto simp: walk_ok0_def frames_ok_def)
  show ?case
  proof (cases "wf_depth f > depth log")
    case True
    then obtain s1 where s1: "close_frame log s = Inr s1" "close_frames log s1 = Inr s'"
      using 1(2) f by (subst (asm) close_frames.simps) (auto simp: res_simps)
    have "\<not> (frames s1 = [] \<and> depth log = 0)"
      using s1(2) by (auto simp: close_frames.simps [of log s1] split: if_splits)
    with close_frame_ok [OF s1(1) 1(3)] have ok1: "walk_ok0 s1" by blast
    then have "frames s1 \<noteq> []" by (auto simp: walk_ok0_def frames_ok_def)
    with close_frame_links [OF s1(1) 1(4)] 1(1) [OF f True s1 ok1] show ?thesis by blast
  next
    case False
    then show ?thesis using 1(2,4) f by (subst (asm) close_frames.simps) simp
  qed
qed

section \<open>Visiting an opcode\<close>

lemma decode_update_not_nested: "decode_update opc st mem = Inr (Some u) \<Longrightarrow> \<not> is_nested u"
  by (auto simp: decode_update_def Let_def res_simps split: if_splits)

lemma append_not_nested:
  assumes "append_state_update_from_struct_log hexd us log = Inr (us', sk)"
  shows "\<exists>vs. us' = us @ vs \<and> filter is_nested vs = []"
  using assms decode_update_not_nested
  by (fastforce simp: append_state_update_from_struct_log_def Let_def res_simps
      split: option.splits if_splits)

lemma append_to_top_links: "append_to_top hexd log s = Inr (s', sk) \<Longrightarrow> same_links s s'"
  by (auto simp: append_to_top_def bind_res_Inr_iff same_links_def links_def skel_def nested_count_def
      dest!: append_not_nested)

lemma linked_set_pending:
  assumes "linked s" and "pf_nested_start_gas p = None"
    and "pf_program p = None \<or> pf_program p = wf_program (hd (frames s))"
  shows "linked_pending (s\<lparr>pending := Some p\<rparr>)"
  using assms by (simp add: linked_def linked_pending_def links_def)

lemma visit_create_links:
  assumes "visit_create hexd log cur s = Inr s'" and ok: "linked s"
  shows "linked_pending s'"
proof -
  let ?emitted = "wf_program cur \<noteq> None \<and> error log = None"
  let ?p = "(plain_pending (depth log) None None [])
                \<lparr>pf_emitted_call_gas := (if ?emitted then Some (gas log) else None),
                 pf_emitted_create := ?emitted\<rparr>"
  obtain s1 where s1: "(if ?emitted
            then bind_res (flush_slice s) (\<lambda>s.
                 bind_res (append_to_top hexd log s) (\<lambda>(s, sk).
                 if sk \<noteq> None then Inl (Panic ''CREATE/CREATE2 are never skipped opcodes'') else Inr s))
            else Inr s) = Inr s1"
    and s': "s' = s1 \<or> s' = s1\<lparr>pending := Some ?p\<rparr>"
    using assms(1) unfolding visit_create_def Let_def bind_res_Inr_iff
    by (metis (no_types, lifting) sum.inject(2))
  have "same_links s s1"
    using s1 flush_slice_links append_to_top_links same_links_trans
    by (auto simp: bind_res_Inr_iff split: if_split_asm) blast+
  with ok have "linked s1" by (rule linked_same)
  moreover have "pf_nested_start_gas ?p = None" "pf_program ?p = None" by (simp_all add: plain_pending_def)
  ultimately show ?thesis using s' linked_linked_pending linked_set_pending by blast
qed

lemma visit_log_links:
  assumes "visit_log hexd log cur s = Inr s'"
  shows "same_links s s'"
proof (cases "wf_program cur = None \<or> error log \<noteq> None")
  case True
  with assms show ?thesis by (auto simp: visit_log_def split: option.splits)
next
  case False
  then obtain p s1 sk where s1: "append_to_top hexd log s = Inr (s1, sk)"
    and s': "update_program p (\<lambda>ps. ps\<lparr>p_effect_gas := p_effect_gas ps + gas_cost log\<rparr>) s1 = Inr s'"
    using assms by (auto simp: visit_log_def bind_res_Inr_iff simp del: update_program_Inr split: if_splits)
  have "same_links s1 s'" using s' by (auto simp: same_links_def links_def map_link_update)
  with append_to_top_links [OF s1] show ?thesis by (rule same_links_trans)
qed

lemma open_nested_links:
  assumes opn: "open_nested kecc g index call cur p next s = Inr s'" and ok: "linked s"
    and f: "frames s = f # rest" "wf_program f = Some p"
  shows "linked_pending s'"
proof -
  let ?f = "f\<lparr>wf_out := wf_out f @ [Nested (call_target call) (call_value call) 0]\<rparr>"
  have inv: "sk_inv (skel f # map skel rest) (links s)" "sk_prog (skel f) = Some p"
    using ok f by (simp_all add: linked_def skel_def)
  then have p: "p < length (programs s)" by (auto simp: sk_inv_def open_ok_def links_def)
  have s': "frames s' = ?f # rest" "programs s' = (programs s @ [new_program (call_target call)
        (case wf_ctx cur of None \<Rightarrow> 0 | Some a \<Rightarrow> a) (call_value call) (kecc (callargs call)) (Some index) (Some p) (Some call)])
      [p := (programs s ! p)\<lparr>p_children := p_children (programs s ! p) @ [length (programs s)]\<rparr>]"
    "pending s' = Some (next\<lparr>pf_program := Some (length (programs s)), pf_nested_start_gas := Some g\<rparr>)"
    using opn f p by (auto simp: open_nested_def Let_def bind_res_Inr_iff nth_append)
  have "links s' = sk_add_child p (links s)"
    using p by (simp add: links_def s'(2) sk_add_child_def map_update list_update_append sk_child_def link_def new_program_def)
  moreover have "map skel (frames s') = (skel f)\<lparr>sk_count := Suc (sk_count (skel f))\<rparr> # map skel rest"
    by (simp add: s'(1) skel_def nested_count_def)
  ultimately show ?thesis using sk_nest [OF inv] s'(3) by (simp add: linked_pending_def links_def)
qed

lemma emit_call_links:
  assumes emit: "emit_call hexd kecc el cands i log cur p next s = Inr s'" and ok: "linked s"
    and cur: "frames s = cur # rest" "wf_program cur = Some p"
    and nx: "pf_program next = None" "pf_nested_start_gas next = None"
  shows "linked_pending s'"
proof -
  obtain s1 decoded sk where s1: "flush_slice s = Inr s1"
    and dec: "append_state_update_from_struct_log hexd [] log = Inr (decoded, sk)" "decoded \<noteq> []"
    and fin: "(case (frame_index el (map_of cands i) (callee_of log), last decoded) of
          (Some index, Call call) \<Rightarrow> open_nested kecc (gas log) index call cur p next s1
        | (_, u) \<Rightarrow>
            bind_res (update_top (\<lambda>f. f\<lparr>wf_out := wf_out f @ [u]\<rparr>) s1) (\<lambda>s.
            Inr (s\<lparr>pending := Some (next\<lparr>pf_emitted_call_gas := Some (gas log)\<rparr>)\<rparr>))) = Inr s'"
    using emit unfolding emit_call_def by (auto simp: bind_res_Inr_iff split: if_splits prod.splits)
  have ok1: "linked s1" using flush_slice_links [OF s1] ok linked_same by blast
  obtain f where f: "frames s1 = f # rest" "wf_program f = Some p"
    using s1 cur by (elim flush_slice_Inr) simp
  have "filter is_nested decoded = []" using append_not_nested [OF dec(1)] by auto
  then have "\<not> is_nested (last decoded)" using dec(2) by (simp add: filter_empty_conv)
  then have plain: "linked_pending s'" if "bind_res (update_top (\<lambda>f. f\<lparr>wf_out := wf_out f @ [last decoded]\<rparr>) s1) (\<lambda>s.
            Inr (s\<lparr>pending := Some (next\<lparr>pf_emitted_call_gas := Some (gas log)\<rparr>)\<rparr>)) = Inr s'"
    using that f nx ok1
    by (auto simp: bind_res_Inr_iff linked_def linked_pending_def links_def skel_def nested_count_def)
  show ?thesis
  proof (cases "frame_index el (map_of cands i) (callee_of log)")
    case None
    with fin plain show ?thesis by simp
  next
    case (Some index)
    show ?thesis
    proof (cases "last decoded")
      case (Call call)
      with fin Some have "open_nested kecc (gas log) index call cur p next s1 = Inr s'" by simp
      from open_nested_links [OF this ok1 f] show ?thesis .
    qed (use fin plain Some in simp_all)
  qed
qed

lemma visit_call_links:
  assumes "visit_call hexd kecc el cands i log cur s = Inr s'" and ok: "linked s" and cur: "frames s = cur # rest"
  shows "linked_pending s'"
proof -
  let ?next = "(plain_pending (depth log) (callee_of log) None [])\<lparr>pf_call_gas_cost := gas_cost log\<rparr>"
  have nx: "pf_program ?next = None" "pf_nested_start_gas ?next = None" by (simp_all add: plain_pending_def)
  consider "s' = s" | "s' = s\<lparr>pending := Some ?next\<rparr>"
    | p where "wf_program cur = Some p" "emit_call hexd kecc el cands i log cur p ?next s = Inr s'"
    using assms(1) unfolding visit_call_def Let_def
    by (cases "stack log"; cases "error log"; cases "wf_program cur") auto
  then show ?thesis
    using emit_call_links [OF _ ok cur _ nx] linked_set_pending [OF ok nx(2)] nx(1) linked_linked_pending [OF ok]
    by cases auto
qed

lemma walk_op_links:
  assumes "walk_op hexd kecc el cands i log s = Inr s'" and ok: "linked s"
  shows "linked_pending s'"
proof -
  obtain cur rest where cur: "frames s = cur # rest"
    using assms(1) by (auto simp: walk_op_def bind_res_Inr_iff)
  have same: "linked_pending t" if "same_links s t" for t
    using linked_same [OF ok that] by (rule linked_linked_pending)
  have delegate: "linked_pending (visit_delegate log cur s)"
    using ok same [OF same_links_refl] cur
    by (auto simp: visit_delegate_def plain_pending_def intro!: linked_set_pending)
  have static: "linked_pending s'" if "visit_static log s = Inr s'"
    using that ok same [OF same_links_refl]
    by (auto simp: visit_static_def plain_pending_def intro!: linked_set_pending split: if_split_asm)
  have skip: "linked_pending (s\<lparr>skipped := x\<rparr>)" for x by (rule same) (simp add: same_links_def links_def)
  note visit = delegate static skip same [OF same_links_refl] same [OF visit_sstore_links] same [OF visit_log_links]
    visit_call_links [OF _ ok cur] visit_create_links [OF _ ok]
  show ?thesis
    using assms(1) cur linked_linked_pending [OF ok] unfolding walk_op_def
    by (auto simp: top_frame_def intro: visit split: if_split_asm)
qed

definition walk_linked :: "walk_state \<Rightarrow> bool" where
  "walk_linked s \<longleftrightarrow> walk_ok s \<and> linked_pending s"

lemma walk_step_links:
  assumes "walk_step hexd kecc el cands s ilog = Inr s'" and "walk_linked s"
  shows "walk_linked s'"
proof -
  obtain i log where ilog: "ilog = (i, log)" by (cases ilog)
  obtain s1 s2 where s1: "take_pending log s = Inr s1" and s2: "close_frames log s1 = Inr s2"
    and s': "walk_op hexd kecc el cands i log s2 = Inr s'"
    using assms(1) by (auto simp: walk_step_def ilog bind_res_Inr_iff)
  have ok: "walk_ok s" "linked_pending s" using assms(2) by (simp_all add: walk_linked_def)
  have "frames s \<noteq> []" using ok(1) by (simp add: walk_ok_def frames_ok_def)
  then have "linked s1" using take_pending_links [OF s1 ok(2)] by blast
  then have "linked s2" using close_frames_links [OF s2 take_pending_ok [OF s1 ok(1)]] by blast
  with walk_op_links [OF s'] walk_step_ok [OF assms(1) ok(1)] show ?thesis by (simp add: walk_linked_def)
qed

lemma walk_linked_init: "walk_linked (init_walk root idx)"
proof -
  have "sk_inv (map skel (frames (init_walk root idx))) (links (init_walk root idx))"
    by (simp add: sk_inv_def init_walk_def root_walk_frame_def links_def link_def skel_def new_program_def
        links_ok_def children_ok_def live_def closed_ok_def open_ok_def reach_ok_def nested_count_def)
  with walk_ok_init show ?thesis by (simp add: walk_linked_def linked_pending_def init_walk_def)
qed

lemma walk_fold_links:
  assumes "fold_res (walk_step hexd kecc el cands) ilogs (init_walk root idx) = Inr s"
  shows "walk_linked s"
  using assms walk_linked_init by (rule fold_res_invariant) (rule walk_step_links)

section \<open>What the walk leaves\<close>

text \<open>No \<open>NESTED\<close> op without a surviving child, and none the other way round.\<close>

definition walked :: "sk_program list \<Rightarrow> bool" where
  "walked ps \<longleftrightarrow> links_ok ps \<and> \<not> kp_dropped (ps ! 0)
     \<and> (\<forall>q < length ps. \<not> kp_dropped (ps ! q) \<longrightarrow>
          (case kp_ops (ps ! q) of None \<Rightarrow> live ps q 0 = 0 | Some k \<Rightarrow> k = live ps q 0))"

lemma walked_root:
  assumes inv: "sk_inv (pre @ [f]) ps" and pre: "pre = [] \<or> (\<exists>q. pre = [sk_opened q])"
  shows "walked (ps[0 := (ps ! 0)\<lparr>kp_ops := Some (sk_count f)\<rparr>])"
proof -
  note i = sk_invD [OF inv]
  have f: "sk_prog f = Some 0" "sk_first f = 0" using i(2) pre by (auto simp: sk_opened_def)
  have ne: "0 < length ps" using i(1) by (simp add: links_ok_def)
  have count: "live ps 0 0 = sk_count f \<and> (\<forall>q. pre = [sk_opened q] \<longrightarrow> q \<noteq> 0 \<and> live ps q q = 0)"
    using i(2,3) pre f by (auto simp: sk_opened_def fun_upd_def)
  let ?ps = "ps[0 := (ps ! 0)\<lparr>kp_ops := Some (sk_count f)\<rparr>]"
  have same: "kp_children (?ps ! q) = kp_children (ps ! q)" "kp_dropped (?ps ! q) = kp_dropped (ps ! q)"
    "kp_parent (?ps ! q) = kp_parent (ps ! q)" "kp_call (?ps ! q) = kp_call (ps ! q)" for q
    using ne by (simp_all add: nth_list_update)
  have live: "live ?ps q 0 = live ps q 0" for q by (rule live_cong) (simp_all add: same)
  have ops: "kp_ops (?ps ! q) = (if q = 0 then Some (sk_count f) else kp_ops (ps ! q))" for q
    using ne by (simp add: nth_list_update)
  have "links_ok ?ps" by (rule links_ok_cong [OF i(1)]) (simp_all add: same)
  moreover have "\<not> kp_dropped (?ps ! 0)" using i(5) f by (simp add: same open_ok_def progs_def)
  moreover have "case kp_ops (?ps ! q) of None \<Rightarrow> live ?ps q 0 = 0 | Some k \<Rightarrow> k = live ?ps q 0"
    if q: "q < length ps" "\<not> kp_dropped (ps ! q)" for q
  proof (cases "q = 0")
    case True
    then show ?thesis using count by (simp add: ops live)
  next
    case False
    show ?thesis
    proof (cases "q \<in> progs (pre @ [f])")
      case True
      then have pre': "pre = [sk_opened q]" using False f pre by (auto simp: progs_def sk_opened_def)
      then have "live ps q 0 = 0" using count live_all [OF i(1) q(1), of q] by simp
      moreover have "kp_ops (ps ! q) = None" using i(5) True by (simp add: open_ok_def)
      ultimately show ?thesis using False by (auto simp: ops live)
    next
      case F: False
      then show ?thesis using i(4) q False by (simp add: closed_ok_def ops live)
    qed
  qed
  ultimately show ?thesis unfolding walked_def by (simp only: same length_list_update) blast
qed

lemma finish_walk_walked:
  assumes fin: "finish_walk s1 = Inr (s, moves)" and ok: "walk_linked s1"
  shows "walked (links s)"
proof -
  obtain f where f: "frames s1 = [f]"
    using fin by (cases "frames s1") (auto simp: finish_walk_def split: if_splits)
  obtain s2 where s2: "flush_slice s1 = Inr s2" using fin f by (auto simp: finish_walk_def bind_res_Inr_iff)
  note same = flush_slice_links [OF s2]
  obtain g where g: "frames s2 = [g]" using flush_slice_length [OF s2] f by (auto simp: length_Suc_conv)
  have s: "links s = (links s2)[0 := (links s2 ! 0)\<lparr>kp_ops := Some (sk_count (skel g))\<rparr>]"
    using fin f s2 g by (auto simp: finish_walk_def bind_res_Inr_iff links_def map_update link_def skel_def)
  have "\<exists>pre. (pre = [] \<or> (\<exists>q. pre = [sk_opened q])) \<and> sk_inv (pre @ map skel (frames s1)) (links s1)"
    using ok by (auto simp: walk_linked_def dest!: linked_pending_stack)
  then obtain pre where "pre = [] \<or> (\<exists>q. pre = [sk_opened q])" "sk_inv (pre @ [skel g]) (links s2)"
    using same g by (auto simp: same_links_def)
  then show ?thesis unfolding s by (intro walked_root)
qed

lemma walk_trace_walked:
  assumes "walk_trace hexd kecc el root lgs = Inr (s, moves)"
  shows "walked (links s)"
proof -
  obtain cands idx s1 where
    fold: "fold_res (walk_step hexd kecc el cands) (enumerate 0 lgs) (init_walk root idx) = Inr s1"
    and fin: "finish_walk s1 = Inr (s, moves)"
    using assms by (auto simp: walk_trace_def bind_res_Inr_iff)
  show ?thesis by (rule finish_walk_walked [OF fin walk_fold_links [OF fold]])
qed

end
