(* ===== verification/Frame_Wellformed.thy ===== *)
theory Frame_Wellformed
  imports Frame_Walk_Links "HOL-Library.Code_Target_Nat"
begin

text \<open>
  Every tree \<open>split_frame_tree\<close> (\<^verbatim>\<open>crates/core/src/nested.rs\<close>) returns is well formed: the drop pass
  and the pruning loop keep the links of the surviving programs, and compaction renumbers them
  in order, so that no index of these passes is out of range, none of their \<open>expect\<close>s can fire,
  and the encoder accepts the result.
\<close>

section \<open>Dropping descendants\<close>

definition parents_before :: "program_state list \<Rightarrow> bool" where
  "parents_before ps \<longleftrightarrow> (\<forall>c < length ps. case p_parent (ps ! c) of None \<Rightarrow> c = 0 | Some q \<Rightarrow> q < c)"

text \<open>Between \<open>k\<close> and \<open>m\<close> a program is dropped when it was or its parent is; nothing else changes.\<close>

definition drop_spread :: "nat \<Rightarrow> nat \<Rightarrow> program_state list \<Rightarrow> program_state list \<Rightarrow> bool" where
  "drop_spread k m ps ps' \<longleftrightarrow> length ps' = length ps
     \<and> (\<forall>i < length ps. ps' ! i = (ps ! i)\<lparr>p_dropped := p_dropped (ps' ! i)\<rparr>)
     \<and> (\<forall>i < length ps. p_dropped (ps' ! i) \<longleftrightarrow>
          p_dropped (ps ! i) \<or> k \<le> i \<and> i < m \<and> parent_dropped ps' i)"

lemma drop_spread_parent:
  "drop_spread k m ps ps' \<Longrightarrow> i < length ps \<Longrightarrow> p_parent (ps' ! i) = p_parent (ps ! i)"
  unfolding drop_spread_def by (metis program_state.select_convs(6) program_state.surjective program_state.update_convs(10))

lemma drop_children_spread:
  assumes ok: "parents_before ps"
  shows "k \<le> m \<Longrightarrow> m \<le> length ps \<Longrightarrow> drop_spread k m ps (drop_children [k..<m] ps)"
proof (induction m)
  case 0
  then show ?case by (simp add: drop_children_def drop_spread_def)
next
  case (Suc m)
  show ?case
  proof (cases "k = Suc m")
    case True
    then show ?thesis by (auto simp: drop_children_def drop_spread_def)
  next
    case False
    define ps' where "ps' = drop_children [k..<m] ps"
    have sp: "drop_spread k m ps ps'" unfolding ps'_def by (rule Suc.IH) (use Suc.prems False in simp_all)
    have step: "drop_children [k..<Suc m] ps
        = (if parent_dropped ps' m then ps'[m := (ps' ! m)\<lparr>p_dropped := True\<rparr>] else ps')"
      using Suc.prems False by (simp add: drop_children_def ps'_def)
    have len: "length ps' = length ps" using sp by (simp add: drop_spread_def)
    have par: "parent_dropped (ps'[m := y]) i = parent_dropped ps' i"
      if "i < length ps" "i \<le> m" "p_parent y = p_parent (ps' ! m)" for i y
    proof (cases "p_parent (ps ! i)")
      case None
      then show ?thesis using that len drop_spread_parent [OF sp that(1)]
        by (cases "i = m") (auto simp: parent_dropped_def nth_list_update)
    next
      case (Some q)
      then have "q < i" using ok that(1) by (auto simp: parents_before_def split: option.splits dest!: spec [of _ i])
      then show ?thesis using Some that len drop_spread_parent [OF sp that(1)]
        by (cases "i = m") (auto simp: parent_dropped_def nth_list_update)
    qed
    show ?thesis
      unfolding step using sp par [of _ "(ps' ! m)\<lparr>p_dropped := True\<rparr>"] Suc.prems False len
      by (auto simp: drop_spread_def nth_list_update less_Suc_eq)
  qed
qed

section \<open>The surviving programs\<close>

definition kept :: "program_state list \<Rightarrow> nat \<Rightarrow> bool" where
  "kept ps i \<longleftrightarrow> i < length ps \<and> \<not> p_dropped (ps ! i)"

definition ops_match :: "program_state \<Rightarrow> bool" where
  "ops_match p \<longleftrightarrow> (case p_updates p of None \<Rightarrow> p_children p = [] | Some us \<Rightarrow> nested_count us = length (p_children p))"

definition child_ok :: "program_state list \<Rightarrow> nat \<Rightarrow> bool" where
  "child_ok ps c \<longleftrightarrow> (\<exists>q. p_parent (ps ! c) = Some q \<and> kept ps q \<and> c \<in> set (p_children (ps ! q)))
     \<and> p_fallback (ps ! c) \<noteq> None \<and> p_transition_index (ps ! c) \<noteq> None"

definition owner_ok :: "program_state list \<Rightarrow> nat \<Rightarrow> bool" where
  "owner_ok ps q \<longleftrightarrow> distinct (p_children (ps ! q)) \<and> ops_match (ps ! q)
     \<and> (\<forall>c \<in> set (p_children (ps ! q)). kept ps c \<and> p_parent (ps ! c) = Some q)"

definition kept_ok :: "program_state list \<Rightarrow> bool" where
  "kept_ok ps \<longleftrightarrow> parents_before ps \<and> kept ps 0
     \<and> (\<forall>c. kept ps c \<and> 0 < c \<longrightarrow> child_ok ps c) \<and> (\<forall>q. kept ps q \<longrightarrow> owner_ok ps q)"

lemma kept_child:
  assumes "kept_ok ps" and "kept ps c" and "0 < c"
  shows "\<exists>q. p_parent (ps ! c) = Some q \<and> q < c \<and> kept ps q \<and> c \<in> set (p_children (ps ! q))"
  using assms by (fastforce simp: kept_ok_def child_ok_def parents_before_def kept_def split: option.splits)

lemma link_fields [simp]:
  "i < length (programs s) \<Longrightarrow> kp_parent (links s ! i) = p_parent (programs s ! i)"
  "i < length (programs s) \<Longrightarrow> kp_children (links s ! i) = p_children (programs s ! i)"
  "i < length (programs s) \<Longrightarrow> kp_dropped (links s ! i) = p_dropped (programs s ! i)"
  "i < length (programs s) \<Longrightarrow> kp_ops (links s ! i) = map_option nested_count (p_updates (programs s ! i))"
  "i < length (programs s) \<Longrightarrow> kp_call (links s ! i) \<longleftrightarrow>
     p_fallback (programs s ! i) \<noteq> None \<and> p_transition_index (programs s ! i) \<noteq> None"
  "length (links s) = length (programs s)"
  by (simp_all add: links_def link_def)

lemma walked_parents: "walked (links s) \<Longrightarrow> parents_before (programs s)"
proof -
  assume ok: "walked (links s)"
  have "case p_parent (programs s ! c) of None \<Rightarrow> c = 0 | Some q \<Rightarrow> q < c" if c: "c < length (programs s)" for c
  proof (cases "c = 0")
    case True
    then show ?thesis using ok c by (simp add: walked_def links_ok_def)
  next
    case False
    then have "parent_ok (links s) c" using ok c by (simp add: walked_def links_ok_def)
    then show ?thesis using c by (auto simp: parent_ok_def)
  qed
  then show ?thesis by (simp add: parents_before_def)
qed

lemma walked_kept:
  assumes ok: "walked (links s)"
  shows "kept_ok (retain_children (drop_descendants_of_dropped (programs s)))"
proof -
  define ps where "ps = programs s"
  define ps1 where "ps1 = drop_descendants_of_dropped ps"
  define ps2 where "ps2 = retain_children ps1"
  have pb: "parents_before ps" unfolding ps_def using ok by (rule walked_parents)
  have lk: "links_ok (links s)" using ok by (simp add: walked_def)
  have ne: "0 < length ps" using lk by (auto simp: links_ok_def links_def ps_def)
  have sp: "drop_spread 1 (length ps) ps ps1"
    unfolding ps1_def drop_descendants_of_dropped_def using pb by (rule drop_children_spread) (use ne in \<open>simp_all add: Suc_le_eq\<close>)
  have len: "length ps1 = length ps" "length ps2 = length ps"
    using sp by (simp_all add: drop_spread_def ps2_def retain_children_def)
  have f1: "ps1 ! i = (ps ! i)\<lparr>p_dropped := p_dropped (ps1 ! i)\<rparr>" if "i < length ps" for i
    using sp that unfolding drop_spread_def by blast
  have fields: "p_parent (ps2 ! i) = p_parent (ps ! i)" "p_updates (ps2 ! i) = p_updates (ps ! i)"
    "p_fallback (ps2 ! i) = p_fallback (ps ! i)" "p_transition_index (ps2 ! i) = p_transition_index (ps ! i)"
    "p_dropped (ps2 ! i) = p_dropped (ps1 ! i)"
    "p_children (ps2 ! i) = filter (\<lambda>c. \<not> p_dropped (ps1 ! c)) (p_children (ps ! i))"
    if "i < length ps" for i
    using that len by (simp_all add: ps2_def retain_children_def) (subst f1 [OF that], simp)+
  have d: "p_dropped (ps1 ! i) \<longleftrightarrow> p_dropped (ps ! i) \<or> 1 \<le> i \<and> parent_dropped ps1 i" if "i < length ps" for i
    using sp that by (simp add: drop_spread_def)
  have par: "parent_dropped ps1 c = (case p_parent (ps ! c) of None \<Rightarrow> False | Some q \<Rightarrow> q < length ps \<and> p_dropped (ps1 ! q))"
    if "c < length ps" for c
    unfolding parent_dropped_def drop_spread_parent [OF sp that] len ..
  have own: "owner_ok ps2 q" if "kept ps2 q" for q
  proof -
    have q: "q < length ps" "\<not> p_dropped (ps1 ! q)" "\<not> p_dropped (ps ! q)"
      using that d [of q] len fields by (auto simp: kept_def)
    have ch: "q < c" "c < length ps" "p_parent (ps ! c) = Some q" "p_dropped (ps1 ! c) = p_dropped (ps ! c)"
      if "c \<in> set (p_children (ps ! q))" for c
    proof -
      have *: "q < c \<and> c < length ps \<and> kp_parent (links s ! c) = Some q"
        using links_parent [OF lk, of q c] q that by (simp add: ps_def)
      then show "q < c" "c < length ps" "p_parent (ps ! c) = Some q" by (auto simp: ps_def)
      with d [of c] par [of c] q show "p_dropped (ps1 ! c) = p_dropped (ps ! c)" by simp
    qed
    have "p_children (ps2 ! q) = filter (\<lambda>c. \<not> p_dropped (ps ! c)) (p_children (ps ! q))"
      using fields(6) [OF q(1)] ch(4) by (auto intro!: filter_cong)
    moreover have "live (links s) q 0 = length (filter (\<lambda>c. \<not> p_dropped (ps ! c)) (p_children (ps ! q)))"
      using q(1) ch(2) by (auto simp: live_def ps_def intro!: arg_cong [where f = length] filter_cong)
    ultimately have "live (links s) q 0 = length (p_children (ps2 ! q))" by simp
    then have "ops_match (ps2 ! q)"
      using ok q(1,3) fields(2) [OF q(1)]
      by (auto simp: walked_def ops_match_def ps_def split: option.splits dest!: spec [of _ q])
    moreover have "distinct (p_children (ps2 ! q))"
      using links_distinct [OF lk, of q] q(1) fields(6) [OF q(1)] by (simp add: ps_def)
    ultimately show ?thesis using ch fields q(1) len by (auto simp: owner_ok_def kept_def)
  qed
  have "child_ok ps2 c" if "kept ps2 c" "0 < c" for c
  proof -
    have c: "c < length ps" "\<not> p_dropped (ps1 ! c)" using that fields(5) len by (auto simp: kept_def)
    have "parent_ok (links s) c" using lk c that(2) by (simp add: links_ok_def ps_def)
    then obtain q where q: "q < c" "p_parent (ps ! c) = Some q" "c \<in> set (p_children (ps ! q))"
      "p_fallback (ps ! c) \<noteq> None" "p_transition_index (ps ! c) \<noteq> None"
      using c(1) by (auto simp: parent_ok_def ps_def)
    then have "\<not> p_dropped (ps1 ! q)" using d [OF c(1)] par [OF c(1)] c that(2) by simp
    with q c fields len show ?thesis by (auto simp: child_ok_def kept_def)
  qed
  moreover have "kept ps2 0"
    using ok ne d [OF ne] fields(5) [OF ne] len by (simp add: kept_def walked_def ps_def)
  moreover have "parents_before ps2" using pb fields(1) len by (simp add: parents_before_def)
  ultimately show ?thesis using own by (simp add: kept_ok_def ps_def ps1_def ps2_def)
qed

section \<open>Pruning keeps them\<close>

lemma position_mem:
  "x \<in> set xs \<Longrightarrow> \<exists>n. position x xs = Some n \<and> n < length xs \<and> xs ! n = x"
  by (induction xs) (auto intro: exI [of _ 0])

lemma replace_nested_count:
  "n < nested_count us \<Longrightarrow> \<not> is_nested u \<Longrightarrow>
     \<exists>us'. replace_nested n u us = Some us' \<and> Suc (nested_count us') = nested_count us"
proof (induction us arbitrary: n)
  case (Cons x us)
  show ?case
  proof (cases "is_nested x")
    case True
    show ?thesis
    proof (cases n)
      case 0
      with True Cons.prems(2) show ?thesis by (simp add: nested_count_def)
    next
      case (Suc m)
      then obtain us' where "replace_nested m u us = Some us'" "Suc (nested_count us') = nested_count us"
        using Cons.IH [of m] Cons.prems True by (auto simp: nested_count_def)
      with True Suc show ?thesis by (simp add: nested_count_def)
    qed
  next
    case False
    then obtain us' where "replace_nested n u us = Some us'" "Suc (nested_count us') = nested_count us"
      using Cons.IH [of n] Cons.prems by (auto simp: nested_count_def)
    with False show ?thesis by (simp add: nested_count_def)
  qed
qed (simp add: nested_count_def)

lemma remove_nth_props:
  assumes "n < length xs" and "distinct xs"
  shows "set (remove_nth n xs) = set xs - {xs ! n}" "distinct (remove_nth n xs)"
    "Suc (length (remove_nth n xs)) = length xs"
proof -
  have xs: "xs = take n xs @ xs ! n # drop (Suc n) xs" using assms(1) by (rule id_take_nth_drop)
  then have "distinct (take n xs @ xs ! n # drop (Suc n) xs)" using assms(2) by simp
  moreover have "set xs = set (take n xs) \<union> {xs ! n} \<union> set (drop (Suc n) xs)" using xs
    by (metis Un_assoc Un_commute Un_insert_left list.simps(15) set_append sup_bot_left)
  ultimately show "set (remove_nth n xs) = set xs - {xs ! n}" "distinct (remove_nth n xs)"
    by (auto simp: remove_nth_def)
  show "Suc (length (remove_nth n xs)) = length xs" using assms(1) by (simp add: remove_nth_def)
qed

lemma depth_of_total:
  assumes "parents_before ps"
  shows "i < length ps \<Longrightarrow> i < fuel \<Longrightarrow> \<exists>d. depth_of fuel ps i = Inr d"
proof (induction fuel arbitrary: i)
  case (Suc fuel)
  show ?case
  proof (cases "p_parent (ps ! i)")
    case (Some q)
    then have "q < i" using assms Suc.prems(1) by (auto simp: parents_before_def dest!: spec [of _ i])
    then obtain d where "depth_of fuel ps q = Inr d" using Suc.IH [of q] Suc.prems by auto
    then show ?thesis using Some Suc.prems by simp
  qed (use Suc.prems in simp)
qed simp

text \<open>Dropping one program and its descendants, once its parent has let go of it.\<close>

lemma kept_ok_release:
  assumes ok: "kept_ok ps" and i: "kept ps i" "0 < i" and q: "p_parent (ps ! i) = Some q"
    and us: "p_updates (ps ! q) = Some us" "Suc (nested_count us') = nested_count us"
    and n: "n < length (p_children (ps ! q))" "p_children (ps ! q) ! n = i"
    and ps1: "ps1 = ps[q := (ps ! q)\<lparr>p_updates := Some us', p_children := remove_nth n (p_children (ps ! q))\<rparr>]"
    and ps2: "ps2 = ps1[i := (ps1 ! i)\<lparr>p_dropped := True, p_pruned := True\<rparr>]"
  shows "kept_ok (drop_children [i + 1..<length ps] ps2)"
proof -
  define ps3 where "ps3 = drop_children [i + 1..<length ps] ps2"
  have il: "i < length ps" using i by (simp add: kept_def)
  have qk: "q < i" "kept ps q" "owner_ok ps q"
    using kept_child [OF ok i] q ok by (auto simp: kept_ok_def)
  have pb: "parents_before ps" using ok by (simp add: kept_ok_def)
  have f2: "p_parent (ps2 ! c) = p_parent (ps ! c)" "p_fallback (ps2 ! c) = p_fallback (ps ! c)"
    "p_transition_index (ps2 ! c) = p_transition_index (ps ! c)"
    "p_dropped (ps2 ! c) \<longleftrightarrow> p_dropped (ps ! c) \<or> c = i"
    "p_children (ps2 ! c) = (if c = q then remove_nth n (p_children (ps ! q)) else p_children (ps ! c))"
    "p_updates (ps2 ! c) = (if c = q then Some us' else p_updates (ps ! c))"
    if "c < length ps" for c
    using that il qk(1) by (auto simp: ps1 ps2 nth_list_update)
  have len2: "length ps2 = length ps" by (simp add: ps1 ps2)
  have pb2: "parents_before ps2" using pb f2(1) len2 by (simp add: parents_before_def)
  have sp: "drop_spread (i + 1) (length ps2) ps2 ps3"
    unfolding ps3_def len2 [symmetric] using pb2 by (rule drop_children_spread) (use il len2 in simp_all)
  have len3: "length ps3 = length ps" using sp len2 by (simp add: drop_spread_def)
  have e3: "ps3 ! c = (ps2 ! c)\<lparr>p_dropped := p_dropped (ps3 ! c)\<rparr>" if "c < length ps" for c
    using sp that unfolding drop_spread_def len2 by blast
  have f3: "p_parent (ps3 ! c) = p_parent (ps ! c)" "p_fallback (ps3 ! c) = p_fallback (ps ! c)"
    "p_transition_index (ps3 ! c) = p_transition_index (ps ! c)"
    "p_children (ps3 ! c) = (if c = q then remove_nth n (p_children (ps ! q)) else p_children (ps ! c))"
    "p_updates (ps3 ! c) = (if c = q then Some us' else p_updates (ps ! c))"
    if "c < length ps" for c
    by (subst e3 [OF that], simp add: f2 [OF that])+
  have d3: "p_dropped (ps3 ! c) \<longleftrightarrow> p_dropped (ps ! c) \<or> c = i \<or> i < c \<and> parent_dropped ps3 c" if "c < length ps" for c
    using sp that len2 f2(4) [OF that] by (auto simp: drop_spread_def)
  have p3: "parent_dropped ps3 c \<longleftrightarrow> p_dropped (ps3 ! p)" if "c < length ps" "p_parent (ps ! c) = Some p" for c p
  proof -
    have "p < c" using pb that by (auto simp: parents_before_def dest!: spec [of _ c])
    then show ?thesis using that len3 f3(1) [OF that(1)] by (simp add: parent_dropped_def)
  qed
  have k3: "kept ps3 c \<longleftrightarrow> kept ps c \<and> c \<noteq> i \<and> (i < c \<longrightarrow> \<not> parent_dropped ps3 c)" for c
    using d3 [of c] len3 by (auto simp: kept_def)
  have "child_ok ps3 c" if c: "kept ps3 c" "0 < c" for c
  proof -
    have kc: "kept ps c" "c < length ps" "c \<noteq> i" using c k3 by (auto simp: kept_def)
    have "child_ok ps c" using ok kc c(2) by (simp add: kept_ok_def)
    then obtain p where p: "p_parent (ps ! c) = Some p" "kept ps p" "c \<in> set (p_children (ps ! p))" "p < c"
      using kept_child [OF ok kc(1) c(2)] by auto
    have "\<not> p_dropped (ps3 ! p)"
    proof (cases "i < c")
      case True
      then show ?thesis using k3 c p3 [OF kc(2) p(1)] by simp
    next
      case False
      then show ?thesis using d3 [of p] p kc by (auto simp: kept_def)
    qed
    moreover have "c \<in> set (p_children (ps3 ! p))"
      using f3(4) [of p] p(2,3) kc(3) remove_nth_props(1) [OF n(1)] qk(3) n(2) by (auto simp: kept_def owner_ok_def)
    ultimately show ?thesis
      using \<open>child_ok ps c\<close> p f3 [OF kc(2)] len3 by (auto simp: child_ok_def kept_def)
  qed
  moreover have "owner_ok ps3 p" if p: "kept ps3 p" for p
  proof -
    have kp: "kept ps p" "p < length ps" "p \<noteq> i" using p k3 by (auto simp: kept_def)
    have op: "owner_ok ps p" using ok kp by (simp add: kept_ok_def)
    have sub: "c \<in> set (p_children (ps ! p)) \<and> c \<noteq> i" if "c \<in> set (p_children (ps3 ! p))" for c
    proof (cases "p = q")
      case True
      then show ?thesis using that f3(4) [OF kp(2)] remove_nth_props(1) [OF n(1)] qk(3) n(2) by (auto simp: owner_ok_def)
    next
      case False
      then show ?thesis using that f3(4) [OF kp(2)] op q by (auto simp: owner_ok_def)
    qed
    have "kept ps3 c \<and> p_parent (ps3 ! c) = Some p" if "c \<in> set (p_children (ps3 ! p))" for c
    proof -
      have c: "kept ps c" "p_parent (ps ! c) = Some p" "c \<noteq> i" "c < length ps"
        using sub [OF that] op by (auto simp: owner_ok_def kept_def)
      then show ?thesis using k3 [of c] p3 [OF c(4,2)] p f3(1) [OF c(4)] by (simp add: kept_def)
    qed
    moreover have "distinct (p_children (ps3 ! p)) \<and> ops_match (ps3 ! p)"
    proof (cases "p = q")
      case True
      have m: "nested_count us = length (p_children (ps ! q))" "distinct (p_children (ps ! q))"
        using qk(3) us(1) by (simp_all add: owner_ok_def ops_match_def)
      then show ?thesis
        using True f3(4,5) [OF kp(2)] remove_nth_props(2,3) [OF n(1)] us(2) by (simp add: ops_match_def)
    next
      case False
      then show ?thesis using f3(4,5) [OF kp(2)] op by (simp add: owner_ok_def ops_match_def split: option.splits)
    qed
    ultimately show ?thesis by (simp add: owner_ok_def)
  qed
  moreover have "parents_before ps3" using pb f3(1) len3 by (simp add: parents_before_def)
  moreover have "kept ps3 0" using ok k3 [of 0] i(2) by (simp add: kept_ok_def)
  ultimately show ?thesis by (simp add: kept_ok_def ps3_def)
qed

lemma length_drop_children: "length (drop_children is ps) = length ps"
  unfolding drop_children_def by (induction "is" arbitrary: ps) auto

lemma prune_frame_ok:
  assumes ok: "kept_ok ps" and i: "kept ps i" "0 < i"
  shows "\<exists>ps'. prune_frame i ps = Inr ps' \<and> kept_ok ps' \<and> length ps' = length ps"
proof -
  obtain q where q: "p_parent (ps ! i) = Some q" "kept ps q" "i \<in> set (p_children (ps ! q))"
    using kept_child [OF ok i] by blast
  obtain n where n: "position i (p_children (ps ! q)) = Some n" "n < length (p_children (ps ! q))"
    "p_children (ps ! q) ! n = i"
    using position_mem [OF q(3)] by blast
  obtain fb where fb: "p_fallback (ps ! i) = Some fb" using ok i by (auto simp: kept_ok_def child_ok_def)
  have "ops_match (ps ! q)" using ok q by (simp add: kept_ok_def owner_ok_def)
  then obtain us where us: "p_updates (ps ! q) = Some us" "nested_count us = length (p_children (ps ! q))"
    using n(2) by (auto simp: ops_match_def split: option.splits)
  then obtain us' where us': "replace_nested n (Call fb) us = Some us'" "Suc (nested_count us') = nested_count us"
    using replace_nested_count [of n us "Call fb"] n(2) by auto
  note ok' = kept_ok_release [OF ok i q(1) us(1) us'(2) n(2,3) refl refl]
  have "q < length ps" using q(2) by (simp add: kept_def)
  then show ?thesis
    using ok' q n fb us us' by (simp add: prune_frame_def expect_def Let_def length_drop_children)
qed

lemma prune_step_ok:
  assumes "kept_ok (pr_programs st)" and "i < length (pr_programs st)" and "0 < i"
  shows "\<exists>st'. prune_step abi_seq cost st i = Inr st' \<and> kept_ok (pr_programs st')
    \<and> length (pr_programs st') = length (pr_programs st)"
proof (cases "p_dropped (pr_programs st ! i)")
  case True
  with assms show ?thesis by (simp add: prune_step_def Let_def)
next
  case False
  then have k: "kept (pr_programs st) i" using assms by (simp add: kept_def)
  obtain d where d: "depth_of (Suc (length (pr_programs st))) (pr_programs st) i = Inr d"
    using depth_of_total [of "pr_programs st" i "Suc (length (pr_programs st))"] assms
    by (auto simp: kept_ok_def simp del: depth_of.simps)
  obtain ps' where ps': "prune_frame i (pr_programs st) = Inr ps'" "kept_ok ps'"
    "length ps' = length (pr_programs st)"
    using prune_frame_ok [OF assms(1) k assms(3)] by blast
  show ?thesis
    using False d ps' assms by (simp add: prune_step_def Let_def del: depth_of.simps)
qed

lemma prune_fold_ok:
  "list_all (\<lambda>i. 0 < i \<and> i < n) is \<Longrightarrow> kept_ok (pr_programs st) \<Longrightarrow> length (pr_programs st) = n \<Longrightarrow>
     \<exists>st'. fold_res (prune_step abi_seq cost) is st = Inr st' \<and> kept_ok (pr_programs st')"
proof (induction "is" arbitrary: st)
  case (Cons i "is")
  then obtain st1 where "prune_step abi_seq cost st i = Inr st1" "kept_ok (pr_programs st1)"
    "length (pr_programs st1) = n"
    using prune_step_ok [of st i abi_seq cost] by auto
  with Cons show ?case by simp
qed simp

lemma prune_unprofitable_ok:
  assumes "kept_ok ps"
  shows "\<exists>ps'. prune_unprofitable abi_seq cost ps = Inr ps' \<and> kept_ok ps'"
proof -
  let ?st = "\<lparr>pr_programs = ps, witness_bytes = replicate (length ps) 0, net_savings = replicate (length ps) 0\<rparr>"
  have "list_all (\<lambda>i. 0 < i \<and> i < length ps) (rev [1..<length ps])" by (auto simp: list_all_iff)
  then obtain st where "fold_res (prune_step abi_seq cost) (rev [1..<length ps]) ?st = Inr st" "kept_ok (pr_programs st)"
    using prune_fold_ok [of "length ps" "rev [1..<length ps]" ?st abi_seq cost] assms by auto
  then show ?thesis by (simp add: prune_unprofitable_def)
qed

section \<open>Compaction\<close>

abbreviation survivors :: "program_state list \<Rightarrow> program_state list" where
  "survivors ps \<equiv> filter (\<lambda>p. \<not> p_dropped p) ps"

definition rank :: "program_state list \<Rightarrow> nat \<Rightarrow> nat" where
  "rank ps i = length (survivors (take i ps))"

lemma remap_from_rank:
  "kept ps i \<Longrightarrow> remap_from n ps ! i = n + rank ps i"
proof (induction ps arbitrary: n i)
  case (Cons p ps)
  then show ?case by (cases i) (auto simp: kept_def rank_def)
qed (simp add: kept_def)

lemma rank_nth: "kept ps i \<Longrightarrow> rank ps i < length (survivors ps) \<and> survivors ps ! rank ps i = ps ! i"
proof (induction ps arbitrary: i)
  case (Cons p ps)
  then show ?case by (cases i) (auto simp: kept_def rank_def)
qed (simp add: kept_def)

lemma rank_less: "kept ps i \<Longrightarrow> i < j \<Longrightarrow> rank ps i < rank ps j"
proof (induction ps arbitrary: i j)
  case (Cons p ps)
  then show ?case by (cases i; cases j) (auto simp: kept_def rank_def)
qed (simp add: kept_def)

lemma rank_onto: "k < length (survivors ps) \<Longrightarrow> \<exists>i. kept ps i \<and> rank ps i = k"
proof (induction ps arbitrary: k)
  case (Cons p ps)
  show ?case
  proof (cases "\<not> p_dropped p \<and> k = 0")
    case True
    then show ?thesis by (intro exI [of _ 0]) (simp add: kept_def rank_def)
  next
    case False
    then obtain i where "kept ps i" "rank ps i = (if p_dropped p then k else k - 1)"
      using Cons.IH [of "if p_dropped p then k else k - 1"] Cons.prems by (cases k) (auto split: if_splits)
    then show ?thesis using False by (intro exI [of _ "Suc i"]) (auto simp: kept_def rank_def)
  qed
qed simp

lemma rank_inj: "kept ps i \<Longrightarrow> kept ps j \<Longrightarrow> rank ps i = rank ps j \<longleftrightarrow> i = j"
  using rank_less [of ps i j] rank_less [of ps j i] by (metis less_irrefl linorder_neqE_nat)

text \<open>
  A well-formed tree: every frame has one child per \<open>NESTED\<close> op, children follow their parent,
  and every frame but the root has a transition index and is the child of exactly one frame.
\<close>

definition frame_linked :: "frame_program list \<Rightarrow> nat \<Rightarrow> bool" where
  "frame_linked fs i \<longleftrightarrow> nested_count (fp_updates (fs ! i)) = length (fp_children (fs ! i))
     \<and> distinct (fp_children (fs ! i)) \<and> list_all (\<lambda>c. i < c \<and> c < length fs) (fp_children (fs ! i))"

definition well_formed_tree :: "frame_program list \<Rightarrow> bool" where
  "well_formed_tree fs \<longleftrightarrow> fs \<noteq> [] \<and> list_all (frame_linked fs) [0..<length fs]
     \<and> list_all (\<lambda>c. fp_transition_index (fs ! c) \<noteq> None
          \<and> length (filter (\<lambda>f. c \<in> set (fp_children f)) fs) = 1) [1..<length fs]"

lemma compact_nth:
  assumes "compact ps = Inr fs" and "kept ps i"
  shows "length fs = length (survivors ps)" "rank ps i < length fs"
    "p_updates (ps ! i) = Some (fp_updates (fs ! rank ps i))"
    "fp_children (fs ! rank ps i) = map (\<lambda>c. remap_from 0 ps ! c) (p_children (ps ! i))"
    "fp_transition_index (fs ! rank ps i) = p_transition_index (ps ! i)"
proof -
  have m: "map_res (compact_program (remap_from 0 ps)) (survivors ps) = Inr fs" using assms(1) by (simp add: compact_def)
  show len: "length fs = length (survivors ps)" using map_res_length [OF m] .
  have r: "rank ps i < length (survivors ps)" "survivors ps ! rank ps i = ps ! i" using rank_nth [OF assms(2)] by auto
  then show "rank ps i < length fs" using len by simp
  have "Inr (fs ! rank ps i) = compact_program (remap_from 0 ps) (ps ! i)" using map_res_nth [OF m r(1)] r(2) by simp
  then show "p_updates (ps ! i) = Some (fp_updates (fs ! rank ps i))"
    "fp_children (fs ! rank ps i) = map (\<lambda>c. remap_from 0 ps ! c) (p_children (ps ! i))"
    "fp_transition_index (fs ! rank ps i) = p_transition_index (ps ! i)"
    by (cases "p_updates (ps ! i)"; simp add: compact_program_def)+
qed

lemma length_filter_unique:
  assumes "i < length xs" and "\<And>j. j < length xs \<Longrightarrow> P (xs ! j) \<longleftrightarrow> j = i"
  shows "length (filter P xs) = 1"
proof -
  have "length (filter P xs) = card {j. j < length xs \<and> P (xs ! j)}" by (rule length_filter_conv_card)
  also have "{j. j < length xs \<and> P (xs ! j)} = {i}" using assms by auto
  finally show ?thesis by simp
qed

lemma compact_well_formed:
  assumes ok: "kept_ok ps" and c: "compact ps = Inr fs"
  shows "well_formed_tree fs"
proof -
  note nth = compact_nth [OF c]
  have root: "kept ps 0" using ok by (simp add: kept_ok_def)
  have kids: "fp_children (fs ! rank ps i) = map (rank ps) (p_children (ps ! i))" if "kept ps i" for i
    using nth(4) [OF that] ok that remap_from_rank [of ps _ 0] by (auto simp: kept_ok_def owner_ok_def)
  have own: "owner_ok ps i" if "kept ps i" for i using ok that by (simp add: kept_ok_def)
  have after: "i < j" "kept ps j" "p_parent (ps ! j) = Some i" if "kept ps i" "j \<in> set (p_children (ps ! i))" for i j
  proof -
    show j: "kept ps j" "p_parent (ps ! j) = Some i" using own [OF that(1)] that(2) by (auto simp: owner_ok_def)
    then show "i < j" using ok by (auto simp: kept_ok_def parents_before_def kept_def dest!: spec [of _ j])
  qed
  have "frame_linked fs k" if k: "k < length fs" for k
  proof -
    obtain i where i: "kept ps i" "rank ps i = k" using rank_onto [of k ps] k nth(1) [OF root] by auto
    have "nested_count (fp_updates (fs ! k)) = length (p_children (ps ! i))"
      using own [OF i(1)] nth(3) [OF i(1)] i(2) by (simp add: owner_ok_def ops_match_def)
    moreover have "distinct (map (rank ps) (p_children (ps ! i)))"
      using own [OF i(1)] after(2) [OF i(1)] rank_inj by (auto simp: owner_ok_def distinct_map inj_on_def)
    moreover have "list_all (\<lambda>c. k < c \<and> c < length fs) (map (rank ps) (p_children (ps ! i)))"
      using after [OF i(1)] rank_less [OF i(1)] nth(2) i(2) by (auto simp: list_all_iff)
    ultimately show ?thesis using kids [OF i(1)] i(2) by (simp add: frame_linked_def)
  qed
  moreover have "fp_transition_index (fs ! k) \<noteq> None \<and> length (filter (\<lambda>f. k \<in> set (fp_children f)) fs) = 1"
    if k: "0 < k" "k < length fs" for k
  proof -
    obtain j where j: "kept ps j" "rank ps j = k" using rank_onto [of k ps] k nth(1) [OF root] by auto
    then have "0 < j" using k by (cases j) (auto simp: rank_def)
    then obtain q where q: "p_parent (ps ! j) = Some q" "kept ps q" "j \<in> set (p_children (ps ! q))"
      using kept_child [OF ok j(1)] by blast
    have "length (filter (\<lambda>f. k \<in> set (fp_children f)) fs) = 1"
    proof (rule length_filter_unique)
      show "rank ps q < length fs" using nth(2) [OF q(2)] .
      fix m assume "m < length fs"
      then obtain i where i: "kept ps i" "rank ps i = m" using rank_onto [of m ps] nth(1) [OF root] by auto
      have "k \<in> set (fp_children (fs ! m)) \<longleftrightarrow> j \<in> set (p_children (ps ! i))"
        using kids [OF i(1)] i(2) j after(2) [OF i(1)] rank_inj by auto
      also have "\<dots> \<longleftrightarrow> i = q" using q after(3) [OF i(1), of j] by auto
      also have "\<dots> \<longleftrightarrow> m = rank ps q" using rank_inj [OF i(1) q(2)] i(2) by auto
      finally show "k \<in> set (fp_children (fs ! m)) \<longleftrightarrow> m = rank ps q" .
    qed
    moreover have "fp_transition_index (fs ! k) \<noteq> None"
      using nth(5) [OF j(1)] j ok \<open>0 < j\<close> by (auto simp: kept_ok_def child_ok_def)
    ultimately show ?thesis by blast
  qed
  moreover have "fs \<noteq> []" using nth(2) [OF root] by auto
  ultimately show ?thesis by (simp add: well_formed_tree_def list_all_iff)
qed

lemma map_res_error: "map_res f xs = Inl e \<Longrightarrow> \<exists>x \<in> set xs. f x = Inl e"
  by (induction xs) (auto simp: res_simps)

lemma compact_error: "compact ps = Inl e \<Longrightarrow> e = NeverReturned"
  by (auto simp: compact_def compact_program_def dest!: map_res_error split: option.splits)

section \<open>Splitting a trace\<close>

lemma split_frame_tree_cases:
  assumes "walk_trace hexd (keccak256 cd) el root (struct_logs trace) = Inr (s, moves)"
  shows "split_frame_tree hexd cd abi_seq trace root el cost = Inl NeverReturned
    \<or> (\<exists>tree. split_frame_tree hexd cd abi_seq trace root el cost = Inr tree \<and> well_formed_tree (ft_frames tree))"
proof -
  have "kept_ok (retain_children (drop_descendants_of_dropped (programs s)))"
    using walk_trace_walked [OF assms] by (rule walked_kept)
  then obtain ps where ps: "prune_unprofitable abi_seq cost
      (retain_children (drop_descendants_of_dropped (programs s))) = Inr ps" "kept_ok ps"
    using prune_unprofitable_ok by blast
  show ?thesis
    using assms ps compact_well_formed [OF ps(2)] compact_error [of ps]
    by (cases "compact ps") (auto simp: split_frame_tree_def)
qed

lemma split_frame_tree_well_formed:
  assumes "split_frame_tree hexd cd abi_seq trace root el cost = Inr tree"
  shows "well_formed_tree (ft_frames tree)"
proof -
  obtain s moves where "walk_trace hexd (keccak256 cd) el root (struct_logs trace) = Inr (s, moves)"
    using assms by (auto simp: split_frame_tree_def bind_res_Inr_iff)
  from split_frame_tree_cases [OF this, of abi_seq cost] assms show ?thesis by auto
qed

lemma well_formed_tree_frame:
  assumes "well_formed_tree fs" and "i < length fs"
  shows "frame_linked fs i"
proof -
  have "list_all (frame_linked fs) [0..<length fs]" using assms(1) by (simp add: well_formed_tree_def)
  with assms(2) show ?thesis by (simp add: list_all_iff)
qed

lemma well_formed_tree_child:
  assumes "well_formed_tree fs" and "0 < c" and "c < length fs"
  shows "fp_transition_index (fs ! c) \<noteq> None \<and> length (filter (\<lambda>f. c \<in> set (fp_children f)) fs) = 1"
proof -
  have "list_all (\<lambda>c. fp_transition_index (fs ! c) \<noteq> None
      \<and> length (filter (\<lambda>f. c \<in> set (fp_children f)) fs) = 1) [1..<length fs]"
    using assms(1) by (simp add: well_formed_tree_def)
  with assms(2,3) show ?thesis by (simp add: list_all_iff)
qed

lemma well_formed_tree_ok:
  assumes "well_formed_tree fs"
  shows "tree_ok fs \<longleftrightarrow> fp_transition_index (fs ! 0) \<noteq> None"
proof -
  have ne: "0 < length fs" using assms by (simp add: well_formed_tree_def)
  have frame: "frame_ok fs i \<longleftrightarrow> fp_transition_index (fs ! i) \<noteq> None" if "i < length fs" for i
    using well_formed_tree_frame [OF assms that] by (simp add: frame_linked_def frame_ok_def)
  have "fp_transition_index (fs ! i) \<noteq> None" if "0 < i" "i < length fs" for i
    using well_formed_tree_child [OF assms that] by simp
  with frame have "frame_ok fs i" if "i < length fs" "frame_ok fs 0" for i
    using that by (cases "i = 0") simp_all
  with ne have "list_all (frame_ok fs) [0..<length fs] \<longleftrightarrow> frame_ok fs 0" by (auto simp: list_all_iff)
  with frame [OF ne] ne show ?thesis by (simp add: tree_ok_def)
qed

text \<open>
  C17. What the splitter returns, the encoder accepts: every tree split from a trace, for
  consumers or for a hypothetical integration, has one child per \<open>NESTED\<close> op, children after
  their parents and each frame but the root under exactly one parent, so encoding it fails
  only when the root has no transition index.
\<close>

theorem split_tree_encodes:
  assumes "split_frame_tree hexd cd abi_seq trace root el cost = Inr tree"
  shows "well_formed_tree (ft_frames tree)
    \<and> ((\<exists>t. encode_frame_tree cd abi_seq (ft_frames tree) sel val chain expiry = Inr t)
         \<longleftrightarrow> fp_transition_index (ft_frames tree ! 0) \<noteq> None)"
  using split_frame_tree_well_formed [OF assms] well_formed_tree_ok encode_frame_tree_accepts_iff by blast


section \<open>A sample split\<close>

text \<open>
  The root bumps its tracker and calls a contract of its owner, which bumps its own; both
  calls of the owned contract become frames, the second of which reverts and is dropped.
\<close>

definition owned_trace :: default_frame where
  "owned_trace = \<lparr>failed = False, frame_gas = 9000, return_value = [], struct_logs =
     [sample_log ''SSTORE'' 1 9000 100 [4, STATE_TRACKER_SLOT],
      sample_log ''CALL'' 1 8900 3000 [0, 0, 0, 0, 0, 187, 2500],
      sample_log ''SSTORE'' 2 2500 120 [3, 9],
      sample_log ''STOP'' 2 2300 0 [],
      sample_log ''CALL'' 1 8000 3000 [1, 0, 0, 0, 0, 0, 187, 2500],
      sample_log ''REVERT'' 2 2500 120 [0, 0],
      sample_log ''STOP'' 1 5000 0 [0]]\<rparr>"

definition free_nesting :: nesting_cost_model where
  "free_nesting = \<lparr>frame_overhead_gas = 0, witness_byte_gas = 0, witness_byte_gas_per_level = 0\<rparr>"

lemma owned_trace_split:
  "map_sum id (\<lambda>t. map (\<lambda>f. (fp_transition_index f, length (fp_updates f), fp_children f)) (ft_frames t))
     (split_frame_tree (\<lambda>_. None) toy_codec (\<lambda>_. []) owned_trace 170 (Hypothetical [187]) free_nesting)
   = Inr [(Some 3, 2, [1]), (Some 0, 1, [])]"
  by code_simp

theorem split_tree_encodes_witness:
  "\<exists>tree t. split_frame_tree (\<lambda>_. None) toy_codec (\<lambda>_. []) owned_trace 170 (Hypothetical [187]) free_nesting = Inr tree
     \<and> length (ft_frames tree) = 2 \<and> well_formed_tree (ft_frames tree)
     \<and> encode_frame_tree toy_codec (\<lambda>_. []) (ft_frames tree) [] 0 1 900 = Inr t"
proof -
  obtain tree where tree: "split_frame_tree (\<lambda>_. None) toy_codec (\<lambda>_. []) owned_trace 170 (Hypothetical [187])
      free_nesting = Inr tree"
    and fs: "map (\<lambda>f. (fp_transition_index f, length (fp_updates f), fp_children f)) (ft_frames tree)
      = [(Some 3, 2, [1]), (Some 0, 1, [])]"
    using owned_trace_split
    by (cases "split_frame_tree (\<lambda>_. None) toy_codec (\<lambda>_. []) owned_trace 170 (Hypothetical [187]) free_nesting") auto
  from fs have "length (ft_frames tree) = 2" "fp_transition_index (ft_frames tree ! 0) = Some 3"
    by (auto simp: map_eq_Cons_conv)
  with split_tree_encodes [OF tree, of "[]" 0 1 900] tree show ?thesis by auto
qed


end
