(* ===== verification/Wasm_Analysis.thy ===== *)
theory Wasm_Analysis
  imports Estimator Lean_Trace Frame_Wellformed "HOL-Library.List_Lexorder" "HOL-Library.Char_ord"
begin

text \<open>
  The analysis behind the JavaScript exports, \<^verbatim>\<open>crates/wasm/src/lib.rs\<close>: a trace or a prestate diff
  is turned into a program or a frame tree and priced in an EVM over an empty state seeded with
  what the diff says the transaction found, or over the whole prestate so that callees run their
  own code. Decoding of JSON, addresses and numbers, hexadecimal printing, bytecode checks and
  the EVM are the record \<open>wasm_env\<close>; the conversion of results to JavaScript values is left out.
\<close>

section \<open>Inputs and results\<close>

record account_state =
  acs_balance :: "u256 option"
  acs_nonce :: "u64 option"
  acs_code :: "bytes option"
  acs_storage :: account_storage

record state_diff =
  sd_pre :: "(address, account_state) omap"
  sd_post :: "(address, account_state) omap"

text \<open>What the classifier and the builder of the net form read of a diff.\<close>

definition storage_diff :: "state_diff \<Rightarrow> diff_mode" where
  "storage_diff d = \<lparr>pre = map (\<lambda>(a, s). (a, acs_storage s)) (sd_pre d),
     post = map (\<lambda>(a, s). (a, acs_storage s)) (sd_post d)\<rparr>"

record trace_response =
  tres_result :: "lean_frame option"
  tres_error :: "string option"

record seeds =
  seed_storage :: "(address, account_storage) omap"
  seed_accounts :: "(address, account_info) omap"

record replay =
  ry_seeds :: seeds
  ry_gas_price :: u128
  ry_timestamp :: u64

datatype analysis_error =
    ParseTraceFailed string
  | ParseLogFailed lean_error
  | NoResultNoError
  | ComputeFailed core_error
  | InvalidAddress string string
  | InvalidOwned string string
  | InvalidWei string string
  | WeiOutOfRange string
  | PrestateNeedsOrigin
  | DiffNeedsOrigin
  | ParseDiffFailed string
  | ParseFrameFailed string
  | ParsePrestateFailed string
  | InvalidCode address string
  | SeedFailed string
  | SplitFailed core_error
  | GasEstimationFailed est_error
  | SettlementFailed string est_error
  | ReturnOrderPanic

datatype bytes_error =
    RpcFailed string bool
  | AnalysisFailed analysis_error

record 'db wasm_env =
  js_trace :: "string \<Rightarrow> string + lean_frame"
  js_response :: "bytes \<Rightarrow> string + trace_response"
  js_diff :: "string \<Rightarrow> string + state_diff"
  js_call_frame :: "string \<Rightarrow> string + call_frame"
  js_prestate :: "string \<Rightarrow> string + (address, account_state) omap"
  js_address :: "string \<Rightarrow> string + address"
  js_address_str :: "address \<Rightarrow> string"
  js_u256 :: "string \<Rightarrow> string + u256"
  js_bytecode :: "bytes \<Rightarrow> string + bytes"
  js_hex_encode :: "bytes \<Rightarrow> string"
  js_hexd :: hexd
  js_abi :: abi_seq
  js_codec :: codec
  js_evm :: "'db evm"
  js_empty_db :: 'db

record analyze_trace_result =
  ar_encoded_updates :: string
  ar_gas_estimate :: u64
  ar_is_heuristic :: bool
  ar_state_update_count :: nat
  ar_skipped_opcodes :: "string list"
  ar_reentered :: bool
  ar_native_call_gas :: u64
  ar_callees_executed :: bool
  ar_replay_error :: "analysis_error option"
  ar_signature_verification_gas :: u64

record prestate_analysis =
  pa_eligible :: bool
  pa_reason :: "(string + fallback_reason) option"
  pa_result :: "analyze_trace_result option"

record encode_trace_result =
  er_encoded_updates :: string
  er_state_update_count :: nat
  er_skipped_opcodes :: "string list"

record estimate_gas_result =
  eg_gas_estimate :: u64
  eg_is_heuristic :: bool
  eg_state_update_count :: nat
  eg_skipped_opcodes :: "string list"
  eg_reentered :: bool

definition SIGNATURE_VERIFICATION_GAS :: u64 where
  "SIGNATURE_VERIFICATION_GAS = TURETZKY_UPPER_GAS_LIMIT_SCHNORR"

definition sorted_opcodes :: "string set \<Rightarrow> string list" where
  "sorted_opcodes = sorted_list_of_set"

section \<open>Reading a trace\<close>

text \<open>The account a call entered a frame in: the next log is one deeper.\<close>

definition entered_callee :: "struct_log \<Rightarrow> struct_log \<Rightarrow> address option" where
  "entered_callee call nxt =
     (if (op call \<noteq> ''CALL'' \<and> op call \<noteq> ''CALLCODE'') \<or> error call \<noteq> None \<or> depth nxt \<noteq> depth call + 1
      then None
      else case stack call of
             None \<Rightarrow> None
           | Some st \<Rightarrow> if length st < 2 then None else Some (address_from_word (st ! (length st - 2))))"

fun entered_callees :: "struct_log list \<Rightarrow> address list" where
  "entered_callees (call # nxt # rest) =
     (case entered_callee call nxt of None \<Rightarrow> [] | Some a \<Rightarrow> [a]) @ entered_callees (nxt # rest)"
| "entered_callees _ = []"

definition callees_with_code :: "default_frame \<Rightarrow> address set" where
  "callees_with_code trace = set (entered_callees (struct_logs trace))"

definition compute :: "'db wasm_env \<Rightarrow> lean_frame \<Rightarrow> address option \<Rightarrow>
    analysis_error + trace_extract \<times> address set" where
  "compute js lean origin =
     bind_res (map_err ParseLogFailed (parse_lean_frame lean)) (\<lambda>trace.
     bind_res (map_err ComputeFailed (compute_state_updates (js_hexd js) trace origin)) (\<lambda>extract.
     Inr (extract, callees_with_code trace)))"

definition parse_and_compute :: "'db wasm_env \<Rightarrow> string \<Rightarrow> address option \<Rightarrow>
    analysis_error + trace_extract \<times> address set" where
  "parse_and_compute js trace_json origin =
     bind_res (map_err ParseTraceFailed (js_trace js trace_json)) (\<lambda>lean. compute js lean origin)"

definition is_too_large :: "string \<Rightarrow> bool" where
  "is_too_large message =
     (let m = to_lowercase message
      in str_contains m ''too big'' \<or> str_contains m ''too large'' \<or> str_contains m ''size exceeds''
         \<or> str_contains m ''larger than''
         \<or> (case find_str ''exceeds'' m of None \<Rightarrow> False | Some i \<Rightarrow> str_contains (drop i m) ''limit''))"

definition parse_address_arg :: "'db wasm_env \<Rightarrow> string \<Rightarrow> string \<Rightarrow> analysis_error + address" where
  "parse_address_arg js name s = map_err (InvalidAddress name) (js_address js s)"

definition parse_origin :: "'db wasm_env \<Rightarrow> string option \<Rightarrow> analysis_error + address option" where
  "parse_origin js origin_address =
     (case origin_address of None \<Rightarrow> Inr None
      | Some s \<Rightarrow> bind_res (parse_address_arg js ''origin'' s) (\<lambda>a. Inr (Some a)))"

definition parse_caller :: "'db wasm_env \<Rightarrow> string \<Rightarrow> analysis_error + address" where
  "parse_caller js s = parse_address_arg js ''caller'' s"

definition parse_wei :: "'db wasm_env \<Rightarrow> string \<Rightarrow> string option \<Rightarrow> analysis_error + u256" where
  "parse_wei js name wei =
     (case wei of None \<Rightarrow> Inr 0 | Some v \<Rightarrow> map_err (InvalidWei name) (js_u256 js v))"

definition parse_value :: "'db wasm_env \<Rightarrow> string option \<Rightarrow> analysis_error + u256" where
  "parse_value js value = parse_wei js ''value'' value"

definition parse_diff :: "'db wasm_env \<Rightarrow> string \<Rightarrow> analysis_error + state_diff" where
  "parse_diff js diff_json = map_err ParseDiffFailed (js_diff js diff_json)"

definition parse_trace_response :: "'db wasm_env \<Rightarrow> bytes \<Rightarrow> bytes_error + lean_frame" where
  "parse_trace_response js response =
     bind_res (map_err (AnalysisFailed \<circ> ParseTraceFailed) (js_response js response)) (\<lambda>r.
     bind_res (case tres_result r of None \<Rightarrow> Inr ()
         | Some f \<Rightarrow> bind_res (map_err (AnalysisFailed \<circ> ParseLogFailed) (parse_lean_frame f)) (\<lambda>_. Inr ())) (\<lambda>_.
     case (tres_result r, tres_error r) of
       (_, Some message) \<Rightarrow> Inl (RpcFailed message (is_too_large message))
     | (Some trace, None) \<Rightarrow> Inr trace
     | (None, None) \<Rightarrow> Inl (AnalysisFailed NoResultNoError)))"

section \<open>Seeding the empty state\<close>

definition existing_account :: "'db wasm_env \<Rightarrow> account_info" where
  "existing_account js = (default_account (keccak_empty (js_evm js)))\<lparr>ai_nonce := 1\<rparr>"

definition called_account :: "'db wasm_env \<Rightarrow> state_diff option \<Rightarrow> address set \<Rightarrow> state_update \<Rightarrow>
    (address \<times> account_info) option" where
  "called_account js diff with_code u =
     (case u of
        Call call \<Rightarrow>
          (let target = call_target call
           in case (case diff of None \<Rightarrow> None | Some d \<Rightarrow> map_of (sd_pre d) target) of
                None \<Rightarrow> if target \<in> with_code then Some (target, existing_account js) else None
              | Some acc \<Rightarrow>
                  (let balance = (case acs_balance acc of None \<Rightarrow> 0 | Some b \<Rightarrow> b);
                       nonce = (case acs_nonce acc of None \<Rightarrow> 0 | Some n \<Rightarrow> n);
                       has_code = ((case acs_code acc of None \<Rightarrow> False | Some c \<Rightarrow> c \<noteq> []) \<or> target \<in> with_code)
                   in if balance = 0 \<and> nonce = 0 \<and> \<not> has_code then None
                      else Some (target, (default_account (keccak_empty (js_evm js)))
                             \<lparr>ai_balance := balance, ai_nonce := (if has_code then max nonce 1 else nonce)\<rparr>)))
      | _ \<Rightarrow> None)"

definition called_accounts :: "'db wasm_env \<Rightarrow> state_diff option \<Rightarrow> state_update list \<Rightarrow> address set \<Rightarrow>
    (address, account_info) omap" where
  "called_accounts js diff us with_code = om_extend [] (List.map_filter (called_account js diff with_code) us)"

definition last_writes :: "state_update list \<Rightarrow> account_storage" where
  "last_writes us = om_extend [] (List.map_filter store_of us)"

definition original_value :: "account_storage option \<Rightarrow> account_storage option \<Rightarrow> b256 \<Rightarrow> b256 \<Rightarrow> b256" where
  "original_value before after slot final =
     (case (case before of None \<Rightarrow> None | Some p \<Rightarrow> map_of p slot) of
        Some v \<Rightarrow> v
      | None \<Rightarrow> if (case after of None \<Rightarrow> False | Some p \<Rightarrow> slot \<in> set (om_keys p)) then 0 else final)"

definition original_storage :: "state_diff \<Rightarrow> address \<Rightarrow> state_update list \<Rightarrow> account_storage" where
  "original_storage diff account us =
     (let before = map_option acs_storage (map_of (sd_pre diff) account);
          after = map_option acs_storage (map_of (sd_post diff) account)
      in map (\<lambda>(slot, final). (slot, original_value before after slot final)) (last_writes us))"

definition seeds_for_program :: "'db wasm_env \<Rightarrow> (state_diff \<times> address) option \<Rightarrow> address \<Rightarrow> state_update list \<Rightarrow>
    address set \<Rightarrow> seeds" where
  "seeds_for_program js diff at us with_code =
     \<lparr>seed_storage = (case diff of None \<Rightarrow> [] | Some (d, consumer) \<Rightarrow> [(at, original_storage d consumer us)]),
      seed_accounts = called_accounts js (map_option fst diff) us with_code\<rparr>"

definition seed_slot :: "'db wasm_env \<Rightarrow> address \<Rightarrow> 'db \<Rightarrow> b256 \<times> b256 \<Rightarrow> analysis_error + 'db" where
  "seed_slot js account db = (\<lambda>(slot, value).
     if value = 0 then Inr db
     else map_err SeedFailed (insert_account_storage (js_evm js) account slot value db))"

definition seeded_db :: "'db wasm_env \<Rightarrow> seeds \<Rightarrow> analysis_error + 'db" where
  "seeded_db js sd =
     (let db = fold (\<lambda>(a, info). insert_account_info (js_evm js) a info) (seed_accounts sd) (js_empty_db js)
      in fold_res (\<lambda>db (a, slots). fold_res (seed_slot js a) slots db) (seed_storage sd) db)"

section \<open>Replays over the prestate\<close>

definition seed_of_account :: "'db wasm_env \<Rightarrow> seeds \<Rightarrow> address \<times> account_state \<Rightarrow> analysis_error + seeds" where
  "seed_of_account js sd = (\<lambda>(address, account).
     let code = (case acs_code account of None \<Rightarrow> None | Some c \<Rightarrow> if c = [] then None else Some c);
         code_hash = (case code of None \<Rightarrow> keccak_empty (js_evm js) | Some c \<Rightarrow> keccak256 (js_codec js) c)
     in bind_res (case code of None \<Rightarrow> Inr None
          | Some c \<Rightarrow> bind_res (map_err (InvalidCode address) (js_bytecode js c)) (\<lambda>b. Inr (Some b))) (\<lambda>code.
        Inr (sd\<lparr>seed_accounts := om_insert address
               \<lparr>ai_balance = (case acs_balance account of None \<Rightarrow> 0 | Some b \<Rightarrow> b),
                ai_nonce = (case acs_nonce account of None \<Rightarrow> 0 | Some n \<Rightarrow> n),
                ai_code_hash = code_hash, ai_code = code\<rparr> (seed_accounts sd),
             seed_storage := om_insert address (acs_storage account) (seed_storage sd)\<rparr>)))"

definition replay_seeds :: "'db wasm_env \<Rightarrow> (address, account_state) omap \<Rightarrow> analysis_error + seeds" where
  "replay_seeds js state = fold_res (seed_of_account js) state \<lparr>seed_storage = [], seed_accounts = []\<rparr>"

definition parse_replay :: "'db wasm_env \<Rightarrow> string \<Rightarrow> string option \<Rightarrow> u64 option \<Rightarrow> analysis_error + replay" where
  "parse_replay js prestate_json gas_price timestamp =
     bind_res (map_err ParsePrestateFailed (js_prestate js prestate_json)) (\<lambda>state.
     bind_res (parse_wei js ''gas price'' gas_price) (\<lambda>price.
     if unat price \<ge> 2 ^ 128 then Inl (WeiOutOfRange ''gas price'')
     else bind_res (replay_seeds js state) (\<lambda>sd.
          Inr \<lparr>ry_seeds = sd, ry_gas_price = ucast price,
               ry_timestamp = (case timestamp of None \<Rightarrow> 0 | Some t \<Rightarrow> t)\<rparr>)))"

definition wasm_sim_env :: "'db wasm_env \<Rightarrow> u64 option \<Rightarrow> u256 \<Rightarrow> sim_env_opts" where
  "wasm_sim_env js block_number value =
     \<lparr>se_number = (case block_number of None \<Rightarrow> 0 | Some n \<Rightarrow> n), se_timestamp = 0, se_gas_limit = 30000000,
      se_coinbase = 0, se_prevrandao = 0, se_gas_price = 0, se_basefee = 0, se_difficulty = 0,
      se_spec = osaka (js_evm js), se_value = value\<rparr>"

definition replay_sim_env :: "'db wasm_env \<Rightarrow> replay \<Rightarrow> u64 option \<Rightarrow> u256 \<Rightarrow> sim_env_opts" where
  "replay_sim_env js ry block_number value =
     (wasm_sim_env js block_number value)\<lparr>se_gas_price := ry_gas_price ry, se_timestamp := ry_timestamp ry\<rparr>"

section \<open>Analyzing a program\<close>

definition replayed_estimate :: "'db wasm_env \<Rightarrow> address \<Rightarrow> state_update list \<Rightarrow> u64 option \<Rightarrow> u256 \<Rightarrow>
    replay \<times> address \<Rightarrow> analysis_error + u64" where
  "replayed_estimate js caller us block_number value = (\<lambda>(ry, consumer).
     bind_res (seeded_db js (ry_seeds ry)) (\<lambda>db.
     map_err GasEstimationFailed (estimate_state_changes_gas (js_evm js) (js_abi js) consumer caller us
       (replay_sim_env js ry block_number value) db)))"

definition analyze_extract :: "'db wasm_env \<Rightarrow> trace_extract \<Rightarrow> string \<Rightarrow> string \<Rightarrow> u64 option \<Rightarrow> string option \<Rightarrow>
    (state_diff \<times> address) option \<Rightarrow> address set \<Rightarrow> (replay \<times> address) option \<Rightarrow>
    analysis_error + analyze_trace_result" where
  "analyze_extract js extract estimator_address caller_address block_number value diff with_code ry =
     (let us = state_updates extract;
          encoded = encode_state_updates_to_abi (js_abi js) us
      in bind_res (parse_address_arg js ''estimator'' estimator_address) (\<lambda>addr.
         bind_res (parse_caller js caller_address) (\<lambda>caller.
         bind_res (parse_value js value) (\<lambda>value.
         let replayed = map_option (replayed_estimate js caller us block_number value) ry;
             replay_error = (case replayed of Some (Inl e) \<Rightarrow> Some e | _ \<Rightarrow> None)
         in bind_res
              (case replayed of
                 Some (Inr g) \<Rightarrow> Inr (g, False, True)
               | _ \<Rightarrow>
                   bind_res (seeded_db js (seeds_for_program js diff addr us with_code)) (\<lambda>db.
                   Inr (case estimate_state_changes_gas (js_evm js) (js_abi js) addr caller us
                               (wasm_sim_env js block_number value) db of
                          Inr g \<Rightarrow> (sat_add g (callee_gas_total extract), False, False)
                        | Inl _ \<Rightarrow> (estimate_gas_from_state_updates (js_abi js) extract, True, False)))) (\<lambda>(g, heur, exec).
            Inr \<lparr>ar_encoded_updates = ''0x'' @ js_hex_encode js encoded, ar_gas_estimate = g,
                 ar_is_heuristic = heur, ar_state_update_count = length us,
                 ar_skipped_opcodes = sorted_opcodes (skipped_opcodes extract),
                 ar_reentered = reentered extract, ar_native_call_gas = callee_gas_total extract,
                 ar_callees_executed = exec, ar_replay_error = replay_error,
                 ar_signature_verification_gas = SIGNATURE_VERIFICATION_GAS\<rparr>)))))"

definition trace_replay :: "address option \<Rightarrow> replay option \<Rightarrow> analysis_error + (replay \<times> address) option" where
  "trace_replay origin ry =
     (case ry of None \<Rightarrow> Inr None
      | Some r \<Rightarrow> (case origin of None \<Rightarrow> Inl PrestateNeedsOrigin | Some a \<Rightarrow> Inr (Some (r, a))))"

definition trace_diff :: "'db wasm_env \<Rightarrow> address option \<Rightarrow> string option \<Rightarrow>
    analysis_error + (state_diff \<times> address) option" where
  "trace_diff js origin diff_json =
     (case diff_json of None \<Rightarrow> Inr None
      | Some j \<Rightarrow> (case origin of None \<Rightarrow> Inl DiffNeedsOrigin
          | Some a \<Rightarrow> bind_res (parse_diff js j) (\<lambda>d. Inr (Some (d, a)))))"

definition analyze_trace_inner :: "'db wasm_env \<Rightarrow> string \<Rightarrow> string \<Rightarrow> string \<Rightarrow> u64 option \<Rightarrow> string option \<Rightarrow>
    string option \<Rightarrow> string option \<Rightarrow> replay option \<Rightarrow> analysis_error + analyze_trace_result" where
  "analyze_trace_inner js trace_json estimator_address caller_address block_number origin_address value
     diff_json ry =
     bind_res (parse_origin js origin_address) (\<lambda>origin.
     bind_res (parse_and_compute js trace_json origin) (\<lambda>(extract, with_code).
     bind_res (trace_diff js origin diff_json) (\<lambda>diff.
     bind_res (trace_replay origin ry) (\<lambda>ry.
     analyze_extract js extract estimator_address caller_address block_number value diff with_code ry))))"

definition analyze_trace_bytes_inner :: "'db wasm_env \<Rightarrow> bytes \<Rightarrow> string \<Rightarrow> string \<Rightarrow> u64 option \<Rightarrow> string option \<Rightarrow>
    string option \<Rightarrow> string option \<Rightarrow> replay option \<Rightarrow> bytes_error + analyze_trace_result" where
  "analyze_trace_bytes_inner js response estimator_address caller_address block_number origin_address value
     diff_json ry =
     bind_res (map_err AnalysisFailed (parse_origin js origin_address)) (\<lambda>origin.
     bind_res (parse_trace_response js response) (\<lambda>trace.
     bind_res (map_err AnalysisFailed (compute js trace origin)) (\<lambda>(extract, with_code).
     bind_res (map_err AnalysisFailed (trace_diff js origin diff_json)) (\<lambda>diff.
     bind_res (map_err AnalysisFailed (trace_replay origin ry)) (\<lambda>ry.
     map_err AnalysisFailed (analyze_extract js extract estimator_address caller_address block_number value
       diff with_code ry))))))"

section \<open>The net form\<close>

definition SSTORE_COLD_SET_COST :: u64 where "SSTORE_COLD_SET_COST = 22100"
definition SSTORE_COLD_RESET_COST :: u64 where "SSTORE_COLD_RESET_COST = 5000"
definition SSTORE_CLEARS_REFUND :: u64 where "SSTORE_CLEARS_REFUND = 4800"

definition slot_cost :: "account_storage \<Rightarrow> account_storage \<Rightarrow> u64 \<times> u64 \<Rightarrow> b256 \<Rightarrow> u64 \<times> u64" where
  "slot_cost before after = (\<lambda>(g, refund) slot.
     let old = slot_or_zero before slot; new = slot_or_zero after slot
     in if old = new then (g, refund)
        else (g + (if old = 0 then SSTORE_COLD_SET_COST else SSTORE_COLD_RESET_COST),
              if old \<noteq> 0 \<and> new = 0 then refund + SSTORE_CLEARS_REFUND else refund))"

definition net_sstore_costs :: "state_diff \<Rightarrow> address \<Rightarrow> u64 \<times> u64" where
  "net_sstore_costs diff consumer =
     (let d = storage_diff diff; before = storage_in (diff_mode.pre d) consumer;
          after = storage_in (diff_mode.post d) consumer
      in foldl (slot_cost before after) (0, 0) (key_union before after))"

definition analyze_prestate_inner :: "'db wasm_env \<Rightarrow> string \<Rightarrow> string \<Rightarrow> string \<Rightarrow> string \<Rightarrow> string \<Rightarrow> u64 option \<Rightarrow>
    string option \<Rightarrow> analysis_error + prestate_analysis" where
  "analyze_prestate_inner js diff_json frame_json consumer_address estimator_address caller_address block_number value =
     bind_res (parse_diff js diff_json) (\<lambda>diff.
     bind_res (map_err ParseFrameFailed (js_call_frame js frame_json)) (\<lambda>frame.
     bind_res (parse_address_arg js ''consumer'' consumer_address) (\<lambda>consumer.
     if cf_typ frame \<noteq> ''CALL''
     then Inr \<lparr>pa_eligible = False, pa_reason = Some (Inl (cf_typ frame)), pa_result = None\<rparr>
     else case classify_prestate_eligibility frame (storage_diff diff) consumer of
       Fallback reason \<Rightarrow> Inr \<lparr>pa_eligible = False, pa_reason = Some (Inr reason), pa_result = None\<rparr>
     | Eligible \<Rightarrow>
         (let (sstore_gas, refund) = net_sstore_costs diff consumer;
              extract = \<lparr>state_updates = build_state_updates_from_prestate consumer (storage_diff diff) frame,
                skipped_opcodes = {}, call_gas_total = 0, callee_gas_total = 0, create_gas_total = 0,
                sstore_gas_total = sstore_gas, tx_refund_counter = refund, reentered = False\<rparr>
          in bind_res (analyze_extract js extract estimator_address caller_address block_number value
               (Some (diff, consumer)) {} None) (\<lambda>r.
             Inr \<lparr>pa_eligible = True, pa_reason = None, pa_result = Some r\<rparr>)))))"

definition estimate_gas_heuristic_inner :: "'db wasm_env \<Rightarrow> string \<Rightarrow> string option \<Rightarrow>
    analysis_error + estimate_gas_result" where
  "estimate_gas_heuristic_inner js trace_json origin_address =
     bind_res (parse_origin js origin_address) (\<lambda>origin.
     bind_res (parse_and_compute js trace_json origin) (\<lambda>(extract, _).
     Inr \<lparr>eg_gas_estimate = estimate_gas_from_state_updates (js_abi js) extract, eg_is_heuristic = True,
          eg_state_update_count = length (state_updates extract),
          eg_skipped_opcodes = sorted_opcodes (skipped_opcodes extract), eg_reentered = reentered extract\<rparr>))"

definition encode_trace_inner :: "'db wasm_env \<Rightarrow> string \<Rightarrow> analysis_error + encode_trace_result" where
  "encode_trace_inner js trace_json =
     bind_res (parse_and_compute js trace_json None) (\<lambda>(extract, _).
     Inr \<lparr>er_encoded_updates = ''0x'' @ js_hex_encode js (encode_state_updates_to_abi (js_abi js) (state_updates extract)),
          er_state_update_count = length (state_updates extract),
          er_skipped_opcodes = sorted_opcodes (skipped_opcodes extract)\<rparr>)"

section \<open>Slots are seeded at their original values\<close>

lemma last_writes_value:
  "map_of (last_writes us) k =
     (if k \<in> fst ` set (List.map_filter store_of us) then Some (apply_program us st k) else None)"
proof -
  have "map_of (rev (List.map_filter store_of us)) k =
      (if k \<in> fst ` set (List.map_filter store_of us) then Some (apply_program us st k) else None)"
  proof (induction us rule: rev_induct)
    case (snoc u us)
    then show ?case
      by (cases u) (auto simp: List.map_filter_def apply_program_append, simp_all add: apply_program_def)
  qed (simp add: List.map_filter_def)
  then show ?thesis by (simp add: last_writes_def om_extend_def om.get_extend split: option.splits)
qed

text \<open>
  What the node's \<open>prestateTracer\<close> documents of its diff mode, for the storage of one account:
  the slots the transaction changed, in \<open>pre\<close> with the value they had unless it was zero and in
  \<open>post\<close> with the value they got unless it is zero.
\<close>

definition diff_reports :: "state_diff \<Rightarrow> address \<Rightarrow> (b256 \<Rightarrow> b256) \<Rightarrow> (b256 \<Rightarrow> b256) \<Rightarrow> bool" where
  "diff_reports d a s0 s1 \<longleftrightarrow> (\<forall>k.
     map_of (storage_in (pre (storage_diff d)) a) k = (if s0 k \<noteq> s1 k \<and> s0 k \<noteq> 0 then Some (s0 k) else None)
   \<and> map_of (storage_in (post (storage_diff d)) a) k = (if s0 k \<noteq> s1 k \<and> s1 k \<noteq> 0 then Some (s1 k) else None))"

lemma storage_in_diff:
  "storage_in (map (\<lambda>(a, s). (a, acs_storage s)) m) a =
     (case map_option acs_storage (map_of m a) of None \<Rightarrow> [] | Some s \<Rightarrow> s)"
  by (induction m) (auto simp: storage_in_def)

lemma map_of_map_pairs: "map_of (map (\<lambda>(k, v). (k, f k v)) m) k = map_option (f k) (map_of m k)"
  by (induction m) auto

lemma original_storage_value:
  assumes "diff_reports d a s0 (apply_program us s0)"
  shows "map_of (original_storage d a us) k =
     (if k \<in> fst ` set (List.map_filter store_of us) then Some (s0 k) else None)"
proof -
  let ?pre = "map_option acs_storage (map_of (sd_pre d) a)"
  let ?post = "map_option acs_storage (map_of (sd_post d) a)"
  have look: "map_of (storage_in (map (\<lambda>(a, s). (a, acs_storage s)) m) a) k =
      (case map_option acs_storage (map_of m a) of None \<Rightarrow> None | Some p \<Rightarrow> map_of p k)" for m
    by (simp add: storage_in_diff split: option.splits)
  have mem: "(case x of None \<Rightarrow> False | Some p \<Rightarrow> k \<in> set (om_keys p)) \<longleftrightarrow>
      (case x of None \<Rightarrow> None | Some p \<Rightarrow> map_of p k) \<noteq> None" for x :: "account_storage option"
    by (cases x) (simp_all add: map_of_None_iff_keys del: not_None_eq)
  have rep: "(case ?pre of None \<Rightarrow> None | Some p \<Rightarrow> map_of p k) =
      (if s0 k \<noteq> apply_program us s0 k \<and> s0 k \<noteq> 0 then Some (s0 k) else None)
    \<and> (case ?post of None \<Rightarrow> None | Some p \<Rightarrow> map_of p k) =
      (if s0 k \<noteq> apply_program us s0 k \<and> apply_program us s0 k \<noteq> 0 then Some (apply_program us s0 k) else None)"
    using assms unfolding look [symmetric] diff_reports_def storage_diff_def diff_mode.simps by (rule spec)
  have "(case ?post of None \<Rightarrow> False | Some p \<Rightarrow> k \<in> set (om_keys p)) \<longleftrightarrow>
      s0 k \<noteq> apply_program us s0 k \<and> apply_program us s0 k \<noteq> 0"
    unfolding mem conjunct2 [OF rep] by simp
  then have "original_value ?pre ?post k (apply_program us s0 k) = s0 k"
    unfolding original_value_def conjunct1 [OF rep] by simp
  then show ?thesis
    by (simp add: original_storage_def map_of_map_pairs last_writes_value [of us k s0])
qed

text \<open>
  A database that keeps slots: reading gives zero where nothing was stored and the value stored
  last otherwise, and accounts are inserted without touching storage.
\<close>

definition keeps_slots :: "'db wasm_env \<Rightarrow> ('db \<Rightarrow> address \<Rightarrow> b256 \<Rightarrow> b256) \<Rightarrow> bool" where
  "keeps_slots js rd \<longleftrightarrow> (\<forall>a k. rd (js_empty_db js) a k = 0)
     \<and> (\<forall>a info db. rd (insert_account_info (js_evm js) a info db) = rd db)
     \<and> (\<forall>a k v db db'. insert_account_storage (js_evm js) a k v db = Inr db' \<longrightarrow>
          rd db' = (\<lambda>b l. if b = a \<and> l = k then v else rd db b l))"

lemma seed_slots_read:
  assumes laws: "keeps_slots js rd" and "fold_res (seed_slot js a) kvs db = Inr db'" and "distinct (map fst kvs)"
    and "\<forall>k \<in> fst ` set kvs. rd db a k = 0"
  shows "rd db' b k = (if b = a then case map_of kvs k of None \<Rightarrow> rd db a k | Some v \<Rightarrow> v else rd db b k)"
  using assms(2-)
proof (induction kvs arbitrary: db)
  case (Cons kv kvs)
  obtain l v where kv: "kv = (l, v)" by (cases kv)
  obtain db1 where db1: "seed_slot js a db (l, v) = Inr db1" "fold_res (seed_slot js a) kvs db1 = Inr db'"
    using Cons.prems(1) kv by (auto simp: bind_res_Inr_iff)
  have step: "rd db1 b k = (if b = a \<and> k = l then v else rd db b k)" for b k
    using db1(1) laws Cons.prems(3)
    by (auto simp: kv seed_slot_def keeps_slots_def map_err_def split: if_splits sum.splits)
  have "\<forall>k \<in> fst ` set kvs. rd db1 a k = 0"
    using Cons.prems(2,3) by (auto simp: kv step)
  moreover have "map_of kvs l = None" using Cons.prems(2) by (simp add: kv map_of_eq_None_iff)
  ultimately show ?case using Cons.IH [OF db1(2)] Cons.prems(2) by (simp add: kv step split: option.splits)
qed simp

lemma insert_accounts_read:
  "keeps_slots js rd \<Longrightarrow> rd (fold (\<lambda>(a, info). insert_account_info (js_evm js) a info) as db) = rd db"
  by (induction as arbitrary: db) (auto simp: keeps_slots_def)

lemma original_storage_distinct: "distinct (map fst (original_storage d a us))"
  using om_ok_distinct [of "last_writes us"]
  by (simp add: original_storage_def Let_def comp_def case_prod_unfold last_writes_def)

text \<open>
  C20. The simulation starts from the values the chain started from: when the prestate diff is the
  node's report of the transaction, and the program's stores leave the account as the transaction
  left it, the database seeded for the program holds, under the estimator, the value each stored
  slot had before the transaction, and zero in every other slot.
\<close>

theorem seeds_restore_originals:
  assumes "keeps_slots js rd"
    and "diff_reports d consumer s0 (apply_program us s0)"
    and "seeded_db js (seeds_for_program js (Some (d, consumer)) at us with_code) = Inr db"
  shows "rd db a k = (if a = at \<and> k \<in> fst ` set (List.map_filter store_of us) then s0 k else 0)"
proof -
  let ?kvs = "original_storage d consumer us"
  let ?db = "fold (\<lambda>(a, info). insert_account_info (js_evm js) a info)
    (called_accounts js (Some d) us with_code) (js_empty_db js)"
  have "fold_res (seed_slot js at) ?kvs ?db = Inr db"
    using assms(3) by (simp add: seeded_db_def seeds_for_program_def bind_res_Inr_iff)
  moreover have "rd ?db b l = 0" for b l
    using insert_accounts_read [OF assms(1)] assms(1) by (simp add: keeps_slots_def)
  ultimately have "rd db a k = (if a = at then case map_of ?kvs k of None \<Rightarrow> 0 | Some v \<Rightarrow> v else 0)"
    using seed_slots_read [OF assms(1) _ original_storage_distinct, of at d consumer us ?db db a k]
    by (simp split: option.splits)
  then show ?thesis by (simp add: original_storage_value [OF assms(2)])
qed

section \<open>The price of the net form\<close>

lemma slot_costs:
  fixes old new :: account_storage
  defines "changed \<equiv> \<lambda>k. slot_or_zero old k \<noteq> slot_or_zero new k"
  assumes "unat g + 22100 * length ks < 2 ^ 64" and "unat r + 4800 * length ks < 2 ^ 64"
  shows "unat (fst (foldl (slot_cost old new) (g, r) ks)) = unat g
      + 22100 * length (filter (\<lambda>k. slot_or_zero old k = 0) (filter changed ks))
      + 5000 * length (filter (\<lambda>k. slot_or_zero old k \<noteq> 0) (filter changed ks))
    \<and> unat (snd (foldl (slot_cost old new) (g, r) ks)) = unat r
      + 4800 * length (filter (\<lambda>k. slot_or_zero old k \<noteq> 0 \<and> slot_or_zero new k = 0) (filter changed ks))"
  using assms(2,3)
proof (induction ks arbitrary: g r)
  case (Cons k ks)
  define g' r' where "g' = fst (slot_cost old new (g, r) k)" and "r' = snd (slot_cost old new (g, r) k)"
  have g: "unat (g + 22100) = unat g + 22100" "unat (g + 5000) = unat g + 5000"
    and r: "unat (r + 4800) = unat r + 4800"
    using Cons.prems by (simp_all add: unat_plus_if_size word_size)
  have now: "unat g' = unat g + (if changed k then if slot_or_zero old k = 0 then 22100 else 5000 else 0)"
    "unat r' = unat r + (if changed k \<and> slot_or_zero old k \<noteq> 0 \<and> slot_or_zero new k = 0 then 4800 else 0)"
    by (auto simp: g'_def r'_def changed_def slot_cost_def Let_def SSTORE_COLD_SET_COST_def
        SSTORE_COLD_RESET_COST_def SSTORE_CLEARS_REFUND_def g r)
  have step: "foldl (slot_cost old new) (g, r) (k # ks) = foldl (slot_cost old new) (g', r') ks"
    by (simp add: g'_def r'_def)
  have "unat g' + 22100 * length ks < 2 ^ 64" "unat r' + 4800 * length ks < 2 ^ 64"
    using Cons.prems by (auto simp: now)
  from Cons.IH [OF this] show ?case by (simp add: step now del: foldl.simps)
qed simp

lemma prestate_stores:
  "List.map_filter store_of (build_state_updates_from_prestate consumer diff frame) =
     map (\<lambda>k. (k, slot_or_zero (storage_in (post diff) consumer) k))
       (filter (\<lambda>k. slot_or_zero (storage_in (pre diff) consumer) k \<noteq> slot_or_zero (storage_in (post diff) consumer) k)
         (key_union (storage_in (pre diff) consumer) (storage_in (post diff) consumer)))"
proof -
  have "List.map_filter store_of us = List.map_filter store_of (filter (\<lambda>u. store_of u \<noteq> None) us)" for us
    by (simp add: List.map_filter_def)
  from this [of "build_state_updates_from_prestate consumer diff frame"]
  have "List.map_filter store_of (build_state_updates_from_prestate consumer diff frame) =
      List.map_filter store_of (net_stores (storage_in (pre diff) consumer) (storage_in (post diff) consumer))"
    unfolding conjunct1 [OF conjunct2 [OF net_stores_canonical]] .
  then show ?thesis by (simp add: net_stores_def List.map_filter_def comp_def)
qed

text \<open>
  The net form is priced store by store: the storage gas and the refunds handed to the
  heuristic are those of exactly the stores in the program built from the same diff, 22,100 for a
  slot that was zero, 5,000 for one that was not, and 4,800 back for one that is cleared, and
  the 64-bit sums do not wrap while the diff has fewer slots than would cost \<open>2\<^sup>6\<^sup>4\<close>.
\<close>

lemma net_sstore_costs_match_program:
  fixes diff consumer frame
  defines "old \<equiv> slot_or_zero (storage_in (pre (storage_diff diff)) consumer)"
    and "kvs \<equiv> List.map_filter store_of (build_state_updates_from_prestate consumer (storage_diff diff) frame)"
  assumes "22100 * length (key_union (storage_in (pre (storage_diff diff)) consumer)
      (storage_in (post (storage_diff diff)) consumer)) < 2 ^ 64"
  shows "unat (fst (net_sstore_costs diff consumer)) =
      22100 * length (filter (\<lambda>(k, v). old k = 0) kvs) + 5000 * length (filter (\<lambda>(k, v). old k \<noteq> 0) kvs)
    \<and> unat (snd (net_sstore_costs diff consumer)) = 4800 * length (filter (\<lambda>(k, v). old k \<noteq> 0 \<and> v = 0) kvs)"
  using slot_costs [of 0 "key_union (storage_in (pre (storage_diff diff)) consumer)
      (storage_in (post (storage_diff diff)) consumer)" 0] assms(3)
  by (simp add: net_sstore_costs_def Let_def kvs_def old_def prestate_stores filter_map comp_def)

section \<open>Which simulation prices the program\<close>

lemma seeded_db_error: "seeded_db js sd = Inl e \<Longrightarrow> \<exists>m. e = SeedFailed m \<and> \<not> evm_total (js_evm js)"
proof -
  assume "seeded_db js sd = Inl e"
  then obtain a kv db where "seed_slot js a db kv = Inl e"
    unfolding seeded_db_def Let_def by (auto dest!: fold_res_error)
  then obtain k v m where m: "insert_account_storage (js_evm js) a k v db = Inl m" "e = SeedFailed m"
    by (auto simp: seed_slot_def map_err_def split: if_splits sum.splits prod.splits)
  then have "\<not> evm_total (js_evm js)" unfolding evm_total_def by (metis Inl_Inr_False)
  with m show ?thesis by blast
qed

text \<open>
  With arguments that parse, the analysis of a program ends in one of three ways. A replay over
  the prestate that succeeds is the estimate, taken as it is. A replay that fails changes nothing but
  the reported replay error: the result is that of the analysis without one. And without a replay the
  result is an estimate that never counts the callees as executed, covers at least the gas they spent
  in the trace unless it is the heuristic's, and is missing only when the database refuses a seed.
\<close>

lemma analyze_extract_outcome:
  assumes "parse_address_arg js ''estimator'' estimator = Inr addr" and "parse_caller js caller_address = Inr caller"
    and "parse_value js value = Inr v"
  shows "(case replayed_estimate js caller (state_updates ext) block v x of
       Inr g \<Rightarrow> \<exists>r. analyze_extract js ext estimator caller_address block value diff with_code (Some x) = Inr r
         \<and> ar_gas_estimate r = g \<and> ar_callees_executed r \<and> \<not> ar_is_heuristic r \<and> ar_replay_error r = None
     | Inl e \<Rightarrow> analyze_extract js ext estimator caller_address block value diff with_code (Some x)
         = map_sum id (\<lambda>r. r\<lparr>ar_replay_error := Some e\<rparr>)
             (analyze_extract js ext estimator caller_address block value diff with_code None))
    \<and> (case analyze_extract js ext estimator caller_address block value diff with_code None of
         Inl e \<Rightarrow> (\<exists>m. e = SeedFailed m) \<and> \<not> evm_total (js_evm js)
       | Inr r \<Rightarrow> \<not> ar_callees_executed r \<and> ar_replay_error r = None
           \<and> (ar_is_heuristic r \<or> callee_gas_total ext \<le> ar_gas_estimate r))"
proof (rule conjI)
  note out = analyze_extract_def Let_def assms
  show "case replayed_estimate js caller (state_updates ext) block v x of
       Inr g \<Rightarrow> \<exists>r. analyze_extract js ext estimator caller_address block value diff with_code (Some x) = Inr r
         \<and> ar_gas_estimate r = g \<and> ar_callees_executed r \<and> \<not> ar_is_heuristic r \<and> ar_replay_error r = None
     | Inl e \<Rightarrow> analyze_extract js ext estimator caller_address block value diff with_code (Some x)
         = map_sum id (\<lambda>r. r\<lparr>ar_replay_error := Some e\<rparr>)
             (analyze_extract js ext estimator caller_address block value diff with_code None)"
    by (cases "seeded_db js (seeds_for_program js diff addr (state_updates ext) with_code)")
      (simp_all add: out split: sum.splits)
  show "case analyze_extract js ext estimator caller_address block value diff with_code None of
         Inl e \<Rightarrow> (\<exists>m. e = SeedFailed m) \<and> \<not> evm_total (js_evm js)
       | Inr r \<Rightarrow> \<not> ar_callees_executed r \<and> ar_replay_error r = None
           \<and> (ar_is_heuristic r \<or> callee_gas_total ext \<le> ar_gas_estimate r)"
    by (cases "seeded_db js (seeds_for_program js diff addr (state_updates ext) with_code)")
      (auto simp: out sat_add_ge2 dest: seeded_db_error split: sum.splits)
qed

section \<open>Sample analyses\<close>

text \<open>A database of slots alone, over which every transaction succeeds.\<close>

definition slot_evm :: "(address \<Rightarrow> b256 \<Rightarrow> b256) evm" where
  "slot_evm = \<lparr>basic_ref = (\<lambda>_ _. None), insert_account_info = (\<lambda>_ _ db. db), set_code_hash = (\<lambda>_ _ db. db),
     insert_account_storage = (\<lambda>a k v db. Inr (\<lambda>b l. if b = a \<and> l = k then v else db b l)),
     build_tx = (\<lambda>_. Inr ()), transact = (\<lambda>_ tx db. Inr (Success 30000, db)), osaka = 20,
     hash_slow = (\<lambda>_. 0), keccak_empty = 0, ev_keccak = (\<lambda>_. 0), estimator_bytecode = [],
     impl_slot = 0, abi_encode_params = (\<lambda>_ _. [])\<rparr>"

definition slot_js :: "(address \<Rightarrow> b256 \<Rightarrow> b256) wasm_env" where
  "slot_js = \<lparr>js_trace = (\<lambda>_. Inl ''no trace''), js_response = (\<lambda>_. Inl ''no response''), js_diff = (\<lambda>_. Inl ''no diff''),
     js_call_frame = (\<lambda>_. Inl ''no frame''), js_prestate = (\<lambda>_. Inl ''no prestate''),
     js_address = (\<lambda>s. if s = ''aa'' then Inr 170 else if s = ''bb'' then Inr 187 else Inl ''no address''),
     js_address_str = (\<lambda>_. ''0x''), js_u256 = (\<lambda>_. Inl ''no number''), js_bytecode = Inr, js_hex_encode = (\<lambda>_. []),
     js_hexd = (\<lambda>_. None), js_abi = (\<lambda>_. []), js_codec = toy_codec, js_evm = slot_evm, js_empty_db = (\<lambda>_ _. 0)\<rparr>"

definition sample_state_diff :: state_diff where
  "sample_state_diff =
     \<lparr>sd_pre = [(170, \<lparr>acs_balance = None, acs_nonce = Some 1, acs_code = None, acs_storage = [(1, 5), (2, 9)]\<rparr>)],
      sd_post = [(170, \<lparr>acs_balance = None, acs_nonce = None, acs_code = None, acs_storage = [(1, 6), (3, 4)]\<rparr>)]\<rparr>"

definition empty_extract :: trace_extract where
  "empty_extract = \<lparr>state_updates = [], skipped_opcodes = {}, call_gas_total = 0, callee_gas_total = 0,
     create_gas_total = 0, sstore_gas_total = 0, tx_refund_counter = 0, reentered = False\<rparr>"

lemma slot_js_keeps: "keeps_slots slot_js (\<lambda>db. db)"
  by (simp add: keeps_slots_def slot_js_def slot_evm_def)

theorem seeds_restore_originals_witness:
  "\<exists>db. seeded_db slot_js (seeds_for_program slot_js (Some (sample_state_diff, 170)) 1234
       [Store 1 8, Store 1 6, Store 2 0, Store 3 4, Store 4 7] {}) = Inr db
     \<and> db 1234 1 = 5 \<and> db 1234 2 = 9 \<and> db 1234 3 = 0 \<and> db 1234 4 = 7 \<and> db 170 1 = 0"
proof -
  let ?us = "[Store 1 8, Store 1 6, Store 2 0, Store 3 4, Store 4 7]"
  let ?s0 = "(\<lambda>_. 0)(1 := 5, 2 := 9, 4 := 7) :: b256 \<Rightarrow> b256"
  have rep: "diff_reports sample_state_diff 170 ?s0 (apply_program ?us ?s0)"
    by (simp add: diff_reports_def sample_state_diff_def storage_diff_def storage_in_def apply_program_def)
  obtain db where db: "seeded_db slot_js (seeds_for_program slot_js (Some (sample_state_diff, 170)) 1234 ?us {}) = Inr db"
    by (simp add: seeded_db_def seeds_for_program_def original_storage_def last_writes_def om_extend_def
        List.map_filter_def original_value_def sample_state_diff_def om_keys_def seed_slot_def slot_js_def slot_evm_def
        called_accounts_def called_account_def)
  note rd = seeds_restore_originals [OF slot_js_keeps rep db]
  show ?thesis using db rd [of 1234 1] rd [of 1234 2] rd [of 1234 3] rd [of 1234 4] rd [of 170 1]
    by (simp add: List.map_filter_def)
qed

end
