(* ===== verification/Wasm_Frame_Tree.thy ===== *)
theory Wasm_Frame_Tree
  imports Wasm_Analysis
begin

text \<open>
  The frame-tree analysis of \<^verbatim>\<open>crates/wasm/src/lib.rs\<close>: one trace is split twice, with no
  callee nested and with the owned contracts nested, and both settlements are priced over the same
  kind of state, so that their difference is the nesting alone.
\<close>

section \<open>Results\<close>

record frame_gas_entry =
  fge_target :: string
  fge_caller :: string
  fge_op_count :: nat
  fge_gas :: u64

record not_nested_entry =
  nn_address :: string
  nn_reason :: string

record frame_tree_analysis =
  fa_root_only_gas :: u64
  fa_nested_gas :: u64
  fa_root_only_native_call_gas :: u64
  fa_nested_native_call_gas :: u64
  fa_callees_executed :: bool
  fa_replay_error :: "analysis_error option"
  fa_frame_overhead_gas :: u64
  fa_signature_verification_gas :: u64
  fa_frames :: "frame_gas_entry list"
  fa_not_nested :: "not_nested_entry list"
  fa_skipped_opcodes :: "string list"

fun describe :: "not_nested_reason \<Rightarrow> string" where
  "describe KeptAsCall =
     ''called directly, but cheaper as a plain CALL (or it reverted, or uses transient '' @
     ''storage or selfdestruct)''"
| "describe NotReached =
     ''not called from a nested frame: its caller is outside the owned set or was '' @
     ''itself kept as a CALL, so it ran inside that call''"

section \<open>Seeding a tree\<close>

text \<open>
  Frame ids in the order the frames return. A child out of range is an index panic; children that
  form a cycle recurse until the stack overflows. Both are \<open>None\<close>; a recursion deeper than the
  number of frames repeats one, so that number of levels is enough.
\<close>

fun visit :: "nat \<Rightarrow> frame_program list \<Rightarrow> nat \<Rightarrow> nat list \<Rightarrow> nat list option"
  and visit_children :: "nat \<Rightarrow> frame_program list \<Rightarrow> nat list \<Rightarrow> nat list \<Rightarrow> nat list option" where
  "visit 0 fs i order = None"
| "visit (Suc n) fs i order =
     (if i < length fs
      then (case visit_children n fs (fp_children (fs ! i)) order of
              None \<Rightarrow> None | Some order \<Rightarrow> Some (order @ [i]))
      else None)"
| "visit_children n fs [] order = Some order"
| "visit_children n fs (c # cs) order =
     (case visit n fs c order of None \<Rightarrow> None | Some order \<Rightarrow> visit_children n fs cs order)"

definition return_order :: "frame_program list \<Rightarrow> nat list option" where
  "return_order fs = (if fs = [] then Some [] else visit (length fs) fs 0 [])"

definition append_updates :: "frame_program list \<Rightarrow> nat \<Rightarrow> (address, state_update list) omap \<Rightarrow>
    (address, state_update list) omap" where
  "append_updates fs i by_target =
     (let frame = fs ! i
      in om_insert (fp_target frame)
           ((case map_of by_target (fp_target frame) of None \<Rightarrow> [] | Some us \<Rightarrow> us) @ fp_updates frame) by_target)"

definition updates_by_target :: "frame_program list \<Rightarrow> nat list \<Rightarrow> (address, state_update list) omap" where
  "updates_by_target fs order = fold (append_updates fs) order []"

definition frame_tree_seeds :: "'db wasm_env \<Rightarrow> state_diff option \<Rightarrow> frame_program list \<Rightarrow> address set \<Rightarrow>
    analysis_error + seeds" where
  "frame_tree_seeds js diff fs with_code =
     (let accounts = called_accounts js diff (concat (map fp_updates fs)) with_code
      in case diff of
           None \<Rightarrow> Inr \<lparr>seed_storage = [], seed_accounts = accounts\<rparr>
         | Some d \<Rightarrow>
             (case return_order fs of
                None \<Rightarrow> Inl ReturnOrderPanic
              | Some order \<Rightarrow>
                  Inr \<lparr>seed_storage = map (\<lambda>(target, us). (target, original_storage d target us))
                         (updates_by_target fs order),
                       seed_accounts = accounts\<rparr>))"

section \<open>Pricing both settlements\<close>

definition parse_owned :: "'db wasm_env \<Rightarrow> address \<Rightarrow> string list \<Rightarrow> analysis_error + address list" where
  "parse_owned js root owned =
     bind_res (map_res (\<lambda>a. map_err (InvalidOwned a) (js_address js a)) owned) (\<lambda>as.
     Inr (sort (remdups (filter (\<lambda>a. a \<noteq> root) as))))"

definition price_seeded :: "'db wasm_env \<Rightarrow> state_diff option \<Rightarrow> address set \<Rightarrow> address \<Rightarrow> u256 \<Rightarrow> sim_env_opts \<Rightarrow>
    frame_program list \<Rightarrow> analysis_error + u64 list" where
  "price_seeded js diff with_code caller value env fs =
     bind_res (frame_tree_seeds js diff fs with_code) (\<lambda>sd.
     bind_res (seeded_db js sd) (\<lambda>db.
     map_err GasEstimationFailed (estimate_frame_tree_gas (js_evm js) (js_abi js) fs caller value env db)))"

definition price_replayed :: "'db wasm_env \<Rightarrow> replay \<Rightarrow> address \<Rightarrow> u256 \<Rightarrow> sim_env_opts \<Rightarrow> string \<Rightarrow>
    frame_program list \<Rightarrow> analysis_error + u64 list" where
  "price_replayed js ry caller value env settlement fs =
     bind_res (seeded_db js (ry_seeds ry)) (\<lambda>db.
     map_err (SettlementFailed settlement)
       (estimate_frame_tree_gas (js_evm js) (js_abi js) fs caller value env db))"

definition replay_both :: "'db wasm_env \<Rightarrow> address \<Rightarrow> u256 \<Rightarrow> u64 option \<Rightarrow> frame_program list \<Rightarrow>
    frame_program list \<Rightarrow> replay \<Rightarrow> analysis_error + u64 list \<times> u64 list" where
  "replay_both js caller value block_number root_only nested ry =
     (let env = replay_sim_env js ry block_number value
      in bind_res (price_replayed js ry caller value env ''root-only'' root_only) (\<lambda>r.
         bind_res (price_replayed js ry caller value env ''nested'' nested) (\<lambda>n. Inr (r, n))))"

definition frame_gas_entries :: "'db wasm_env \<Rightarrow> frame_program list \<Rightarrow> u64 list \<Rightarrow> frame_gas_entry list" where
  "frame_gas_entries js fs gs =
     map (\<lambda>(frame, g). \<lparr>fge_target = js_address_str js (fp_target frame),
         fge_caller = js_address_str js (fp_caller frame),
         fge_op_count = length (fp_updates frame), fge_gas = g\<rparr>) (zip fs gs)"

definition settle_both :: "'db wasm_env \<Rightarrow> address list \<Rightarrow> address \<Rightarrow> u64 option \<Rightarrow> u256 \<Rightarrow> state_diff option \<Rightarrow>
    address set \<Rightarrow> replay option \<Rightarrow> frame_tree_extract \<Rightarrow> frame_tree_extract \<Rightarrow>
    analysis_error + frame_tree_analysis" where
  "settle_both js owned caller block_number value diff with_code ry root_only nested =
     (let env = wasm_sim_env js block_number value;
          cost = NESTING_COST_MODEL_V1;
          price = price_seeded js diff with_code caller value env;
          replayed = map_option (replay_both js caller value block_number (ft_frames root_only) (ft_frames nested)) ry;
          replay_error = (case replayed of Some (Inl e) \<Rightarrow> Some e | _ \<Rightarrow> None)
      in bind_res
           (case replayed of
              Some (Inr (r, n)) \<Rightarrow> Inr (r, n, 0, 0, True)
            | _ \<Rightarrow> bind_res (price (ft_frames root_only)) (\<lambda>r.
                   bind_res (price (ft_frames nested)) (\<lambda>n.
                   Inr (r, n, ft_callee_gas_total root_only, ft_callee_gas_total nested, False))))
           (\<lambda>(r, n, root_only_callees, nested_callees, executed).
         Inr \<lparr>fa_root_only_gas = sat_add (frame_tree_total r cost) root_only_callees,
              fa_nested_gas = sat_add (frame_tree_total n cost) nested_callees,
              fa_root_only_native_call_gas = ft_callee_gas_total root_only,
              fa_nested_native_call_gas = ft_callee_gas_total nested,
              fa_callees_executed = executed, fa_replay_error = replay_error,
              fa_frame_overhead_gas = frame_overhead_gas cost,
              fa_signature_verification_gas = SIGNATURE_VERIFICATION_GAS,
              fa_frames = frame_gas_entries js (ft_frames nested) n,
              fa_not_nested = map (\<lambda>(a, reason). \<lparr>nn_address = js_address_str js a, nn_reason = describe reason\<rparr>)
                (unnested_owned owned (ft_frames nested)),
              fa_skipped_opcodes = sorted_opcodes (ft_skipped_opcodes nested)\<rparr>))"

definition analyze_frame_tree_trace :: "'db wasm_env \<Rightarrow> default_frame \<Rightarrow> string \<Rightarrow> string list \<Rightarrow> string \<Rightarrow> u64 option \<Rightarrow>
    string option \<Rightarrow> string option \<Rightarrow> replay option \<Rightarrow> analysis_error + frame_tree_analysis" where
  "analyze_frame_tree_trace js trace root_address owned caller_address block_number value diff_json ry =
     bind_res (case diff_json of None \<Rightarrow> Inr None | Some j \<Rightarrow> bind_res (parse_diff js j) (\<lambda>d. Inr (Some d))) (\<lambda>diff.
     bind_res (parse_address_arg js ''root'' root_address) (\<lambda>root.
     bind_res (parse_owned js root owned) (\<lambda>owned.
     bind_res (parse_caller js caller_address) (\<lambda>caller.
     bind_res (parse_value js value) (\<lambda>value.
     let with_code = callees_with_code trace;
         split = (\<lambda>callees. map_err SplitFailed (compute_frame_tree_hypothetical (js_hexd js) (js_codec js) (js_abi js)
                    trace root callees NESTING_COST_MODEL_V1))
     in bind_res (split []) (\<lambda>root_only.
        bind_res (split owned) (\<lambda>nested.
        settle_both js owned caller block_number value diff with_code ry root_only nested)))))))"

definition analyze_frame_tree_inner :: "'db wasm_env \<Rightarrow> string \<Rightarrow> string \<Rightarrow> string list \<Rightarrow> string \<Rightarrow> u64 option \<Rightarrow>
    string option \<Rightarrow> string option \<Rightarrow> replay option \<Rightarrow> analysis_error + frame_tree_analysis" where
  "analyze_frame_tree_inner js trace_json root_address owned caller_address block_number value diff_json ry =
     bind_res (map_err ParseTraceFailed (js_trace js trace_json)) (\<lambda>lean.
     bind_res (map_err ParseLogFailed (parse_lean_frame lean)) (\<lambda>trace.
     analyze_frame_tree_trace js trace root_address owned caller_address block_number value diff_json ry))"

definition analyze_frame_tree_bytes_inner :: "'db wasm_env \<Rightarrow> bytes \<Rightarrow> string \<Rightarrow> string list \<Rightarrow> string \<Rightarrow> u64 option \<Rightarrow>
    string option \<Rightarrow> string option \<Rightarrow> replay option \<Rightarrow> bytes_error + frame_tree_analysis" where
  "analyze_frame_tree_bytes_inner js response root_address owned caller_address block_number value diff_json ry =
     bind_res (parse_trace_response js response) (\<lambda>lean.
     bind_res (map_err (AnalysisFailed \<circ> ParseLogFailed) (parse_lean_frame lean)) (\<lambda>trace.
     map_err AnalysisFailed (analyze_frame_tree_trace js trace root_address owned caller_address block_number
       value diff_json ry)))"

section \<open>The exports\<close>

text \<open>
  The exported functions up to the conversion of their results: each reads the replay's arguments
  before anything else. An error is a JavaScript \<open>Error\<close> with a name and a message.
\<close>

type_synonym js_error = "string \<times> (string + analysis_error)"

definition js_plain_error :: "analysis_error \<Rightarrow> js_error" where
  "js_plain_error e = (''Error'', Inr e)"

fun bytes_error_to_js :: "bytes_error \<Rightarrow> js_error" where
  "bytes_error_to_js (RpcFailed message too_large) =
     (if too_large then ''TraceTooLargeError'' else ''RpcError'', Inl message)"
| "bytes_error_to_js (AnalysisFailed e) = (''Error'', Inr e)"

definition replay_arg :: "'db wasm_env \<Rightarrow> string option \<Rightarrow> string option \<Rightarrow> u64 option \<Rightarrow> js_error + replay option" where
  "replay_arg js prestate_json gas_price block_timestamp =
     (case prestate_json of
        None \<Rightarrow> Inr None
      | Some j \<Rightarrow> bind_res (map_err js_plain_error (parse_replay js j gas_price block_timestamp)) (\<lambda>ry. Inr (Some ry)))"

definition analyze_trace :: "'db wasm_env \<Rightarrow> string \<Rightarrow> string \<Rightarrow> string \<Rightarrow> u64 option \<Rightarrow> string option \<Rightarrow> string option \<Rightarrow>
    string option \<Rightarrow> string option \<Rightarrow> string option \<Rightarrow> u64 option \<Rightarrow> js_error + analyze_trace_result" where
  "analyze_trace js trace_json estimator_address caller_address block_number origin_address value diff_json
     prestate_json gas_price block_timestamp =
     bind_res (replay_arg js prestate_json gas_price block_timestamp) (\<lambda>ry.
     map_err js_plain_error (analyze_trace_inner js trace_json estimator_address caller_address block_number
       origin_address value diff_json ry))"

definition analyze_trace_bytes :: "'db wasm_env \<Rightarrow> bytes \<Rightarrow> string \<Rightarrow> string \<Rightarrow> u64 option \<Rightarrow> string option \<Rightarrow> string option \<Rightarrow>
    string option \<Rightarrow> string option \<Rightarrow> string option \<Rightarrow> u64 option \<Rightarrow> js_error + analyze_trace_result" where
  "analyze_trace_bytes js response estimator_address caller_address block_number origin_address value diff_json
     prestate_json gas_price block_timestamp =
     bind_res (replay_arg js prestate_json gas_price block_timestamp) (\<lambda>ry.
     map_err bytes_error_to_js (analyze_trace_bytes_inner js response estimator_address caller_address block_number
       origin_address value diff_json ry))"

definition analyze_prestate :: "'db wasm_env \<Rightarrow> string \<Rightarrow> string \<Rightarrow> string \<Rightarrow> string \<Rightarrow> string \<Rightarrow> u64 option \<Rightarrow>
    string option \<Rightarrow> js_error + prestate_analysis" where
  "analyze_prestate js diff_json frame_json consumer_address estimator_address caller_address block_number value =
     map_err js_plain_error (analyze_prestate_inner js diff_json frame_json consumer_address estimator_address
       caller_address block_number value)"

definition analyze_frame_tree :: "'db wasm_env \<Rightarrow> string \<Rightarrow> string \<Rightarrow> string list \<Rightarrow> string \<Rightarrow> u64 option \<Rightarrow> string option \<Rightarrow>
    string option \<Rightarrow> string option \<Rightarrow> string option \<Rightarrow> u64 option \<Rightarrow> js_error + frame_tree_analysis" where
  "analyze_frame_tree js trace_json root_address owned caller_address block_number value diff_json
     prestate_json gas_price block_timestamp =
     bind_res (replay_arg js prestate_json gas_price block_timestamp) (\<lambda>ry.
     map_err js_plain_error (analyze_frame_tree_inner js trace_json root_address owned caller_address block_number
       value diff_json ry))"

definition analyze_frame_tree_bytes :: "'db wasm_env \<Rightarrow> bytes \<Rightarrow> string \<Rightarrow> string list \<Rightarrow> string \<Rightarrow> u64 option \<Rightarrow>
    string option \<Rightarrow> string option \<Rightarrow> string option \<Rightarrow> string option \<Rightarrow> u64 option \<Rightarrow> js_error + frame_tree_analysis" where
  "analyze_frame_tree_bytes js response root_address owned caller_address block_number value diff_json
     prestate_json gas_price block_timestamp =
     bind_res (replay_arg js prestate_json gas_price block_timestamp) (\<lambda>ry.
     map_err bytes_error_to_js (analyze_frame_tree_bytes_inner js response root_address owned caller_address
       block_number value diff_json ry))"

definition estimate_gas_heuristic :: "'db wasm_env \<Rightarrow> string \<Rightarrow> string option \<Rightarrow> js_error + estimate_gas_result" where
  "estimate_gas_heuristic js trace_json origin_address =
     map_err js_plain_error (estimate_gas_heuristic_inner js trace_json origin_address)"

definition encode_trace :: "'db wasm_env \<Rightarrow> string \<Rightarrow> js_error + encode_trace_result" where
  "encode_trace js trace_json = map_err js_plain_error (encode_trace_inner js trace_json)"

section \<open>The order of returns\<close>

definition child_of :: "frame_program list \<Rightarrow> (nat \<times> nat) set" where
  "child_of fs = {(p, c). p < length fs \<and> c \<in> set (fp_children (fs ! p))}"

definition below :: "frame_program list \<Rightarrow> nat \<Rightarrow> nat set" where
  "below fs i = {j. (i, j) \<in> (child_of fs)\<^sup>*}"

fun children_first :: "frame_program list \<Rightarrow> nat set \<Rightarrow> nat list \<Rightarrow> bool" where
  "children_first fs seen [] = True"
| "children_first fs seen (p # order) \<longleftrightarrow>
     set (fp_children (fs ! p)) \<subseteq> seen \<and> children_first fs (insert p seen) order"

lemma children_first_append:
  "children_first fs seen (xs @ ys) \<longleftrightarrow> children_first fs seen xs \<and> children_first fs (seen \<union> set xs) ys"
  by (induction xs arbitrary: seen) auto

lemma children_first_mono: "children_first fs seen order \<Longrightarrow> seen \<subseteq> seen' \<Longrightarrow> children_first fs seen' order"
proof (induction order arbitrary: seen seen')
  case (Cons p order)
  then have "children_first fs (insert p seen') order" by (auto intro: Cons.IH [of "insert p seen"])
  with Cons.prems show ?case by auto
qed simp

lemma child_of_less:
  assumes "well_formed_tree fs" and "(p, c) \<in> child_of fs"
  shows "p < c" "c < length fs"
proof -
  have "frame_linked fs p" and c: "c \<in> set (fp_children (fs ! p))"
    using assms(2) well_formed_tree_frame [OF assms(1)] by (auto simp: child_of_def)
  then have "list_all (\<lambda>c. p < c \<and> c < length fs) (fp_children (fs ! p))" by (simp add: frame_linked_def)
  with c show "p < c" "c < length fs" unfolding list_all_iff by blast+
qed

lemma parents_of:
  assumes wf: "well_formed_tree fs" and "0 < c" and "c < length fs"
  shows "card {i. (i, c) \<in> child_of fs} = 1"
  using conjunct2 [OF well_formed_tree_child [OF assms]] by (simp add: length_filter_conv_card child_of_def)

lemma child_of_one_parent:
  assumes wf: "well_formed_tree fs" and p: "(p, c) \<in> child_of fs" and q: "(q, c) \<in> child_of fs"
  shows "p = q"
proof -
  have c: "0 < c" "c < length fs" using child_of_less [OF wf p] by auto
  obtain x where "{i. (i, c) \<in> child_of fs} = {x}" using parents_of [OF wf c] by (rule card_1_singletonE)
  with p q have "p = x" "q = x" by blast+
  then show ?thesis by simp
qed

lemma below_ge: "well_formed_tree fs \<Longrightarrow> j \<in> below fs i \<Longrightarrow> i \<le> j"
proof -
  assume wf: "well_formed_tree fs" and "j \<in> below fs i"
  then have "(i, j) \<in> (child_of fs)\<^sup>*" by (simp add: below_def)
  then show ?thesis
  proof induction
    case (step p c)
    with child_of_less(1) [OF wf step.hyps(2)] show ?case by linarith
  qed simp
qed

lemma below_step:
  assumes "i < length fs"
  shows "below fs i = insert i (\<Union>c \<in> set (fp_children (fs ! i)). below fs c)"
  using assms by (auto simp: below_def child_of_def elim: converse_rtranclE
      intro: converse_rtrancl_into_rtrancl)

text \<open>Subtrees of siblings share no frame: parents are unique and come first.\<close>

lemma siblings_apart:
  assumes wf: "well_formed_tree fs" and c: "(i, c) \<in> child_of fs" and d: "(i, d) \<in> child_of fs" and "c \<noteq> d"
  shows "below fs c \<inter> below fs d = {}"
proof -
  have no: "(c, d) \<notin> (child_of fs)\<^sup>*" if "c \<noteq> d" "(i, c) \<in> child_of fs" "(i, d) \<in> child_of fs" for c d
  proof
    assume "(c, d) \<in> (child_of fs)\<^sup>*"
    then obtain q where q: "(c, q) \<in> (child_of fs)\<^sup>*" "(q, d) \<in> child_of fs" using \<open>c \<noteq> d\<close> by (auto elim: rtranclE)
    have "q = i" using child_of_one_parent [OF wf q(2) that(3)] .
    with q(1) have "c \<le> i" using below_ge [OF wf, of i c] by (simp add: below_def)
    with child_of_less(1) [OF wf that(2)] show False by simp
  qed
  have sv: "single_valued ((child_of fs)\<inverse>)"
    using child_of_one_parent [OF wf] by (auto simp: single_valued_def)
  have False if "x \<in> below fs c" "x \<in> below fs d" for x
    using single_valued_confluent [OF sv, of x c d] that no [OF \<open>c \<noteq> d\<close> c d] no [OF \<open>c \<noteq> d\<close> [symmetric] d c]
    by (auto simp: below_def rtrancl_converse)
  then show ?thesis by blast
qed

definition returned :: "frame_program list \<Rightarrow> nat set \<Rightarrow> nat list \<Rightarrow> bool" where
  "returned fs A os \<longleftrightarrow> distinct os \<and> set os = A \<and> children_first fs {} os"

lemma visit_children_returned:
  assumes one: "\<And>c. c \<in> set cs \<Longrightarrow> \<exists>os. (\<forall>order. visit n fs c order = Some (order @ os)) \<and> returned fs (below fs c) os"
    and apart: "\<And>c d. c \<in> set cs \<Longrightarrow> d \<in> set cs \<Longrightarrow> c \<noteq> d \<Longrightarrow> below fs c \<inter> below fs d = {}"
    and "distinct cs"
  shows "\<exists>os. (\<forall>order. visit_children n fs cs order = Some (order @ os)) \<and> returned fs (\<Union>c \<in> set cs. below fs c) os"
  using assms
proof (induction cs)
  case Nil
  show ?case by (rule exI [of _ "[]"]) (simp add: returned_def)
next
  case (Cons c cs)
  obtain os where os: "\<And>order. visit n fs c order = Some (order @ os)" "returned fs (below fs c) os"
    using Cons.prems(1) [of c] by auto
  obtain os' where os': "\<And>order. visit_children n fs cs order = Some (order @ os')"
    "returned fs (\<Union>c \<in> set cs. below fs c) os'"
    using Cons.IH Cons.prems by (auto simp del: returned_def)
  have "below fs c \<inter> (\<Union>c \<in> set cs. below fs c) = {}"
    using Cons.prems(2) [of c] Cons.prems(3) by fastforce
  moreover have "children_first fs (set os) os'"
    using os'(2) by (auto simp: returned_def intro: children_first_mono)
  ultimately have "returned fs (\<Union>c \<in> set (c # cs). below fs c) (os @ os')"
    using os(2) os'(2) by (auto simp: returned_def children_first_append)
  with os(1) os'(1) show ?case by (intro exI [of _ "os @ os'"]) simp
qed

lemma visit_returned:
  assumes wf: "well_formed_tree fs"
  shows "i < length fs \<Longrightarrow> length fs - i \<le> n \<Longrightarrow>
    \<exists>os. (\<forall>order. visit n fs i order = Some (order @ os @ [i])) \<and> returned fs (below fs i) (os @ [i])"
proof (induction n arbitrary: i)
  case (Suc n)
  let ?cs = "fp_children (fs ! i)"
  have fr: "frame_linked fs i" using wf Suc.prems(1) by (rule well_formed_tree_frame)
  then have d: "distinct ?cs" and gt: "i < c \<and> c < length fs" if "c \<in> set ?cs" for c
    using that by (auto simp: frame_linked_def list_all_iff)
  have d: "distinct ?cs" using fr by (simp add: frame_linked_def)
  have one: "\<exists>os. (\<forall>order. visit n fs c order = Some (order @ os)) \<and> returned fs (below fs c) os"
    if "c \<in> set ?cs" for c
    using Suc.IH [of c] gt [OF that] Suc.prems(2) by fastforce
  have "below fs c \<inter> below fs d = {}" if "c \<in> set ?cs" "d \<in> set ?cs" "c \<noteq> d" for c d
    by (rule siblings_apart [OF wf, of i]) (use that Suc.prems(1) in \<open>simp_all add: child_of_def\<close>)
  then obtain os where os: "\<And>order. visit_children n fs ?cs order = Some (order @ os)"
    "returned fs (\<Union>c \<in> set ?cs. below fs c) os"
    using visit_children_returned [of ?cs n fs, OF one _ d] by blast
  have fresh: "i \<notin> (\<Union>c \<in> set ?cs. below fs c)" using below_ge [OF wf] gt by fastforce
  have "set ?cs \<subseteq> set os"
    using os(2) by (auto simp: returned_def below_def)
  with os(2) fresh have "returned fs (below fs i) (os @ [i])"
    by (simp add: returned_def below_step [OF Suc.prems(1)] children_first_append)
  with os(1) Suc.prems(1) show ?case by (intro exI [of _ os]) simp
qed simp

lemma below_root: "well_formed_tree fs \<Longrightarrow> below fs 0 = {0..<length fs}"
proof
  assume wf: "well_formed_tree fs"
  then have ne: "0 < length fs" by (simp add: well_formed_tree_def)
  have "j < length fs" if "(0, j) \<in> (child_of fs)\<^sup>*" for j
    using that by (cases rule: rtranclE) (use ne child_of_less [OF wf] in auto)
  then show "below fs 0 \<subseteq> {0..<length fs}" by (auto simp: below_def)
  have "(0, j) \<in> (child_of fs)\<^sup>*" if "j < length fs" for j
    using that
  proof (induction j rule: less_induct)
    case (less j)
    show ?case
    proof (cases "j = 0")
      case False
      then obtain x where "{i. (i, j) \<in> child_of fs} = {x}"
        using parents_of [OF wf _ less.prems] by (meson card_1_singletonE gr0I)
      then obtain i where i: "(i, j) \<in> child_of fs" by blast
      with less.IH [of i] child_of_less [OF wf i] show ?thesis by (auto intro: rtrancl_into_rtrancl)
    qed simp
  qed
  then show "{0..<length fs} \<subseteq> below fs 0" by (auto simp: below_def)
qed

lemma return_order_well_formed:
  assumes wf: "well_formed_tree fs"
  shows "\<exists>os. return_order fs = Some (os @ [0]) \<and> returned fs {0..<length fs} (os @ [0])"
  using visit_returned [OF wf, of 0 "length fs"] below_root [OF wf] wf
  by (auto simp: return_order_def well_formed_tree_def)

text \<open>
  C21. Frames are ordered by their return: for every tree split from a trace, the walk that orders
  the frames terminates without an index panic and lists every frame once, each after all its
  children, the root last.
\<close>

theorem return_order_of_split:
  assumes "split_frame_tree hexd cd abi_seq trace root el cost = Inr tree"
  shows "\<exists>os. return_order (ft_frames tree) = Some (os @ [0])
    \<and> distinct (os @ [0]) \<and> set (os @ [0]) = {0..<length (ft_frames tree)}
    \<and> children_first (ft_frames tree) {} (os @ [0])"
  using return_order_well_formed [OF split_frame_tree_well_formed [OF assms]] by (simp add: returned_def)

section \<open>Trees from a split are always priced\<close>

lemma well_formed_tree_nested: "well_formed_tree fs \<Longrightarrow> well_nested fs"
  using well_formed_tree_frame unfolding well_nested_def frame_linked_def by blast

fun simulation_fault :: "analysis_error \<Rightarrow> bool" where
  "simulation_fault (SeedFailed _) = True"
| "simulation_fault (GasEstimationFailed e) = evm_fault e"
| "simulation_fault (SettlementFailed _ e) = evm_fault e"
| "simulation_fault _ = False"

fun input_error :: "analysis_error \<Rightarrow> bool" where
  "input_error (ParseDiffFailed _) = True"
| "input_error (InvalidAddress _ _) = True"
| "input_error (InvalidOwned _ _) = True"
| "input_error (InvalidWei _ _) = True"
| "input_error (SplitFailed _) = True"
| "input_error _ = False"

text \<open>The outcome of pricing a tree: one gas figure per frame, or a fault a total EVM never has.\<close>

definition tree_priced :: "'db wasm_env \<Rightarrow> frame_program list \<Rightarrow> analysis_error + u64 list \<Rightarrow> bool" where
  "tree_priced js fs r \<longleftrightarrow>
     (case r of Inr gs \<Rightarrow> length gs = length fs | Inl e \<Rightarrow> simulation_fault e \<and> \<not> evm_total (js_evm js))"

lemma estimate_tree_priced:
  assumes wf: "well_formed_tree fs" and f: "\<And>e. evm_fault e \<Longrightarrow> simulation_fault (f e)"
  shows "tree_priced js fs (bind_res (seeded_db js sd) (\<lambda>db.
    map_err f (estimate_frame_tree_gas (js_evm js) (js_abi js) fs caller value env db)))"
proof (cases "seeded_db js sd")
  case (Inl e)
  with seeded_db_error [OF Inl] show ?thesis by (auto simp: tree_priced_def)
next
  case (Inr db)
  have "fs \<noteq> []" using wf by (simp add: well_formed_tree_def)
  from estimate_frame_tree_priced [OF this well_formed_tree_nested [OF wf], of "js_evm js" "js_abi js" caller "value" env db]
  show ?thesis using Inr f
    by (cases "estimate_frame_tree_gas (js_evm js) (js_abi js) fs caller value env db")
      (auto simp: tree_priced_def map_err_def)
qed

lemma price_seeded_priced:
  assumes wf: "well_formed_tree fs"
  shows "tree_priced js fs (price_seeded js diff with_code caller value env fs)"
proof -
  obtain sd where "frame_tree_seeds js diff fs with_code = Inr sd"
    using return_order_well_formed [OF wf] by (cases diff) (auto simp: frame_tree_seeds_def)
  then show ?thesis by (simp add: price_seeded_def estimate_tree_priced [OF wf])
qed

lemma replay_both_priced:
  assumes "well_formed_tree fs" and "well_formed_tree gs"
  shows "case replay_both js caller value block fs gs ry of
      Inr (r, n) \<Rightarrow> length r = length fs \<and> length n = length gs
    | Inl e \<Rightarrow> simulation_fault e \<and> \<not> evm_total (js_evm js)"
proof -
  let ?p = "price_replayed js ry caller value (replay_sim_env js ry block value)"
  have "tree_priced js fs (?p ''root-only'' fs)" "tree_priced js gs (?p ''nested'' gs)"
    unfolding price_replayed_def by (rule estimate_tree_priced; use assms in simp)+
  then show ?thesis
    by (cases "?p ''root-only'' fs"; cases "?p ''nested'' gs") (auto simp: replay_both_def Let_def tree_priced_def)
qed

lemma settle_both_priced:
  assumes r: "well_formed_tree (ft_frames root_only)" and n: "well_formed_tree (ft_frames nested)"
  shows "case settle_both js owned caller block value diff with_code ry root_only nested of
      Inl e \<Rightarrow> simulation_fault e \<and> \<not> evm_total (js_evm js)
    | Inr a \<Rightarrow> length (fa_frames a) = length (ft_frames nested)
        \<and> (fa_callees_executed a \<longleftrightarrow> ry \<noteq> None \<and> fa_replay_error a = None)
        \<and> (fa_replay_error a \<noteq> None \<longrightarrow> \<not> evm_total (js_evm js))"
proof -
  let ?price = "price_seeded js diff with_code caller value (wasm_sim_env js block value)"
  let ?both = "replay_both js caller value block (ft_frames root_only) (ft_frames nested)"
  have p: "tree_priced js (ft_frames root_only) (?price (ft_frames root_only))"
    "tree_priced js (ft_frames nested) (?price (ft_frames nested))"
    by (rule price_seeded_priced; use r n in simp)+
  note out = settle_both_def Let_def frame_gas_entries_def tree_priced_def
  show ?thesis
  proof (cases "\<exists>y g. ry = Some y \<and> ?both y = Inr g")
    case True
    then obtain y g h where "ry = Some y" "?both y = Inr (g, h)" by auto
    with replay_both_priced [OF r n, of js caller "value" block y] show ?thesis by (simp add: out)
  next
    case False
    have err: "\<not> evm_total (js_evm js)" if "ry = Some y" for y
      using replay_both_priced [OF r n, of js caller "value" block y] False that by (cases "?both y") auto
    have "(case map_option ?both ry of Some (Inr (r, n)) \<Rightarrow> Inr (r, n, 0, 0, True) | _ \<Rightarrow> f) = f" for f
      using False by (cases ry; cases "?both (the ry)") auto
    with p err False show ?thesis
      by (cases "?price (ft_frames root_only)"; cases "?price (ft_frames nested)"; cases ry; cases "?both (the ry)")
        (auto simp: out)
  qed
qed

definition settled :: "'db wasm_env \<Rightarrow> replay option \<Rightarrow> analysis_error + frame_tree_analysis \<Rightarrow> bool" where
  "settled js ry r \<longleftrightarrow>
     (case r of
        Inl e \<Rightarrow> input_error e \<or> simulation_fault e \<and> \<not> evm_total (js_evm js)
      | Inr a \<Rightarrow> fa_frames a \<noteq> [] \<and> (fa_callees_executed a \<longleftrightarrow> ry \<noteq> None \<and> fa_replay_error a = None)
          \<and> (fa_replay_error a \<noteq> None \<longrightarrow> \<not> evm_total (js_evm js)))"

lemma settled_bind:
  "errs input_error x \<Longrightarrow> (\<And>y. x = Inr y \<Longrightarrow> settled js ry (f y)) \<Longrightarrow> settled js ry (bind_res x f)"
  by (cases x) (auto simp: errs_def settled_def)

lemma errs_map_err: "(\<And>e. P (f e)) \<Longrightarrow> errs P (map_err f x)"
  by (cases x) (simp_all add: errs_def map_err_def)

lemma errs_parse_owned: "errs input_error (parse_owned js root owned)"
  by (auto simp: errs_def parse_owned_def bind_res_Inl_iff map_err_def split: sum.splits dest!: map_res_error)

lemma settle_both_settled:
  assumes "well_formed_tree (ft_frames root_only)" and "well_formed_tree (ft_frames nested)"
  shows "settled js ry (settle_both js owned caller block value diff with_code ry root_only nested)"
proof -
  have "ft_frames nested \<noteq> []" using assms(2) by (simp add: well_formed_tree_def)
  then show ?thesis
    using settle_both_priced [OF assms, of js ry owned caller block "value" diff with_code]
    by (auto simp: settled_def split: sum.splits)
qed

lemma hypothetical_well_formed:
  "map_err SplitFailed (compute_frame_tree_hypothetical hexd cd abi_seq trace root owned cost) = Inr tree \<Longrightarrow>
    well_formed_tree (ft_frames tree)"
  by (auto simp: compute_frame_tree_hypothetical_def map_err_def split: sum.splits dest: split_frame_tree_well_formed)


section \<open>Both entry points agree\<close>

lemma map_err_map_err: "map_err f (map_err g x) = map_err (f \<circ> g) x"
  by (cases x) (simp_all add: map_err_def)

lemma plain_of_analysis: "bytes_error_to_js \<circ> AnalysisFailed = js_plain_error"
  by (simp add: fun_eq_iff js_plain_error_def)

lemma parse_trace_response_result:
  "js_response js response = Inr \<lparr>tres_result = Some f, tres_error = None\<rparr> \<Longrightarrow>
    parse_trace_response js response = bind_res (map_err (AnalysisFailed \<circ> ParseLogFailed) (parse_lean_frame f)) (\<lambda>_. Inr f)"
  by (cases "parse_lean_frame f") (simp_all add: parse_trace_response_def map_err_def)

lemma analyze_trace_bytes_inner_agrees:
  assumes "js_response js response = Inr \<lparr>tres_result = Some f, tres_error = None\<rparr>" and "js_trace js trace_json = Inr f"
  shows "analyze_trace_bytes_inner js response estimator caller block origin value diff_json ry
    = map_err AnalysisFailed (analyze_trace_inner js trace_json estimator caller block origin value diff_json ry)"
  by (cases "parse_origin js origin"; cases "parse_lean_frame f")
    (auto simp: analyze_trace_bytes_inner_def analyze_trace_inner_def parse_and_compute_def compute_def
      parse_trace_response_result [OF assms(1)] assms(2) map_err_def bind_res_def split: sum.splits)

lemma analyze_frame_tree_bytes_inner_agrees:
  assumes "js_response js response = Inr \<lparr>tres_result = Some f, tres_error = None\<rparr>" and "js_trace js trace_json = Inr f"
  shows "analyze_frame_tree_bytes_inner js response root owned caller block value diff_json ry
    = map_err AnalysisFailed (analyze_frame_tree_inner js trace_json root owned caller block value diff_json ry)"
  by (cases "parse_lean_frame f") (simp_all add: analyze_frame_tree_bytes_inner_def analyze_frame_tree_inner_def
      parse_trace_response_result [OF assms(1)] assms(2) map_err_def)

text \<open>
  Reading a whole JSON-RPC response is reading its trace: when the response holds the frame that a
  trace string holds, and no error, the two exports that take bytes give what the exports that take
  the string give, the same result or the same plain error.
\<close>

lemma bytes_entries_agree:
  assumes "js_response js response = Inr \<lparr>tres_result = Some f, tres_error = None\<rparr>"
    and "js_trace js trace_json = Inr f"
  shows "analyze_trace_bytes js response estimator caller block origin value diff_json prestate price time
      = analyze_trace js trace_json estimator caller block origin value diff_json prestate price time
    \<and> analyze_frame_tree_bytes js response root owned caller block value diff_json prestate price time
      = analyze_frame_tree js trace_json root owned caller block value diff_json prestate price time"
  by (simp add: analyze_trace_bytes_def analyze_trace_def analyze_frame_tree_bytes_def analyze_frame_tree_def
      analyze_trace_bytes_inner_agrees [OF assms] analyze_frame_tree_bytes_inner_agrees [OF assms]
      map_err_map_err plain_of_analysis)

section \<open>Samples\<close>

theorem return_order_of_split_witness:
  "\<exists>tree. split_frame_tree (\<lambda>_. None) toy_codec (\<lambda>_. []) owned_trace 170 (Hypothetical [187]) free_nesting = Inr tree
     \<and> return_order (ft_frames tree) = Some [1, 0]"
proof -
  obtain tree where tree: "split_frame_tree (\<lambda>_. None) toy_codec (\<lambda>_. []) owned_trace 170 (Hypothetical [187])
      free_nesting = Inr tree"
    and fs: "map (\<lambda>f. (fp_transition_index f, length (fp_updates f), fp_children f)) (ft_frames tree)
      = [(Some 3, 2, [1]), (Some 0, 1, [])]"
    using owned_trace_split
    by (cases "split_frame_tree (\<lambda>_. None) toy_codec (\<lambda>_. []) owned_trace 170 (Hypothetical [187]) free_nesting") auto
  from fs have "length (ft_frames tree) = 2" by (auto simp: map_eq_Cons_conv)
  then have "{0..<length (ft_frames tree)} = {0, 1}" by (auto simp: numeral_2_eq_2 less_Suc_eq)
  then obtain os where os: "return_order (ft_frames tree) = Some (os @ [0])" "distinct (os @ [0])" "set (os @ [0]) = {0, 1}"
    using return_order_of_split [OF tree] by metis
  have "set os = set (os @ [0]) - {0}" using os(2) by simp
  then have "set os = {1}" unfolding os(3) by simp
  moreover have "distinct os" using os(2) by simp
  ultimately have "os = [1]" by (metis distinct_singleton set_ConsD distinct.simps(2) list.set_cases list.set_intros empty_iff insert_iff list.exhaust list.set(1) list.set(2) singletonD)
  with tree os(1) show ?thesis by auto
qed


end
