(* ===== verification/Sketch.thy ===== *)
theory Sketch
  imports Estimator Frame_Slices
begin

text \<open>
  The encode pipeline of \<^verbatim>\<open>crates/evmsketch/src/lib.rs\<close>: from a call to the program that is
  signed. It composes the trace fetchers, the three extractors, the payload gate, the
  encoder and the estimator. The executor (an anchored block header and a database over
  RPC) is the record \<open>executor_env\<close>; wall-clock timings are not modelled, the clock of the
  mux back-off is an argument.
\<close>

section \<open>Mux support\<close>

definition MUX_PAUSE_MS :: u64 where "MUX_PAUSE_MS = 60 * 60 * 1000"

definition MUX_REJECTIONS_BEFORE_PAUSE :: u32 where "MUX_REJECTIONS_BEFORE_PAUSE = 3"

record mux_support =
  mux_pause_ms :: u64
  paused_until_ms :: u64
  rejections :: u32

definition with_pause :: "u64 \<Rightarrow> mux_support" where
  "with_pause pause = \<lparr>mux_pause_ms = pause, paused_until_ms = 0, rejections = 0\<rparr>"

definition is_paused :: "u64 \<Rightarrow> mux_support \<Rightarrow> bool" where
  "is_paused now m \<longleftrightarrow> now < paused_until_ms m"

definition pause_mux :: "u64 \<Rightarrow> mux_support \<Rightarrow> mux_support" where
  "pause_mux now m = m\<lparr>paused_until_ms := sat_add now (mux_pause_ms m), rejections := 0\<rparr>"

definition answered :: "mux_support \<Rightarrow> mux_support" where
  "answered m = m\<lparr>rejections := 0\<rparr>"

definition rejected :: "u64 \<Rightarrow> mux_support \<Rightarrow> mux_support" where
  "rejected now m =
     (let m' = m\<lparr>rejections := rejections m + 1\<rparr>
      in if rejections m + 1 \<ge> MUX_REJECTIONS_BEFORE_PAUSE then pause_mux now m' else m')"

section \<open>EVM failures\<close>

definition is_evm_failure :: "error_payload \<Rightarrow> bool" where
  "is_evm_failure payload =
     (let message = to_lowercase (ep_message payload)
      in if starts_with ''revm error'' message then False
         else ep_code payload \<in> {3, - 32015} \<or> starts_with ''evm error'' message
           \<or> list_ex (str_contains message) [''revert'', ''out of gas'', ''invalid opcode'',
                ''stack underflow'', ''stack overflow'', ''invalid jump destination''])"

section \<open>The prestate tracers\<close>

text \<open>The two requests of \<open>try_join!\<close>; when both fail the error reported is one of the two.\<close>

definition separate_tracers :: "node \<Rightarrow> tx_request \<Rightarrow> u64 \<Rightarrow> sim_profile \<Rightarrow> fetch_error + diff_mode \<times> call_frame" where
  "separate_tracers nd req block profile =
     bind_res (get_prestate_diff_from_call_with_profile nd req block profile) (\<lambda>diff.
     bind_res (get_call_frame_from_call_with_profile nd req block profile) (\<lambda>frame.
     Inr (diff, frame)))"

definition prestate_diff_and_call_frame :: "node \<Rightarrow> u64 \<Rightarrow> mux_support \<Rightarrow> tx_request \<Rightarrow> u64 \<Rightarrow> sim_profile \<Rightarrow>
    (fetch_error + diff_mode \<times> call_frame) \<times> mux_support" where
  "prestate_diff_and_call_frame nd now mux req block profile =
     (if is_paused now mux then (separate_tracers nd req block profile, mux)
      else case get_prestate_diff_and_call_frame_with_profile nd req block profile of
             Inl e \<Rightarrow> (Inl e, mux)
           | Inr (Frames diff frame) \<Rightarrow> (Inr (diff, frame), answered mux)
           | Inr (Rejected reason payload) \<Rightarrow>
               if (case payload of None \<Rightarrow> False | Some p \<Rightarrow> is_evm_failure p)
               then (Inl (EvmFailure (''muxTracer debug_trace_call failed: '' @ reason)), answered mux)
               else (separate_tracers nd req block profile, rejected now mux)
           | Inr Unsupported \<Rightarrow> (separate_tracers nd req block profile, pause_mux now mux)
           | Inr Malformed \<Rightarrow> (separate_tracers nd req block profile, pause_mux now mux))"

definition try_prestate_net :: "node \<Rightarrow> u64 \<Rightarrow> mux_support \<Rightarrow> tx_request \<Rightarrow> u64 \<Rightarrow> address \<Rightarrow> sim_profile \<Rightarrow>
    (fetch_error + state_update list option) \<times> mux_support" where
  "try_prestate_net nd now mux req block consumer profile =
     (case prestate_diff_and_call_frame nd now mux req block profile of
        (r, mux') \<Rightarrow>
          (bind_res r (\<lambda>(diff, frame).
             case frame_failure frame of
               Some reason \<Rightarrow> Inl (EvmFailure reason)
             | None \<Rightarrow>
                 (case classify_prestate_eligibility frame diff consumer of
                    Eligible \<Rightarrow> Inr (Some (build_state_updates_from_prestate consumer diff frame))
                  | Fallback _ \<Rightarrow> Inr None)), mux'))"

section \<open>Extraction\<close>

datatype state_encoding = Legacy | Canonical | PrestateNet

datatype struct_log_encoder = LegacyEncoder | CanonicalEncoder

datatype extraction = ExPrestateNet | ExStructLog | ExPrestateFallback

definition signs_prestate_net :: "state_encoding \<Rightarrow> bool" where
  "signs_prestate_net e \<longleftrightarrow> e = PrestateNet"

fun encoder_of :: "state_encoding \<Rightarrow> struct_log_encoder" where
  "encoder_of Legacy = LegacyEncoder"
| "encoder_of Canonical = CanonicalEncoder"
| "encoder_of PrestateNet = CanonicalEncoder"

record extracted =
  ex_updates :: "state_update list"
  ex_skipped :: "string set"
  ex_call_gas :: u64
  ex_extraction :: extraction

text \<open>What the pipeline is run with: the hex decoder, hashing and ABI encodings, and the node.\<close>

record pipeline =
  pl_hexd :: hexd
  pl_codec :: codec
  pl_abi :: abi_seq
  pl_node :: node

definition struct_log_updates :: "pipeline \<Rightarrow> struct_log_encoder \<Rightarrow> default_frame \<Rightarrow> address \<Rightarrow>
    fetch_error + state_update list \<times> string set \<times> u64" where
  "struct_log_updates pl enc trace consumer =
     (case enc of
        LegacyEncoder \<Rightarrow>
          bind_res (map_err CoreError (compute_state_updates (pl_hexd pl) trace None)) (\<lambda>ex.
          Inr (state_updates ex, skipped_opcodes ex, call_gas_total ex))
      | CanonicalEncoder \<Rightarrow>
          map_err CoreError (compute_state_updates_canonical (pl_hexd pl) (pl_codec pl) (pl_abi pl) trace consumer))"

definition struct_log_extract :: "pipeline \<Rightarrow> tx_request \<Rightarrow> u64 \<Rightarrow> address \<Rightarrow> state_encoding \<Rightarrow> sim_profile \<Rightarrow>
    extraction \<Rightarrow> fetch_error + extracted" where
  "struct_log_extract pl req block consumer encoding profile kind =
     bind_res (get_trace_from_call_with_profile (pl_node pl) req block profile) (\<lambda>trace.
     bind_res (struct_log_updates pl (encoder_of encoding) trace consumer) (\<lambda>(us, sk, g).
     Inr \<lparr>ex_updates = us, ex_skipped = sk, ex_call_gas = g, ex_extraction = kind\<rparr>))"

definition extract_state_updates_hybrid :: "pipeline \<Rightarrow> u64 \<Rightarrow> mux_support \<Rightarrow> tx_request \<Rightarrow> u64 \<Rightarrow> address \<Rightarrow>
    state_encoding \<Rightarrow> sim_profile \<Rightarrow> (fetch_error + extracted) \<times> mux_support" where
  "extract_state_updates_hybrid pl now mux req block consumer encoding profile =
     (if signs_prestate_net encoding
      then (case try_prestate_net (pl_node pl) now mux req block consumer profile of
              (Inl e, mux) \<Rightarrow> (Inl e, mux)
            | (Inr (Some us), mux) \<Rightarrow>
                (Inr \<lparr>ex_updates = us, ex_skipped = {}, ex_call_gas = 0, ex_extraction = ExPrestateNet\<rparr>, mux)
            | (Inr None, mux) \<Rightarrow>
                (struct_log_extract pl req block consumer encoding profile ExPrestateFallback, mux))
      else (struct_log_extract pl req block consumer encoding profile ExStructLog, mux))"

section \<open>Hints and the executor\<close>

type_synonym hints = "(address, b256 list) omap"

definition hints_at :: "hints \<Rightarrow> address \<Rightarrow> b256 list" where
  "hints_at h a = (case map_of h a of None \<Rightarrow> [] | Some l \<Rightarrow> l)"

definition extend_hints :: "address \<Rightarrow> b256 list \<Rightarrow> hints \<Rightarrow> hints" where
  "extend_hints a slots h = om_insert a (hints_at h a @ slots) h"

definition hints_from_state_updates :: "address \<Rightarrow> state_update list \<Rightarrow> hints" where
  "hints_from_state_updates contract us =
     fold (\<lambda>u h. case u of
             Store slot _ \<Rightarrow> extend_hints contract [slot] h
           | Call c \<Rightarrow> extend_hints (call_target c) [] h
           | _ \<Rightarrow> h) us (extend_hints contract [] [])"

definition access_list_hints :: "tx_request \<Rightarrow> hints" where
  "access_list_hints req =
     fold (\<lambda>(a, slots). extend_hints a slots) (case tr_access_list req of None \<Rightarrow> [] | Some l \<Rightarrow> l) []"

text \<open>
  The cached executor: its simulation environment and whether it was a cache hit, per
  block; the database at the block before the anchor, and the prefetch into it.
\<close>

record 'db executor_env =
  xe_get_or_build :: "u64 \<Rightarrow> fetch_error + sim_env_opts \<times> bool"
  xe_state_db :: "u64 \<Rightarrow> 'db"
  xe_prefetch :: "hints \<Rightarrow> 'db \<Rightarrow> fetch_error + 'db"
  xe_evm :: "'db evm"
  xe_est_error :: "est_error \<Rightarrow> fetch_error"

definition estimate_with_hints :: "'db executor_env \<Rightarrow> abi_seq \<Rightarrow> sim_env_opts \<Rightarrow> address \<Rightarrow> address \<Rightarrow>
    state_update list \<Rightarrow> hints \<Rightarrow> u256 \<Rightarrow> fetch_error + u64" where
  "estimate_with_hints xe abi_seq env contract caller us h value =
     bind_res (xe_prefetch xe h (xe_state_db xe (sat_sub (se_number env) 1))) (\<lambda>db.
     map_err (xe_est_error xe)
       (estimate_state_changes_gas (xe_evm xe) abi_seq contract caller us (env\<lparr>se_value := value\<rparr>) db))"

definition estimate_tree_with_hints :: "'db executor_env \<Rightarrow> abi_seq \<Rightarrow> sim_env_opts \<Rightarrow> frame_program list \<Rightarrow>
    address \<Rightarrow> hints \<Rightarrow> u256 \<Rightarrow> fetch_error + u64 list" where
  "estimate_tree_with_hints xe abi_seq env fs caller h value =
     bind_res (xe_prefetch xe h (xe_state_db xe (sat_sub (se_number env) 1))) (\<lambda>db.
     map_err (xe_est_error xe)
       (estimate_frame_tree_gas (xe_evm xe) abi_seq fs caller value (env\<lparr>se_value := value\<rparr>) db))"

section \<open>The flat program\<close>

record encoded_state_updates =
  en_storage_updates :: bytes
  en_update_count :: nat
  en_gas_estimate :: u64
  en_is_heuristic :: bool
  en_skipped_opcodes :: "string set"
  en_extraction :: extraction
  en_executor_cache_hit :: bool

definition to_address :: "tx_request \<Rightarrow> fetch_error + address" where
  "to_address req = (case tr_to req of Some (CallTo a) \<Rightarrow> Inr a | _ \<Rightarrow> Inl NoToAddress)"

definition check_payload :: "abi_seq \<Rightarrow> sim_profile \<Rightarrow> state_update list \<Rightarrow> u64 \<Rightarrow> fetch_error + unit" where
  "check_payload abi_seq profile us call_gas =
     (case payload_gas_budget profile of
        None \<Rightarrow> Inr ()
      | Some budget \<Rightarrow>
          bind_res (map_err PayloadRejected
            (validate_unbounded_cost abi_seq us call_gas (turetzky_upper_gas_limit Bls) budget)) (\<lambda>_. Inr ()))"

definition call_to_encoded_state_updates :: "pipeline \<Rightarrow> 'db executor_env \<Rightarrow> u64 \<Rightarrow> mux_support \<Rightarrow> tx_request \<Rightarrow>
    u64 \<Rightarrow> state_encoding \<Rightarrow> sim_profile \<Rightarrow> (fetch_error + encoded_state_updates) \<times> mux_support" where
  "call_to_encoded_state_updates pl xe now mux req block_number encoding profile =
     (case to_address req of
        Inl e \<Rightarrow> (Inl e, mux)
      | Inr contract \<Rightarrow>
          (case extract_state_updates_hybrid pl now mux req block_number contract encoding profile of
             (extracted, mux) \<Rightarrow>
               (bind_res extracted (\<lambda>ex.
                bind_res (xe_get_or_build xe block_number) (\<lambda>(env, hit).
                bind_res (check_payload (pl_abi pl) profile (ex_updates ex) (ex_call_gas ex)) (\<lambda>_.
                let all_hints = fold (\<lambda>(a, slots). extend_hints a slots) (access_list_hints req)
                                  (hints_from_state_updates contract (ex_updates ex))
                in bind_res (estimate_with_hints xe (pl_abi pl) env contract
                        (case tr_from req of None \<Rightarrow> 0 | Some a \<Rightarrow> a) (ex_updates ex) all_hints
                        (case tr_value req of None \<Rightarrow> 0 | Some v \<Rightarrow> v)) (\<lambda>g.
                   Inr \<lparr>en_storage_updates = encode_state_updates_to_abi (pl_abi pl) (ex_updates ex),
                        en_update_count = length (ex_updates ex), en_gas_estimate = g,
                        en_is_heuristic = False, en_skipped_opcodes = ex_skipped ex,
                        en_extraction = ex_extraction ex, en_executor_cache_hit = hit\<rparr>)))), mux)))"

section \<open>The tree\<close>

definition tracker_index :: "state_update list \<Rightarrow> u256 option" where
  "tracker_index us =
     (case List.find is_tracker_store us of
        Some (Store _ v) \<Rightarrow> Some (sat_sub v 1)
      | _ \<Rightarrow> None)"

definition GAS_KILLER_NESTED_INTERFACE_ID :: bytes where
  "GAS_KILLER_NESTED_INTERFACE_ID = [0x78, 0x48, 0x18, 0x74]"

definition SUPPORTS_INTERFACE_SELECTOR :: bytes where
  "SUPPORTS_INTERFACE_SELECTOR = [0x01, 0xff, 0xc9, 0xa7]"

definition SCHNORR_REGISTRY_SELECTOR :: bytes where
  "SCHNORR_REGISTRY_SELECTOR = [0x5c, 0xc3, 0x74, 0x50]"

definition NESTABILITY_PROBE_GAS :: u64 where
  "NESTABILITY_PROBE_GAS = 1000000"

definition static_read :: "node \<Rightarrow> address \<Rightarrow> bytes \<Rightarrow> u64 \<Rightarrow> fetch_error + bytes option" where
  "static_read nd target data block =
     (case eth_call nd target data NESTABILITY_PROBE_GAS block of
        Inr out \<Rightarrow> Inr (Some out)
      | Inl (ErrorResp payload) \<Rightarrow>
          if is_evm_failure payload then Inr None else Inl (TraceCallFailed (ErrorResp payload))
      | Inl e \<Rightarrow> Inl (TraceCallFailed e))"

definition nested_registry :: "node \<Rightarrow> address \<Rightarrow> u64 \<Rightarrow> fetch_error + address option" where
  "nested_registry nd contract block =
     bind_res (static_read nd contract
       (SUPPORTS_INTERFACE_SELECTOR @ GAS_KILLER_NESTED_INTERFACE_ID @ replicate 28 0) block) (\<lambda>r.
     case r of
       None \<Rightarrow> Inr None
     | Some supports \<Rightarrow>
         if length supports \<noteq> 32 \<or> list_all (\<lambda>b. b = 0) supports then Inr None
         else bind_res (static_read nd contract SCHNORR_REGISTRY_SELECTOR block) (\<lambda>r.
              case r of
                None \<Rightarrow> Inr None
              | Some registry \<Rightarrow>
                  if length registry \<noteq> 32 then Inr None
                  else Inr (Some (word_rcat (drop 12 registry)))))"

definition trace_callees :: "default_frame \<Rightarrow> address list" where
  "trace_callees trace =
     sort (remdups (List.map_filter
       (\<lambda>l. if op l = ''CALL'' \<and> error l = None then callee_of l else None) (struct_logs trace)))"

definition nestable_callees :: "node \<Rightarrow> default_frame \<Rightarrow> address \<Rightarrow> u64 \<Rightarrow> fetch_error + address set" where
  "nestable_callees nd trace root block =
     bind_res (nested_registry nd root block) (\<lambda>r.
     case r of
       None \<Rightarrow> Inr {}
     | Some registry \<Rightarrow>
         bind_res (map_res (\<lambda>a. bind_res (nested_registry nd a block) (\<lambda>x. Inr (a, x))) (trace_callees trace)) (\<lambda>probes.
         Inr (fst ` set (filter (\<lambda>(_, x). x = Some registry) probes))))"

record encoded_frame_tree =
  ef_frames :: "frame_program list"
  ef_counter_moves :: "address list"
  ef_gas_estimate :: u64
  ef_skipped_opcodes :: "string set"
  ef_extraction :: extraction
  ef_executor_cache_hit :: bool

definition net_frame_tree :: "pipeline \<Rightarrow> 'db executor_env \<Rightarrow> tx_request \<Rightarrow> u64 \<Rightarrow> address \<Rightarrow> state_update list \<Rightarrow>
    fetch_error + encoded_frame_tree" where
  "net_frame_tree pl xe req block_number root us =
     bind_res (xe_get_or_build xe block_number) (\<lambda>(env, hit).
     bind_res (estimate_with_hints xe (pl_abi pl) env root (case tr_from req of None \<Rightarrow> 0 | Some a \<Rightarrow> a) us
         (hints_from_state_updates root us) (case tr_value req of None \<Rightarrow> 0 | Some v \<Rightarrow> v)) (\<lambda>g.
     Inr \<lparr>ef_frames = [\<lparr>fp_target = root, fp_caller = 0, fp_value = 0, fp_calldata_hash = 0,
            fp_transition_index = tracker_index us, fp_updates = us, fp_children = []\<rparr>],
          ef_counter_moves = [root], ef_gas_estimate = g, ef_skipped_opcodes = {},
          ef_extraction = ExPrestateNet, ef_executor_cache_hit = hit\<rparr>))"

definition check_tree_payload :: "abi_seq \<Rightarrow> sim_profile \<Rightarrow> frame_tree_extract \<Rightarrow> fetch_error + unit" where
  "check_tree_payload abi_seq profile tree =
     (case payload_gas_budget profile of
        None \<Rightarrow> Inr ()
      | Some budget \<Rightarrow>
          bind_res (map_err PayloadRejected (validate_unbounded_tree_cost abi_seq
             (concat (map (\<lambda>f. without_nested_ops (fp_updates f)) (ft_frames tree)))
             (ft_call_gas_total tree) (ft_create_gas_total tree) (turetzky_upper_gas_limit Bls) budget)) (\<lambda>_. Inr ()))"

definition split_call_tree :: "pipeline \<Rightarrow> 'db executor_env \<Rightarrow> tx_request \<Rightarrow> u64 \<Rightarrow> address \<Rightarrow> sim_profile \<Rightarrow>
    nesting_cost_model \<Rightarrow> extraction \<Rightarrow> fetch_error + encoded_frame_tree" where
  "split_call_tree pl xe req block_number root profile cost kind =
     bind_res (get_trace_from_call_with_profile (pl_node pl) req block_number profile) (\<lambda>trace.
     bind_res (nestable_callees (pl_node pl) trace root block_number) (\<lambda>nestable.
     bind_res (xe_get_or_build xe block_number) (\<lambda>(env, hit).
     bind_res (map_err CoreError (compute_frame_tree_canonical (pl_hexd pl) (pl_codec pl) (pl_abi pl)
         trace root (\<lambda>a. a \<in> nestable) cost)) (\<lambda>tree.
     bind_res (check_tree_payload (pl_abi pl) profile tree) (\<lambda>_.
     let h = fold (\<lambda>f h. fold (\<lambda>(a, slots). extend_hints a slots)
                 (hints_from_state_updates (fp_target f) (without_nested_ops (fp_updates f))) h)
               (ft_frames tree) []
     in bind_res (estimate_tree_with_hints xe (pl_abi pl) env (ft_frames tree)
            (case tr_from req of None \<Rightarrow> 0 | Some a \<Rightarrow> a) h (case tr_value req of None \<Rightarrow> 0 | Some v \<Rightarrow> v)) (\<lambda>gs.
        Inr \<lparr>ef_frames = ft_frames tree, ef_counter_moves = counter_moves tree,
             ef_gas_estimate = frame_tree_total gs cost, ef_skipped_opcodes = ft_skipped_opcodes tree,
             ef_extraction = kind, ef_executor_cache_hit = hit\<rparr>))))))"

definition call_to_frame_tree :: "pipeline \<Rightarrow> 'db executor_env \<Rightarrow> u64 \<Rightarrow> mux_support \<Rightarrow> tx_request \<Rightarrow> u64 \<Rightarrow>
    state_encoding \<Rightarrow> sim_profile \<Rightarrow> nesting_cost_model \<Rightarrow> (fetch_error + encoded_frame_tree) \<times> mux_support" where
  "call_to_frame_tree pl xe now mux req block_number encoding profile cost =
     (if encoding = Legacy then (Inl LegacyCannotSplit, mux)
      else case to_address req of
             Inl e \<Rightarrow> (Inl e, mux)
           | Inr root \<Rightarrow>
               if signs_prestate_net encoding
               then (case try_prestate_net (pl_node pl) now mux req block_number root profile of
                       (Inl e, mux) \<Rightarrow> (Inl e, mux)
                     | (Inr (Some us), mux) \<Rightarrow> (net_frame_tree pl xe req block_number root us, mux)
                     | (Inr None, mux) \<Rightarrow>
                         (split_call_tree pl xe req block_number root profile cost ExPrestateFallback, mux))
               else (split_call_tree pl xe req block_number root profile cost ExStructLog, mux))"

section \<open>Every operator signs the same program\<close>

text \<open>
  What the pipeline relies on of the mux tracer: each frame of its answer is the answer of
  the tracer it names, asked alone with the same options.
\<close>

definition mux_faithful :: "node \<Rightarrow> bool" where
  "mux_faithful nd \<longleftrightarrow>
     (\<forall>req block g cs fs t r c.
        debug_trace_call nd req block \<lparr>tracing_options = MuxTracing cs, block_override_gas_limit = g\<rparr>
          = Inr (MuxTrace fs)
        \<longrightarrow> map_of fs t = Some r \<longrightarrow> map_of cs t = Some c
        \<longrightarrow> debug_trace_call nd req block \<lparr>tracing_options = c, block_override_gas_limit = g\<rparr> = Inr r)"

lemma trace_call_options:
  "trace_call nd req block tr profile =
     debug_trace_call nd
       (case tx_gas_limit_override profile of None \<Rightarrow> req | Some g \<Rightarrow> req\<lparr>tr_gas := Some g\<rparr>) block
       \<lparr>tracing_options = tr, block_override_gas_limit = block_gas_limit_override profile\<rparr>"
  by (cases profile) (simp_all add: trace_call_def apply_sim_profile_def)

lemma mux_frames_agree:
  assumes "mux_faithful nd"
    and "get_prestate_diff_and_call_frame_with_profile nd req block profile = Inr (Frames d f)"
  shows "separate_tracers nd req block profile = Inr (d, f)"
proof -
  let ?cs = "[(PreStateTracer, prestate_diff_config), (CallTracer, call_with_log_config)]"
  obtain t where t: "trace_call nd req block (MuxTracing ?cs) profile = Inr t"
    and split: "split_prestate_and_call t = Some (d, f)"
    using assms(2)
    by (auto simp: get_prestate_diff_and_call_frame_with_profile_def classify_mux_error_def res_simps
        split: sum.splits option.splits if_splits)
  from split obtain fs where fs: "t = MuxTrace fs"
    "map_of fs PreStateTracer = Some (PreStateDiff d)" "map_of fs CallTracer = Some (CallTrace f)"
    by (auto simp: split_prestate_and_call_def split: geth_trace.splits option.splits)
  have "trace_call nd req block c profile = Inr r"
    if "map_of fs k = Some r" "map_of ?cs k = Some c" for k r c
    using assms(1) t that unfolding fs(1) trace_call_options mux_faithful_def by blast
  from this [OF fs(2)] this [OF fs(3)]
  have "trace_call nd req block prestate_diff_config profile = Inr (PreStateDiff d)"
    "trace_call nd req block call_with_log_config profile = Inr (CallTrace f)" by simp_all
  then show ?thesis
    by (simp add: separate_tracers_def get_prestate_diff_from_call_with_profile_def
        get_call_frame_from_call_with_profile_def)
qed

lemma tracers_separate:
  assumes "mux_faithful nd"
    and "prestate_diff_and_call_frame nd now mux req block profile = (Inr df, mux')"
  shows "separate_tracers nd req block profile = Inr df"
  using assms mux_frames_agree [OF assms(1)]
  by (auto simp: prestate_diff_and_call_frame_def split: if_splits sum.splits muxed_traces.splits)

text \<open>The net form as the separate tracers alone give it.\<close>

definition net_of :: "node \<Rightarrow> tx_request \<Rightarrow> u64 \<Rightarrow> address \<Rightarrow> sim_profile \<Rightarrow> state_update list option" where
  "net_of nd req block consumer profile =
     (case separate_tracers nd req block profile of
        Inr (d, f) \<Rightarrow>
          if frame_failure f = None \<and> classify_prestate_eligibility f d consumer = Eligible
          then Some (build_state_updates_from_prestate consumer d f) else None
      | Inl _ \<Rightarrow> None)"

lemma try_prestate_net_of:
  assumes "mux_faithful nd"
    and "try_prestate_net nd now mux req block consumer profile = (Inr us, mux')"
  shows "us = net_of nd req block consumer profile"
  using assms(2)
  by (auto simp: try_prestate_net_def net_of_def res_simps split: prod.splits option.splits
      prestate_eligibility.splits dest!: tracers_separate [OF assms(1)])

lemma hybrid_of:
  assumes "mux_faithful (pl_node pl)"
    and "fst (extract_state_updates_hybrid pl now mux req block consumer encoding profile) = Inr ex"
  shows "Inr ex =
    (if signs_prestate_net encoding
     then (case net_of (pl_node pl) req block consumer profile of
             Some us \<Rightarrow> Inr \<lparr>ex_updates = us, ex_skipped = {}, ex_call_gas = 0, ex_extraction = ExPrestateNet\<rparr>
           | None \<Rightarrow> struct_log_extract pl req block consumer encoding profile ExPrestateFallback)
     else struct_log_extract pl req block consumer encoding profile ExStructLog)"
  using assms(2)
  by (auto simp: extract_state_updates_hybrid_def split: if_splits prod.splits sum.splits option.splits
      dest!: try_prestate_net_of [OF assms(1)])

lemma encoded_from:
  assumes "fst (call_to_encoded_state_updates pl xe now mux req block encoding profile) = Inr r"
  obtains contract ex where "to_address req = Inr contract"
    and "fst (extract_state_updates_hybrid pl now mux req block contract encoding profile) = Inr ex"
    and "check_payload (pl_abi pl) profile (ex_updates ex) (ex_call_gas ex) = Inr ()"
    and "en_storage_updates r = encode_state_updates_to_abi (pl_abi pl) (ex_updates ex)"
    and "en_update_count r = length (ex_updates ex)" and "en_skipped_opcodes r = ex_skipped ex"
    and "en_extraction r = ex_extraction ex" and "en_is_heuristic r = False"
  using assms
  by (force simp: call_to_encoded_state_updates_def res_simps Let_def split: sum.splits prod.splits)

text \<open>
  C7. The signed program does not depend on the operator. Two runs of the pipeline on one call
  against nodes that answer alike, each with its own executor, at its own time and with its
  own record of the endpoint's mux support, that both return sign the same bytes: the mux
  back-off, whatever state it is in, only decides how the tracers are asked.
\<close>

theorem operators_sign_same_program:
  fixes xe :: "'a executor_env" and xe' :: "'b executor_env"
  assumes "mux_faithful (pl_node pl)"
    and "fst (call_to_encoded_state_updates pl xe now mux req block encoding profile) = Inr r"
    and "fst (call_to_encoded_state_updates pl xe' now' mux' req block encoding profile) = Inr r'"
  shows "en_storage_updates r = en_storage_updates r' \<and> en_update_count r = en_update_count r'
    \<and> en_skipped_opcodes r = en_skipped_opcodes r' \<and> en_extraction r = en_extraction r'"
proof -
  obtain c ex where r: "to_address req = Inr c"
      "fst (extract_state_updates_hybrid pl now mux req block c encoding profile) = Inr ex"
      "en_storage_updates r = encode_state_updates_to_abi (pl_abi pl) (ex_updates ex)"
      "en_update_count r = length (ex_updates ex)" "en_skipped_opcodes r = ex_skipped ex"
      "en_extraction r = ex_extraction ex"
    by (rule encoded_from [OF assms(2)]) blast
  obtain c' ex' where r': "to_address req = Inr c'"
      "fst (extract_state_updates_hybrid pl now' mux' req block c' encoding profile) = Inr ex'"
      "en_storage_updates r' = encode_state_updates_to_abi (pl_abi pl) (ex_updates ex')"
      "en_update_count r' = length (ex_updates ex')" "en_skipped_opcodes r' = ex_skipped ex'"
      "en_extraction r' = ex_extraction ex'"
    by (rule encoded_from [OF assms(3)]) blast
  have "c = c'" using r(1) r'(1) by simp
  then have "ex = ex'" using hybrid_of [OF assms(1) r(2)] hybrid_of [OF assms(1) r'(2)]
    by (metis sum.inject(2))
  with r r' show ?thesis by simp
qed

lemma net_frame_tree_signed:
  assumes "net_frame_tree pl xe req block root us = Inr t"
  shows "ef_frames t = [\<lparr>fp_target = root, fp_caller = 0, fp_value = 0, fp_calldata_hash = 0,
      fp_transition_index = tracker_index us, fp_updates = us, fp_children = []\<rparr>]"
    and "ef_counter_moves t = [root]" and "ef_skipped_opcodes t = {}" and "ef_extraction t = ExPrestateNet"
  using assms by (auto simp: net_frame_tree_def res_simps)

lemma split_call_tree_from:
  assumes "split_call_tree pl xe req block root profile cost kind = Inr t"
  obtains trace nestable tree where
    "get_trace_from_call_with_profile (pl_node pl) req block profile = Inr trace"
    and "nestable_callees (pl_node pl) trace root block = Inr nestable"
    and "compute_frame_tree_canonical (pl_hexd pl) (pl_codec pl) (pl_abi pl) trace root
           (\<lambda>a. a \<in> nestable) cost = Inr tree"
    and "check_tree_payload (pl_abi pl) profile tree = Inr ()"
    and "ef_frames t = ft_frames tree" and "ef_counter_moves t = counter_moves tree"
    and "ef_skipped_opcodes t = ft_skipped_opcodes tree" and "ef_extraction t = kind"
  using assms by (force simp: split_call_tree_def res_simps Let_def)

lemma call_to_frame_tree_from:
  assumes "mux_faithful (pl_node pl)"
    and "fst (call_to_frame_tree pl xe now mux req block encoding profile cost) = Inr t"
  obtains root where "to_address req = Inr root" and "encoding \<noteq> Legacy"
    and "if signs_prestate_net encoding
         then (case net_of (pl_node pl) req block root profile of
                 Some us \<Rightarrow> net_frame_tree pl xe req block root us = Inr t
               | None \<Rightarrow> split_call_tree pl xe req block root profile cost ExPrestateFallback = Inr t)
         else split_call_tree pl xe req block root profile cost ExStructLog = Inr t"
proof -
  from assms(2) obtain root where root: "to_address req = Inr root" "encoding \<noteq> Legacy"
    by (auto simp: call_to_frame_tree_def split: if_splits sum.splits)
  show thesis
  proof (rule that [OF root])
    show "if signs_prestate_net encoding
         then (case net_of (pl_node pl) req block root profile of
                 Some us \<Rightarrow> net_frame_tree pl xe req block root us = Inr t
               | None \<Rightarrow> split_call_tree pl xe req block root profile cost ExPrestateFallback = Inr t)
         else split_call_tree pl xe req block root profile cost ExStructLog = Inr t"
      using assms(2) root
      by (auto simp: call_to_frame_tree_def split: if_splits prod.splits sum.splits option.splits
          dest!: try_prestate_net_of [OF assms(1)])
  qed
qed

lemma split_call_tree_signed:
  assumes "split_call_tree pl xe req block root profile cost kind = Inr t"
    and "split_call_tree pl xe' req block root profile cost kind = Inr t'"
  shows "ef_frames t = ef_frames t' \<and> ef_counter_moves t = ef_counter_moves t'
    \<and> ef_skipped_opcodes t = ef_skipped_opcodes t' \<and> ef_extraction t = ef_extraction t'"
  by (rule split_call_tree_from [OF assms(1)], rule split_call_tree_from [OF assms(2)]) simp

text \<open>
  C22. The same for nested settlement: two runs that both return sign one frame tree, with the
  same frames in the same order and the same counter moves, whatever executor, clock and mux
  record each had.
\<close>

theorem operators_sign_same_tree:
  fixes xe :: "'a executor_env" and xe' :: "'b executor_env"
  assumes "mux_faithful (pl_node pl)"
    and "fst (call_to_frame_tree pl xe now mux req block encoding profile cost) = Inr t"
    and "fst (call_to_frame_tree pl xe' now' mux' req block encoding profile cost) = Inr t'"
  shows "ef_frames t = ef_frames t' \<and> ef_counter_moves t = ef_counter_moves t'
    \<and> ef_skipped_opcodes t = ef_skipped_opcodes t' \<and> ef_extraction t = ef_extraction t'"
proof -
  obtain root where r: "to_address req = Inr root"
    "if signs_prestate_net encoding
         then (case net_of (pl_node pl) req block root profile of
                 Some us \<Rightarrow> net_frame_tree pl xe req block root us = Inr t
               | None \<Rightarrow> split_call_tree pl xe req block root profile cost ExPrestateFallback = Inr t)
         else split_call_tree pl xe req block root profile cost ExStructLog = Inr t"
    using call_to_frame_tree_from [OF assms(1,2)] by blast
  obtain root' where r': "to_address req = Inr root'"
    "if signs_prestate_net encoding
         then (case net_of (pl_node pl) req block root' profile of
                 Some us \<Rightarrow> net_frame_tree pl xe' req block root' us = Inr t'
               | None \<Rightarrow> split_call_tree pl xe' req block root' profile cost ExPrestateFallback = Inr t')
         else split_call_tree pl xe' req block root' profile cost ExStructLog = Inr t'"
    using call_to_frame_tree_from [OF assms(1,3)] by blast
  have root: "root' = root" using r(1) r'(1) by simp
  show ?thesis
  proof (cases "signs_prestate_net encoding \<and> net_of (pl_node pl) req block root profile \<noteq> None")
    case True
    then obtain us where "net_frame_tree pl xe req block root us = Inr t"
      "net_frame_tree pl xe' req block root us = Inr t'"
      using r(2) r'(2) root by auto
    then show ?thesis using net_frame_tree_signed [of pl xe] net_frame_tree_signed [of pl xe'] by metis
  next
    case False
    then obtain kind where "split_call_tree pl xe req block root profile cost kind = Inr t"
      "split_call_tree pl xe' req block root profile cost kind = Inr t'"
      using r(2) r'(2) root by (auto split: if_splits)
    then show ?thesis by (rule split_call_tree_signed)
  qed
qed

section \<open>What the unbounded profile signs\<close>


text \<open>
  A split tree fits as a whole: under the unbounded profile the programs of all its frames
  together stay within the budget of one transaction, creates included since they are
  replayed.
\<close>

lemma unbounded_tree_fits:
  fixes t defines "us \<equiv> concat (map (\<lambda>f. without_nested_ops (fp_updates f)) (ef_frames t))"
  assumes "fst (call_to_frame_tree pl xe now mux req block encoding Unbounded cost) = Inr t"
    and "ef_extraction t \<noteq> ExPrestateNet"
    and "length (encode_state_updates_to_abi (pl_abi pl) us) < 2 ^ 64"
  shows "length (filter is_store us) \<le> 703
    \<and> 23000 + unat (turetzky_upper_gas_limit Bls) + 22100 * length (filter is_store us)
        + 18 * length (encode_state_updates_to_abi (pl_abi pl) us) \<le> 2 ^ 24"
proof -
  from assms(2,3) obtain root kind where "split_call_tree pl xe req block root Unbounded cost kind = Inr t"
    by (auto simp: call_to_frame_tree_def split: if_splits prod.splits sum.splits option.splits
        dest: net_frame_tree_signed(4))
  then obtain tree :: frame_tree_extract where tree: "check_tree_payload (pl_abi pl) Unbounded tree = Inr ()"
    "ef_frames t = ft_frames tree"
    by (rule split_call_tree_from) blast
  then obtain c where "validate (pl_abi pl) us (sat_add (ft_call_gas_total tree) (ft_create_gas_total tree))
      True (turetzky_upper_gas_limit Bls) UNBOUNDED_PAYLOAD_GAS_BUDGET = Inr c"
    by (auto simp: check_tree_payload_def validate_unbounded_tree_cost_def us_def res_simps)
  note b = accepted_estimate_bounds [OF validate_Inr(1) [OF this] assms(4)]
  show ?thesis using b by simp
qed

section \<open>Sample runs\<close>

text \<open>A node that answers every tracer for one call, and muxes them.\<close>

definition empty_trace :: default_frame where
  "empty_trace = \<lparr>failed = False, frame_gas = 0, return_value = [], struct_logs = []\<rparr>"

fun sample_answer :: "diff_mode \<Rightarrow> call_frame \<Rightarrow> tracing \<Rightarrow> transport_error + geth_trace" where
  "sample_answer d f (PreStateTracing _ _) = Inr (PreStateDiff d)"
| "sample_answer d f (CallTracing _) = Inr (CallTrace f)"
| "sample_answer d f (DefaultTracing _ _) =
     Inr (DefaultTrace empty_trace)"
| "sample_answer d f (MuxTracing _) = Inl (OtherTransport ''nested mux'')"

fun sample_trace_call :: "diff_mode \<Rightarrow> call_frame \<Rightarrow> tracing \<Rightarrow> transport_error + geth_trace" where
  "sample_trace_call d f (MuxTracing cs) =
     bind_res (map_res (\<lambda>(t, c). bind_res (sample_answer d f c) (\<lambda>r. Inr (t, r))) cs)
       (\<lambda>fs. Inr (MuxTrace fs))"
| "sample_trace_call d f c = sample_answer d f c"

definition sample_node :: "diff_mode \<Rightarrow> call_frame \<Rightarrow> node" where
  "sample_node d f = \<lparr>
     debug_trace_call = (\<lambda>_ _ opts. sample_trace_call d f (tracing_options opts)),
     debug_trace_transaction = (\<lambda>_ _. Inl (OtherTransport '''')),
     eth_call = (\<lambda>_ _ _ _. Inr []), get_full_block = (\<lambda>_. Inr None),
     show_payload = ep_message, show_http = (\<lambda>_ b. b), json_rpc_error_in = (\<lambda>_. None)\<rparr>"

lemma sample_node_mux_faithful: "mux_faithful (sample_node d f)"
proof -
  have answer: "sample_answer d f c = Inr r"
    if "map_res (\<lambda>(t, c). bind_res (sample_answer d f c) (\<lambda>r. Inr (t, r))) cs = Inr fs"
      and "map_of fs t = Some r" and "map_of cs t = Some c" for cs fs t c r
    using that by (induction cs arbitrary: fs) (auto simp: res_simps split: if_splits)
  have "sample_trace_call d f c = Inr r"
    if "sample_trace_call d f (MuxTracing cs) = Inr (MuxTrace fs)"
      and "map_of fs t = Some r" and "map_of cs t = Some c" for cs fs t c r
    using answer [of cs fs t r c] that by (cases c) (auto simp: res_simps)
  then show ?thesis unfolding mux_faithful_def sample_node_def node.simps tracing_call_options.simps by metis
qed

definition sample_pipeline :: "abi_seq \<Rightarrow> diff_mode \<Rightarrow> call_frame \<Rightarrow> pipeline" where
  "sample_pipeline enc d f = \<lparr>pl_hexd = (\<lambda>_. Some []), pl_codec = toy_codec, pl_abi = enc,
     pl_node = sample_node d f\<rparr>"

definition sample_executor :: "(tx_env list) executor_env" where
  "sample_executor = \<lparr>xe_get_or_build = (\<lambda>_. Inr (toy_env, False)), xe_state_db = (\<lambda>_. []),
     xe_prefetch = (\<lambda>_ db. Inr db), xe_evm = toy_evm, xe_est_error = (\<lambda>_. ExecutorFailed '''')\<rparr>"

definition sample_request :: tx_request where
  "sample_request = \<lparr>tr_from = None, tr_to = Some (CallTo 170), tr_gas = None, tr_value = None,
     tr_input = [], tr_access_list = None\<rparr>"

definition quiet_frame :: call_frame where
  "quiet_frame = CallFrame ''CALL'' (Some 170) None None [] []"

definition one_write :: diff_mode where
  "one_write = \<lparr>pre = [], post = [(170, [(1, 5)])]\<rparr>"


lemmas sample_defs = sample_pipeline_def sample_executor_def sample_request_def quiet_frame_def
  one_write_def

definition no_write :: diff_mode where
  "no_write = \<lparr>pre = [], post = []\<rparr>"

lemma sample_net:
  assumes "classify_prestate_eligibility quiet_frame d 170 = Eligible"
  shows "\<exists>mux'. try_prestate_net (sample_node d quiet_frame) now mux sample_request block 170 profile
     = (Inr (Some (build_state_updates_from_prestate 170 d quiet_frame)), mux')"
proof -
  have "trace_call (sample_node d quiet_frame) req b tr profile = sample_trace_call d quiet_frame tr" for req b tr
    by (simp add: trace_call_options sample_node_def)
  then have "\<exists>mux'. prestate_diff_and_call_frame (sample_node d quiet_frame) now mux sample_request
      block profile = (Inr (d, quiet_frame), mux')"
    by (simp add: prestate_diff_and_call_frame_def separate_tracers_def
        get_prestate_diff_and_call_frame_with_profile_def get_prestate_diff_from_call_with_profile_def
        get_call_frame_from_call_with_profile_def prestate_diff_config_def call_with_log_config_def
        split_prestate_and_call_def)
  with assms show ?thesis
    by (auto simp: try_prestate_net_def frame_failure_def quiet_frame_def)
qed

lemma sample_eligible:
  "classify_prestate_eligibility quiet_frame one_write 170 = Eligible"
  "classify_prestate_eligibility quiet_frame no_write 170 = Eligible"
  by (simp_all add: quiet_frame_def one_write_def no_write_def frame_failure_def
      classify_prestate_eligibility_def key_union_def om_keys_def)

lemma sample_updates:
  "build_state_updates_from_prestate 170 one_write quiet_frame = [Store 1 5]"
  "build_state_updates_from_prestate 170 no_write quiet_frame = []"
  by (simp_all add: quiet_frame_def one_write_def no_write_def key_union_def om_keys_def
      build_state_updates_from_prestate_def net_stores_def storage_in_def slot_or_zero_def
      ordered_target_depth_logs_def)

lemmas sample_nets = sample_net [OF sample_eligible(1), unfolded sample_updates]
  sample_net [OF sample_eligible(2), unfolded sample_updates]

lemma sample_estimate:
  "estimate_with_hints sample_executor abi_seq toy_env contract caller us h value = Inr 30000"
  by (simp add: estimate_with_hints_def sample_executor_def estimate_state_changes_gas_def
      estimate_gas_raw_def inject_estimator_def run_estimator_def toy_evm_def toy_env_def
      default_account_def top_up_caller_def effective_tx_gas_limit_def Let_def)


lemma sample_flat_run:
  "\<exists>r. fst (call_to_encoded_state_updates (sample_pipeline enc no_write quiet_frame) sample_executor now mux
     sample_request block PrestateNet profile) = Inr r
   \<and> en_storage_updates r = encode_state_updates_to_abi enc []"
proof -
  obtain mux' where net: "try_prestate_net (sample_node no_write quiet_frame) now mux sample_request block 170
      profile = (Inr (Some []), mux')" using sample_nets(2) by blast
  have "check_payload enc profile [] 0 = Inr ()"
    using empty_payload_estimate [of "turetzky_upper_gas_limit Bls" 0 enc]
    by (cases profile) (simp_all add: check_payload_def validate_unbounded_cost_def validate_def Let_def
        word_less_nat_alt UNBOUNDED_PAYLOAD_GAS_BUDGET_def TURETZKY_UPPER_GAS_LIMIT_BLS_def)
  with net sample_estimate show ?thesis
    by (simp add: call_to_encoded_state_updates_def extract_state_updates_hybrid_def sample_pipeline_def
        to_address_def signs_prestate_net_def sample_request_def sample_executor_def Let_def)
qed


theorem operators_sign_same_program_witness:
  "\<exists>r r'. fst (call_to_encoded_state_updates (sample_pipeline (\<lambda>_. []) no_write quiet_frame) sample_executor
       5 \<lparr>mux_pause_ms = 60, paused_until_ms = 50, rejections = 0\<rparr> sample_request 9 PrestateNet Unbounded) = Inr r
   \<and> fst (call_to_encoded_state_updates (sample_pipeline (\<lambda>_. []) no_write quiet_frame) sample_executor
       7 (with_pause 60) sample_request 9 PrestateNet Unbounded) = Inr r'
   \<and> en_storage_updates r = en_storage_updates r'"
proof -
  have faithful: "mux_faithful (pl_node (sample_pipeline (\<lambda>_. []) no_write quiet_frame))"
    by (simp add: sample_pipeline_def sample_node_mux_faithful)
  obtain r where r: "fst (call_to_encoded_state_updates (sample_pipeline (\<lambda>_. []) no_write quiet_frame)
      sample_executor 5 \<lparr>mux_pause_ms = 60, paused_until_ms = 50, rejections = 0\<rparr> sample_request 9 PrestateNet
      Unbounded) = Inr r" using sample_flat_run by blast
  obtain r' where r': "fst (call_to_encoded_state_updates (sample_pipeline (\<lambda>_. []) no_write quiet_frame)
      sample_executor 7 (with_pause 60) sample_request 9 PrestateNet Unbounded) = Inr r'"
    using sample_flat_run by blast
  from operators_sign_same_program [OF faithful r r'] r r' show ?thesis by blast
qed


text \<open>A run of the splitter: an empty trace is one frame with an empty program.\<close>

lemma empty_trace_tree:
  "compute_frame_tree_canonical (\<lambda>_. Some []) toy_codec (\<lambda>_. []) empty_trace 170 (\<lambda>a. a \<in> {})
     NESTING_COST_MODEL_V1 =
   Inr \<lparr>ft_frames = [\<lparr>fp_target = 170, fp_caller = 0, fp_value = 0, fp_calldata_hash = 0,
          fp_transition_index = None, fp_updates = [], fp_children = []\<rparr>],
        ft_skipped_opcodes = {}, ft_call_gas_total = 0, ft_callee_gas_total = 0, ft_create_gas_total = 0,
        counter_moves = []\<rparr>"
  by code_simp

lemma sample_tree_estimate:
  "estimate_tree_with_hints sample_executor (\<lambda>_. []) toy_env
     [\<lparr>fp_target = 170, fp_caller = 0, fp_value = 0, fp_calldata_hash = 0,
        fp_transition_index = None, fp_updates = [], fp_children = []\<rparr>] caller h value = Inr [30000]"
  by (simp add: estimate_tree_with_hints_def sample_executor_def estimate_frame_tree_gas_def inject_all_def
      inject_estimator_def run_tree.simps run_ops.simps piece_gas_def run_estimator_def toy_evm_def
      toy_env_def default_account_def top_up_caller_def effective_tx_gas_limit_def Let_def sat_add_def)

lemma sample_tree_run:
  "\<exists>t. fst (call_to_frame_tree (sample_pipeline (\<lambda>_. []) no_write quiet_frame) sample_executor now mux
     sample_request block Canonical Unbounded NESTING_COST_MODEL_V1) = Inr t \<and> ef_extraction t = ExStructLog
     \<and> concat (map (\<lambda>f. without_nested_ops (fp_updates f)) (ef_frames t)) = []"
proof -
  have trace: "get_trace_from_call_with_profile (sample_node no_write quiet_frame) sample_request block Unbounded
      = Inr empty_trace"
    by (simp add: get_trace_from_call_with_profile_def trace_call_options sample_node_def
        ensure_call_succeeded_def empty_trace_def)
  have nest: "nestable_callees (sample_node no_write quiet_frame) tr 170 block = Inr {}" for tr
    by (simp add: nestable_callees_def nested_registry_def static_read_def sample_node_def)
  have pay: "check_tree_payload (\<lambda>_. []) Unbounded \<lparr>ft_frames = [\<lparr>fp_target = 170, fp_caller = 0, fp_value = 0,
          fp_calldata_hash = 0, fp_transition_index = None, fp_updates = [], fp_children = []\<rparr>],
        ft_skipped_opcodes = {}, ft_call_gas_total = 0, ft_callee_gas_total = 0, ft_create_gas_total = 0,
        counter_moves = []\<rparr> = Inr ()"
    using empty_payload_estimate [of "turetzky_upper_gas_limit Bls" 0 "\<lambda>_. []"]
    by (simp add: check_tree_payload_def validate_unbounded_tree_cost_def validate_def Let_def
        without_nested_ops_def word_less_nat_alt UNBOUNDED_PAYLOAD_GAS_BUDGET_def
        TURETZKY_UPPER_GAS_LIMIT_BLS_def sat_add_def)
  have env: "xe_get_or_build sample_executor block = Inr (toy_env, False)"
    by (simp add: sample_executor_def)
  have to: "to_address sample_request = Inr 170" by (simp add: to_address_def sample_request_def)
  have pl: "pl_node (sample_pipeline (\<lambda>_. []) no_write quiet_frame) = sample_node no_write quiet_frame"
    "pl_abi (sample_pipeline (\<lambda>_. []) no_write quiet_frame) = (\<lambda>_. [])"
    "pl_hexd (sample_pipeline (\<lambda>_. []) no_write quiet_frame) = (\<lambda>_. Some [])"
    "pl_codec (sample_pipeline (\<lambda>_. []) no_write quiet_frame) = toy_codec"
    by (simp_all add: sample_pipeline_def)
  note empty_trace_tree [simplified]
  with trace nest pay env sample_tree_estimate show ?thesis
    by (auto simp: call_to_frame_tree_def to signs_prestate_net_def split_call_tree_def pl Let_def
        without_nested_ops_def)
qed

theorem operators_sign_same_tree_witness:
  "\<exists>t t'. fst (call_to_frame_tree (sample_pipeline (\<lambda>_. []) no_write quiet_frame) sample_executor 7 (with_pause 60)
       sample_request 9 Canonical Unbounded NESTING_COST_MODEL_V1) = Inr t
   \<and> fst (call_to_frame_tree (sample_pipeline (\<lambda>_. []) no_write quiet_frame) sample_executor 8
       (pause_mux 8 (with_pause 60)) sample_request 9 Canonical Unbounded NESTING_COST_MODEL_V1) = Inr t'
   \<and> ef_frames t = ef_frames t'"
proof -
  have faithful: "mux_faithful (pl_node (sample_pipeline (\<lambda>_. []) no_write quiet_frame))"
    by (simp add: sample_pipeline_def sample_node_mux_faithful)
  obtain t where t: "fst (call_to_frame_tree (sample_pipeline (\<lambda>_. []) no_write quiet_frame) sample_executor 7
      (with_pause 60) sample_request 9 Canonical Unbounded NESTING_COST_MODEL_V1) = Inr t"
    using sample_tree_run by blast
  obtain t' where t': "fst (call_to_frame_tree (sample_pipeline (\<lambda>_. []) no_write quiet_frame) sample_executor 8
      (pause_mux 8 (with_pause 60)) sample_request 9 Canonical Unbounded NESTING_COST_MODEL_V1) = Inr t'"
    using sample_tree_run by blast
  from operators_sign_same_tree [OF faithful t t'] t t' show ?thesis by blast
qed

section \<open>The net form of a tree is not priced\<close>

definition padded :: "nat \<Rightarrow> abi_seq" where
  "padded n = (\<lambda>_. replicate n 0)"

lemma padded_length:
  "n \<le> length (encode_state_updates_to_abi (padded n) [u])"
  "length (encode_state_updates_to_abi (padded n) [u]) \<le> n + 256"
proof -
  have "pad32_len n - n \<le> 32" by (simp add: pad32_len_def)
  then show "n \<le> length (encode_state_updates_to_abi (padded n) [u])"
    "length (encode_state_updates_to_abi (padded n) [u]) \<le> n + 256"
    by (simp_all add: encode_state_updates_to_abi_layout padded_def encode_bytes_def)
qed

lemma heavy_payload_rejected:
  "\<exists>v. validate_unbounded_cost (padded (2 ^ 20)) [Store 1 5] 0 sf UNBOUNDED_PAYLOAD_GAS_BUDGET = Inl v"
proof -
  let ?len = "length (encode_state_updates_to_abi (padded (2 ^ 20)) [Store 1 5])"
  have len: "2 ^ 20 \<le> ?len" "?len \<le> 2 ^ 20 + 256" by (rule padded_length)+
  have "\<not> estimate_applied_payload_gas (padded (2 ^ 20)) [Store 1 5] 0 sf \<le> UNBOUNDED_PAYLOAD_GAS_BUDGET"
  proof
    assume "estimate_applied_payload_gas (padded (2 ^ 20)) [Store 1 5] 0 sf \<le> UNBOUNDED_PAYLOAD_GAS_BUDGET"
    from accepted_estimate_bounds(1) [OF this] len(2) have "18 * ?len \<le> 2 ^ 24" by simp
    with len(1) show False by simp
  qed
  then show ?thesis
    using validate_Inr(1) [of "padded (2 ^ 20)" "[Store 1 5]" 0 False sf UNBOUNDED_PAYLOAD_GAS_BUDGET]
    by (cases "validate_unbounded_cost (padded (2 ^ 20)) [Store 1 5] 0 sf UNBOUNDED_PAYLOAD_GAS_BUDGET")
      (auto simp: validate_unbounded_cost_def)
qed


end
