(* ===== verification/Rpc_Db.thy ===== *)
theory Rpc_Db
  imports Estimator
begin

text \<open>
  The database over RPC, \<^verbatim>\<open>crates/evmsketch/src/simple_rpc_db.rs\<close>: accounts and slots of one block
  read from a node, by \<open>eth_getProof\<close> where the node has it and by three plain requests otherwise,
  and the prefetching of hinted slots into revm's cache. The node's answers are the record
  \<open>rpc_provider\<close>, revm's cache the record \<open>cache_ops\<close>; tasks of the prefetch complete in any order, which is
  an argument. The tokio runtime every request runs on is taken to be there.
\<close>

section \<open>Accounts from a node\<close>

record account_proof =
  pr_balance :: u256
  pr_nonce :: u64
  pr_code_hash :: b256
  pr_storage :: "(u256 \<times> u256) list"

record rpc_provider =
  get_proof :: "address \<Rightarrow> b256 list \<Rightarrow> u64 \<Rightarrow> transport_error + account_proof"
  get_code_at :: "address \<Rightarrow> u64 \<Rightarrow> transport_error + bytes"
  get_balance :: "address \<Rightarrow> u64 \<Rightarrow> transport_error + u256"
  get_transaction_count :: "address \<Rightarrow> u64 \<Rightarrow> transport_error + u64"
  get_storage_at :: "address \<Rightarrow> u256 \<Rightarrow> u64 \<Rightarrow> transport_error + u256"
  get_block_hash :: "u64 \<Rightarrow> transport_error + b256 option"

text \<open>revm's hashing and its check of raw bytecode, which panics on a malformed delegation.\<close>

record bytecode_env =
  be_keccak_empty :: b256
  be_new_raw :: "bytes \<Rightarrow> string + bytes"
  be_hash_slow :: "bytes \<Rightarrow> b256"

datatype rpc_db_error =
    GetProofFailed address transport_error
  | GetCodeFailed address transport_error
  | GetBalanceFailed address transport_error
  | GetNonceFailed address transport_error
  | GetStorageFailed address u256 transport_error
  | GetBlockFailed u64 transport_error
  | CodeByHashUnsupported
  | BytecodePanic string
  | PrefetchTaskFailed string
  | InsertStorageFailed address u256 string

datatype get_proof_outcome =
    ProofOk account_info
  | MethodNotSupported
  | ProofErr rpc_db_error

definition is_method_not_found :: "transport_error \<Rightarrow> bool" where
  "is_method_not_found e =
     (case e of
        ErrorResp payload \<Rightarrow>
          if ep_code payload = - 32601 then True
          else (let msg = to_lowercase (ep_message payload)
                in str_contains msg ''method not found'' \<or> str_contains msg ''eth_getproof is not supported'')
      | _ \<Rightarrow> False)"

definition proof_code_hash :: "bytecode_env \<Rightarrow> b256 \<Rightarrow> b256" where
  "proof_code_hash be code_hash = (if code_hash = 0 then be_keccak_empty be else code_hash)"

record simple_rpc_db =
  rd_provider :: rpc_provider
  rd_block_number :: u64
  rd_proof_supported :: bool

definition new_simple_rpc_db :: "rpc_provider \<Rightarrow> u64 \<Rightarrow> simple_rpc_db" where
  "new_simple_rpc_db provider block_number =
     \<lparr>rd_provider = provider, rd_block_number = block_number, rd_proof_supported = True\<rparr>"

definition new_raw :: "bytecode_env \<Rightarrow> bytes \<Rightarrow> rpc_db_error + bytes" where
  "new_raw be code = map_err BytecodePanic (be_new_raw be code)"

definition try_fetch_with_proof :: "bytecode_env \<Rightarrow> address \<Rightarrow> simple_rpc_db \<Rightarrow> get_proof_outcome" where
  "try_fetch_with_proof be a db =
     (let block = rd_block_number db; proof_res = get_proof (rd_provider db) a [] block;
          code_res = get_code_at (rd_provider db) a block
      in case proof_res of
           Inl e \<Rightarrow> if is_method_not_found e then MethodNotSupported else ProofErr (GetProofFailed a e)
         | Inr p \<Rightarrow>
             (let code_hash = proof_code_hash be (pr_code_hash p)
              in case (if code_hash \<noteq> be_keccak_empty be
                       then bind_res (map_err (GetCodeFailed a) code_res) (new_raw be)
                       else new_raw be []) of
                   Inl e \<Rightarrow> ProofErr e
                 | Inr code \<Rightarrow> ProofOk \<lparr>ai_balance = pr_balance p, ai_nonce = pr_nonce p,
                     ai_code_hash = code_hash, ai_code = Some code\<rparr>))"

definition fetch_account_parallel :: "bytecode_env \<Rightarrow> address \<Rightarrow> simple_rpc_db \<Rightarrow> rpc_db_error + account_info" where
  "fetch_account_parallel be a db =
     (let block = rd_block_number db; pv = rd_provider db
      in bind_res (map_err (GetBalanceFailed a) (get_balance pv a block)) (\<lambda>balance.
         bind_res (map_err (GetNonceFailed a) (get_transaction_count pv a block)) (\<lambda>nonce.
         bind_res (map_err (GetCodeFailed a) (get_code_at pv a block)) (\<lambda>code_bytes.
         bind_res (new_raw be code_bytes) (\<lambda>code.
         Inr \<lparr>ai_balance = balance, ai_nonce = nonce, ai_code_hash = be_hash_slow be code, ai_code = Some code\<rparr>)))))"

definition fetch_account :: "bytecode_env \<Rightarrow> address \<Rightarrow> simple_rpc_db \<Rightarrow>
    (rpc_db_error + account_info option) \<times> simple_rpc_db" where
  "fetch_account be a db =
     (let fallback = (\<lambda>db. bind_res (fetch_account_parallel be a db) (\<lambda>info. Inr (Some info)))
      in if rd_proof_supported db
         then (case try_fetch_with_proof be a db of
                 ProofOk info \<Rightarrow> (Inr (Some info), db)
               | MethodNotSupported \<Rightarrow> (fallback db, db\<lparr>rd_proof_supported := False\<rparr>)
               | ProofErr e \<Rightarrow> (Inl e, db))
         else (fallback db, db))"

definition code_by_hash_ref :: "b256 \<Rightarrow> simple_rpc_db \<Rightarrow> rpc_db_error + bytes" where
  "code_by_hash_ref h db = Inl CodeByHashUnsupported"

definition storage_ref :: "address \<Rightarrow> u256 \<Rightarrow> simple_rpc_db \<Rightarrow> rpc_db_error + u256" where
  "storage_ref a index db =
     map_err (GetStorageFailed a index) (get_storage_at (rd_provider db) a index (rd_block_number db))"

definition block_hash_ref :: "u64 \<Rightarrow> simple_rpc_db \<Rightarrow> rpc_db_error + b256" where
  "block_hash_ref number db =
     map_err (GetBlockFailed number)
       (map_sum id (\<lambda>b. case b of None \<Rightarrow> 0 | Some h \<Rightarrow> h) (get_block_hash (rd_provider db) number))"

section \<open>Prefetching\<close>

text \<open>revm's \<open>CacheDB\<close> over the database: what it wraps, and the two ways of filling it.\<close>

record 'c cache_ops =
  co_db :: "'c \<Rightarrow> simple_rpc_db"
  co_clear_proof_supported :: "'c \<Rightarrow> 'c"
  co_insert_account_info :: "address \<Rightarrow> account_info \<Rightarrow> 'c \<Rightarrow> 'c"
  co_insert_account_storage :: "address \<Rightarrow> u256 \<Rightarrow> u256 \<Rightarrow> 'c \<Rightarrow> string + 'c"

type_synonym task_result = "address \<times> (transport_error + account_proof) \<times> (transport_error + bytes)"

definition unique_keys :: "b256 list \<Rightarrow> b256 list" where
  "unique_keys keys = rev (remdups (rev keys))"

definition prefetch_task :: "rpc_provider \<Rightarrow> u64 \<Rightarrow> address \<times> b256 list \<Rightarrow> task_result" where
  "prefetch_task pv block = (\<lambda>(a, keys). (a, get_proof pv a (unique_keys keys) block, get_code_at pv a block))"

text \<open>The results in the order the tasks complete; a task may also fail to join.\<close>

fun collect_tasks :: "bytecode_env \<Rightarrow> 'c cache_ops \<Rightarrow> (string + task_result) list \<Rightarrow> 'c \<Rightarrow> rpc_db_error + 'c" where
  "collect_tasks be co [] c = Inr c"
| "collect_tasks be co (Inl e # rest) c = Inl (PrefetchTaskFailed e)"
| "collect_tasks be co (Inr (a, proof_res, code_res) # rest) c =
     (case proof_res of
        Inl e \<Rightarrow> if is_method_not_found e then Inr (co_clear_proof_supported co c) else collect_tasks be co rest c
      | Inr p \<Rightarrow>
          (let code_hash = proof_code_hash be (pr_code_hash p);
               fill = (\<lambda>code.
                 bind_res (fold_res (\<lambda>c (slot, v). map_err (InsertStorageFailed a slot) (co_insert_account_storage co a slot v c))
                     (pr_storage p)
                     (co_insert_account_info co a \<lparr>ai_balance = pr_balance p, ai_nonce = pr_nonce p,
                        ai_code_hash = code_hash, ai_code = Some code\<rparr> c))
                   (collect_tasks be co rest))
           in if code_hash \<noteq> be_keccak_empty be
              then (case code_res of
                      Inl e \<Rightarrow> collect_tasks be co rest c
                    | Inr b \<Rightarrow> bind_res (new_raw be b) fill)
              else bind_res (new_raw be []) fill))"

definition prefetch_slots_into_cache :: "bytecode_env \<Rightarrow> 'c cache_ops \<Rightarrow>
    (task_result list \<Rightarrow> (string + task_result) list) \<Rightarrow> (address, b256 list) omap \<Rightarrow> 'c \<Rightarrow> rpc_db_error + 'c" where
  "prefetch_slots_into_cache be co joined slots c =
     (if slots = [] \<or> \<not> rd_proof_supported (co_db co c) then Inr c
      else collect_tasks be co
             (joined (map (prefetch_task (rd_provider (co_db co c)) (rd_block_number (co_db co c))) slots)) c)"

section \<open>Both ways of reading an account agree\<close>

text \<open>The state of one block, and a node that, where it answers, answers from it.\<close>

record chain_state =
  ch_balance :: "address \<Rightarrow> u256"
  ch_nonce :: "address \<Rightarrow> u64"
  ch_code :: "address \<Rightarrow> bytes"
  ch_storage :: "address \<Rightarrow> u256 \<Rightarrow> u256"

definition true_account :: "bytecode_env \<Rightarrow> chain_state \<Rightarrow> address \<Rightarrow> account_info" where
  "true_account be ch a = \<lparr>ai_balance = ch_balance ch a, ai_nonce = ch_nonce ch a,
     ai_code_hash = be_hash_slow be (ch_code ch a), ai_code = Some (ch_code ch a)\<rparr>"

definition honest_proof :: "bytecode_env \<Rightarrow> chain_state \<Rightarrow> address \<Rightarrow> account_proof \<Rightarrow> bool" where
  "honest_proof be ch a p \<longleftrightarrow> pr_balance p = ch_balance ch a \<and> pr_nonce p = ch_nonce ch a
     \<and> (pr_code_hash p = be_hash_slow be (ch_code ch a) \<or> pr_code_hash p = 0 \<and> ch_code ch a = [])
     \<and> list_all (\<lambda>(k, v). v = ch_storage ch a k) (pr_storage p)"

definition answers :: "('a \<Rightarrow> bool) \<Rightarrow> 'e + 'a \<Rightarrow> bool" where
  "answers P r = (case r of Inl _ \<Rightarrow> True | Inr x \<Rightarrow> P x)"

definition honest :: "bytecode_env \<Rightarrow> chain_state \<Rightarrow> u64 \<Rightarrow> rpc_provider \<Rightarrow> bool" where
  "honest be ch block pv \<longleftrightarrow> (\<forall>a.
     (\<forall>keys. answers (honest_proof be ch a) (get_proof pv a keys block))
   \<and> answers (\<lambda>c. c = ch_code ch a) (get_code_at pv a block)
   \<and> answers (\<lambda>b. b = ch_balance ch a) (get_balance pv a block)
   \<and> answers (\<lambda>n. n = ch_nonce ch a) (get_transaction_count pv a block)
   \<and> (\<forall>k. answers (\<lambda>v. v = ch_storage ch a k) (get_storage_at pv a k block)))"

text \<open>
  revm's bytecode: code is kept as it is, the hash of the empty code is \<open>KECCAK_EMPTY\<close>, and no other
  code has that hash or zero.
\<close>

definition bytecode_laws :: "bytecode_env \<Rightarrow> bool" where
  "bytecode_laws be \<longleftrightarrow> (\<forall>c. answers (\<lambda>b. b = c) (be_new_raw be c))
     \<and> (\<forall>c. be_hash_slow be c = be_keccak_empty be \<longleftrightarrow> c = []) \<and> (\<forall>c. be_hash_slow be c \<noteq> 0)"

lemma new_raw_Inr: "bytecode_laws be \<Longrightarrow> new_raw be c = Inr b \<Longrightarrow> b = c"
  by (cases "be_new_raw be c") (auto simp: new_raw_def bytecode_laws_def answers_def dest!: spec [of _ c])

lemma hash_empty: "bytecode_laws be \<Longrightarrow> be_hash_slow be c = be_keccak_empty be \<longleftrightarrow> c = []"
  by (simp add: bytecode_laws_def)

text \<open>The code hash the database reports for a proof is the hash of the account's code.\<close>

lemma proof_code_hash_true:
  assumes "bytecode_laws be" and "honest_proof be ch a p"
  shows "proof_code_hash be (pr_code_hash p) = be_hash_slow be (ch_code ch a)"
proof -
  have "be_hash_slow be [] = be_keccak_empty be" "be_hash_slow be (ch_code ch a) \<noteq> 0"
    using assms(1) by (simp_all add: bytecode_laws_def)
  with assms(2) show ?thesis by (auto simp: proof_code_hash_def honest_proof_def)
qed

lemma answers_Inr: "answers P (Inr x) \<longleftrightarrow> P x"
  by (simp add: answers_def)

lemma honest_code: "honest be ch block pv \<Longrightarrow> get_code_at pv a block = Inr c \<Longrightarrow> c = ch_code ch a"
  unfolding honest_def by (metis answers_Inr)

lemma honest_get_proof: "honest be ch block pv \<Longrightarrow> get_proof pv a keys block = Inr p \<Longrightarrow> honest_proof be ch a p"
  unfolding honest_def by (metis answers_Inr)

lemma honest_balance: "honest be ch block pv \<Longrightarrow> get_balance pv a block = Inr b \<Longrightarrow> b = ch_balance ch a"
  unfolding honest_def by (metis answers_Inr)

lemma honest_nonce: "honest be ch block pv \<Longrightarrow> get_transaction_count pv a block = Inr n \<Longrightarrow> n = ch_nonce ch a"
  unfolding honest_def by (metis answers_Inr)

lemma try_fetch_with_proof_true:
  assumes be: "bytecode_laws be" and h: "honest be ch (rd_block_number db) (rd_provider db)"
    and f: "try_fetch_with_proof be a db = ProofOk info"
  shows "info = true_account be ch a"
proof -
  obtain p where p: "get_proof (rd_provider db) a [] (rd_block_number db) = Inr p"
    using f by (cases "get_proof (rd_provider db) a [] (rd_block_number db)")
      (auto simp: try_fetch_with_proof_def Let_def split: if_splits)
  have hp: "honest_proof be ch a p" by (rule honest_get_proof [OF h p])
  let ?h = "be_hash_slow be (ch_code ch a)"
  have hash: "proof_code_hash be (pr_code_hash p) = ?h" by (rule proof_code_hash_true [OF be hp])
  obtain code where code: "(if ?h \<noteq> be_keccak_empty be
      then bind_res (map_err (GetCodeFailed a) (get_code_at (rd_provider db) a (rd_block_number db))) (new_raw be)
      else new_raw be []) = Inr code"
    and info: "info = \<lparr>ai_balance = pr_balance p, ai_nonce = pr_nonce p, ai_code_hash = ?h, ai_code = Some code\<rparr>"
    using f by (auto simp: try_fetch_with_proof_def Let_def p hash split: sum.splits)
  have "code = ch_code ch a"
    using code honest_code [OF h] new_raw_Inr [OF be] hash_empty [OF be, of "ch_code ch a"]
    by (auto simp: bind_res_Inr_iff split: if_splits)
  with info hp show ?thesis by (simp add: true_account_def honest_proof_def)
qed

lemma fetch_account_parallel_true:
  assumes be: "bytecode_laws be" and h: "honest be ch (rd_block_number db) (rd_provider db)"
    and f: "fetch_account_parallel be a db = Inr info"
  shows "info = true_account be ch a"
proof -
  obtain b n c code where g: "get_balance (rd_provider db) a (rd_block_number db) = Inr b"
    "get_transaction_count (rd_provider db) a (rd_block_number db) = Inr n"
    "get_code_at (rd_provider db) a (rd_block_number db) = Inr c" "new_raw be c = Inr code"
    and info: "info = \<lparr>ai_balance = b, ai_nonce = n, ai_code_hash = be_hash_slow be code, ai_code = Some code\<rparr>"
    using f by (auto simp: fetch_account_parallel_def Let_def bind_res_Inr_iff)
  with honest_balance [OF h g(1)] honest_nonce [OF h g(2)] honest_code [OF h g(3)] new_raw_Inr [OF be g(4)] show ?thesis by (simp add: true_account_def)
qed

text \<open>
  C14. The two ways of reading an account agree: against a node that answers from one state, whether or
  not it has \<open>eth_getProof\<close>, every account the database returns is the account of that state, with the
  hash of its code also where the node reports zero for an account that does not exist. The
  flag that turns proofs off is only ever cleared, and only by a node that says it lacks the method.
\<close>

theorem fetch_account_exact:
  assumes "bytecode_laws be" and "honest be ch (rd_block_number db) (rd_provider db)"
    and "fetch_account be a db = (r, db')"
  shows "(\<forall>x. r = Inr x \<longrightarrow> x = Some (true_account be ch a))
    \<and> (db' = db \<or> rd_proof_supported db \<and> db' = db\<lparr>rd_proof_supported := False\<rparr>
        \<and> (\<exists>e. get_proof (rd_provider db) a [] (rd_block_number db) = Inl e \<and> is_method_not_found e))"
proof (cases "rd_proof_supported db")
  case False
  with assms fetch_account_parallel_true [OF assms(1,2)] show ?thesis
    by (auto simp: fetch_account_def Let_def bind_res_Inr_iff)
next
  case True
  show ?thesis
  proof (cases "try_fetch_with_proof be a db")
    case (ProofOk info)
    with True assms(3) try_fetch_with_proof_true [OF assms(1,2) ProofOk] show ?thesis
      by (auto simp: fetch_account_def Let_def)
  next
    case MethodNotSupported
    then obtain e where "get_proof (rd_provider db) a [] (rd_block_number db) = Inl e" "is_method_not_found e"
      by (auto simp: try_fetch_with_proof_def Let_def split: sum.splits if_splits)
    with MethodNotSupported True assms(3) fetch_account_parallel_true [OF assms(1,2)] show ?thesis
      by (auto simp: fetch_account_def Let_def bind_res_Inr_iff)
  next
    case (ProofErr e)
    with True assms(3) show ?thesis by (auto simp: fetch_account_def Let_def)
  qed
qed

section \<open>Prefetching never changes what is read\<close>

text \<open>
  What revm documents of its cache: the accounts and slots it holds, and that inserting one changes
  nothing else; a slot is inserted under an account the cache holds.
\<close>

record 'c cache_view =
  cv_info :: "'c \<Rightarrow> address \<Rightarrow> account_info option"
  cv_slot :: "'c \<Rightarrow> address \<Rightarrow> u256 \<Rightarrow> u256 option"

definition cache_laws :: "'c cache_ops \<Rightarrow> 'c cache_view \<Rightarrow> bool" where
  "cache_laws co cv \<longleftrightarrow>
     (\<forall>a i c. cv_info cv (co_insert_account_info co a i c) = (cv_info cv c)(a := Some i)
        \<and> cv_slot cv (co_insert_account_info co a i c) = cv_slot cv c)
   \<and> (\<forall>a k v c c'. co_insert_account_storage co a k v c = Inr c' \<and> cv_info cv c a \<noteq> None \<longrightarrow>
        cv_info cv c' = cv_info cv c \<and> cv_slot cv c' = (\<lambda>b l. if b = a \<and> l = k then Some v else cv_slot cv c b l))
   \<and> (\<forall>c. cv_info cv (co_clear_proof_supported co c) = cv_info cv c
        \<and> cv_slot cv (co_clear_proof_supported co c) = cv_slot cv c)"

text \<open>The cache holds nothing but what the chain's state holds.\<close>

definition coherent :: "bytecode_env \<Rightarrow> chain_state \<Rightarrow> 'c cache_view \<Rightarrow> 'c \<Rightarrow> bool" where
  "coherent be ch cv c \<longleftrightarrow>
     (\<forall>a i. cv_info cv c a = Some i \<longrightarrow> i = true_account be ch a)
   \<and> (\<forall>a k v. cv_slot cv c a k = Some v \<longrightarrow> v = ch_storage ch a k)"

lemma coherent_insert_info:
  "cache_laws co cv \<Longrightarrow> coherent be ch cv c \<Longrightarrow> coherent be ch cv (co_insert_account_info co a (true_account be ch a) c)"
  by (simp add: cache_laws_def coherent_def)

lemma coherent_insert_storage:
  assumes "cache_laws co cv" and "coherent be ch cv c" and "cv_info cv c a \<noteq> None"
    and "co_insert_account_storage co a k (ch_storage ch a k) c = Inr c'"
  shows "coherent be ch cv c' \<and> cv_info cv c' a \<noteq> None"
proof -
  have "cv_info cv c' = cv_info cv c \<and> cv_slot cv c' = (\<lambda>b l. if b = a \<and> l = k then Some (ch_storage ch a k) else cv_slot cv c b l)"
    using assms(1,3,4) unfolding cache_laws_def by blast
  with assms(2,3) show ?thesis by (simp add: coherent_def)
qed

lemma coherent_slots:
  assumes laws: "cache_laws co cv" and "coherent be ch cv c" and "cv_info cv c a \<noteq> None"
    and "list_all (\<lambda>(k, v). v = ch_storage ch a k) kvs"
    and "fold_res (\<lambda>c (slot, v). map_err (f slot) (co_insert_account_storage co a slot v c)) kvs c = Inr c'"
  shows "coherent be ch cv c'"
  using assms(2-)
proof (induction kvs arbitrary: c)
  case (Cons kv kvs)
  obtain k where kv: "kv = (k, ch_storage ch a k)" using Cons.prems(3) by (cases kv) auto
  then obtain c1 where c1: "co_insert_account_storage co a k (ch_storage ch a k) c = Inr c1"
    "fold_res (\<lambda>c (slot, v). map_err (f slot) (co_insert_account_storage co a slot v c)) kvs c1 = Inr c'"
    using Cons.prems(4) by (auto simp: bind_res_Inr_iff)
  with coherent_insert_storage [OF laws Cons.prems(1,2) c1(1)] Cons.IH [OF _ _ _ c1(2)] Cons.prems(3) show ?case
    by simp
qed simp

definition honest_task :: "bytecode_env \<Rightarrow> chain_state \<Rightarrow> string + task_result \<Rightarrow> bool" where
  "honest_task be ch = answers (\<lambda>(a, proof_res, code_res). answers (honest_proof be ch a) proof_res
     \<and> answers (\<lambda>c. c = ch_code ch a) code_res)"

lemma collect_tasks_coherent:
  assumes be: "bytecode_laws be" and laws: "cache_laws co cv"
  shows "collect_tasks be co ts c = Inr c' \<Longrightarrow> list_all (honest_task be ch) ts \<Longrightarrow> coherent be ch cv c \<Longrightarrow>
    coherent be ch cv c'"
proof (induction ts arbitrary: c)
  case (Cons t ts)
  obtain a pr cr where t: "t = Inr (a, pr, cr)"
    using Cons.prems(1) by (cases t) auto
  show ?case
  proof (cases pr)
    case (Inl e)
    have "coherent be ch cv (co_clear_proof_supported co c)"
      using laws Cons.prems(3) by (simp add: coherent_def cache_laws_def)
    with Cons.IH [of c] Cons.prems show ?thesis by (auto simp: t Inl split: if_splits)
  next
    case (Inr p)
    have hp: "honest_proof be ch a p" and hc: "\<And>b. cr = Inr b \<Longrightarrow> b = ch_code ch a"
      using Cons.prems(2) by (auto simp: t Inr honest_task_def answers_def)
    have hash: "proof_code_hash be (pr_code_hash p) = be_hash_slow be (ch_code ch a)"
      by (rule proof_code_hash_true [OF be hp])
    let ?fill = "\<lambda>code. bind_res (fold_res (\<lambda>c (slot, v). map_err (InsertStorageFailed a slot) (co_insert_account_storage co a slot v c))
        (pr_storage p) (co_insert_account_info co a \<lparr>ai_balance = pr_balance p, ai_nonce = pr_nonce p,
          ai_code_hash = be_hash_slow be (ch_code ch a), ai_code = Some code\<rparr> c)) (collect_tasks be co ts)"
    have filled: ?thesis if "?fill (ch_code ch a) = Inr c'"
    proof -
      let ?c0 = "co_insert_account_info co a (true_account be ch a) c"
      have "\<lparr>ai_balance = pr_balance p, ai_nonce = pr_nonce p, ai_code_hash = be_hash_slow be (ch_code ch a),
          ai_code = Some (ch_code ch a)\<rparr> = true_account be ch a"
        using hp by (simp add: true_account_def honest_proof_def)
      with that obtain c1 where c1: "fold_res (\<lambda>c (slot, v). map_err (InsertStorageFailed a slot)
          (co_insert_account_storage co a slot v c)) (pr_storage p) ?c0 = Inr c1" "collect_tasks be co ts c1 = Inr c'"
        by (auto simp: bind_res_Inr_iff)
      have "coherent be ch cv c1"
        by (rule coherent_slots [OF laws coherent_insert_info [OF laws Cons.prems(3)] _ _ c1(1)])
          (use laws hp in \<open>simp_all add: cache_laws_def honest_proof_def\<close>)
      with Cons.IH [OF c1(2)] Cons.prems(2) show ?thesis by simp
    qed
    have "(\<exists>e. cr = Inl e) \<and> collect_tasks be co ts c = Inr c' \<or> ?fill (ch_code ch a) = Inr c'"
    proof (cases "ch_code ch a = []")
      case True
      with Cons.prems(1) new_raw_Inr [OF be, of "[]"] hash_empty [OF be] show ?thesis
        by (auto simp: t Inr Let_def hash bind_res_Inr_iff)
    next
      case False
      with Cons.prems(1) new_raw_Inr [OF be] hash_empty [OF be] hc show ?thesis
        by (cases cr) (auto simp: t Inr Let_def hash bind_res_Inr_iff)
    qed
    with filled Cons.IH [of c] Cons.prems(2,3) show ?thesis by auto
  qed
qed simp

text \<open>What joining the spawned tasks may give: each result is that of a task, or a failure to join.\<close>

definition completions :: "(task_result list \<Rightarrow> (string + task_result) list) \<Rightarrow> bool" where
  "completions joined \<longleftrightarrow> (\<forall>ts. list_all (answers (\<lambda>r. r \<in> set ts)) (joined ts))"


section \<open>A sample node\<close>

text \<open>
  A chain where account 5 has code and a slot and account 6 does not exist; the node reports a zero
  code hash for the latter and has no proof of account 7.
\<close>

definition sample_chain :: chain_state where
  "sample_chain = \<lparr>ch_balance = (\<lambda>a. if a = 5 then 100 else 0), ch_nonce = (\<lambda>a. if a = 5 then 1 else 0),
     ch_code = (\<lambda>a. if a = 5 then [96] else []), ch_storage = (\<lambda>a k. if a = 5 \<and> k = 2 then 42 else 0)\<rparr>"

definition sample_bytecode :: bytecode_env where
  "sample_bytecode = \<lparr>be_keccak_empty = 3, be_new_raw = Inr, be_hash_slow = (\<lambda>c. if c = [] then 3 else 4)\<rparr>"

definition sample_provider :: rpc_provider where
  "sample_provider = \<lparr>get_proof = (\<lambda>a keys _. if a = 7 then Inl (OtherTransport ''timeout'')
       else Inr \<lparr>pr_balance = ch_balance sample_chain a, pr_nonce = ch_nonce sample_chain a,
         pr_code_hash = (if a = 5 then 4 else 0), pr_storage = map (\<lambda>k. (k, ch_storage sample_chain a k)) keys\<rparr>),
     get_code_at = (\<lambda>a _. Inr (ch_code sample_chain a)), get_balance = (\<lambda>a _. Inr (ch_balance sample_chain a)),
     get_transaction_count = (\<lambda>a _. Inr (ch_nonce sample_chain a)),
     get_storage_at = (\<lambda>a k _. Inr (ch_storage sample_chain a k)), get_block_hash = (\<lambda>_. Inr None)\<rparr>"

type_synonym map_cache = "(address \<rightharpoonup> account_info) \<times> (address \<times> u256 \<rightharpoonup> u256) \<times> simple_rpc_db"

definition map_cache_ops :: "map_cache cache_ops" where
  "map_cache_ops = \<lparr>co_db = (\<lambda>(_, _, db). db),
     co_clear_proof_supported = (\<lambda>(is, sl, db). (is, sl, db\<lparr>rd_proof_supported := False\<rparr>)),
     co_insert_account_info = (\<lambda>a i (is, sl, db). (is(a \<mapsto> i), sl, db)),
     co_insert_account_storage = (\<lambda>a k v (is, sl, db). Inr (is, sl((a, k) \<mapsto> v), db))\<rparr>"

definition map_cache_view :: "map_cache cache_view" where
  "map_cache_view = \<lparr>cv_info = (\<lambda>(is, _, _). is), cv_slot = (\<lambda>(_, sl, _) a k. sl (a, k))\<rparr>"

lemma sample_bytecode_laws: "bytecode_laws sample_bytecode"
  by (simp add: bytecode_laws_def sample_bytecode_def answers_def)

lemma sample_honest: "honest sample_bytecode sample_chain block sample_provider"
  by (simp add: honest_def sample_provider_def answers_def honest_proof_def sample_bytecode_def sample_chain_def list_all_iff)

lemma map_cache_laws: "cache_laws map_cache_ops map_cache_view"
  by (simp add: cache_laws_def map_cache_ops_def map_cache_view_def fun_eq_iff split_paired_all)

theorem fetch_account_exact_witness:
  "fetch_account sample_bytecode 6 (new_simple_rpc_db sample_provider 9)
     = (Inr (Some \<lparr>ai_balance = 0, ai_nonce = 0, ai_code_hash = 3, ai_code = Some []\<rparr>), new_simple_rpc_db sample_provider 9)"
proof -
  let ?db = "new_simple_rpc_db sample_provider 9"
  have "honest sample_bytecode sample_chain (rd_block_number ?db) (rd_provider ?db)"
    using sample_honest by (simp add: new_simple_rpc_db_def)
  from fetch_account_exact [OF sample_bytecode_laws this, of 6 "fst (fetch_account sample_bytecode 6 ?db)"
      "snd (fetch_account sample_bytecode 6 ?db)"]
  show ?thesis
    by (simp add: fetch_account_def try_fetch_with_proof_def new_simple_rpc_db_def sample_provider_def
        proof_code_hash_def sample_bytecode_def sample_chain_def new_raw_def true_account_def)
qed


end
