(* ===== verification/Executor_Cache.thy ===== *)
theory Executor_Cache
  imports Sketch Rpc_Db Transition
begin

text \<open>
  Executors and their cache, \<^verbatim>\<open>crates/evmsketch/src/lib.rs\<close>: which chains are supported and under which
  hardforks, how an executor is built for a block, the cache shared by concurrent callers, and the
  estimates an executor gives. The LRU map, the node and the block's header are parameters;
  a caller that waits for the node is a task, and tasks interleave at every await.
\<close>

section \<open>Chains\<close>

definition MAINNET_CHAIN_ID :: u64 where "MAINNET_CHAIN_ID = 1"
definition SEPOLIA_CHAIN_ID :: u64 where "SEPOLIA_CHAIN_ID = 11155111"
definition GNOSIS_CHAIN_ID :: u64 where "GNOSIS_CHAIN_ID = 100"

record chain_config =
  cc_chain_id :: u64
  cc_homestead_block :: "u64 option"
  cc_eip150_block :: "u64 option"
  cc_eip155_block :: "u64 option"
  cc_eip158_block :: "u64 option"
  cc_byzantium_block :: "u64 option"
  cc_constantinople_block :: "u64 option"
  cc_petersburg_block :: "u64 option"
  cc_istanbul_block :: "u64 option"
  cc_berlin_block :: "u64 option"
  cc_london_block :: "u64 option"
  cc_shanghai_time :: "u64 option"
  cc_cancun_time :: "u64 option"
  cc_prague_time :: "u64 option"

definition gnosis_chain_config :: chain_config where
  "gnosis_chain_config = \<lparr>cc_chain_id = GNOSIS_CHAIN_ID, cc_homestead_block = Some 0, cc_eip150_block = Some 0,
     cc_eip155_block = Some 0, cc_eip158_block = Some 0, cc_byzantium_block = Some 0,
     cc_constantinople_block = Some 0, cc_petersburg_block = Some 0, cc_istanbul_block = Some 0,
     cc_berlin_block = Some 16101500, cc_london_block = Some 19040000, cc_shanghai_time = Some 1690889660,
     cc_cancun_time = Some 1710181820, cc_prague_time = Some 1746021820\<rparr>"

datatype hardfork = Frontier | Homestead | Tangerine | SpuriousDragon | Byzantium | Constantinople | Petersburg
  | Istanbul | Berlin | London | Shanghai | Cancun | Prague | Osaka | Amsterdam

datatype fork_condition = AtBlock u64 | AtTimestamp u64

type_synonym hardforks = "(hardfork \<times> fork_condition) list"

definition gnosis_hardforks :: hardforks where
  "gnosis_hardforks =
     [(Frontier, AtBlock 0), (Homestead, AtBlock 0), (Tangerine, AtBlock 0), (SpuriousDragon, AtBlock 0),
      (Byzantium, AtBlock 0), (Constantinople, AtBlock 0), (Petersburg, AtBlock 0), (Istanbul, AtBlock 0),
      (Berlin, AtBlock 16101500), (London, AtBlock 19040000), (Shanghai, AtTimestamp 1690889660),
      (Cancun, AtTimestamp 1710181820), (Prague, AtTimestamp 1746021820)]"

datatype genesis = Mainnet | Sepolia | CustomGenesis chain_config

text \<open>The header of the anchor block, and the number of a block or the latest one.\<close>

record block_header =
  bh_number :: u64
  bh_hash :: b256
  bh_timestamp :: u64
  bh_gas_limit :: u64
  bh_beneficiary :: address
  bh_mix_hash :: b256
  bh_base_fee_per_gas :: "u64 option"
  bh_difficulty :: u256

datatype block_tag = Latest | Number u64

datatype build_error =
    InvalidUrl string
  | ChainIdFailed string
  | UnsupportedChain u64
  | RpcUrlRequired
  | SketchFailed string
  | CapacityPanic

text \<open>
  The node behind a URL, and what alloy and sp1 compute: the two built-in fork tables, the
  specification a table gives a header, and whether a table has Amsterdam active.
\<close>

record build_env =
  bd_parse_url :: "string \<Rightarrow> string + string"
  bd_get_chain_id :: "string \<Rightarrow> string + u64"
  bd_sketch :: "block_tag \<Rightarrow> string \<Rightarrow> genesis \<Rightarrow> string + block_header"
  bd_provider :: "string \<Rightarrow> rpc_provider"
  bd_mainnet :: hardforks
  bd_sepolia :: hardforks
  bd_spec :: "hardforks \<Rightarrow> block_header \<Rightarrow> nat"
  bd_amsterdam_active :: "hardforks \<Rightarrow> u64 \<Rightarrow> bool"

definition chain_id_to_genesis_and_spec :: "build_env \<Rightarrow> u64 \<Rightarrow> build_error + genesis \<times> hardforks" where
  "chain_id_to_genesis_and_spec bd chain_id =
     (if chain_id = MAINNET_CHAIN_ID then Inr (Mainnet, bd_mainnet bd)
      else if chain_id = SEPOLIA_CHAIN_ID then Inr (Sepolia, bd_sepolia bd)
      else if chain_id = GNOSIS_CHAIN_ID then Inr (CustomGenesis gnosis_chain_config, gnosis_hardforks)
      else Inl (UnsupportedChain chain_id))"

definition runs_unsupported_hardfork :: "build_env \<Rightarrow> hardforks \<Rightarrow> u64 \<Rightarrow> bool" where
  "runs_unsupported_hardfork bd hfs timestamp = bd_amsterdam_active bd hfs timestamp"

text \<open>Whether the warning is printed, and the process-wide flag that it was.\<close>

definition warn_if_unsupported_hardfork :: "build_env \<Rightarrow> hardforks \<Rightarrow> u64 \<Rightarrow> bool \<Rightarrow> bool \<times> bool" where
  "warn_if_unsupported_hardfork bd hfs timestamp warned =
     (if runs_unsupported_hardfork bd hfs timestamp then (\<not> warned, True) else (False, warned))"

section \<open>Building an executor\<close>

record executor =
  ex_header :: block_header
  ex_provider :: rpc_provider
  ex_chain_id :: u64
  ex_spec :: nat

record executor_builder =
  eb_rpc_url :: "string option"
  eb_block :: block_tag
  eb_chain_id :: "u64 option"

definition new_executor_builder :: executor_builder where
  "new_executor_builder = \<lparr>eb_rpc_url = None, eb_block = Latest, eb_chain_id = None\<rparr>"

definition builder_rpc_url :: "string \<Rightarrow> executor_builder \<Rightarrow> executor_builder" where
  "builder_rpc_url url b = b\<lparr>eb_rpc_url := Some url\<rparr>"

definition builder_at_block :: "block_tag \<Rightarrow> executor_builder \<Rightarrow> executor_builder" where
  "builder_at_block tag b = b\<lparr>eb_block := tag\<rparr>"

definition builder_with_chain_id :: "u64 \<Rightarrow> executor_builder \<Rightarrow> executor_builder" where
  "builder_with_chain_id chain_id b = b\<lparr>eb_chain_id := Some chain_id\<rparr>"

definition build_executor :: "build_env \<Rightarrow> executor_builder \<Rightarrow> build_error + executor" where
  "build_executor bd b =
     bind_res (case eb_rpc_url b of None \<Rightarrow> Inl RpcUrlRequired | Some url \<Rightarrow> Inr url) (\<lambda>url.
     bind_res (case eb_chain_id b of
         Some i \<Rightarrow> Inr i | None \<Rightarrow> map_err ChainIdFailed (bd_get_chain_id bd url)) (\<lambda>chain_id.
     bind_res (chain_id_to_genesis_and_spec bd chain_id) (\<lambda>(genesis, hfs).
     bind_res (map_err SketchFailed (bd_sketch bd (eb_block b) url genesis)) (\<lambda>header.
     Inr \<lparr>ex_header = header, ex_provider = bd_provider bd url, ex_chain_id = chain_id,
          ex_spec = bd_spec bd hfs header\<rparr>))))"

definition anchor_block_number :: "executor \<Rightarrow> u64" where
  "anchor_block_number x = bh_number (ex_header x)"

definition anchor_block_hash :: "executor \<Rightarrow> b256" where
  "anchor_block_hash x = bh_hash (ex_header x)"

definition executor_sim_env :: "executor \<Rightarrow> sim_env_opts" where
  "executor_sim_env x =
     (let header = ex_header x
      in \<lparr>se_number = bh_number header, se_timestamp = bh_timestamp header, se_gas_limit = bh_gas_limit header,
          se_coinbase = bh_beneficiary header, se_prevrandao = bh_mix_hash header, se_gas_price = 0,
          se_basefee = (case bh_base_fee_per_gas header of None \<Rightarrow> 0 | Some f \<Rightarrow> f),
          se_difficulty = bh_difficulty header, se_spec = ex_spec x, se_value = 0\<rparr>)"

text \<open>\<open>GasKillerEvmSketchBuilder\<close>: the same, without a chain id.\<close>

record sketch_builder =
  sb_rpc_url :: string
  sb_block :: block_tag

definition new_sketch_builder :: "string \<Rightarrow> sketch_builder" where
  "new_sketch_builder url = \<lparr>sb_rpc_url = url, sb_block = Latest\<rparr>"

definition sketch_at_block :: "block_tag \<Rightarrow> sketch_builder \<Rightarrow> sketch_builder" where
  "sketch_at_block tag b = b\<lparr>sb_block := tag\<rparr>"

definition build_sketch :: "build_env \<Rightarrow> sketch_builder \<Rightarrow> build_error + executor" where
  "build_sketch bd b =
     build_executor bd (builder_at_block (sb_block b) (builder_rpc_url (sb_rpc_url b) new_executor_builder))"

section \<open>Estimates of an executor\<close>

text \<open>The state before the anchor block, in a fresh cache (\<open>CacheDB::new\<close>).\<close>

definition state_before :: "(simple_rpc_db \<Rightarrow> 'c) \<Rightarrow> executor \<Rightarrow> 'c" where
  "state_before new_cache x =
     new_cache (new_simple_rpc_db (ex_provider x) (sat_sub (anchor_block_number x) 1))"

definition executor_estimate_raw :: "'c evm \<Rightarrow> (simple_rpc_db \<Rightarrow> 'c) \<Rightarrow> executor \<Rightarrow> address \<Rightarrow> address \<Rightarrow> bytes \<Rightarrow> u128 \<Rightarrow>
    est_error + u64" where
  "executor_estimate_raw ev new_cache x contract caller calldata gas_price =
     estimate_gas_raw ev contract caller calldata ((executor_sim_env x)\<lparr>se_gas_price := gas_price\<rparr>)
       (state_before new_cache x)"

definition executor_estimate :: "'c evm \<Rightarrow> abi_seq \<Rightarrow> (simple_rpc_db \<Rightarrow> 'c) \<Rightarrow> executor \<Rightarrow> address \<Rightarrow> address \<Rightarrow>
    state_update list \<Rightarrow> est_error + u64" where
  "executor_estimate ev abi_seq new_cache x contract caller us =
     estimate_state_changes_gas ev abi_seq contract caller us (executor_sim_env x) (state_before new_cache x)"

datatype hinted_error = PrefetchFailed rpc_db_error | HintedEstimateFailed est_error

definition executor_estimate_with_hints :: "bytecode_env \<Rightarrow> 'c cache_ops \<Rightarrow> (task_result list \<Rightarrow> (string + task_result) list) \<Rightarrow>
    'c evm \<Rightarrow> abi_seq \<Rightarrow> (simple_rpc_db \<Rightarrow> 'c) \<Rightarrow> executor \<Rightarrow> address \<Rightarrow> address \<Rightarrow> state_update list \<Rightarrow> hints \<Rightarrow> u256 \<Rightarrow>
    hinted_error + u64" where
  "executor_estimate_with_hints be co joined ev abi_seq new_cache x contract caller us h value =
     bind_res (map_err PrefetchFailed (prefetch_slots_into_cache be co joined h (state_before new_cache x))) (\<lambda>db.
     map_err HintedEstimateFailed (estimate_state_changes_gas ev abi_seq contract caller us
       ((executor_sim_env x)\<lparr>se_value := value\<rparr>) db))"

definition executor_estimate_tree_with_hints :: "bytecode_env \<Rightarrow> 'c cache_ops \<Rightarrow> (task_result list \<Rightarrow> (string + task_result) list) \<Rightarrow>
    'c evm \<Rightarrow> abi_seq \<Rightarrow> (simple_rpc_db \<Rightarrow> 'c) \<Rightarrow> executor \<Rightarrow> frame_program list \<Rightarrow> address \<Rightarrow> hints \<Rightarrow> u256 \<Rightarrow>
    hinted_error + u64 list" where
  "executor_estimate_tree_with_hints be co joined ev abi_seq new_cache x fs caller h value =
     bind_res (map_err PrefetchFailed (prefetch_slots_into_cache be co joined h (state_before new_cache x))) (\<lambda>db.
     map_err HintedEstimateFailed (estimate_frame_tree_gas ev abi_seq fs caller value
       ((executor_sim_env x)\<lparr>se_value := value\<rparr>) db))"

section \<open>The cache\<close>

type_synonym cache_key = "string \<times> u64"

record 'l lru_ops =
  lru_new :: "nat \<Rightarrow> 'l"
  lru_get :: "cache_key \<Rightarrow> 'l \<Rightarrow> executor option \<times> 'l"
  lru_put :: "cache_key \<Rightarrow> executor \<Rightarrow> 'l \<Rightarrow> 'l"

record 'l executor_cache =
  ec_inner :: 'l
  ec_chain_ids :: "string \<rightharpoonup> u64"
  ec_trace_providers :: "string \<rightharpoonup> string"
  ec_mux_support :: "string \<rightharpoonup> mux_support"

definition new_executor_cache :: "'l lru_ops \<Rightarrow> nat \<Rightarrow> build_error + 'l executor_cache" where
  "new_executor_cache lru capacity =
     (if capacity = 0 then Inl CapacityPanic
      else Inr \<lparr>ec_inner = lru_new lru capacity, ec_chain_ids = Map.empty, ec_trace_providers = Map.empty,
             ec_mux_support = Map.empty\<rparr>)"

text \<open>A trace provider is the URL its connection pool is for.\<close>

definition get_or_create_trace_provider :: "build_env \<Rightarrow> string \<Rightarrow> 'l executor_cache \<Rightarrow>
    (build_error + string) \<times> 'l executor_cache" where
  "get_or_create_trace_provider bd rpc_url c =
     (case ec_trace_providers c rpc_url of
        Some p \<Rightarrow> (Inr p, c)
      | None \<Rightarrow>
          (case bd_parse_url bd rpc_url of
             Inl e \<Rightarrow> (Inl (InvalidUrl e), c)
           | Inr url \<Rightarrow> (Inr url, c\<lparr>ec_trace_providers := (ec_trace_providers c)(rpc_url \<mapsto>
               (case ec_trace_providers c rpc_url of None \<Rightarrow> url | Some p \<Rightarrow> p))\<rparr>)))"

definition default_mux_support :: mux_support where
  "default_mux_support = with_pause MUX_PAUSE_MS"

definition cache_mux_support :: "string \<Rightarrow> 'l executor_cache \<Rightarrow> mux_support \<times> 'l executor_cache" where
  "cache_mux_support rpc_url c =
     (case ec_mux_support c rpc_url of
        Some m \<Rightarrow> (m, c)
      | None \<Rightarrow> (default_mux_support, c\<lparr>ec_mux_support := (ec_mux_support c)(rpc_url \<mapsto> default_mux_support)\<rparr>))"

text \<open>The two reads of \<open>get_or_build_timed\<close> and its two writes, each under its own lock.\<close>

definition cached_executor :: "'l lru_ops \<Rightarrow> cache_key \<Rightarrow> 'l executor_cache \<Rightarrow> executor option \<times> 'l executor_cache" where
  "cached_executor lru key c = (case lru_get lru key (ec_inner c) of (x, l) \<Rightarrow> (x, c\<lparr>ec_inner := l\<rparr>))"

definition store_chain_id :: "string \<Rightarrow> u64 \<Rightarrow> 'l executor_cache \<Rightarrow> 'l executor_cache" where
  "store_chain_id rpc_url i c = c\<lparr>ec_chain_ids := (ec_chain_ids c)(rpc_url \<mapsto> i)\<rparr>"

definition put_executor :: "'l lru_ops \<Rightarrow> cache_key \<Rightarrow> executor \<Rightarrow> 'l executor_cache \<Rightarrow> 'l executor_cache" where
  "put_executor lru key x c = c\<lparr>ec_inner := lru_put lru key x (ec_inner c)\<rparr>"

definition build_at :: "build_env \<Rightarrow> string \<Rightarrow> u64 \<Rightarrow> u64 \<Rightarrow> build_error + executor" where
  "build_at bd url chain_id block_number =
     build_executor bd (builder_at_block (Number block_number) (builder_with_chain_id chain_id
       (builder_rpc_url url new_executor_builder)))"

definition get_or_build_timed :: "build_env \<Rightarrow> 'l lru_ops \<Rightarrow> string \<Rightarrow> u64 \<Rightarrow> 'l executor_cache \<Rightarrow>
    (build_error + executor \<times> bool) \<times> 'l executor_cache" where
  "get_or_build_timed bd lru rpc_url block_number c =
     (let key = (rpc_url, block_number)
      in case cached_executor lru key c of
           (Some x, c) \<Rightarrow> (Inr (x, True), c)
         | (None, c) \<Rightarrow>
             (case bd_parse_url bd rpc_url of
                Inl e \<Rightarrow> (Inl (InvalidUrl e), c)
              | Inr url \<Rightarrow>
                  (case (case ec_chain_ids c rpc_url of
                           Some i \<Rightarrow> (Inr i, c)
                         | None \<Rightarrow>
                             (case bd_get_chain_id bd url of
                                Inl e \<Rightarrow> (Inl (ChainIdFailed e), c)
                              | Inr i \<Rightarrow> (Inr i, store_chain_id rpc_url i c))) of
                     (Inl e, c) \<Rightarrow> (Inl e, c)
                   | (Inr i, c) \<Rightarrow>
                       (case build_at bd url i block_number of
                          Inl e \<Rightarrow> (Inl e, c)
                        | Inr x \<Rightarrow> (Inr (x, False), put_executor lru key x c)))))"

definition get_or_build :: "build_env \<Rightarrow> 'l lru_ops \<Rightarrow> string \<Rightarrow> u64 \<Rightarrow> 'l executor_cache \<Rightarrow>
    (build_error + executor) \<times> 'l executor_cache" where
  "get_or_build bd lru rpc_url block_number c =
     (case get_or_build_timed bd lru rpc_url block_number c of
        (r, c) \<Rightarrow> (map_sum id fst r, c))"

section \<open>Entry points with defaults\<close>

definition call_to_encoded_state_updates_mode :: "pipeline \<Rightarrow> 'db executor_env \<Rightarrow> u64 \<Rightarrow> mux_support \<Rightarrow> tx_request \<Rightarrow>
    u64 \<Rightarrow> state_encoding \<Rightarrow> (fetch_error + encoded_state_updates) \<times> mux_support" where
  "call_to_encoded_state_updates_mode pl xe now mux req block_number encoding =
     call_to_encoded_state_updates pl xe now mux req block_number encoding Chain"

definition call_to_encoded_state_updates_legacy :: "pipeline \<Rightarrow> 'db executor_env \<Rightarrow> u64 \<Rightarrow> mux_support \<Rightarrow> tx_request \<Rightarrow>
    u64 \<Rightarrow> (fetch_error + encoded_state_updates) \<times> mux_support" where
  "call_to_encoded_state_updates_legacy pl xe now mux req block_number =
     call_to_encoded_state_updates_mode pl xe now mux req block_number Legacy"

section \<open>Concurrent callers\<close>

text \<open>
  A caller between two of its locks or awaits, and what its next piece of \<open>get_or_build_timed\<close> does.
  Any number of callers share the cache and their pieces interleave freely.
\<close>

datatype stage =
    Start
  | Missed string
  | Query string
  | Building string u64
  | Finished "build_error + executor \<times> bool"

fun advance :: "build_env \<Rightarrow> 'l lru_ops \<Rightarrow> cache_key \<Rightarrow> stage \<times> 'l executor_cache \<Rightarrow> stage \<times> 'l executor_cache" where
  "advance bd lru key (Start, c) =
     (case cached_executor lru key c of
        (Some x, c) \<Rightarrow> (Finished (Inr (x, True)), c)
      | (None, c) \<Rightarrow> (case bd_parse_url bd (fst key) of
            Inl e \<Rightarrow> (Finished (Inl (InvalidUrl e)), c) | Inr url \<Rightarrow> (Missed url, c)))"
| "advance bd lru key (Missed url, c) =
     (case ec_chain_ids c (fst key) of None \<Rightarrow> (Query url, c) | Some i \<Rightarrow> (Building url i, c))"
| "advance bd lru key (Query url, c) =
     (case bd_get_chain_id bd url of
        Inl e \<Rightarrow> (Finished (Inl (ChainIdFailed e)), c) | Inr i \<Rightarrow> (Building url i, store_chain_id (fst key) i c))"
| "advance bd lru key (Building url i, c) =
     (case build_at bd url i (snd key) of
        Inl e \<Rightarrow> (Finished (Inl e), c) | Inr x \<Rightarrow> (Finished (Inr (x, False)), put_executor lru key x c))"
| "advance bd lru key (Finished r, c) = (Finished r, c)"

text \<open>Run alone, the pieces are the function.\<close>

lemma get_or_build_timed_advances:
  assumes "get_or_build_timed bd lru rpc_url block c = (r, c')"
  shows "(advance bd lru (rpc_url, block) ^^ 4) (Start, c) = (Finished r, c')"
  using assms
  by (auto simp: get_or_build_timed_def Let_def eval_nat_numeral split: option.splits sum.splits prod.splits)

type_synonym 'l cache_run = "'l executor_cache \<times> (cache_key \<times> stage) list"

inductive cache_step :: "build_env \<Rightarrow> 'l lru_ops \<Rightarrow> 'l cache_run \<Rightarrow> 'l cache_run \<Rightarrow> bool" for bd lru where
  call: "cache_step bd lru (c, ts) (c, ts @ [(key, Start)])"
| run: "i < length ts \<Longrightarrow> ts ! i = (key, st) \<Longrightarrow> advance bd lru key (st, c) = (st', c') \<Longrightarrow>
    cache_step bd lru (c, ts) (c', ts[i := (key, st')])"

inductive_cases cache_stepE: "cache_step bd lru s t"

text \<open>What the \<open>lru\<close> crate documents: it returns only what was put under the key, and may forget.\<close>

definition lru_laws :: "'l lru_ops \<Rightarrow> ('l \<Rightarrow> (cache_key \<times> executor) set) \<Rightarrow> bool" where
  "lru_laws lru content \<longleftrightarrow> (\<forall>n. content (lru_new lru n) = {})
     \<and> (\<forall>key l. content (snd (lru_get lru key l)) \<subseteq> content l)
     \<and> (\<forall>key l x. fst (lru_get lru key l) = Some x \<longrightarrow> (key, x) \<in> content l)
     \<and> (\<forall>key x l. content (lru_put lru key x l) \<subseteq> insert (key, x) (content l))"

text \<open>The specification: an executor built for the URL and the block without any cache.\<close>

definition build_uncached :: "build_env \<Rightarrow> cache_key \<Rightarrow> build_error + executor" where
  "build_uncached bd key =
     bind_res (map_err InvalidUrl (bd_parse_url bd (fst key))) (\<lambda>url.
     build_executor bd (builder_at_block (Number (snd key)) (builder_rpc_url url new_executor_builder)))"

fun stage_ok :: "build_env \<Rightarrow> cache_key \<times> stage \<Rightarrow> bool" where
  "stage_ok bd (key, Start) = True"
| "stage_ok bd (key, Missed url) = (bd_parse_url bd (fst key) = Inr url)"
| "stage_ok bd (key, Query url) = (bd_parse_url bd (fst key) = Inr url)"
| "stage_ok bd (key, Building url i) = (bd_parse_url bd (fst key) = Inr url \<and> bd_get_chain_id bd url = Inr i)"
| "stage_ok bd (key, Finished r) = (map_sum id fst r = build_uncached bd key)"

definition cache_ok :: "build_env \<Rightarrow> ('l \<Rightarrow> (cache_key \<times> executor) set) \<Rightarrow> 'l executor_cache \<Rightarrow> bool" where
  "cache_ok bd content c \<longleftrightarrow>
     (\<forall>key x. (key, x) \<in> content (ec_inner c) \<longrightarrow> build_uncached bd key = Inr x)
   \<and> (\<forall>u i. ec_chain_ids c u = Some i \<longrightarrow> (\<exists>url. bd_parse_url bd u = Inr url \<and> bd_get_chain_id bd url = Inr i))"

definition cache_inv :: "build_env \<Rightarrow> 'l lru_ops \<Rightarrow> ('l \<Rightarrow> (cache_key \<times> executor) set) \<Rightarrow> 'l cache_run \<Rightarrow> bool" where
  "cache_inv bd lru content s \<longleftrightarrow> lru_laws lru content \<and> cache_ok bd content (fst s) \<and> list_all (stage_ok bd) (snd s)"

definition cache_init :: "'l lru_ops \<Rightarrow> ('l \<Rightarrow> (cache_key \<times> executor) set) \<Rightarrow> 'l cache_run \<Rightarrow> bool" where
  "cache_init lru content s \<longleftrightarrow> lru_laws lru content \<and> (\<exists>n. new_executor_cache lru n = Inr (fst s)) \<and> snd s = []"

lemma build_at_uncached:
  assumes "bd_parse_url bd (fst key) = Inr url" and "bd_get_chain_id bd url = Inr i"
  shows "build_at bd url i (snd key) = build_uncached bd key"
  using assms by (simp add: build_at_def build_uncached_def build_executor_def builder_at_block_def
      builder_rpc_url_def builder_with_chain_id_def new_executor_builder_def)

lemma cache_ok_get:
  assumes "lru_laws lru content" and "cache_ok bd content c" and "cached_executor lru key c = (r, c')"
  shows "cache_ok bd content c'" and "r = Some x \<Longrightarrow> build_uncached bd key = Inr x"
proof -
  obtain l where l: "lru_get lru key (ec_inner c) = (r, l)" "c' = c\<lparr>ec_inner := l\<rparr>"
    using assms(3) by (auto simp: cached_executor_def split: prod.splits)
  have "content (snd (lru_get lru key (ec_inner c))) \<subseteq> content (ec_inner c)"
    using assms(1) unfolding lru_laws_def by blast
  with assms(2) l show "cache_ok bd content c'" by (auto simp: cache_ok_def)
  have "fst (lru_get lru key (ec_inner c)) = Some x \<longrightarrow> (key, x) \<in> content (ec_inner c)"
    using assms(1) unfolding lru_laws_def by blast
  then show "r = Some x \<Longrightarrow> build_uncached bd key = Inr x"
    using assms(2) l(1) unfolding cache_ok_def by (metis fst_conv)
qed

lemma cache_ok_put:
  assumes "lru_laws lru content" and "cache_ok bd content c" and "build_uncached bd key = Inr x"
  shows "cache_ok bd content (put_executor lru key x c)"
proof -
  have "content (lru_put lru key x (ec_inner c)) \<subseteq> insert (key, x) (content (ec_inner c))"
    using assms(1) unfolding lru_laws_def by blast
  with assms(2,3) show ?thesis by (auto simp: cache_ok_def put_executor_def)
qed

lemma cache_ok_chain_id:
  assumes "cache_ok bd content c" and "bd_parse_url bd u = Inr url" and "bd_get_chain_id bd url = Inr i"
  shows "cache_ok bd content (store_chain_id u i c)"
  using assms unfolding cache_ok_def store_chain_id_def by (simp split: if_split)

lemma uncached_chain_id_failed:
  "bd_parse_url bd (fst key) = Inr url \<Longrightarrow> bd_get_chain_id bd url = Inl e \<Longrightarrow> build_uncached bd key = Inl (ChainIdFailed e)"
  by (simp add: build_uncached_def build_executor_def builder_at_block_def builder_rpc_url_def new_executor_builder_def)

lemma advance_ok:
  assumes laws: "lru_laws lru content" and c: "cache_ok bd content c" and st: "stage_ok bd (key, st)"
    and a: "advance bd lru key (st, c) = (st', c')"
  shows "cache_ok bd content c' \<and> stage_ok bd (key, st')"
proof (cases st)
  case Start
  obtain r d where g: "cached_executor lru key c = (r, d)" by (cases "cached_executor lru key c")
  note got = cache_ok_get [OF laws c g]
  show ?thesis using a got by (cases r) (auto simp: Start g build_uncached_def split: sum.splits)
next
  case (Missed url)
  have "bd_get_chain_id bd url = Inr i" if "ec_chain_ids c (fst key) = Some i" for i
    using that c st unfolding cache_ok_def Missed by (metis stage_ok.simps(2) sum.inject(2))
  with Missed a c st show ?thesis by (auto split: option.splits)
next
  case (Query url)
  with a c st cache_ok_chain_id [OF c, of "fst key" url] uncached_chain_id_failed [of bd key url] show ?thesis
    by (auto split: sum.splits)
next
  case (Building url i)
  then have b: "build_at bd url i (snd key) = build_uncached bd key" using st by (simp add: build_at_uncached)
  show ?thesis using a c cache_ok_put [OF laws c, of key] by (auto simp: Building b split: sum.splits)
next
  case (Finished r)
  with a c st show ?thesis by auto
qed

lemma cache_step_inv:
  assumes "cache_step bd lru s t" and inv: "cache_inv bd lru content s"
  shows "cache_inv bd lru content t"
  using assms(1)
proof (cases rule: cache_step.cases)
  case (call c ts key)
  with inv show ?thesis by (simp add: cache_inv_def)
next
  case (run i ts key st c st' c')
  then have "stage_ok bd (key, st)" using inv by (metis cache_inv_def list_all_length snd_conv)
  with run inv advance_ok [of lru content bd c key st st' c'] show ?thesis
    by (auto simp: cache_inv_def list_all_iff dest!: subsetD [OF set_update_subset_insert])
qed

interpretation executor_cache_system: invariant_system "cache_init lru content" "cache_step bd lru" "cache_inv bd lru content"
  for bd lru content
proof
  show "cache_inv bd lru content s" if init: "cache_init lru content s" for s
  proof -
    obtain n where laws: "lru_laws lru content" and n: "new_executor_cache lru n = Inr (fst s)" and ts: "snd s = []"
      using init unfolding cache_init_def by blast
    have "ec_inner (fst s) = lru_new lru n \<and> ec_chain_ids (fst s) = Map.empty"
      using n by (simp add: new_executor_cache_def split: if_splits) (metis executor_cache.select_convs(1,2))
    moreover have "content (lru_new lru n) = {}" using laws unfolding lru_laws_def by blast
    ultimately show ?thesis using laws ts by (simp add: cache_inv_def cache_ok_def)
  qed
  show "cache_inv bd lru content t" if "cache_step bd lru s t" "cache_inv bd lru content s" for s t
    using that by (rule cache_step_inv)
qed

text \<open>
  C12. The executor cache is transparent: however callers interleave and whatever the LRU map
  forgets, a caller that comes to an end has the executor, or the error, that building one for its URL
  and block without a cache gives, with the chain id of that URL and that chain's specification.
\<close>

theorem executor_cache_transparent:
  assumes "lru_laws lru content" and "new_executor_cache lru n = Inr c0"
    and "(cache_step bd lru)\<^sup>*\<^sup>* (c0, []) (c, ts)" and "(key, Finished r) \<in> set ts"
  shows "map_sum id fst r = build_uncached bd key"
proof -
  have "cache_init lru content (c0, [])" using assms(1,2) by (auto simp: cache_init_def)
  with assms(3) have "cache_inv bd lru content (c, ts)" by (intro executor_cache_system.reachable_inv)
  then have "stage_ok bd (key, Finished r)" using assms(4) by (auto simp: cache_inv_def list_all_iff)
  then show ?thesis by simp
qed

section \<open>Supported chains\<close>

definition condition_of :: "hardfork \<Rightarrow> hardforks \<Rightarrow> fork_condition option" where
  "condition_of f hfs = map_of hfs f"

text \<open>
  Exactly mainnet, Sepolia and Gnosis are supported, and for Gnosis, the one chain described here
  twice, the genesis configuration and the table the specification is read from activate every
  hardfork at the same block or time.
\<close>

lemma gnosis_descriptions_agree:
  "(\<exists>g h. chain_id_to_genesis_and_spec bd i = Inr (g, h)) \<longleftrightarrow> i \<in> {1, 11155111, 100}"
  "chain_id_to_genesis_and_spec bd 100 = Inr (CustomGenesis cfg, hfs) \<Longrightarrow>
     cc_chain_id cfg = 100
   \<and> condition_of Homestead hfs = map_option AtBlock (cc_homestead_block cfg)
   \<and> condition_of Tangerine hfs = map_option AtBlock (cc_eip150_block cfg)
   \<and> condition_of SpuriousDragon hfs = map_option AtBlock (cc_eip158_block cfg)
   \<and> condition_of Byzantium hfs = map_option AtBlock (cc_byzantium_block cfg)
   \<and> condition_of Constantinople hfs = map_option AtBlock (cc_constantinople_block cfg)
   \<and> condition_of Petersburg hfs = map_option AtBlock (cc_petersburg_block cfg)
   \<and> condition_of Istanbul hfs = map_option AtBlock (cc_istanbul_block cfg)
   \<and> condition_of Berlin hfs = map_option AtBlock (cc_berlin_block cfg)
   \<and> condition_of London hfs = map_option AtBlock (cc_london_block cfg)
   \<and> condition_of Shanghai hfs = map_option AtTimestamp (cc_shanghai_time cfg)
   \<and> condition_of Cancun hfs = map_option AtTimestamp (cc_cancun_time cfg)
   \<and> condition_of Prague hfs = map_option AtTimestamp (cc_prague_time cfg)"
  by (auto simp: chain_id_to_genesis_and_spec_def MAINNET_CHAIN_ID_def SEPOLIA_CHAIN_ID_def GNOSIS_CHAIN_ID_def
      gnosis_chain_config_def gnosis_hardforks_def condition_of_def)

section \<open>A sample run\<close>

text \<open>A map that keeps one executor, a node of Gnosis, and two callers for the same block.\<close>

definition one_slot_lru :: "(cache_key \<times> executor) option lru_ops" where
  "one_slot_lru = \<lparr>lru_new = (\<lambda>_. None),
     lru_get = (\<lambda>key l. (case l of Some (k, x) \<Rightarrow> if k = key then Some x else None | None \<Rightarrow> None, l)),
     lru_put = (\<lambda>key x _. Some (key, x))\<rparr>"

definition gnosis_node :: build_env where
  "gnosis_node = \<lparr>bd_parse_url = Inr, bd_get_chain_id = (\<lambda>_. Inr 100),
     bd_sketch = (\<lambda>tag _ _. Inr \<lparr>bh_number = (case tag of Number n \<Rightarrow> n | Latest \<Rightarrow> 0), bh_hash = 0, bh_timestamp = 0,
       bh_gas_limit = 0, bh_beneficiary = 0, bh_mix_hash = 0, bh_base_fee_per_gas = None, bh_difficulty = 0\<rparr>),
     bd_provider = (\<lambda>_. sample_provider), bd_mainnet = [], bd_sepolia = [], bd_spec = (\<lambda>hfs _. length hfs),
     bd_amsterdam_active = (\<lambda>_ _. False)\<rparr>"

lemma one_slot_laws: "lru_laws one_slot_lru set_option"
  by (auto simp: lru_laws_def one_slot_lru_def split: option.splits)

theorem executor_cache_transparent_witness:
  "\<exists>c0 c ts x. new_executor_cache one_slot_lru 1 = Inr c0
     \<and> (cache_step gnosis_node one_slot_lru)\<^sup>*\<^sup>* (c0, []) (c, ts)
     \<and> ((''node'', 7), Finished (Inr (x, False))) \<in> set ts \<and> ex_spec x = 13
     \<and> build_uncached gnosis_node (''node'', 7) = Inr x"
proof -
  let ?key = "(''node'', 7) :: cache_key"
  obtain c0 where c0: "new_executor_cache one_slot_lru 1 = Inr c0" by (simp add: new_executor_cache_def)
  obtain r c where rc: "get_or_build_timed gnosis_node one_slot_lru ''node'' 7 c0 = (r, c)" by fastforce
  have r: "\<exists>x. r = Inr (x, False) \<and> ex_spec x = 13"
    using rc c0 by (auto simp: get_or_build_timed_def new_executor_cache_def cached_executor_def one_slot_lru_def
        gnosis_node_def build_at_def build_executor_def builder_at_block_def builder_rpc_url_def
        builder_with_chain_id_def new_executor_builder_def chain_id_to_genesis_and_spec_def MAINNET_CHAIN_ID_def
        SEPOLIA_CHAIN_ID_def GNOSIS_CHAIN_ID_def gnosis_hardforks_def)
  have one: "cache_step gnosis_node one_slot_lru (d, [(?key, st)]) (d', [(?key, st')])"
    if "advance gnosis_node one_slot_lru ?key (st, d) = (st', d')" for d st d' st'
    using cache_step.run [of 0 "[(?key, st)]" ?key st gnosis_node one_slot_lru d st' d'] that by simp
  have "(cache_step gnosis_node one_slot_lru)\<^sup>*\<^sup>* (d, [(?key, st)]) (d', [(?key, st')])"
    if "(advance gnosis_node one_slot_lru ?key ^^ n) (st, d) = (st', d')" for n d st d' st'
    using that
  proof (induction n arbitrary: st' d')
    case (Suc n)
    obtain st1 d1 where m: "(advance gnosis_node one_slot_lru ?key ^^ n) (st, d) = (st1, d1)" by fastforce
    with Suc.prems have "advance gnosis_node one_slot_lru ?key (st1, d1) = (st', d')" by simp
    from Suc.IH [OF m] one [OF this] show ?case by (rule rtranclp.rtrancl_into_rtrancl)
  qed simp
  from this [OF get_or_build_timed_advances [OF rc]]
  have "(cache_step gnosis_node one_slot_lru)\<^sup>*\<^sup>* (c0, [(?key, Start)]) (c, [(?key, Finished r)])" .
  moreover have "cache_step gnosis_node one_slot_lru (c0, []) (c0, [(?key, Start)])"
    using cache_step.call [of gnosis_node one_slot_lru c0 "[]" ?key] by simp
  ultimately have run: "(cache_step gnosis_node one_slot_lru)\<^sup>*\<^sup>* (c0, []) (c, [(?key, Finished r)])"
    by (rule converse_rtranclp_into_rtranclp [rotated])
  have "map_sum id fst r = build_uncached gnosis_node ?key"
    by (rule executor_cache_transparent [OF one_slot_laws c0 run]) simp
  with run r c0 show ?thesis by (metis fst_conv list.set_intros(1) map_sum.simps(2))
qed

end
