(* ===== verification/Result_State.thy ===== *)
theory Result_State
  imports Rpc_Traces
begin

text \<open>
  Computations that change a state and may fail, the state surviving the failure: what the handlers
  of the web application and the driver of the anvil process are written in. The locale \<open>kept_relation\<close>
  carries a relation between the states before and after through a whole computation.
\<close>

section \<open>Computations with a state that survives errors\<close>

type_synonym ('s, 'e, 'a) st = "'s \<Rightarrow> ('e + 'a) \<times> 's"

definition ret_st :: "'a \<Rightarrow> ('s, 'e, 'a) st" where
  "ret_st x s = (Inr x, s)"

definition fail_st :: "'e \<Rightarrow> ('s, 'e, 'a) st" where
  "fail_st e s = (Inl e, s)"

definition bind_st :: "('s, 'e, 'a) st \<Rightarrow> ('a \<Rightarrow> ('s, 'e, 'b) st) \<Rightarrow> ('s, 'e, 'b) st" where
  "bind_st m f s = (case m s of (Inl e, s') \<Rightarrow> (Inl e, s') | (Inr x, s') \<Rightarrow> f x s')"

definition lift_st :: "'e + 'a \<Rightarrow> ('s, 'e, 'a) st" where
  "lift_st r s = (r, s)"

definition err_st :: "('e \<Rightarrow> 'f) \<Rightarrow> ('s, 'e, 'a) st \<Rightarrow> ('s, 'f, 'a) st" where
  "err_st f m s = (case m s of (r, s') \<Rightarrow> (map_err f r, s'))"

lemma bind_st_Inr:
  "bind_st m f s = (Inr y, t) \<longleftrightarrow> (\<exists>x s'. m s = (Inr x, s') \<and> f x s' = (Inr y, t))"
  by (auto simp: bind_st_def split: prod.splits sum.splits)

lemma err_st_Inr: "err_st f m s = (Inr x, t) \<longleftrightarrow> m s = (Inr x, t)"
  by (cases "m s") (auto simp: err_st_def)

lemma bind_st_Inl:
  "bind_st m f s = (Inl e, t) \<longleftrightarrow> m s = (Inl e, t) \<or> (\<exists>x s'. m s = (Inr x, s') \<and> f x s' = (Inl e, t))"
  by (auto simp: bind_st_def split: prod.splits sum.splits)

lemma err_st_Inl: "err_st f m s = (Inl e, t) \<longleftrightarrow> (\<exists>e'. m s = (Inl e', t) \<and> e = f e')"
  by (cases "m s") (auto simp: err_st_def map_err_def split: sum.splits)

lemma lift_st_eq: "lift_st r s = (q, t) \<longleftrightarrow> r = q \<and> t = s"
  by (auto simp: lift_st_def)

section \<open>Relations a computation keeps\<close>

definition st_keeps :: "('s \<Rightarrow> 's \<Rightarrow> bool) \<Rightarrow> ('s, 'e, 'a) st \<Rightarrow> bool" where
  "st_keeps rel m \<longleftrightarrow> (\<forall>s r t. m s = (r, t) \<longrightarrow> rel s t)"

locale kept_relation =
  fixes rel :: "'s \<Rightarrow> 's \<Rightarrow> bool"
  assumes kept_refl: "rel s s"
    and kept_trans: "rel s t \<Longrightarrow> rel t u \<Longrightarrow> rel s u"
begin

lemma keepsD: "st_keeps rel m \<Longrightarrow> m s = (r, t) \<Longrightarrow> rel s t"
  unfolding st_keeps_def by blast

lemma keeps_ret: "st_keeps rel (ret_st x)"
  by (simp add: st_keeps_def ret_st_def kept_refl)

lemma keeps_fail: "st_keeps rel (fail_st e)"
  by (simp add: st_keeps_def fail_st_def kept_refl)

lemma keeps_lift: "st_keeps rel (lift_st r)"
  by (simp add: st_keeps_def lift_st_def kept_refl)

lemma keeps_bind:
  assumes m: "st_keeps rel m" and f: "\<And>x. st_keeps rel (f x)"
  shows "st_keeps rel (bind_st m f)"
  unfolding st_keeps_def
proof (intro allI impI)
  fix s r t
  assume b: "bind_st m f s = (r, t)"
  obtain q u where q: "m s = (q, u)" by fastforce
  have su: "rel s u" using m q by (rule keepsD)
  show "rel s t"
  proof (cases q)
    case (Inl e)
    with b q su show ?thesis by (simp add: bind_st_def)
  next
    case (Inr x)
    with b q have "f x u = (r, t)" by (simp add: bind_st_def)
    then have "rel u t" by (rule keepsD [OF f])
    with su show ?thesis by (rule kept_trans)
  qed
qed

lemma keeps_err: "st_keeps rel m \<Longrightarrow> st_keeps rel (err_st f m)"
  unfolding st_keeps_def err_st_def by (auto split: prod.splits)

lemma keeps_if: "(b \<Longrightarrow> st_keeps rel m) \<Longrightarrow> (\<not> b \<Longrightarrow> st_keeps rel n) \<Longrightarrow> st_keeps rel (if b then m else n)"
  by simp

lemma keeps_option: "st_keeps rel m \<Longrightarrow> (\<And>x. st_keeps rel (f x)) \<Longrightarrow> st_keeps rel (case v of None \<Rightarrow> m | Some x \<Rightarrow> f x)"
  by (simp split: option.splits)

lemmas keeps_intros = keeps_ret keeps_fail keeps_lift keeps_bind keeps_err keeps_if keeps_option

end

end
