(* ===== verification/Anvil_Backend.thy ===== *)
theory Anvil_Backend
  imports Result_State
begin

text \<open>
  The backend that simulates in a forked anvil process, \<^verbatim>\<open>crates/anvil/src/lib.rs\<close>: the estimate, which
  injects the estimator into the fork and takes it out again, the decoding of simulation errors,
  the reports of a transaction and of a block, and the extractor of state updates. The process is
  the record \<open>anvil_ops\<close> over its state, the chain provider the record \<open>anvil_provider\<close>; ABI decoding and the
  signature database are \<open>anvil_decoders\<close>. Percentages and prices, which the source computes in \<open>f64\<close>, are
  exact quotients.
\<close>

section \<open>The process and its errors\<close>

datatype contract_error =
    ContractErrorResp int "string option" string
  | ContractOther string

record reverting_context =
  rv_index :: u256
  rv_target :: address
  rv_revert_data :: bytes
  rv_callargs :: bytes

datatype anvil_error =
    RpcError transport_error
  | ContractError contract_error
  | ErrorProcessing string contract_error
  | SubcontextReverted u256 address string string
  | SimulationFailed
  | RevertPanic
  | BlockNumberPanic u64 u64
  | NoReceipt b256
  | NoTransaction b256
  | TxFailed
  | SkippedTx
  | NoTarget
  | TargetPanic
  | TraceFailed fetch_error
  | ExtractFailed core_error
  | EmptyBlockPanic
  | MissingBlockPanic b256

text \<open>A panic unwinds through every function of this file; the other errors are returned.\<close>

fun panics :: "anvil_error \<Rightarrow> bool" where
  "panics RevertPanic = True"
| "panics (BlockNumberPanic _ _) = True"
| "panics TargetPanic = True"
| "panics (ExtractFailed (Panic _)) = True"
| "panics (ExtractFailed (RemainingCalls _)) = True"
| "panics EmptyBlockPanic = True"
| "panics (MissingBlockPanic _) = True"
| "panics _ = False"

record 's anvil_ops =
  av_get_block_number :: "('s, transport_error, u64) st"
  av_snapshot :: "('s, transport_error, u256) st"
  av_revert :: "u256 \<Rightarrow> ('s, transport_error, bool) st"
  av_get_code_at :: "address \<Rightarrow> ('s, transport_error, bytes) st"
  av_set_code :: "address \<Rightarrow> bytes \<Rightarrow> ('s, transport_error, unit) st"
  av_set_storage_at :: "address \<Rightarrow> u256 \<Rightarrow> b256 \<Rightarrow> ('s, transport_error, unit) st"
  av_run_state_updates_call :: "address \<Rightarrow> nat list \<Rightarrow> bytes list \<Rightarrow> ('s, contract_error, b256) st"
  av_get_receipt :: "b256 \<Rightarrow> ('s, transport_error, bool \<times> u64) st"

record anvil_decoders =
  ad_impl_slot :: u256
  ad_estimator_code :: bytes
  ad_selector :: bytes
  ad_hex_encode :: "bytes \<Rightarrow> string"
  ad_hex_decode :: "string \<Rightarrow> bytes option"
  ad_decode_context :: "bytes \<Rightarrow> reverting_context option"
  ad_identifier :: "string option"
  ad_identify_error :: "bytes \<Rightarrow> string option"
  ad_decode_error :: "string \<Rightarrow> bytes \<Rightarrow> string list option"
  ad_identify_function :: "bytes \<Rightarrow> string option"
  ad_decode_input :: "string \<Rightarrow> bytes \<Rightarrow> string list option"
  ad_show_bytes :: "bytes \<Rightarrow> string"

section \<open>Explaining a failed simulation\<close>

fun join_values :: "string list \<Rightarrow> string" where
  "join_values [] = []"
| "join_values [v] = v"
| "join_values (v # vs) = v @ '', '' @ join_values vs"

definition format_decoded_values :: "string list \<Rightarrow> string" where
  "format_decoded_values vs = join_values vs"

definition first_four :: "bytes \<Rightarrow> bytes option" where
  "first_four data = (if length data < 4 then None else Some (take 4 data))"

definition identified :: "(bytes \<Rightarrow> string option) \<Rightarrow> (string \<Rightarrow> bytes \<Rightarrow> string list option) \<Rightarrow> bytes \<Rightarrow>
    (string \<times> string list) option" where
  "identified ident dec data =
     (case first_four data of
        None \<Rightarrow> None
      | Some sel \<Rightarrow> (case ident sel of
          None \<Rightarrow> None
        | Some sig \<Rightarrow> map_option (\<lambda>vs. (sig, vs)) (dec sig data)))"

definition describe_call :: "anvil_decoders \<Rightarrow> string \<Rightarrow> (string \<times> string list) option \<Rightarrow> bytes \<Rightarrow> string" where
  "describe_call ad unknown known data =
     (case known of
        Some (sig, vs) \<Rightarrow> sig @ '' with values ('' @ format_decoded_values vs @ '')''
      | None \<Rightarrow> unknown @ ad_show_bytes ad data)"

definition process_reverting_context_error :: "anvil_decoders \<Rightarrow> string \<Rightarrow> string + anvil_error" where
  "process_reverting_context_error ad data =
     (case ad_hex_decode ad data of
        None \<Rightarrow> Inl ''rpc error contained invalid hex value''
      | Some bs \<Rightarrow>
          (case ad_decode_context ad bs of
             None \<Rightarrow> Inl ''RevertingContext rpc error was not valid abi encoded''
           | Some ctx \<Rightarrow>
               (case ad_identifier ad of
                  Some e \<Rightarrow> Inl e
                | None \<Rightarrow>
                    Inr (SubcontextReverted (rv_index ctx) (rv_target ctx)
                      (describe_call ad ''Unrecognized function: ''
                        (identified (ad_identify_function ad) (ad_decode_input ad) (rv_callargs ctx)) (rv_callargs ctx))
                      (describe_call ad ''Unrecognized error: ''
                        (identified (ad_identify_error ad) (ad_decode_error ad) (rv_revert_data ctx)) (rv_revert_data ctx))))))"

definition trim_quotes :: "string \<Rightarrow> string" where
  "trim_quotes s = rev (dropWhile (\<lambda>c. c = CHR 0x22) (rev (dropWhile (\<lambda>c. c = CHR 0x22) s)))"

definition process_simulation_error :: "anvil_decoders \<Rightarrow> contract_error \<Rightarrow> anvil_error" where
  "process_simulation_error ad e =
     (case (case e of
              ContractErrorResp code (Some data) _ \<Rightarrow>
                if code \<noteq> 3 then None
                else (let data_inner = trim_quotes data
                      in if \<not> starts_with (''0x'' @ ad_hex_encode ad (ad_selector ad)) data_inner then None
                         else Some (process_reverting_context_error ad data_inner))
            | _ \<Rightarrow> None) of
        Some (Inr processed) \<Rightarrow> processed
      | Some (Inl processing) \<Rightarrow> ErrorProcessing processing e
      | None \<Rightarrow> ContractError e)"

section \<open>The estimate\<close>

definition BACKUP_ADDR :: address where
  "BACKUP_ADDR = word_rcat (replicate 20 (0xba :: u8))"

definition anvil_estimate :: "'s anvil_ops \<Rightarrow> anvil_decoders \<Rightarrow> abi_seq \<Rightarrow> address \<Rightarrow> state_update list \<Rightarrow>
    ('s, anvil_error, u64) st" where
  "anvil_estimate av ad abi_seq contract us =
     bind_st (err_st RpcError (av_get_block_number av)) (\<lambda>initial.
     bind_st (err_st RpcError (av_snapshot av)) (\<lambda>snapshot_id.
     bind_st (err_st RpcError (av_get_code_at av contract)) (\<lambda>original_code.
     bind_st (err_st RpcError (av_set_code av BACKUP_ADDR original_code)) (\<lambda>_.
     bind_st (err_st RpcError (av_set_code av contract (ad_estimator_code ad))) (\<lambda>_.
     bind_st (err_st RpcError (av_set_storage_at av contract (ad_impl_slot ad) (ucast BACKUP_ADDR))) (\<lambda>_.
     let (types, datas) = encode_state_updates_to_sol abi_seq us
     in bind_st (err_st (process_simulation_error ad) (av_run_state_updates_call av contract (map type_tag types) datas)) (\<lambda>tx.
     bind_st (err_st RpcError (av_get_receipt av tx)) (\<lambda>(status, gas_used).
     if \<not> status then fail_st SimulationFailed
     else
       bind_st (err_st RpcError (av_set_code av contract original_code)) (\<lambda>_.
       bind_st (err_st RpcError (av_revert av snapshot_id)) (\<lambda>reverted.
       if \<not> reverted then fail_st RevertPanic
       else
         bind_st (err_st RpcError (av_get_block_number av)) (\<lambda>final.
         if initial \<noteq> final then fail_st (BlockNumberPanic initial final) else ret_st gas_used)))))))))))"

section \<open>Reports\<close>

record tx_receipt =
  xr_transaction_hash :: b256
  xr_block_hash :: "b256 option"
  xr_block_number :: "u64 option"
  xr_gas_used :: u64
  xr_effective_gas_price :: u128
  xr_from :: address
  xr_to :: "address option"
  xr_status :: bool

record chain_tx =
  ct_function_selector :: "bytes option"
  ct_to :: "address option"
  ct_value :: u256

record anvil_provider =
  ap_node :: node
  ap_get_receipt :: "b256 \<Rightarrow> transport_error + tx_receipt option"
  ap_get_transaction :: "b256 \<Rightarrow> transport_error + chain_tx option"
  ap_get_code_at :: "address \<Rightarrow> transport_error + bytes"

type_synonym quotient = "nat \<times> nat"

record signature_gas_estimate =
  sg_gas_estimate :: u64
  sg_estimated_gas_cost :: quotient
  sg_gas_savings :: u64
  sg_percent_savings :: quotient

definition compute_signature_gas :: "signature_type \<Rightarrow> u64 \<Rightarrow> u64 \<Rightarrow> quotient \<Rightarrow> signature_gas_estimate" where
  "compute_signature_gas sig base gas_used price =
     (case savings sig base gas_used of (gas_estimate, gas_savings, percent) \<Rightarrow>
        \<lparr>sg_gas_estimate = gas_estimate, sg_estimated_gas_cost = (fst price * unat gas_estimate, snd price),
         sg_gas_savings = gas_savings, sg_percent_savings = percent\<rparr>)"

record report_details =
  rp_approx_gas_price_per_unit :: quotient
  rp_base_gas_estimate :: u64
  rp_bls :: signature_gas_estimate
  rp_schnorr :: signature_gas_estimate
  rp_function_selector :: bytes
  rp_skipped_opcodes :: "string set"

record gas_killer_report =
  gr_time :: nat
  gr_commit :: string
  gr_tx_hash :: b256
  gr_block_hash :: b256
  gr_block_number :: u64
  gr_gas_used :: u64
  gr_gas_cost :: u128
  gr_approx_gas_unit_price :: quotient
  gr_base_gas_estimate :: u64
  gr_gas_estimate_bls :: u64
  gr_gas_estimate_schnorr :: u64
  gr_estimated_gas_cost_bls :: quotient
  gr_estimated_gas_cost_schnorr :: quotient
  gr_gas_savings_bls :: u64
  gr_gas_savings_schnorr :: u64
  gr_percent_savings_bls :: quotient
  gr_percent_savings_schnorr :: quotient
  gr_function_selector :: bytes
  gr_skipped_opcodes :: "string set"
  gr_error_log :: "anvil_error option"

definition unit_price :: "tx_receipt \<Rightarrow> quotient" where
  "unit_price receipt = (unat (xr_effective_gas_price receipt), unat (xr_gas_used receipt))"

text \<open>Both constructors panic when the receipt lacks the block's hash or number.\<close>

definition mined_in :: "tx_receipt \<Rightarrow> anvil_error + b256 \<times> u64" where
  "mined_in receipt =
     (case (xr_block_hash receipt, xr_block_number receipt) of
        (Some h, Some n) \<Rightarrow> Inr (h, n)
      | _ \<Rightarrow> Inl (MissingBlockPanic (xr_transaction_hash receipt)))"

definition report_error :: "nat \<Rightarrow> string \<Rightarrow> tx_receipt \<Rightarrow> bytes \<Rightarrow> anvil_error \<Rightarrow> anvil_error + gas_killer_report" where
  "report_error time commit receipt function_selector e =
     bind_res (mined_in receipt) (\<lambda>(block_hash, block_number).
     Inr \<lparr>gr_time = time, gr_commit = commit, gr_tx_hash = xr_transaction_hash receipt, gr_block_hash = block_hash,
          gr_block_number = block_number, gr_gas_used = xr_gas_used receipt, gr_gas_cost = xr_effective_gas_price receipt,
          gr_approx_gas_unit_price = unit_price receipt, gr_base_gas_estimate = 0, gr_gas_estimate_bls = 0,
          gr_gas_estimate_schnorr = 0, gr_estimated_gas_cost_bls = (0, 1), gr_estimated_gas_cost_schnorr = (0, 1),
          gr_gas_savings_bls = 0, gr_gas_savings_schnorr = 0, gr_percent_savings_bls = (0, 1),
          gr_percent_savings_schnorr = (0, 1), gr_function_selector = function_selector, gr_skipped_opcodes = {},
          gr_error_log = Some e\<rparr>)"

definition report_from :: "nat \<Rightarrow> string \<Rightarrow> tx_receipt \<Rightarrow> report_details \<Rightarrow> anvil_error + gas_killer_report" where
  "report_from time commit receipt d =
     bind_res (mined_in receipt) (\<lambda>(block_hash, block_number).
     Inr \<lparr>gr_time = time, gr_commit = commit, gr_tx_hash = xr_transaction_hash receipt, gr_block_hash = block_hash,
          gr_block_number = block_number, gr_gas_used = xr_gas_used receipt, gr_gas_cost = xr_effective_gas_price receipt,
          gr_approx_gas_unit_price = rp_approx_gas_price_per_unit d, gr_base_gas_estimate = rp_base_gas_estimate d,
          gr_gas_estimate_bls = sg_gas_estimate (rp_bls d), gr_gas_estimate_schnorr = sg_gas_estimate (rp_schnorr d),
          gr_estimated_gas_cost_bls = sg_estimated_gas_cost (rp_bls d),
          gr_estimated_gas_cost_schnorr = sg_estimated_gas_cost (rp_schnorr d),
          gr_gas_savings_bls = sg_gas_savings (rp_bls d), gr_gas_savings_schnorr = sg_gas_savings (rp_schnorr d),
          gr_percent_savings_bls = sg_percent_savings (rp_bls d),
          gr_percent_savings_schnorr = sg_percent_savings (rp_schnorr d),
          gr_function_selector = rp_function_selector d, gr_skipped_opcodes = rp_skipped_opcodes d,
          gr_error_log = None\<rparr>)"

text \<open>What the reporting functions run with: decoders, chain provider, process, clock and commit.\<close>

record 's reporter =
  rt_hexd :: hexd
  rt_abi :: abi_seq
  rt_decoders :: anvil_decoders
  rt_provider :: anvil_provider
  rt_anvil :: "'s anvil_ops"
  rt_time :: nat
  rt_commit :: string

definition invokes_smart_contract :: "anvil_provider \<Rightarrow> tx_receipt \<Rightarrow> anvil_error + bool" where
  "invokes_smart_contract ap receipt =
     (case xr_to receipt of
        None \<Rightarrow> Inr False
      | Some a \<Rightarrow> bind_res (map_err RpcError (ap_get_code_at ap a)) (\<lambda>code. Inr (code \<noteq> [])))"

definition fetch_function_selector :: "anvil_provider \<Rightarrow> b256 \<Rightarrow> anvil_error + bytes" where
  "fetch_function_selector ap tx_hash =
     bind_res (map_err RpcError (ap_get_transaction ap tx_hash)) (\<lambda>tx.
     case tx of
       None \<Rightarrow> Inl (NoTransaction tx_hash)
     | Some tx \<Rightarrow> Inr (case ct_function_selector tx of None \<Rightarrow> [0, 0, 0, 0] | Some sel \<Rightarrow> sel))"

definition gaskiller_reporter :: "'s reporter \<Rightarrow> b256 \<Rightarrow> tx_receipt \<Rightarrow> bytes \<Rightarrow> ('s, anvil_error, report_details) st" where
  "gaskiller_reporter rt tx_hash receipt function_selector =
     bind_st (lift_st (map_err TraceFailed (get_tx_trace (ap_node (rt_provider rt)) tx_hash (xr_status receipt)))) (\<lambda>trace.
     bind_st (lift_st (map_err ExtractFailed (compute_state_updates (rt_hexd rt) trace None))) (\<lambda>ext.
     case xr_to receipt of
       None \<Rightarrow> fail_st TargetPanic
     | Some contract \<Rightarrow>
         bind_st (anvil_estimate (rt_anvil rt) (rt_decoders rt) (rt_abi rt) contract (state_updates ext)) (\<lambda>base.
         ret_st \<lparr>rp_approx_gas_price_per_unit = unit_price receipt, rp_base_gas_estimate = base,
           rp_bls = compute_signature_gas Bls base (xr_gas_used receipt) (unit_price receipt),
           rp_schnorr = compute_signature_gas Schnorr base (xr_gas_used receipt) (unit_price receipt),
           rp_function_selector = function_selector, rp_skipped_opcodes = skipped_opcodes ext\<rparr>)))"

definition get_report :: "'s reporter \<Rightarrow> b256 \<Rightarrow> tx_receipt \<Rightarrow> ('s, anvil_error, gas_killer_report) st" where
  "get_report rt tx_hash receipt =
     bind_st (lift_st (fetch_function_selector (rt_provider rt) tx_hash)) (\<lambda>function_selector s.
     case gaskiller_reporter rt tx_hash receipt function_selector s of
       (Inl e, s) \<Rightarrow>
         (if panics e then Inl e else report_error (rt_time rt) (rt_commit rt) receipt function_selector e, s)
     | (Inr d, s) \<Rightarrow> (report_from (rt_time rt) (rt_commit rt) receipt d, s))"

definition worth_reporting :: "tx_receipt \<Rightarrow> bool" where
  "worth_reporting receipt \<longleftrightarrow> xr_gas_used receipt > TURETZKY_UPPER_GAS_LIMIT_SCHNORR \<and> xr_to receipt \<noteq> None"

definition report_or_error :: "'s reporter \<Rightarrow> tx_receipt \<Rightarrow> ('s, anvil_error, gas_killer_report) st" where
  "report_or_error rt receipt s =
     (case get_report rt (xr_transaction_hash receipt) receipt s of
        (Inl e, s) \<Rightarrow> (if panics e then Inl e else report_error (rt_time rt) (rt_commit rt) receipt [0, 0, 0, 0] e, s)
      | (Inr r, s) \<Rightarrow> (Inr r, s))"

fun report_all :: "'s reporter \<Rightarrow> tx_receipt list \<Rightarrow> ('s, anvil_error, gas_killer_report list) st" where
  "report_all rt [] = ret_st []"
| "report_all rt (receipt # receipts) =
     bind_st (report_or_error rt receipt) (\<lambda>r. bind_st (report_all rt receipts) (\<lambda>rs. ret_st (r # rs)))"

definition gas_estimate_block :: "'s reporter \<Rightarrow> tx_receipt list \<Rightarrow> ('s, anvil_error, gas_killer_report list) st" where
  "gas_estimate_block rt all_receipts =
     (case all_receipts of
        [] \<Rightarrow> fail_st EmptyBlockPanic
      | first # _ \<Rightarrow>
          (case xr_block_number first of
             None \<Rightarrow> fail_st (MissingBlockPanic (xr_transaction_hash first))
           | Some _ \<Rightarrow> report_all rt (filter worth_reporting all_receipts)))"

definition gas_estimate_tx :: "'s reporter \<Rightarrow> b256 \<Rightarrow> ('s, anvil_error, gas_killer_report) st" where
  "gas_estimate_tx rt tx_hash =
     bind_st (lift_st (map_err RpcError (ap_get_receipt (rt_provider rt) tx_hash))) (\<lambda>r.
     case r of
       None \<Rightarrow> fail_st (NoReceipt tx_hash)
     | Some receipt \<Rightarrow>
         bind_st (lift_st (invokes_smart_contract (rt_provider rt) receipt)) (\<lambda>smart_contract_tx.
         if xr_gas_used receipt \<le> TURETZKY_UPPER_GAS_LIMIT_SCHNORR \<or> \<not> smart_contract_tx
            \<or> xr_to receipt = None \<or> \<not> xr_status receipt
         then fail_st SkippedTx
         else get_report rt tx_hash receipt))"

section \<open>Encoding a call and extracting updates\<close>

text \<open>A fork at a block: how it mines a transaction, and the traces it then serves.\<close>

type_synonym fork = "u64 option \<Rightarrow> transport_error + (tx_request \<Rightarrow> transport_error + b256 \<times> bool) \<times> node"

definition fork_trace_from_call :: "fork \<Rightarrow> tx_request \<Rightarrow> u64 option \<Rightarrow> anvil_error + default_frame" where
  "fork_trace_from_call fk req block_height =
     bind_res (map_err RpcError (fk block_height)) (\<lambda>(send, nd).
     bind_res (map_err RpcError (send req)) (\<lambda>(tx_hash, status).
     if \<not> status then Inl TxFailed
     else map_err TraceFailed (get_tx_trace nd tx_hash status)))"

definition gas_killer_get_tx_trace :: "node \<Rightarrow> b256 \<Rightarrow> anvil_error + default_frame" where
  "gas_killer_get_tx_trace nd tx_hash =
     bind_res (map_err RpcError (debug_trace_transaction nd tx_hash True)) (\<lambda>t.
     case t of DefaultTrace trace \<Rightarrow> Inr trace | _ \<Rightarrow> Inl (TraceFailed NotDefaultTrace))"

definition call_to_encoded_with_gas_estimate :: "'s reporter \<Rightarrow> fork \<Rightarrow> tx_request \<Rightarrow> u64 option \<Rightarrow>
    ('s, anvil_error, bytes \<times> u64 \<times> string set) st" where
  "call_to_encoded_with_gas_estimate rt fk req block_height =
     (case tr_to req of
        Some (CallTo contract) \<Rightarrow>
          bind_st (lift_st (fork_trace_from_call fk req block_height)) (\<lambda>trace.
          bind_st (lift_st (map_err ExtractFailed (compute_state_updates (rt_hexd rt) trace None))) (\<lambda>ext.
          bind_st (anvil_estimate (rt_anvil rt) (rt_decoders rt) (rt_abi rt) contract (state_updates ext)) (\<lambda>g.
          ret_st (encode_state_updates_to_abi (rt_abi rt) (state_updates ext), g, skipped_opcodes ext))))
      | _ \<Rightarrow> fail_st NoTarget)"

definition extract_state_updates :: "hexd \<Rightarrow> anvil_provider \<Rightarrow> b256 \<Rightarrow> anvil_error + state_update list" where
  "extract_state_updates hexd ap tx_hash =
     bind_res (map_err RpcError (ap_get_receipt ap tx_hash)) (\<lambda>r.
     case r of
       None \<Rightarrow> Inl (NoReceipt tx_hash)
     | Some receipt \<Rightarrow>
         bind_res (map_err TraceFailed (get_tx_trace (ap_node ap) tx_hash (xr_status receipt))) (\<lambda>trace.
         bind_res (map_err ExtractFailed (compute_state_updates hexd trace None)) (\<lambda>ext.
         Inr (state_updates ext))))"

record state_update_report =
  su_tx_hash :: b256
  su_block_number :: u64
  su_from :: address
  su_to :: "address option"
  su_value :: u256
  su_gas_used :: u128
  su_status :: bool
  su_state_updates :: "state_update list"

definition extract_with_metadata :: "hexd \<Rightarrow> anvil_provider \<Rightarrow> b256 \<Rightarrow> anvil_error + state_update_report" where
  "extract_with_metadata hexd ap tx_hash =
     bind_res (map_err RpcError (ap_get_receipt ap tx_hash)) (\<lambda>r.
     case r of
       None \<Rightarrow> Inl (NoReceipt tx_hash)
     | Some receipt \<Rightarrow>
         bind_res (map_err RpcError (ap_get_transaction ap tx_hash)) (\<lambda>t.
         case t of
           None \<Rightarrow> Inl (NoTransaction tx_hash)
         | Some tx \<Rightarrow>
             if \<not> xr_status receipt then Inl TxFailed
             else
               bind_res (map_err TraceFailed (get_tx_trace (ap_node ap) tx_hash (xr_status receipt))) (\<lambda>trace.
               bind_res (map_err ExtractFailed (compute_state_updates hexd trace None)) (\<lambda>ext.
               Inr \<lparr>su_tx_hash = tx_hash,
                    su_block_number = (case xr_block_number receipt of None \<Rightarrow> 0 | Some n \<Rightarrow> n),
                    su_from = xr_from receipt, su_to = ct_to tx, su_value = ct_value tx,
                    su_gas_used = ucast (xr_gas_used receipt), su_status = xr_status receipt,
                    su_state_updates = state_updates ext\<rparr>))))"

section \<open>What an estimate leaves behind\<close>

text \<open>
  What anvil documents of its methods, for a view of the fork's chain: reads change nothing, code is set
  where it is asked for, a snapshot keeps the chain it was taken of until it is reverted to, and a
  transaction that is refused changes nothing.
\<close>

record ('s, 'v) fork_view =
  fv_chain :: "'s \<Rightarrow> 'v"
  fv_code :: "'v \<Rightarrow> address \<Rightarrow> bytes"
  fv_snapshots :: "'s \<Rightarrow> u256 \<Rightarrow> 'v option"

definition keeps_snapshots :: "('s, 'v) fork_view \<Rightarrow> ('s, 'e, 'a) st \<Rightarrow> bool" where
  "keeps_snapshots fv m \<longleftrightarrow> (\<forall>s r t. m s = (r, t) \<longrightarrow> fv_snapshots fv t = fv_snapshots fv s)"

definition keeps_chain :: "('s, 'v) fork_view \<Rightarrow> ('s, 'e, 'a) st \<Rightarrow> bool" where
  "keeps_chain fv m \<longleftrightarrow> (\<forall>s r t. m s = (r, t) \<longrightarrow> fv_chain fv t = fv_chain fv s)"

definition anvil_laws :: "'s anvil_ops \<Rightarrow> ('s, 'v) fork_view \<Rightarrow> bool" where
  "anvil_laws av fv \<longleftrightarrow>
     keeps_chain fv (av_get_block_number av) \<and> keeps_snapshots fv (av_get_block_number av)
   \<and> (\<forall>a. keeps_chain fv (av_get_code_at av a) \<and> keeps_snapshots fv (av_get_code_at av a))
   \<and> (\<forall>h. keeps_chain fv (av_get_receipt av h) \<and> keeps_snapshots fv (av_get_receipt av h))
   \<and> (\<forall>a c. keeps_snapshots fv (av_set_code av a c))
   \<and> (\<forall>a k v. keeps_snapshots fv (av_set_storage_at av a k v))
   \<and> (\<forall>a ts ds. keeps_snapshots fv (av_run_state_updates_call av a ts ds))
   \<and> (\<forall>s i t. av_snapshot av s = (Inr i, t) \<longrightarrow>
        fv_chain fv t = fv_chain fv s \<and> fv_snapshots fv t i = Some (fv_chain fv s))
   \<and> (\<forall>s i t. av_revert av i s = (Inr True, t) \<longrightarrow> fv_snapshots fv s i = Some (fv_chain fv t))
   \<and> (\<forall>a c s t. av_set_code av a c s = (Inr (), t) \<longrightarrow>
        fv_code fv (fv_chain fv t) = (fv_code fv (fv_chain fv s))(a := c))
   \<and> (\<forall>a k v s t. av_set_storage_at av a k v s = (Inr (), t) \<longrightarrow>
        fv_code fv (fv_chain fv t) = fv_code fv (fv_chain fv s))
   \<and> (\<forall>a ts ds s e t. av_run_state_updates_call av a ts ds s = (Inl e, t) \<longrightarrow> fv_chain fv t = fv_chain fv s)"

text \<open>The steps of an estimate that came to an end, read off its definition.\<close>

lemma anvil_estimate_steps:
  assumes "anvil_estimate av ad abi_seq contract us s = (Inr g, t)"
  obtains i n c tx s1 s2 s3 s4 s5 s6 s7 s8 s9 s10 where "av_get_block_number av s = (Inr n, s1)"
    "av_snapshot av s1 = (Inr i, s2)" "av_get_code_at av contract s2 = (Inr c, s3)"
    "av_set_code av BACKUP_ADDR c s3 = (Inr (), s4)"
    "av_set_code av contract (ad_estimator_code ad) s4 = (Inr (), s5)"
    "av_set_storage_at av contract (ad_impl_slot ad) (ucast BACKUP_ADDR) s5 = (Inr (), s6)"
    "av_run_state_updates_call av contract (map type_tag (map update_type us)) (map abi_seq us) s6 = (Inr tx, s7)"
    "av_get_receipt av tx s7 = (Inr (True, g), s8)" "av_set_code av contract c s8 = (Inr (), s9)"
    "av_revert av i s9 = (Inr True, s10)" "av_get_block_number av s10 = (Inr n, t)"
  using assms
  by (auto simp: anvil_estimate_def encode_state_updates_to_sol_def bind_st_Inr err_st_Inr ret_st_def fail_st_def
      split: if_splits)

lemma keeps_snapshotsD: "keeps_snapshots fv m \<Longrightarrow> m s = (r, t) \<Longrightarrow> fv_snapshots fv t = fv_snapshots fv s"
  unfolding keeps_snapshots_def by blast

lemma keeps_chainD: "keeps_chain fv m \<Longrightarrow> m s = (r, t) \<Longrightarrow> fv_chain fv t = fv_chain fv s"
  unfolding keeps_chain_def by blast

lemma anvil_lawsD:
  assumes "anvil_laws av fv"
  shows "keeps_chain fv (av_get_block_number av)" "keeps_snapshots fv (av_get_block_number av)"
    "keeps_chain fv (av_get_code_at av a)" "keeps_snapshots fv (av_get_code_at av a)"
    "keeps_snapshots fv (av_get_receipt av h)" "keeps_snapshots fv (av_set_code av a c)"
    "keeps_snapshots fv (av_set_storage_at av a k v)" "keeps_snapshots fv (av_run_state_updates_call av a ts ds)"
    "av_snapshot av s = (Inr i, t) \<Longrightarrow> fv_chain fv t = fv_chain fv s \<and> fv_snapshots fv t i = Some (fv_chain fv s)"
    "av_revert av i s = (Inr True, t) \<Longrightarrow> fv_snapshots fv s i = Some (fv_chain fv t)"
    "av_set_code av a c s = (Inr (), t) \<Longrightarrow> fv_code fv (fv_chain fv t) = (fv_code fv (fv_chain fv s))(a := c)"
    "av_set_storage_at av a k v s = (Inr (), t) \<Longrightarrow> fv_code fv (fv_chain fv t) = fv_code fv (fv_chain fv s)"
    "av_run_state_updates_call av a ts ds s = (Inl e, t) \<Longrightarrow> fv_chain fv t = fv_chain fv s"
  using assms by (simp_all add: anvil_laws_def)

text \<open>
  C15. An estimate that succeeds leaves the fork as it found it: the injected estimator, the backup of the
  contract's code, the implementation slot and everything the simulated program wrote are gone.
\<close>

theorem anvil_estimate_restores:
  assumes laws: "anvil_laws av fv" and "anvil_estimate av ad abi_seq contract us s = (Inr g, t)"
  shows "fv_chain fv t = fv_chain fv s"
proof -
  note L = anvil_lawsD [OF laws]
  obtain i n c tx s1 s2 s3 s4 s5 s6 s7 s8 s9 s10 where run: "av_get_block_number av s = (Inr n, s1)"
    "av_snapshot av s1 = (Inr i, s2)" "av_get_code_at av contract s2 = (Inr c, s3)"
    "av_set_code av BACKUP_ADDR c s3 = (Inr (), s4)"
    "av_set_code av contract (ad_estimator_code ad) s4 = (Inr (), s5)"
    "av_set_storage_at av contract (ad_impl_slot ad) (ucast BACKUP_ADDR) s5 = (Inr (), s6)"
    "av_run_state_updates_call av contract (map type_tag (map update_type us)) (map abi_seq us) s6 = (Inr tx, s7)"
    "av_get_receipt av tx s7 = (Inr (True, g), s8)" "av_set_code av contract c s8 = (Inr (), s9)"
    "av_revert av i s9 = (Inr True, s10)" "av_get_block_number av s10 = (Inr n, t)"
    using assms(2) by (rule anvil_estimate_steps)
  have "fv_snapshots fv s9 = fv_snapshots fv s8" by (rule keeps_snapshotsD [OF L(6) run(9)])
  also have "\<dots> = fv_snapshots fv s7" by (rule keeps_snapshotsD [OF L(5) run(8)])
  also have "\<dots> = fv_snapshots fv s6" by (rule keeps_snapshotsD [OF L(8) run(7)])
  also have "\<dots> = fv_snapshots fv s5" by (rule keeps_snapshotsD [OF L(7) run(6)])
  also have "\<dots> = fv_snapshots fv s4" by (rule keeps_snapshotsD [OF L(6) run(5)])
  also have "\<dots> = fv_snapshots fv s3" by (rule keeps_snapshotsD [OF L(6) run(4)])
  also have "\<dots> = fv_snapshots fv s2" by (rule keeps_snapshotsD [OF L(4) run(3)])
  finally have "fv_snapshots fv s9 i = Some (fv_chain fv s1)" using L(9) [OF run(2)] by simp
  moreover have "fv_snapshots fv s9 i = Some (fv_chain fv s10)" by (rule L(10) [OF run(10)])
  ultimately show ?thesis
    using keeps_chainD [OF L(1) run(1)] keeps_chainD [OF L(1) run(11)] by simp
qed

fun simulation_error :: "anvil_error \<Rightarrow> bool" where
  "simulation_error (ContractError _) = True"
| "simulation_error (ErrorProcessing _ _) = True"
| "simulation_error (SubcontextReverted _ _ _ _) = True"
| "simulation_error _ = False"

lemma anvil_estimate_refused:
  assumes "anvil_estimate av ad abi_seq contract us s = (Inl e, t)" and "simulation_error e"
  obtains n i c e' s1 s2 s3 s4 s5 s6 where "av_get_block_number av s = (Inr n, s1)"
    "av_snapshot av s1 = (Inr i, s2)" "av_get_code_at av contract s2 = (Inr c, s3)"
    "av_set_code av BACKUP_ADDR c s3 = (Inr (), s4)"
    "av_set_code av contract (ad_estimator_code ad) s4 = (Inr (), s5)"
    "av_set_storage_at av contract (ad_impl_slot ad) (ucast BACKUP_ADDR) s5 = (Inr (), s6)"
    "av_run_state_updates_call av contract (map type_tag (map update_type us)) (map abi_seq us) s6 = (Inl e', t)"
  using assms
  by (auto simp: anvil_estimate_def encode_state_updates_to_sol_def bind_st_Inl bind_st_Inr err_st_Inr err_st_Inl
      ret_st_def fail_st_def split: if_splits)

text \<open>
  C40. An estimate whose simulation is refused leaves the fork with the estimator in place: neither
  the contract's code nor the snapshot is restored on that path, so the contract's code is the estimator's
  afterwards, and a later estimate for it in the same process backs up the estimator instead of
  the contract.
\<close>

theorem refused_simulation_keeps_estimator:
  assumes laws: "anvil_laws av fv" and "anvil_estimate av ad abi_seq contract us s = (Inl e, t)"
    and "simulation_error e"
  shows "fv_code fv (fv_chain fv t) contract = ad_estimator_code ad"
proof -
  note L = anvil_lawsD [OF laws]
  obtain n i c e' s1 s2 s3 s4 s5 s6 where
    "av_set_code av contract (ad_estimator_code ad) s4 = (Inr (), s5)"
    "av_set_storage_at av contract (ad_impl_slot ad) (ucast BACKUP_ADDR) s5 = (Inr (), s6)"
    "av_run_state_updates_call av contract (map type_tag (map update_type us)) (map abi_seq us) s6 = (Inl e', t)"
    using assms(2,3) by (rule anvil_estimate_refused)
  with L(11-13) show ?thesis by (metis fun_upd_same)
qed

section \<open>The reports of a block\<close>

text \<open>A report stands for its receipt and adds up: each scheme's estimate is the base plus its limit.\<close>

definition report_for :: "tx_receipt \<Rightarrow> gas_killer_report \<Rightarrow> bool" where
  "report_for receipt r \<longleftrightarrow> gr_tx_hash r = xr_transaction_hash receipt \<and> gr_gas_used r = xr_gas_used receipt
     \<and> Some (gr_block_hash r) = xr_block_hash receipt \<and> Some (gr_block_number r) = xr_block_number receipt
     \<and> (gr_error_log r = None \<longrightarrow>
          gr_gas_estimate_bls r = total_gas_estimate Bls (gr_base_gas_estimate r)
        \<and> gr_gas_estimate_schnorr r = total_gas_estimate Schnorr (gr_base_gas_estimate r)
        \<and> gr_gas_savings_bls r = sat_sub (gr_gas_used r) (gr_gas_estimate_bls r)
        \<and> gr_gas_savings_schnorr r = sat_sub (gr_gas_used r) (gr_gas_estimate_schnorr r))
     \<and> (gr_error_log r \<noteq> None \<longrightarrow> gr_gas_savings_bls r = 0 \<and> gr_gas_savings_schnorr r = 0)"

definition mined :: "tx_receipt \<Rightarrow> bool" where
  "mined receipt \<longleftrightarrow> xr_block_hash receipt \<noteq> None \<and> xr_block_number receipt \<noteq> None"

lemma report_error_for:
  "mined receipt \<Longrightarrow> \<exists>r. report_error time commit receipt sel e = Inr r \<and> report_for receipt r"
  by (auto simp: mined_def report_error_def mined_in_def report_for_def)

lemma gaskiller_reporter_figures:
  assumes "gaskiller_reporter rt h receipt sel s = (Inr d, t)"
  shows "rp_bls d = compute_signature_gas Bls (rp_base_gas_estimate d) (xr_gas_used receipt) (unit_price receipt)"
    and "rp_schnorr d = compute_signature_gas Schnorr (rp_base_gas_estimate d) (xr_gas_used receipt) (unit_price receipt)"
  using assms by (auto simp: gaskiller_reporter_def bind_st_Inr ret_st_def fail_st_def split: option.splits)

lemma report_from_for:
  assumes "mined receipt" and "gaskiller_reporter rt h receipt sel s = (Inr d, t)"
  shows "\<exists>r. report_from time commit receipt d = Inr r \<and> report_for receipt r"
  using assms(1) gaskiller_reporter_figures [OF assms(2)]
  by (auto simp: mined_def report_from_def mined_in_def report_for_def compute_signature_gas_def savings_def Let_def)

text \<open>The panics that remain once a receipt is mined and has a recipient: the fork's and the extractor's.\<close>

definition block_panic :: "anvil_error \<Rightarrow> bool" where
  "block_panic e \<longleftrightarrow> e = RevertPanic \<or> (\<exists>m n. e = BlockNumberPanic m n) \<or> (\<exists>x. e = ExtractFailed x \<and> panics e)"

definition reported :: "tx_receipt \<Rightarrow> anvil_error + gas_killer_report \<Rightarrow> bool" where
  "reported receipt r \<longleftrightarrow> (case r of Inr x \<Rightarrow> report_for receipt x | Inl e \<Rightarrow> block_panic e)"

lemma process_simulation_error_returns: "\<not> panics (process_simulation_error ad e)"
  by (auto simp: process_simulation_error_def process_reverting_context_error_def Let_def
      split: contract_error.splits option.splits sum.splits)

lemma anvil_estimate_panics:
  assumes "anvil_estimate av ad abi_seq contract us s = (Inl e, t)" and "panics e"
  shows "block_panic e"
  using assms process_simulation_error_returns [of ad]
  by (auto simp: anvil_estimate_def encode_state_updates_to_sol_def bind_st_Inl bind_st_Inr err_st_Inr err_st_Inl
      ret_st_def fail_st_def block_panic_def split: if_splits)

lemma gaskiller_reporter_panics:
  assumes "gaskiller_reporter rt h receipt sel s = (Inl e, t)" and "panics e" and "xr_to receipt \<noteq> None"
  shows "block_panic e"
  using assms anvil_estimate_panics [of "rt_anvil rt" "rt_decoders rt" "rt_abi rt"]
  by (auto simp: gaskiller_reporter_def bind_st_Inl lift_st_eq map_err_def ret_st_def block_panic_def
      split: option.splits sum.splits)

lemma fetch_function_selector_returns: "fetch_function_selector ap h = Inl e \<Longrightarrow> \<not> panics e"
  by (auto simp: fetch_function_selector_def bind_res_Inl_iff map_err_def split: option.splits sum.splits)

lemma get_report_for:
  assumes m: "mined receipt" "xr_to receipt \<noteq> None" and r: "get_report rt h receipt s = (r, t)"
  shows "reported receipt r \<or> (\<exists>e. r = Inl e \<and> \<not> panics e)"
proof (cases "fetch_function_selector (rt_provider rt) h")
  case (Inl e)
  with r fetch_function_selector_returns [OF Inl] show ?thesis by (auto simp: get_report_def bind_st_def lift_st_def)
next
  case (Inr sel)
  obtain q u where q: "gaskiller_reporter rt h receipt sel s = (q, u)" by fastforce
  show ?thesis
  proof (cases q)
    case (Inl e)
    then show ?thesis
      using r Inr q gaskiller_reporter_panics [of rt h receipt sel s e u] m(2)
        report_error_for [OF m(1), of "rt_time rt" "rt_commit rt" sel e]
      by (auto simp: get_report_def bind_st_def lift_st_def reported_def split: if_splits)
  next
    case (Inr d)
    then show ?thesis
      using r \<open>fetch_function_selector _ _ = _\<close> q report_from_for [OF m(1), of rt h sel s d u "rt_time rt" "rt_commit rt"]
      by (auto simp: get_report_def bind_st_def lift_st_def reported_def)
  qed
qed

lemma report_or_error_for:
  assumes m: "mined receipt" "xr_to receipt \<noteq> None" and r: "report_or_error rt receipt s = (r, t)"
  shows "reported receipt r"
proof -
  obtain q u where g: "get_report rt (xr_transaction_hash receipt) receipt s = (q, u)" by fastforce
  have p: "panics e" if "block_panic e" for e using that by (auto simp: block_panic_def)
  show ?thesis
  proof (cases q)
    case (Inl e)
    then show ?thesis
      using get_report_for [OF m g] r g report_error_for [OF m(1), of "rt_time rt" "rt_commit rt" "[0, 0, 0, 0]" e]
      by (auto simp: report_or_error_def reported_def split: if_splits)
  next
    case (Inr x)
    with get_report_for [OF m g] r g show ?thesis by (auto simp: report_or_error_def)
  qed
qed

lemma report_all_for:
  "list_all (\<lambda>x. mined x \<and> xr_to x \<noteq> None) receipts \<Longrightarrow> report_all rt receipts s = (r, t) \<Longrightarrow>
     case r of Inr xs \<Rightarrow> list_all2 report_for receipts xs | Inl e \<Rightarrow> block_panic e"
proof (induction receipts arbitrary: s r t)
  case Nil
  then show ?case by (auto simp: ret_st_def)
next
  case (Cons receipt receipts)
  obtain q u where q: "report_or_error rt receipt s = (q, u)" by fastforce
  have x: "reported receipt q" using report_or_error_for [OF _ _ q] Cons.prems(1) by simp
  obtain p v where p: "report_all rt receipts u = (p, v)" by fastforce
  have "case p of Inr xs \<Rightarrow> list_all2 report_for receipts xs | Inl e \<Rightarrow> block_panic e"
    using Cons.IH [OF _ p] Cons.prems(1) by simp
  with Cons.prems(2) q x p show ?case
    by (auto simp: bind_st_def ret_st_def reported_def split: sum.splits)
qed


section \<open>A sample process\<close>

text \<open>A fork that keeps code and one snapshot; it refuses an empty program and mines any other.\<close>

type_synonym toy_fork = "(address \<Rightarrow> bytes) \<times> (address \<Rightarrow> bytes) option"

definition toy_anvil :: "toy_fork anvil_ops" where
  "toy_anvil = \<lparr>av_get_block_number = ret_st 9, av_snapshot = (\<lambda>(c, _). (Inr 1, (c, Some c))),
     av_revert = (\<lambda>i (c, snap). case snap of Some d \<Rightarrow> if i = 1 then (Inr True, (d, None)) else (Inr False, (c, snap))
       | None \<Rightarrow> (Inr False, (c, snap))),
     av_get_code_at = (\<lambda>a (c, snap). (Inr (c a), (c, snap))),
     av_set_code = (\<lambda>a code (c, snap). (Inr (), (c(a := code), snap))), av_set_storage_at = (\<lambda>_ _ _. ret_st ()),
     av_run_state_updates_call = (\<lambda>_ _ ds s. if ds = [] then (Inl (ContractOther ''revert''), s) else (Inr 5, s)),
     av_get_receipt = (\<lambda>_. ret_st (True, 50000))\<rparr>"

definition toy_view :: "(toy_fork, address \<Rightarrow> bytes) fork_view" where
  "toy_view = \<lparr>fv_chain = fst, fv_code = id, fv_snapshots = (\<lambda>(_, snap) i. if i = 1 then snap else None)\<rparr>"

definition toy_decoders :: anvil_decoders where
  "toy_decoders = \<lparr>ad_impl_slot = 7, ad_estimator_code = [1, 2], ad_selector = [], ad_hex_encode = (\<lambda>_. []),
     ad_hex_decode = (\<lambda>_. None), ad_decode_context = (\<lambda>_. None), ad_identifier = None,
     ad_identify_error = (\<lambda>_. None), ad_decode_error = (\<lambda>_ _. None), ad_identify_function = (\<lambda>_. None),
     ad_decode_input = (\<lambda>_ _. None), ad_show_bytes = (\<lambda>_. [])\<rparr>"

lemma toy_anvil_laws: "anvil_laws toy_anvil toy_view"
  by (auto simp: anvil_laws_def keeps_chain_def keeps_snapshots_def toy_anvil_def toy_view_def ret_st_def
      split: prod.splits if_splits option.splits)

lemmas toy_run = anvil_estimate_def bind_st_def err_st_def ret_st_def fail_st_def toy_anvil_def toy_decoders_def
  encode_state_updates_to_sol_def process_simulation_error_def

theorem anvil_estimate_restores_witness:
  "\<exists>t. anvil_estimate toy_anvil toy_decoders (\<lambda>_. []) 3 [Store 1 2] ((\<lambda>_. [9]), None) = (Inr 50000, t)
     \<and> fst t = (\<lambda>_. [9])"
proof -
  obtain t where t: "anvil_estimate toy_anvil toy_decoders (\<lambda>_. []) 3 [Store 1 2] ((\<lambda>_. [9]), None) = (Inr 50000, t)"
    by (simp add: toy_run)
  from anvil_estimate_restores [OF toy_anvil_laws t] t show ?thesis by (simp add: toy_view_def)
qed

theorem refused_simulation_keeps_estimator_witness:
  "\<exists>e t. anvil_estimate toy_anvil toy_decoders (\<lambda>_. []) 3 [] ((\<lambda>_. [9]), None) = (Inl e, t) \<and> fst t 3 = [1, 2]"
proof -
  obtain t where t: "anvil_estimate toy_anvil toy_decoders (\<lambda>_. []) 3 [] ((\<lambda>_. [9]), None)
      = (Inl (ContractError (ContractOther ''revert'')), t)"
    by (simp add: toy_run)
  from refused_simulation_keeps_estimator [OF toy_anvil_laws t] t show ?thesis
    by (simp add: toy_view_def toy_decoders_def)
qed

definition toy_provider :: anvil_provider where
  "toy_provider = \<lparr>ap_node = \<lparr>debug_trace_call = (\<lambda>_ _ _. Inl (OtherTransport [])),
       debug_trace_transaction = (\<lambda>_ _. Inl (OtherTransport [])), eth_call = (\<lambda>_ _ _ _. Inr []),
       get_full_block = (\<lambda>_. Inr None), show_payload = ep_message, show_http = (\<lambda>_ b. b), json_rpc_error_in = (\<lambda>_. None)\<rparr>,
     ap_get_receipt = (\<lambda>_. Inr None), ap_get_transaction = (\<lambda>_. Inr None), ap_get_code_at = (\<lambda>_. Inr [])\<rparr>"

definition toy_reporter :: "toy_fork reporter" where
  "toy_reporter = \<lparr>rt_hexd = (\<lambda>_. None), rt_abi = (\<lambda>_. []), rt_decoders = toy_decoders, rt_provider = toy_provider,
     rt_anvil = toy_anvil, rt_time = 0, rt_commit = ''c''\<rparr>"

definition toy_receipt :: "u64 \<Rightarrow> tx_receipt" where
  "toy_receipt g = \<lparr>xr_transaction_hash = 6, xr_block_hash = Some 1, xr_block_number = Some 2, xr_gas_used = g,
     xr_effective_gas_price = 5, xr_from = 0, xr_to = Some 3, xr_status = True\<rparr>"


end
