(* ===== verification/Std_Text.thy ===== *)
theory Std_Text
  imports Rpc_Layer
begin

text \<open>
  Text as Rust's standard library has it, where the web application and the refresher depend on it: a
  string is the list of its UTF-8 bytes; decimal printing and parsing of \<open>i64\<close>, the check of
  \<open>str::from_utf8\<close>, and splitting at the last separator.
\<close>

section \<open>Definitions\<close>

definition digit_char :: "nat \<Rightarrow> char" where
  "digit_char n = char_of (48 + n)"

fun show_nat :: "nat \<Rightarrow> string" where
  "show_nat n = (if n < 10 then [digit_char n] else show_nat (n div 10) @ [digit_char (n mod 10)])"

declare show_nat.simps [simp del]

definition show_i64 :: "int \<Rightarrow> string" where
  "show_i64 i = (if i < 0 then CHR ''-'' # show_nat (nat (- i)) else show_nat (nat i))"

definition is_ascii_digit :: "char \<Rightarrow> bool" where
  "is_ascii_digit c \<longleftrightarrow> 48 \<le> (of_char c :: nat) \<and> (of_char c :: nat) \<le> 57"

definition digits_value :: "string \<Rightarrow> nat" where
  "digits_value ds = foldl (\<lambda>n c. 10 * n + (of_char c - 48)) 0 ds"

definition parse_digits :: "string \<Rightarrow> nat option" where
  "parse_digits ds = (if ds = [] \<or> \<not> list_all is_ascii_digit ds then None else Some (digits_value ds))"

definition in_i64 :: "int \<Rightarrow> bool" where
  "in_i64 i \<longleftrightarrow> - (2 ^ 63) \<le> i \<and> i < 2 ^ 63"

text \<open>\<open>i64::from_str\<close>: an optional sign, at least one digit, and a value that fits.\<close>

definition parse_i64 :: "string \<Rightarrow> int option" where
  "parse_i64 s =
     (case s of
        [] \<Rightarrow> None
      | c # ds \<Rightarrow>
          (case (if c = CHR ''-'' then map_option (\<lambda>n. - int n) (parse_digits ds)
                 else if c = CHR ''+'' then map_option int (parse_digits ds)
                 else map_option int (parse_digits s)) of
             None \<Rightarrow> None
           | Some i \<Rightarrow> if in_i64 i then Some i else None))"

text \<open>\<open>str::from_utf8\<close>: after a leading byte, the ranges its continuation bytes must lie in.\<close>

definition utf8_tail :: "nat \<Rightarrow> (nat \<times> nat) list option" where
  "utf8_tail b =
     (if b < 0x80 then Some []
      else if 0xC2 \<le> b \<and> b \<le> 0xDF then Some [(0x80, 0xBF)]
      else if b = 0xE0 then Some [(0xA0, 0xBF), (0x80, 0xBF)]
      else if b = 0xED then Some [(0x80, 0x9F), (0x80, 0xBF)]
      else if 0xE1 \<le> b \<and> b \<le> 0xEF then Some [(0x80, 0xBF), (0x80, 0xBF)]
      else if b = 0xF0 then Some [(0x90, 0xBF), (0x80, 0xBF), (0x80, 0xBF)]
      else if 0xF1 \<le> b \<and> b \<le> 0xF3 then Some [(0x80, 0xBF), (0x80, 0xBF), (0x80, 0xBF)]
      else if b = 0xF4 then Some [(0x80, 0x8F), (0x80, 0xBF), (0x80, 0xBF)]
      else None)"

fun valid_utf8 :: "string \<Rightarrow> bool" where
  "valid_utf8 [] = True"
| "valid_utf8 (c # cs) =
     (case utf8_tail (of_char c) of
        None \<Rightarrow> False
      | Some rs \<Rightarrow> list_all2 (\<lambda>(lo, hi) c. lo \<le> of_char c \<and> of_char c \<le> hi) rs (take (length rs) cs)
                 \<and> valid_utf8 (drop (length rs) cs))"

definition rsplit_once :: "char \<Rightarrow> string \<Rightarrow> (string \<times> string) option" where
  "rsplit_once c s =
     (if c \<in> set s
      then Some (rev (tl (dropWhile (\<lambda>x. x \<noteq> c) (rev s))), rev (takeWhile (\<lambda>x. x \<noteq> c) (rev s)))
      else None)"

section \<open>Round trips\<close>

lemma of_char_digit: "n < 10 \<Longrightarrow> of_char (digit_char n) = 48 + n"
  by (simp add: digit_char_def)

lemma show_nat_digits: "show_nat n \<noteq> [] \<and> list_all is_ascii_digit (show_nat n) \<and> digits_value (show_nat n) = n"
proof (induction n rule: show_nat.induct)
  case (1 n)
  show ?case
  proof (cases "n < 10")
    case True
    then show ?thesis by (simp add: show_nat.simps is_ascii_digit_def of_char_digit digits_value_def)
  next
    case False
    then show ?thesis using 1 by (simp add: show_nat.simps [of n] is_ascii_digit_def of_char_digit digits_value_def)
  qed
qed

lemma is_ascii_digit_not: "is_ascii_digit c \<Longrightarrow> c \<noteq> CHR ''-'' \<and> c \<noteq> CHR ''+'' \<and> c \<noteq> CHR ''|''"
  by (auto simp: is_ascii_digit_def)

lemma parse_show_i64:
  assumes "in_i64 i"
  shows "parse_i64 (show_i64 i) = Some i"
proof (cases "i < 0")
  case True
  then show ?thesis using assms show_nat_digits [of "nat (- i)"]
    by (simp add: parse_i64_def show_i64_def parse_digits_def)
next
  case False
  obtain c ds where s: "show_nat (nat i) = c # ds" using show_nat_digits [of "nat i"] by (cases "show_nat (nat i)") auto
  with show_nat_digits [of "nat i"] have "is_ascii_digit c" by simp
  with False assms s show_nat_digits [of "nat i"] show ?thesis
    by (auto simp: parse_i64_def show_i64_def parse_digits_def dest: is_ascii_digit_not)
qed

lemma ascii_digits_no_bar: "list_all is_ascii_digit ds \<Longrightarrow> CHR ''|'' \<notin> set ds"
  by (auto simp: list_all_iff dest: is_ascii_digit_not)

lemma show_i64_no_bar: "CHR ''|'' \<notin> set (show_i64 i)"
  using show_nat_digits by (auto simp: show_i64_def dest: ascii_digits_no_bar)

lemma rsplit_once_append: "c \<notin> set t \<Longrightarrow> rsplit_once c (s @ c # t) = Some (s, t)"
  by (simp add: rsplit_once_def dropWhile_append takeWhile_append takeWhile_eq_all_conv)

lemma rsplit_once_Some: "rsplit_once c r = Some (s, t) \<Longrightarrow> r = s @ c # t \<and> c \<notin> set t"
proof -
  assume a: "rsplit_once c r = Some (s, t)"
  then have c: "c \<in> set r" by (auto simp: rsplit_once_def split: if_splits)
  then obtain p q where r: "r = p @ c # q" "c \<notin> set q" by (meson split_list_last)
  with a show ?thesis by (simp add: rsplit_once_append)
qed

lemma valid_utf8_append: "valid_utf8 s \<Longrightarrow> valid_utf8 (s @ t) \<longleftrightarrow> valid_utf8 t"
proof (induction s rule: valid_utf8.induct)
  case (2 c cs)
  then obtain rs where rs: "utf8_tail (of_char c) = Some rs" by (cases "utf8_tail (of_char c :: nat)") auto
  with 2 have "length (take (length rs) cs) = length rs" by (auto dest!: list_all2_lengthD)
  then have "length rs \<le> length cs" by simp
  with 2 rs show ?case by simp
qed simp

lemma valid_utf8_ascii: "\<forall>c \<in> set s. (of_char c :: nat) < 0x80 \<Longrightarrow> valid_utf8 s"
  by (induction s) (simp_all add: utf8_tail_def)

lemma parse_show_in_i64: "parse_i64 (show_i64 i) = Some e \<Longrightarrow> e = i"
proof (cases "in_i64 i")
  case False
  assume "parse_i64 (show_i64 i) = Some e"
  then show ?thesis using False show_nat_digits [of "nat i"] show_nat_digits [of "nat (- i)"]
    by (auto simp: parse_i64_def show_i64_def parse_digits_def split: list.splits if_splits option.splits
        dest: is_ascii_digit_not)
qed (simp add: parse_show_i64)

end
