(* ===== verification/Resolver.thy ===== *)
theory Resolver
  imports Rpc_Layer Core_Types
begin

text \<open>
  The address resolver, \<^verbatim>\<open>crates/indexer-resolver/src/lib.rs\<close>: a snapshot of which project an
  address belongs to, rebuilt from a curated overlay and DefiLlama's list. Reading and
  parsing the two sources is outside; their entries, or the failure to get them, are
  arguments, as are the \<open>hex\<close> crate's two directions.
\<close>

section \<open>Projects\<close>

record project_info =
  pi_slug :: string
  pi_name :: string
  pi_category :: "string option"
  pi_contact_email :: "string option"
  pi_contact_url :: "string option"

definition unknown_project :: "(address \<Rightarrow> string) \<Rightarrow> address \<Rightarrow> project_info" where
  "unknown_project hex_encode a =
     \<lparr>pi_slug = ''unknown:0x'' @ hex_encode a, pi_name = ''Unknown (0x'' @ hex_encode a @ '')'',
      pi_category = None, pi_contact_email = None, pi_contact_url = None\<rparr>"

record overlay_contact =
  oc_primary :: "string option"
  oc_url :: "string option"

record overlay_entry =
  oe_chain_id :: u64
  oe_address :: string
  oe_project_slug :: string
  oe_project_name :: string
  oe_category :: "string option"
  oe_contact :: "overlay_contact option"

record resolver_snapshot =
  rs_addresses :: "u64 \<times> address \<rightharpoonup> project_info"
  rs_projects :: "string \<rightharpoonup> project_info"

definition empty_snapshot :: resolver_snapshot where
  "empty_snapshot = \<lparr>rs_addresses = Map.empty, rs_projects = Map.empty\<rparr>"

datatype resolver_error =
    SourceFailed string
  | InvalidAddress string
  | WrongLength string nat

section \<open>Addresses\<close>

definition strip_prefix :: "string \<Rightarrow> string \<Rightarrow> string" where
  "strip_prefix p s = (if starts_with p s then drop (length p) s else s)"

definition parse_address :: "(string \<Rightarrow> bytes option) \<Rightarrow> string \<Rightarrow> resolver_error + address" where
  "parse_address hex_decode s =
     (case hex_decode (strip_prefix ''0x'' s) of
        None \<Rightarrow> Inl (InvalidAddress s)
      | Some bs \<Rightarrow> if length bs \<noteq> 20 then Inl (WrongLength s (length bs)) else Inr (word_rcat bs))"

text \<open>\<open>str::trim\<close> on ASCII white space, and \<open>split_once\<close> at the first colon.\<close>

definition is_space :: "char \<Rightarrow> bool" where
  "is_space c \<longleftrightarrow> c \<in> {CHR 0x09, CHR 0x0A, CHR 0x0B, CHR 0x0C, CHR 0x0D, CHR '' ''}"

definition trim :: "string \<Rightarrow> string" where
  "trim s = rev (dropWhile is_space (rev (dropWhile is_space s)))"

definition split_colon :: "string \<Rightarrow> (string \<times> string) option" where
  "split_colon s =
     (if CHR '':'' \<in> set s
      then Some (takeWhile (\<lambda>c. c \<noteq> CHR '':'') s, tl (dropWhile (\<lambda>c. c \<noteq> CHR '':'') s)) else None)"

definition parse_defillama_address :: "(string \<Rightarrow> bytes option) \<Rightarrow> string option \<Rightarrow> (u64 \<times> address) option" where
  "parse_defillama_address hex_decode raw =
     (case raw of
        None \<Rightarrow> None
      | Some raw \<Rightarrow>
          let s = trim raw
          in if s = [] then None
             else
               (case (case split_colon s of
                        None \<Rightarrow> Some s
                      | Some (prefix, rest) \<Rightarrow> if to_lowercase prefix \<noteq> ''ethereum'' then None else Some rest) of
                  None \<Rightarrow> None
                | Some hex_part \<Rightarrow>
                    (case parse_address hex_decode hex_part of Inr a \<Rightarrow> Some (1, a) | Inl _ \<Rightarrow> None)))"

section \<open>Refreshing\<close>

definition overlay_info :: "overlay_entry \<Rightarrow> project_info" where
  "overlay_info e =
     \<lparr>pi_slug = oe_project_slug e, pi_name = oe_project_name e, pi_category = oe_category e,
      pi_contact_email = (case oe_contact e of None \<Rightarrow> None | Some c \<Rightarrow> oc_primary c),
      pi_contact_url = (case oe_contact e of None \<Rightarrow> None | Some c \<Rightarrow> oc_url c)\<rparr>"

definition or_insert :: "'k \<Rightarrow> 'v \<Rightarrow> ('k \<rightharpoonup> 'v) \<Rightarrow> 'k \<rightharpoonup> 'v" where
  "or_insert k v m = (case m k of None \<Rightarrow> m(k \<mapsto> v) | Some _ \<Rightarrow> m)"

definition load_overlay :: "(string \<Rightarrow> bytes option) \<Rightarrow> overlay_entry list \<Rightarrow> resolver_snapshot \<Rightarrow>
    resolver_error + resolver_snapshot" where
  "load_overlay hex_decode entries into =
     fold_res (\<lambda>sn e.
         bind_res (parse_address hex_decode (oe_address e)) (\<lambda>a.
         Inr (sn\<lparr>rs_addresses := (rs_addresses sn)((oe_chain_id e, a) \<mapsto> overlay_info e),
                 rs_projects := or_insert (oe_project_slug e) (overlay_info e) (rs_projects sn)\<rparr>)))
       entries into"

record defillama_protocol =
  dp_slug :: string
  dp_name :: string
  dp_category :: "string option"
  dp_address :: "string option"

definition protocol_info :: "defillama_protocol \<Rightarrow> project_info" where
  "protocol_info p = \<lparr>pi_slug = dp_slug p, pi_name = dp_name p, pi_category = dp_category p,
     pi_contact_email = None, pi_contact_url = None\<rparr>"

definition load_protocol :: "(string \<Rightarrow> bytes option) \<Rightarrow> defillama_protocol \<Rightarrow> resolver_snapshot \<Rightarrow>
    resolver_snapshot" where
  "load_protocol hex_decode p sn =
     (let sn = sn\<lparr>rs_projects := or_insert (dp_slug p) (protocol_info p) (rs_projects sn)\<rparr>
      in case parse_defillama_address hex_decode (dp_address p) of
           None \<Rightarrow> sn
         | Some k \<Rightarrow> sn\<lparr>rs_addresses := or_insert k (protocol_info p) (rs_addresses sn)\<rparr>)"

definition load_defillama :: "(string \<Rightarrow> bytes option) \<Rightarrow> defillama_protocol list \<Rightarrow> resolver_snapshot \<Rightarrow>
    resolver_snapshot" where
  "load_defillama hex_decode ps sn = fold (load_protocol hex_decode) ps sn"

text \<open>
  \<open>refresh\<close>: a source that is configured is given with its entries or its failure. On an
  error the old snapshot stays.
\<close>

definition refresh :: "(string \<Rightarrow> bytes option) \<Rightarrow> (resolver_error + overlay_entry list) option \<Rightarrow>
    (resolver_error + defillama_protocol list) option \<Rightarrow> resolver_snapshot \<Rightarrow>
    (resolver_error + unit) \<times> resolver_snapshot" where
  "refresh hex_decode overlay defillama old =
     (case (case overlay of
              None \<Rightarrow> Inr empty_snapshot
            | Some src \<Rightarrow> bind_res src (\<lambda>es. load_overlay hex_decode es empty_snapshot)) of
        Inl e \<Rightarrow> (Inl e, old)
      | Inr sn \<Rightarrow>
          (Inr (), (case defillama of
                      Some (Inr ps) \<Rightarrow> load_defillama hex_decode ps sn
                    | _ \<Rightarrow> sn)))"

definition resolve :: "(address \<Rightarrow> string) \<Rightarrow> resolver_snapshot \<Rightarrow> u64 \<Rightarrow> address \<Rightarrow> project_info" where
  "resolve hex_encode sn chain_id a =
     (case rs_addresses sn (chain_id, a) of None \<Rightarrow> unknown_project hex_encode a | Some i \<Rightarrow> i)"

section \<open>Whose entry wins\<close>

text \<open>What the two sources say of an address: the overlay's last entry, DefiLlama's first.\<close>

definition overlay_map :: "(string \<Rightarrow> bytes option) \<Rightarrow> overlay_entry list \<Rightarrow> u64 \<times> address \<rightharpoonup> project_info" where
  "overlay_map hex_decode es =
     map_of (rev (List.map_filter (\<lambda>e. case parse_address hex_decode (oe_address e) of
                     Inr a \<Rightarrow> Some ((oe_chain_id e, a), overlay_info e) | Inl _ \<Rightarrow> None) es))"

definition protocol_map :: "(string \<Rightarrow> bytes option) \<Rightarrow> defillama_protocol list \<Rightarrow> u64 \<times> address \<rightharpoonup> project_info" where
  "protocol_map hex_decode ps =
     map_of (List.map_filter (\<lambda>p. map_option (\<lambda>k. (k, protocol_info p))
               (parse_defillama_address hex_decode (dp_address p))) ps)"

lemma load_overlay_addresses:
  "load_overlay hex_decode es sn = Inr sn' \<Longrightarrow> rs_addresses sn' = rs_addresses sn ++ overlay_map hex_decode es"
proof (induction es arbitrary: sn)
  case (Cons e es)
  from Cons.prems obtain a where a: "parse_address hex_decode (oe_address e) = Inr a"
    and rest: "load_overlay hex_decode es (sn\<lparr>rs_addresses := (rs_addresses sn)((oe_chain_id e, a) \<mapsto> overlay_info e),
      rs_projects := or_insert (oe_project_slug e) (overlay_info e) (rs_projects sn)\<rparr>) = Inr sn'"
    by (auto simp: load_overlay_def res_simps)
  from Cons.IH [OF rest] a show ?case
    by (simp add: overlay_map_def map_filter_simps map_add_def fun_eq_iff map_of_append split: option.splits)
qed (simp add: load_overlay_def overlay_map_def map_filter_simps)

lemma or_insert_add: "or_insert k v m = [k \<mapsto> v] ++ m"
  by (auto simp: or_insert_def map_add_def fun_eq_iff split: option.splits)

lemma load_defillama_addresses:
  "rs_addresses (load_defillama hex_decode ps sn) = protocol_map hex_decode ps ++ rs_addresses sn"
proof (induction ps arbitrary: sn)
  case (Cons p ps)
  then show ?case
    by (auto simp: load_defillama_def load_protocol_def protocol_map_def map_filter_simps or_insert_add Let_def
        map_add_def fun_eq_iff split: option.splits)
qed (simp add: load_defillama_def protocol_map_def map_filter_simps)

text \<open>
  The curated overlay always wins: after a refresh an address resolves to the overlay's last
  entry for it, else to the first DefiLlama protocol naming it, else to its synthetic unknown
  project; every address resolves.
\<close>

lemma resolve_priority:
  assumes "refresh hex_decode (Some (Inr es)) (Some (Inr ps)) old = (Inr (), sn)"
  shows "resolve hex_encode sn chain_id a =
    (case overlay_map hex_decode es (chain_id, a) of
       Some i \<Rightarrow> i
     | None \<Rightarrow> (case protocol_map hex_decode ps (chain_id, a) of
                  Some i \<Rightarrow> i | None \<Rightarrow> unknown_project hex_encode a))"
proof -
  obtain sn0 where "load_overlay hex_decode es empty_snapshot = Inr sn0"
    and sn: "sn = load_defillama hex_decode ps sn0"
    using assms by (auto simp: refresh_def split: sum.splits)
  then have "rs_addresses sn0 = overlay_map hex_decode es"
    using load_overlay_addresses by (fastforce simp: empty_snapshot_def)
  then have "rs_addresses sn = protocol_map hex_decode ps ++ overlay_map hex_decode es"
    unfolding sn by (simp add: load_defillama_addresses)
  then show ?thesis by (simp add: resolve_def map_add_def split: option.splits)
qed

end
