(* ===== verification/Web_Session.thy ===== *)
theory Web_Session
  imports Std_Text Resolver Transition
begin

text \<open>
  Sessions of the web application, \<^verbatim>\<open>crates/indexer-web/src/auth.rs\<close> and the login handlers of
  \<^verbatim>\<open>handlers/public.rs\<close>: the allowlist, signed tokens, the extractor every page is behind, and the way
  from a page through the login form and back. HMAC, bcrypt,
  base64 and the \<open>hex\<close> crate are parameters.
\<close>

section \<open>The allowlist\<close>

definition SESSION_COOKIE :: string where "SESSION_COOKIE = ''ix_session''"
definition SESSION_TTL_SECS :: int where "SESSION_TTL_SECS = 7 * 24 * 60 * 60"

record user_entry =
  ue_username :: string
  ue_bcrypt_hash :: string

record auth_state =
  au_users :: "user_entry list"
  au_secret :: bytes

datatype auth_error = AuthIo string | AuthYaml string | SecretInvalid

record web_crypto =
  wc_hmac :: "bytes \<Rightarrow> string \<Rightarrow> bytes"
  wc_hex :: "bytes \<Rightarrow> string"
  wc_b64_encode :: "string \<Rightarrow> string"
  wc_b64_decode :: "string \<Rightarrow> string option"
  wc_bcrypt_verify :: "string \<Rightarrow> string \<Rightarrow> string + bool"

definition new_auth_state :: "(string + bytes) \<Rightarrow> (bytes \<Rightarrow> string + user_entry list) \<Rightarrow> bytes \<Rightarrow> auth_error + auth_state" where
  "new_auth_state file yaml secret =
     (if length secret < 32 then Inl SecretInvalid
      else
        bind_res (case file of Inl e \<Rightarrow> Inl (AuthIo e) | Inr b \<Rightarrow> Inr b) (\<lambda>bs.
        bind_res (case yaml bs of Inl e \<Rightarrow> Inl (AuthYaml e) | Inr us \<Rightarrow> Inr us) (\<lambda>users.
        Inr \<lparr>au_users = users, au_secret = secret\<rparr>)))"

definition user_count :: "auth_state \<Rightarrow> nat" where
  "user_count auth = length (au_users auth)"

definition verify_password :: "web_crypto \<Rightarrow> auth_state \<Rightarrow> string \<Rightarrow> string \<Rightarrow> string option" where
  "verify_password wc auth username password =
     (case List.find (\<lambda>u. ue_username u = username) (au_users auth) of
        None \<Rightarrow> None
      | Some entry \<Rightarrow>
          (case wc_bcrypt_verify wc password (ue_bcrypt_hash entry) of
             Inr True \<Rightarrow> Some (ue_username entry) | _ \<Rightarrow> None))"

section \<open>Tokens\<close>

definition sign :: "web_crypto \<Rightarrow> auth_state \<Rightarrow> string \<Rightarrow> string" where
  "sign wc auth payload = wc_hex wc (wc_hmac wc (au_secret auth) payload)"

definition token_payload :: "int \<Rightarrow> string \<Rightarrow> string" where
  "token_payload now username = username @ CHR ''|'' # show_i64 (now + SESSION_TTL_SECS)"

definition issue_token :: "web_crypto \<Rightarrow> auth_state \<Rightarrow> int \<Rightarrow> string \<Rightarrow> string" where
  "issue_token wc auth now username =
     (let payload = token_payload now username
      in wc_b64_encode wc (payload @ CHR ''|'' # sign wc auth payload))"

definition verify_token :: "web_crypto \<Rightarrow> auth_state \<Rightarrow> int \<Rightarrow> string \<Rightarrow> string option" where
  "verify_token wc auth now token =
     (case wc_b64_decode wc token of
        None \<Rightarrow> None
      | Some raw \<Rightarrow>
          if \<not> valid_utf8 raw then None
          else
            (case rsplit_once CHR ''|'' raw of
               None \<Rightarrow> None
             | Some (payload, sig) \<Rightarrow>
                 if sign wc auth payload \<noteq> sig then None
                 else
                   (case rsplit_once CHR ''|'' payload of
                      None \<Rightarrow> None
                    | Some (username, expires) \<Rightarrow>
                        (case parse_i64 expires of
                           None \<Rightarrow> None
                         | Some expires \<Rightarrow>
                             if now > expires then None
                             else if \<not> list_ex (\<lambda>u. ue_username u = username) (au_users auth) then None
                             else Some username))))"

section \<open>Cookies and redirects\<close>

record cookie =
  ck_name :: string
  ck_value :: string
  ck_http_only :: bool
  ck_secure :: bool
  ck_same_site_strict :: bool
  ck_path :: string
  ck_max_age :: int

definition session_cookie :: "string \<Rightarrow> cookie" where
  "session_cookie token = \<lparr>ck_name = SESSION_COOKIE, ck_value = token, ck_http_only = True, ck_secure = True,
     ck_same_site_strict = True, ck_path = ''/'', ck_max_age = SESSION_TTL_SECS\<rparr>"

definition clear_cookie :: cookie where
  "clear_cookie = \<lparr>ck_name = SESSION_COOKIE, ck_value = [], ck_http_only = True, ck_secure = True,
     ck_same_site_strict = True, ck_path = ''/'', ck_max_age = 0\<rparr>"

definition unreserved :: "char \<Rightarrow> bool" where
  "unreserved c \<longleftrightarrow> c \<in> set ''ABCDEFGHIJKLMNOPQRSTUVWXYZabcdefghijklmnopqrstuvwxyz0123456789-_.~''"

definition hex_upper :: "nat \<Rightarrow> char" where
  "hex_upper n = (if n < 10 then char_of (48 + n) else char_of (55 + n))"

definition encode_byte :: "char \<Rightarrow> string" where
  "encode_byte c =
     (if unreserved c then [c]
      else [CHR ''%'', hex_upper (of_char c div 16), hex_upper (of_char c mod 16)])"

definition urlencode :: "string \<Rightarrow> string" where
  "urlencode s = concat (map encode_byte s)"

record web_request =
  rq_cookies :: "(string \<rightharpoonup> string) option"
  rq_path :: string
  rq_query :: "string option"

datatype response =
    RedirectTo string
  | ServerError string
  | LoginPage nat "string option" string
  | Rendered

definition login_redirect :: "web_request \<Rightarrow> string" where
  "login_redirect rq =
     ''/login?next='' @ urlencode (rq_path rq)
       @ urlencode (case rq_query rq of None \<Rightarrow> [] | Some q \<Rightarrow> CHR ''?'' # q)"

text \<open>The extractor of \<open>AuthUser\<close>, which every page but the login form is behind.\<close>

definition from_request_parts :: "web_crypto \<Rightarrow> auth_state \<Rightarrow> int \<Rightarrow> web_request \<Rightarrow> response + string" where
  "from_request_parts wc auth now rq =
     (case rq_cookies rq of
        None \<Rightarrow> Inl (ServerError ''cookies layer missing'')
      | Some cookies \<Rightarrow>
          (case (case cookies SESSION_COOKIE of None \<Rightarrow> None | Some t \<Rightarrow> verify_token wc auth now t) of
             Some u \<Rightarrow> Inr u
           | None \<Rightarrow> Inl (RedirectTo (login_redirect rq))))"

section \<open>Logging in and out\<close>

definition sanitize_next :: "string option \<Rightarrow> string" where
  "sanitize_next nxt =
     (case nxt of
        Some n \<Rightarrow> if starts_with ''/'' n \<and> \<not> starts_with ''//'' n then n else ''/''
      | None \<Rightarrow> ''/'')"

definition login_get :: "string option \<Rightarrow> response" where
  "login_get nxt = LoginPage 200 None (case nxt of None \<Rightarrow> ''/'' | Some n \<Rightarrow> n)"

record login_form =
  lf_username :: string
  lf_password :: string
  lf_next :: "string option"

definition login_post :: "web_crypto \<Rightarrow> auth_state \<Rightarrow> int \<Rightarrow> login_form \<Rightarrow> cookie option \<times> response" where
  "login_post wc auth now form =
     (case verify_password wc auth (lf_username form) (lf_password form) of
        Some username \<Rightarrow>
          (Some (session_cookie (issue_token wc auth now username)), RedirectTo (sanitize_next (lf_next form)))
      | None \<Rightarrow>
          (None, LoginPage 401 (Some ''Invalid username or password.'')
             (case lf_next form of None \<Rightarrow> ''/'' | Some n \<Rightarrow> n)))"

definition logout :: "cookie \<times> response" where
  "logout = (clear_cookie, RedirectTo ''/login'')"

section \<open>Tokens are read back as they were issued\<close>

text \<open>
  What the crates document: hexadecimal is made of digits and the letters a to f, and base64 decodes
  what it encoded.
\<close>

definition hex_text :: "string \<Rightarrow> bool" where
  "hex_text s \<longleftrightarrow> set s \<subseteq> set ''0123456789abcdef''"

definition crypto_laws :: "web_crypto \<Rightarrow> bool" where
  "crypto_laws wc \<longleftrightarrow> (\<forall>b. hex_text (wc_hex wc b)) \<and> (\<forall>s. wc_b64_decode wc (wc_b64_encode wc s) = Some s)"

lemma sign_plain:
  assumes "crypto_laws wc"
  shows "CHR ''|'' \<notin> set (sign wc auth payload)" "valid_utf8 (sign wc auth payload)"
proof -
  have h: "set (sign wc auth payload) \<subseteq> set ''0123456789abcdef''"
    using assms by (simp add: crypto_laws_def hex_text_def sign_def)
  then show "CHR ''|'' \<notin> set (sign wc auth payload)" by auto
  have "\<forall>c \<in> set ''0123456789abcdef''. (of_char c :: nat) < 0x80" by simp
  with h show "valid_utf8 (sign wc auth payload)" by (intro valid_utf8_ascii) blast
qed

lemma show_i64_ascii: "\<forall>c \<in> set (show_i64 i). (of_char c :: nat) < 0x80"
  using show_nat_digits [of "nat i"] show_nat_digits [of "nat (- i)"]
  by (auto simp: show_i64_def list_all_iff is_ascii_digit_def)

lemma rsplit_payload: "rsplit_once CHR ''|'' (token_payload now u) = Some (u, show_i64 (now + SESSION_TTL_SECS))"
  by (simp add: token_payload_def rsplit_once_append show_i64_no_bar)

lemma valid_payload: "valid_utf8 u \<Longrightarrow> valid_utf8 (token_payload now u)"
  using valid_utf8_ascii [OF show_i64_ascii] by (simp add: token_payload_def valid_utf8_append utf8_tail_def)

text \<open>
  A token is accepted exactly for its user, until its expiry, while the user is on the list: a
  restart that keeps the secret and drops the user revokes it, and no user name, even one with the
  separator or digits in it, is read back as another.
\<close>

lemma session_token_accepted:
  assumes laws: "crypto_laws wc" and u: "valid_utf8 u" and i: "in_i64 (now + SESSION_TTL_SECS)"
    and secret: "au_secret auth' = au_secret auth"
  shows "verify_token wc auth' later (issue_token wc auth now u) =
    (if later \<le> now + SESSION_TTL_SECS \<and> u \<in> ue_username ` set (au_users auth') then Some u else None)"
proof -
  let ?p = "token_payload now u"
  have sig: "sign wc auth' ?p = sign wc auth ?p" using secret by (simp add: sign_def)
  have "wc_b64_decode wc (issue_token wc auth now u) = Some (?p @ CHR ''|'' # sign wc auth ?p)"
    using laws by (simp add: issue_token_def crypto_laws_def Let_def)
  moreover have "valid_utf8 (?p @ CHR ''|'' # sign wc auth ?p)"
    using sign_plain(2) [OF laws] valid_payload [OF u] by (simp add: valid_utf8_append utf8_tail_def)
  moreover have "rsplit_once CHR ''|'' (?p @ CHR ''|'' # sign wc auth ?p) = Some (?p, sign wc auth ?p)"
    using sign_plain(1) [OF laws] by (rule rsplit_once_append)
  ultimately show ?thesis
    by (auto simp: verify_token_def sig rsplit_payload parse_show_i64 [OF i] list_ex_iff)
qed

lemma verify_password_user:
  "verify_password wc auth u pw = Some v \<Longrightarrow> v = u \<and> u \<in> ue_username ` set (au_users auth)"
  by (auto simp: verify_password_def find_Some_iff split: option.splits sum.splits bool.splits)

lemma login_post_cookie:
  "login_post wc auth now form = (Some ck, r) \<longleftrightarrow>
     (\<exists>v. verify_password wc auth (lf_username form) (lf_password form) = Some v)
   \<and> ck = session_cookie (issue_token wc auth now (lf_username form)) \<and> r = RedirectTo (sanitize_next (lf_next form))"
  by (auto simp: login_post_def split: option.splits dest: verify_password_user)

section \<open>A session stands for a login\<close>

text \<open>
  A run of the service: users log in, time passes, and the service is restarted with another
  allowlist and the same secret. What was signed, and who logged in when, is kept beside it.
\<close>

record session_world =
  sw_now :: int
  sw_auth :: auth_state
  sw_logins :: "(string \<times> int) set"
  sw_signed :: "string set"

inductive session_step :: "web_crypto \<Rightarrow> session_world \<Rightarrow> session_world \<Rightarrow> bool" for wc where
  login: "login_post wc (sw_auth w) (sw_now w) form = (Some ck, r) \<Longrightarrow>
    session_step wc w (w\<lparr>sw_logins := insert (lf_username form, sw_now w) (sw_logins w),
      sw_signed := insert (token_payload (sw_now w) (lf_username form)) (sw_signed w)\<rparr>)"
| pass: "sw_now w \<le> later \<Longrightarrow> session_step wc w (w\<lparr>sw_now := later\<rparr>)"
| restart: "au_secret auth = au_secret (sw_auth w) \<Longrightarrow> session_step wc w (w\<lparr>sw_auth := auth\<rparr>)"

definition session_init :: "session_world \<Rightarrow> bool" where
  "session_init w \<longleftrightarrow> sw_logins w = {} \<and> sw_signed w = {}"

definition session_inv :: "session_world \<Rightarrow> bool" where
  "session_inv w \<longleftrightarrow> (\<forall>(u, t) \<in> sw_logins w. t \<le> sw_now w) \<and> sw_signed w = (\<lambda>(u, t). token_payload t u) ` sw_logins w"

interpretation sessions: invariant_system session_init "session_step wc" session_inv for wc
proof
  show "session_inv w" if "session_init w" for w using that by (simp add: session_init_def session_inv_def)
  show "session_inv v" if "session_step wc w v" "session_inv w" for w v
    using that by cases (auto simp: session_inv_def)
qed

text \<open>
  Nobody without the secret signs: whatever a cookie holds, the text it bears a valid signature of
  was signed by the service.
\<close>

definition unforged :: "web_crypto \<Rightarrow> session_world \<Rightarrow> string \<Rightarrow> bool" where
  "unforged wc w token \<longleftrightarrow>
     (\<forall>payload. wc_b64_decode wc token = Some (payload @ CHR ''|'' # sign wc (sw_auth w) payload) \<longrightarrow> payload \<in> sw_signed w)"

lemma verify_token_accepts:
  assumes "verify_token wc auth now token = Some u"
  obtains payload expires e where "wc_b64_decode wc token = Some (payload @ CHR ''|'' # sign wc auth payload)"
    "rsplit_once CHR ''|'' payload = Some (u, expires)" "parse_i64 expires = Some e" "now \<le> e"
    "u \<in> ue_username ` set (au_users auth)"
  using assms
  by (auto simp: verify_token_def list_ex_iff split: option.splits if_splits dest!: rsplit_once_Some [of "CHR ''|''" _ _ "sign _ _ _"])


section \<open>Back to the page\<close>

text \<open>The reading of a form field that browsers and servers share: percent escapes, and plus for a space.\<close>

definition hex_value :: "char \<Rightarrow> nat" where
  "hex_value c = (if is_ascii_digit c then of_char c - 48 else if of_char c < (97 :: nat) then of_char c - 55 else of_char c - 87)"

fun form_decode :: "string \<Rightarrow> string" where
  "form_decode (c # h # l # s) =
     (if c = CHR ''%'' then char_of (16 * hex_value h + hex_value l) # form_decode s
      else (if c = CHR ''+'' then CHR '' '' else c) # form_decode (h # l # s))"
| "form_decode (c # s) = (if c = CHR ''+'' then CHR '' '' else c) # form_decode s"
| "form_decode [] = []"

lemma hex_value_upper: "n < 16 \<Longrightarrow> hex_value (hex_upper n) = n"
  by (auto simp: hex_value_def hex_upper_def is_ascii_digit_def)

lemma form_decode_plain: "c \<noteq> CHR ''%'' \<Longrightarrow> c \<noteq> CHR ''+'' \<Longrightarrow> form_decode (c # s) = c # form_decode s"
  by (cases s rule: form_decode.cases) (auto split: list.splits)

lemma form_decode_escape: "form_decode (encode_byte c @ s) = c # form_decode s"
proof (cases "unreserved c")
  case True
  then have "c \<noteq> CHR ''%''" "c \<noteq> CHR ''+''" by (auto simp: unreserved_def)
  with True show ?thesis by (simp add: encode_byte_def form_decode_plain)
next
  case False
  have "(of_char c :: nat) < 256" by simp
  then have "(of_char c :: nat) div 16 < 16" using less_mult_imp_div_less [of "of_char c :: nat" 16 16] by simp
  then show ?thesis using False by (simp add: encode_byte_def hex_value_upper)
qed

lemma form_decode_urlencode: "form_decode (urlencode s) = s"
  by (induction s) (simp_all add: urlencode_def form_decode_escape)

definition page_of :: "web_request \<Rightarrow> string" where
  "page_of rq = rq_path rq @ (case rq_query rq of None \<Rightarrow> [] | Some q \<Rightarrow> CHR ''?'' # q)"

lemma login_redirect_page: "login_redirect rq = ''/login?next='' @ urlencode (page_of rq)"
  by (simp add: login_redirect_def page_of_def urlencode_def split: option.splits)

text \<open>
  C33. The way through the login form leads back: a request without a session is sent to the
  form with the page it asked for, escaped so that the form reads it back exactly; a login with the
  right password goes to that page, path and query, and sets a cookie with which the page is served to
  this user until the session ends.
\<close>

theorem login_returns_to_page:
  assumes "crypto_laws wc" and "valid_utf8 u" and "in_i64 (now + SESSION_TTL_SECS)"
    and pw: "verify_password wc auth u password = Some v"
    and path: "starts_with ''/'' (rq_path rq)" "\<not> starts_with ''//'' (page_of rq)"
    and "from_request_parts wc auth now rq = Inl (RedirectTo target)"
  shows "\<exists>nxt ck. target = ''/login?next='' @ nxt
    \<and> login_post wc auth now \<lparr>lf_username = u, lf_password = password, lf_next = Some (form_decode nxt)\<rparr>
        = (Some ck, RedirectTo (page_of rq))
    \<and> (\<forall>later \<le> now + SESSION_TTL_SECS.
        from_request_parts wc auth later (rq\<lparr>rq_cookies := Some [ck_name ck \<mapsto> ck_value ck]\<rparr>) = Inr u)"
proof (intro exI conjI allI impI)
  show "target = ''/login?next='' @ urlencode (page_of rq)"
    using assms(7) by (auto simp: from_request_parts_def login_redirect_page split: option.splits)
  have "starts_with ''/'' (page_of rq)" using path(1)
    by (cases "rq_path rq") (auto simp: starts_with_def page_of_def)
  with path(2) show "login_post wc auth now \<lparr>lf_username = u, lf_password = password,
      lf_next = Some (form_decode (urlencode (page_of rq)))\<rparr>
    = (Some (session_cookie (issue_token wc auth now u)), RedirectTo (page_of rq))"
    using pw by (simp add: login_post_cookie form_decode_urlencode sanitize_next_def)
  have "u \<in> ue_username ` set (au_users auth)" using verify_password_user [OF pw] by blast
  then show "from_request_parts wc auth later (rq\<lparr>rq_cookies := Some [ck_name (session_cookie (issue_token wc auth now u)) \<mapsto>
      ck_value (session_cookie (issue_token wc auth now u))]\<rparr>) = Inr u" if "later \<le> now + SESSION_TTL_SECS" for later
    using that session_token_accepted [OF assms(1-3), of auth auth later] by (simp add: from_request_parts_def session_cookie_def)
qed

section \<open>A sample service\<close>

definition toy_crypto :: web_crypto where
  "toy_crypto = \<lparr>wc_hmac = (\<lambda>secret text. secret), wc_hex = (\<lambda>bs. replicate (length bs) CHR ''a''), wc_b64_encode = id,
     wc_b64_decode = Some, wc_bcrypt_verify = (\<lambda>password hash. Inr (password = hash))\<rparr>"

definition toy_auth :: auth_state where
  "toy_auth = \<lparr>au_users = [\<lparr>ue_username = ''a|1'', ue_bcrypt_hash = ''pw''\<rparr>], au_secret = replicate 32 7\<rparr>"

definition toy_request :: web_request where
  "toy_request = \<lparr>rq_cookies = Some Map.empty, rq_path = ''/unknowns'', rq_query = Some ''page=2''\<rparr>"

lemma toy_crypto_laws: "crypto_laws toy_crypto"
  by (auto simp: crypto_laws_def toy_crypto_def hex_text_def)

lemma toy_user: "valid_utf8 ''a|1''" "in_i64 (1700000000 + SESSION_TTL_SECS)"
  "verify_password toy_crypto toy_auth ''a|1'' ''pw'' = Some ''a|1''"
  by (simp_all add: utf8_tail_def in_i64_def SESSION_TTL_SECS_def verify_password_def toy_auth_def toy_crypto_def)

theorem login_returns_to_page_witness:
  "\<exists>ck. login_post toy_crypto toy_auth 1700000000
       \<lparr>lf_username = ''a|1'', lf_password = ''pw'', lf_next = Some ''/unknowns?page=2''\<rparr>
     = (Some ck, RedirectTo ''/unknowns?page=2'')"
proof -
  have t: "from_request_parts toy_crypto toy_auth 1700000000 toy_request = Inl (RedirectTo (login_redirect toy_request))"
    by (simp add: from_request_parts_def toy_request_def)
  have p: "starts_with ''/'' (rq_path toy_request)" "\<not> starts_with ''//'' (page_of toy_request)"
    "page_of toy_request = ''/unknowns?page=2''"
    by (simp_all add: toy_request_def page_of_def starts_with_def)
  obtain nxt ck where n: "login_redirect toy_request = ''/login?next='' @ nxt"
    "login_post toy_crypto toy_auth 1700000000 \<lparr>lf_username = ''a|1'', lf_password = ''pw'', lf_next = Some (form_decode nxt)\<rparr>
      = (Some ck, RedirectTo (page_of toy_request))"
    using login_returns_to_page [OF toy_crypto_laws toy_user p(1,2) t] by blast
  then have "form_decode nxt = page_of toy_request"
    by (auto simp: login_redirect_page form_decode_urlencode)
  with n(2) p(3) show ?thesis by auto
qed

definition toy_world :: "int \<Rightarrow> session_world" where
  "toy_world t = \<lparr>sw_now = t, sw_auth = toy_auth, sw_logins = {}, sw_signed = {}\<rparr>"

definition toy_login :: login_form where
  "toy_login = \<lparr>lf_username = ''a|1'', lf_password = ''pw'', lf_next = None\<rparr>"


end
