(* ===== verification/Analyzer.thy ===== *)
theory Analyzer
  imports Sketch Heuristic
begin

text \<open>
  Analysis of a mined transaction: the historical entry points of
  \<^verbatim>\<open>crates/evmsketch/src/lib.rs\<close> (replay of the block's earlier transactions, then the
  estimate) and the decision tree of \<open>EvmSketchAnalyzer::analyze_tx\<close> in
  \<^verbatim>\<open>crates/indexer-api/src/lib.rs\<close>. The provider answers per attempt, so that the retries of
  \<open>with_retry\<close> are part of the model; error texts are kept as the values they render.
\<close>

section \<open>Historical estimates\<close>

record original_tx =
  ot_value :: u256
  ot_gas_price :: u128

definition preceding_hints :: "preceding_tx list \<Rightarrow> hints" where
  "preceding_hints txs =
     fold (\<lambda>tx. fold (\<lambda>(a, slots) h. if slots = [] then h else extend_hints a slots h) (px_access_list tx))
       txs []"

definition state_after_preceding :: "'db executor_env \<Rightarrow> sim_env_opts \<Rightarrow> preceding_tx list \<Rightarrow> original_tx \<Rightarrow>
    fetch_error + 'db \<times> sim_env_opts" where
  "state_after_preceding xe env txs original =
     (let db = xe_state_db xe (sat_sub (se_number env) 1);
          env = env\<lparr>se_value := ot_value original, se_gas_price := ot_gas_price original\<rparr>
      in if txs = [] then Inr (db, env)
         else
           bind_res (if preceding_hints txs = [] then Inr db else xe_prefetch xe (preceding_hints txs) db) (\<lambda>db.
           bind_res (map_err (xe_est_error xe) (replay_preceding_transactions (xe_evm xe) txs env db)) (\<lambda>(_, db).
           Inr (db, env))))"

definition estimate_state_changes_gas_with_preceding :: "'db executor_env \<Rightarrow> abi_seq \<Rightarrow> sim_env_opts \<Rightarrow> address \<Rightarrow>
    address \<Rightarrow> state_update list \<Rightarrow> preceding_tx list \<Rightarrow> original_tx \<Rightarrow> fetch_error + u64" where
  "estimate_state_changes_gas_with_preceding xe abi_seq env contract caller us txs original =
     bind_res (state_after_preceding xe env txs original) (\<lambda>(db, env).
     map_err (xe_est_error xe) (estimate_state_changes_gas (xe_evm xe) abi_seq contract caller us env db))"

record frame_tree_gas =
  fg_frame_gas :: "u64 list"
  fg_total :: u64

definition estimate_frame_tree_gas_with_preceding :: "'db executor_env \<Rightarrow> abi_seq \<Rightarrow> sim_env_opts \<Rightarrow>
    frame_program list \<Rightarrow> address \<Rightarrow> preceding_tx list \<Rightarrow> original_tx \<Rightarrow> nesting_cost_model \<Rightarrow>
    fetch_error + frame_tree_gas" where
  "estimate_frame_tree_gas_with_preceding xe abi_seq env fs sender txs original cost =
     bind_res (state_after_preceding xe env txs original) (\<lambda>(db, env).
     bind_res (map_err (xe_est_error xe)
       (estimate_frame_tree_gas (xe_evm xe) abi_seq fs sender (se_value env) env db)) (\<lambda>gs.
     Inr \<lparr>fg_frame_gas = gs, fg_total = frame_tree_total gs cost\<rparr>))"

definition estimate_gas_from_trace :: "node \<Rightarrow> b256 \<Rightarrow> bool \<Rightarrow> fetch_error + u64" where
  "estimate_gas_from_trace nd tx_hash status =
     bind_res (get_tx_trace nd tx_hash status) (\<lambda>trace.
     Inr (estimate_gas_from_operations (extract_operation_counts_from_trace trace)))"

datatype contract_calldata = CallData bytes | CreateData bytes

record contract_input =
  ci_contract_address :: address
  ci_caller_address :: address
  ci_calldata :: contract_calldata

definition tx_request_to_contract_input :: "tx_request \<Rightarrow> fetch_error + contract_input" where
  "tx_request_to_contract_input req =
     bind_res (case tr_to req of Some (CallTo a) \<Rightarrow> Inr a | Some CreateKind \<Rightarrow> Inr 0 | None \<Rightarrow> Inl NoToAddress)
       (\<lambda>a. Inr \<lparr>ci_contract_address = a,
          ci_caller_address = (case tr_from req of None \<Rightarrow> 0 | Some f \<Rightarrow> f),
          ci_calldata = (case tr_to req of Some CreateKind \<Rightarrow> CreateData (tr_input req)
                         | _ \<Rightarrow> CallData (tr_input req))\<rparr>)"

section \<open>Reports\<close>

record analysis_report =
  rp_chain_id :: u64
  rp_block_number :: u64
  rp_block_timestamp :: u64
  rp_tx_hash :: b256
  rp_tx_index :: u64
  rp_from :: address
  rp_to :: address
  rp_function_selector :: bytes
  rp_gas_used :: u64
  rp_effective_gas_price_wei :: u128
  rp_gaskiller_gas_estimate :: u64
  rp_gas_saved :: u64
  rp_wei_saved :: u128
  rp_is_heuristic :: bool
  rp_failure_reason :: "string option"
  rp_state_update_count :: u32
  rp_skipped_opcodes :: "string set"
  rp_reentered :: bool

datatype skip_reason =
    ContractCreation | NoContractCalled | BelowGasThreshold | SkipReverted | SkipEmptyTrace | NoStateUpdates

datatype rpc_failure =
    CallFailed string "string retry_error"
  | NoBlockNumber
  | NoTransactionIndex
  | BlockMissing u64
  | TimedOut u64

datatype analyzer_error =
    Skipped skip_reason
  | ReceiptNotFound b256
  | RpcError rpc_failure
  | TraceError "fetch_error retry_error"
  | EstimationError fetch_error

record analyzer_config =
  ac_chain_id :: u64
  ac_min_gas_used :: u64
  ac_heuristic_only :: bool

definition default_analyzer_config :: analyzer_config where
  "default_analyzer_config = \<lparr>ac_chain_id = 1, ac_min_gas_used = 50000, ac_heuristic_only = False\<rparr>"

record receipt =
  rc_status :: bool
  rc_to :: "address option"
  rc_gas_used :: u64
  rc_block_number :: "u64 option"
  rc_transaction_index :: "u64 option"
  rc_from :: address
  rc_effective_gas_price :: u128

record analyzed_tx =
  at_function_selector :: "bytes option"
  at_value :: u256

text \<open>
  The analyzer's environment: the provider's answer to the \<open>k\<close>-th call of each request, the
  executor's construction, the executor, and how errors render.
\<close>

record 'db analyzer_env =
  ae_receipt :: "b256 \<Rightarrow> u32 \<Rightarrow> string + receipt option"
  ae_block_timestamp :: "u64 \<Rightarrow> u32 \<Rightarrow> string + u64 option"
  ae_tx :: "b256 \<Rightarrow> u32 \<Rightarrow> string + analyzed_tx option"
  ae_node :: "u32 \<Rightarrow> node"
  ae_show :: "fetch_error \<Rightarrow> string"
  ae_build :: "u64 \<Rightarrow> fetch_error + sim_env_opts"
  ae_executor :: "'db executor_env"
  ae_jitter :: "u64 \<Rightarrow> u64"
  ae_hexd :: hexd
  ae_abi :: abi_seq

definition call_with_retry :: "'db analyzer_env \<Rightarrow> string \<Rightarrow> (u32 \<Rightarrow> string + 'a) \<Rightarrow> analyzer_error + 'a" where
  "call_with_retry ae what f =
     map_err (\<lambda>e. RpcError (CallFailed what e))
       (fst (with_retry (ae_jitter ae) default_retry_config is_transient_rpc_error f))"

definition ok_or :: "'e \<Rightarrow> 'a option \<Rightarrow> 'e + 'a" where
  "ok_or e x = (case x of None \<Rightarrow> Inl e | Some a \<Rightarrow> Inr a)"

text \<open>\<open>str::lines().next().unwrap_or("unknown")\<close>: the first line without its line ending.\<close>

definition first_line :: "string \<Rightarrow> string" where
  "first_line s =
     (if s = [] then ''unknown''
      else
        (let l = takeWhile (\<lambda>c. c \<noteq> CHR 0x0A) s
         in if length l < length s \<and> l \<noteq> [] \<and> last l = CHR 0x0D then butlast l else l))"

definition measured_estimate :: "'db analyzer_env \<Rightarrow> trace_extract \<Rightarrow> u64 \<Rightarrow> u64 \<Rightarrow> address \<Rightarrow> address \<Rightarrow>
    original_tx \<Rightarrow> analyzer_error + u64 \<times> bool \<times> string option" where
  "measured_estimate ae ex block_number tx_index contract sender original =
     (let preceding = (case get_preceding_transactions (ae_node ae 1) block_number tx_index of
                         Inr p \<Rightarrow> p | Inl _ \<Rightarrow> [])
      in bind_res (map_err EstimationError (ae_build ae block_number)) (\<lambda>env.
         Inr (case estimate_state_changes_gas_with_preceding (ae_executor ae) (ae_abi ae) env contract sender
                     (state_updates ex) preceding original of
                Inr g \<Rightarrow> (g + TURETZKY_UPPER_GAS_LIMIT_SCHNORR, False, None)
              | Inl e \<Rightarrow> (estimate_gas_from_state_updates (ae_abi ae) ex + TURETZKY_UPPER_GAS_LIMIT_SCHNORR,
                          True, Some (first_line (ae_show ae e))))))"

definition analysis_estimate :: "'db analyzer_env \<Rightarrow> analyzer_config \<Rightarrow> trace_extract \<Rightarrow> u64 \<Rightarrow> u64 \<Rightarrow> address \<Rightarrow>
    address \<Rightarrow> original_tx \<Rightarrow> analyzer_error + u64 \<times> bool \<times> string option" where
  "analysis_estimate ae cfg ex block_number tx_index contract sender original =
     (if ac_heuristic_only cfg
      then Inr (estimate_gas_from_state_updates (ae_abi ae) ex + TURETZKY_UPPER_GAS_LIMIT_SCHNORR, True, None)
      else measured_estimate ae ex block_number tx_index contract sender original)"

definition report_of :: "analyzer_config \<Rightarrow> b256 \<Rightarrow> receipt \<Rightarrow> address \<Rightarrow> u64 \<Rightarrow> u64 \<Rightarrow> u64 \<Rightarrow> analyzed_tx option \<Rightarrow>
    trace_extract \<Rightarrow> u64 \<times> bool \<times> string option \<Rightarrow> analysis_report" where
  "report_of cfg tx_hash rc contract block_number tx_index timestamp tx ex estimated =
     (case estimated of (est, heur, failure) \<Rightarrow>
        let gas_saved = sat_sub (rc_gas_used rc) est
        in \<lparr>rp_chain_id = ac_chain_id cfg, rp_block_number = block_number, rp_block_timestamp = timestamp,
            rp_tx_hash = tx_hash, rp_tx_index = tx_index, rp_from = rc_from rc, rp_to = contract,
            rp_function_selector =
              (case tx of None \<Rightarrow> replicate 4 0
               | Some t \<Rightarrow> (case at_function_selector t of None \<Rightarrow> replicate 4 0 | Some s \<Rightarrow> s)),
            rp_gas_used = rc_gas_used rc,
            rp_effective_gas_price_wei = rc_effective_gas_price rc, rp_gaskiller_gas_estimate = est,
            rp_gas_saved = gas_saved,
            rp_wei_saved = sat_mul (ucast gas_saved) (rc_effective_gas_price rc),
            rp_is_heuristic = heur, rp_failure_reason = failure,
            rp_state_update_count = of_nat (length (state_updates ex)),
            rp_skipped_opcodes = skipped_opcodes ex, rp_reentered = reentered ex\<rparr>)"

definition original_of :: "receipt \<Rightarrow> analyzed_tx option \<Rightarrow> original_tx" where
  "original_of rc tx = \<lparr>ot_value = (case tx of None \<Rightarrow> 0 | Some t \<Rightarrow> at_value t),
     ot_gas_price = rc_effective_gas_price rc\<rparr>"

definition traced_updates :: "'db analyzer_env \<Rightarrow> b256 \<Rightarrow> bool \<Rightarrow> address \<Rightarrow> analyzer_error + trace_extract" where
  "traced_updates ae tx_hash status contract =
     map_err TraceError (fst (with_retry (ae_jitter ae) default_retry_config
       (\<lambda>e. is_transient_rpc_error (ae_show ae e))
       (\<lambda>k. compute_state_updates_from_tx (ae_hexd ae) (ae_node ae k) tx_hash status (Some contract))))"

definition analyze_tx :: "'db analyzer_env \<Rightarrow> analyzer_config \<Rightarrow> b256 \<Rightarrow> analyzer_error + analysis_report" where
  "analyze_tx ae cfg tx_hash =
     bind_res (call_with_retry ae ''get_transaction_receipt'' (ae_receipt ae tx_hash)) (\<lambda>r.
     bind_res (ok_or (ReceiptNotFound tx_hash) r) (\<lambda>rc.
     bind_res (guard_res (rc_status rc) (Skipped SkipReverted)) (\<lambda>_.
     bind_res (ok_or (Skipped ContractCreation) (rc_to rc)) (\<lambda>contract.
     bind_res (guard_res (\<not> rc_gas_used rc < ac_min_gas_used cfg) (Skipped BelowGasThreshold)) (\<lambda>_.
     bind_res (ok_or (RpcError NoBlockNumber) (rc_block_number rc)) (\<lambda>block_number.
     bind_res (ok_or (RpcError NoTransactionIndex) (rc_transaction_index rc)) (\<lambda>tx_index.
     bind_res (call_with_retry ae ''get_block_by_number'' (ae_block_timestamp ae block_number)) (\<lambda>b.
     bind_res (ok_or (RpcError (BlockMissing block_number)) b) (\<lambda>timestamp.
     bind_res (call_with_retry ae ''get_transaction_by_hash'' (ae_tx ae tx_hash)) (\<lambda>tx.
     bind_res (traced_updates ae tx_hash (rc_status rc) contract) (\<lambda>ex.
     bind_res (guard_res (state_updates ex \<noteq> []) (Skipped NoStateUpdates)) (\<lambda>_.
     bind_res (analysis_estimate ae cfg ex block_number tx_index contract (rc_from rc) (original_of rc tx)) (\<lambda>est.
     Inr (report_of cfg tx_hash rc contract block_number tx_index timestamp tx ex est))))))))))))))"

section \<open>What a report says\<close>

lemma with_retry_Inr:
  assumes "fst (with_retry jitter cfg tr f) = Inr v"
  shows "\<exists>k. f k = Inr v"
proof -
  obtain r sleeps where r: "retry_loop jitter cfg tr f 0 = (r, sleeps)" by fastforce
  have "unat (0 :: u32) < max 1 (unat (max_attempts cfg))" by simp
  from retry_loop_spec [OF this r] obtain k where
    "case f k of Inr v \<Rightarrow> r = Inr v | Inl e \<Rightarrow> r = Inl (Exhausted k e) \<and> (max_attempts cfg \<le> k \<or> \<not> tr e)"
    by blast
  moreover have "r = Inr v" using assms r by (simp add: with_retry_def)
  ultimately show ?thesis by (auto intro!: exI [of _ k] split: sum.splits)
qed

lemma with_retry_first:
  "f 1 = Inr v \<Longrightarrow> fst (with_retry jitter cfg tr f) = Inr v"
  by (simp add: with_retry_def retry_loop.simps [of jitter cfg tr f 0])

lemma call_with_retry_first: "f 1 = Inr v \<Longrightarrow> call_with_retry ae what f = Inr v"
  by (simp add: call_with_retry_def with_retry_first)

lemma ok_or_simps [simp]: "ok_or e None = Inl e" "ok_or e (Some a) = Inr a"
  by (simp_all add: ok_or_def)

lemma ok_or_iff [res_simps]:
  "ok_or e x = Inr a \<longleftrightarrow> x = Some a" "ok_or e x = Inl e' \<longleftrightarrow> x = None \<and> e' = e"
  by (auto simp: ok_or_def split: option.splits)

lemma compute_from_tx_skipped:
  assumes "compute_state_updates_from_tx hexd nd tx status origin = Inr ex"
  shows "skipped_opcodes ex = {}"
  using assms by (auto simp: compute_state_updates_from_tx_def res_simps split: if_splits
      dest: extracted_skipped_empty)

lemma analysis_estimate_flags:
  assumes "analysis_estimate ae cfg ex b i c s orig = Inr (est, heur, failure)"
  shows "heur = (ac_heuristic_only cfg \<or> failure \<noteq> None)"
proof (cases "ac_heuristic_only cfg")
  case True
  with assms show ?thesis by (simp add: analysis_estimate_def)
next
  case False
  define txs where "txs = (case get_preceding_transactions (ae_node ae 1) b i of Inr p \<Rightarrow> p | Inl _ \<Rightarrow> [])"
  obtain env where "(case estimate_state_changes_gas_with_preceding (ae_executor ae) (ae_abi ae) env c s
      (state_updates ex) txs orig of
        Inr g \<Rightarrow> (g + TURETZKY_UPPER_GAS_LIMIT_SCHNORR, False, None)
      | Inl e \<Rightarrow> (estimate_gas_from_state_updates (ae_abi ae) ex + TURETZKY_UPPER_GAS_LIMIT_SCHNORR,
                  True, Some (first_line (ae_show ae e)))) = (est, heur, failure)"
    using assms False
    by (auto simp: analysis_estimate_def measured_estimate_def bind_res_Inr_iff Let_def txs_def [symmetric]
        simp del: split_paired_Ex)
  with False show ?thesis
    by (cases "estimate_state_changes_gas_with_preceding (ae_executor ae) (ae_abi ae) env c s
      (state_updates ex) txs orig") auto
qed

lemma analyze_tx_from:
  assumes "analyze_tx ae cfg tx_hash = Inr rp"
  obtains rc contract b i ts tx ex est where "rc_status rc" and "\<not> rc_gas_used rc < ac_min_gas_used cfg"
    and "traced_updates ae tx_hash (rc_status rc) contract = Inr ex" and "state_updates ex \<noteq> []"
    and "analysis_estimate ae cfg ex b i contract (rc_from rc) (original_of rc tx) = Inr est"
    and "rp = report_of cfg tx_hash rc contract b i ts tx ex est"
  using assms unfolding analyze_tx_def bind_res_Inr_iff guard_res_Inr_iff
  by (elim exE conjE) (metis sum.inject(2))

text \<open>
  C24. A report adds up: the transaction passed the gas threshold, the saved gas is the used gas
  less the estimate or zero, the saved wei is that gas at the receipt's price, saturating at
  128 bits, the estimate is flagged heuristic exactly when it was asked for or the measured
  run failed with the recorded reason, and behind it stands a trace whose extraction produced
  the counted, non-empty updates; no skipped opcode is ever reported.
\<close>

theorem analyze_tx_report:
  assumes "analyze_tx ae cfg tx_hash = Inr rp"
  shows "ac_min_gas_used cfg \<le> rp_gas_used rp
    \<and> unat (rp_gas_saved rp) = unat (rp_gas_used rp) - unat (rp_gaskiller_gas_estimate rp)
    \<and> unat (rp_wei_saved rp)
        = min (unat (rp_gas_saved rp) * unat (rp_effective_gas_price_wei rp)) (2 ^ 128 - 1)
    \<and> rp_is_heuristic rp = (ac_heuristic_only cfg \<or> rp_failure_reason rp \<noteq> None)
    \<and> (\<exists>k ex. compute_state_updates_from_tx (ae_hexd ae) (ae_node ae k) tx_hash True (Some (rp_to rp)) = Inr ex
         \<and> state_updates ex \<noteq> [] \<and> rp_state_update_count rp = of_nat (length (state_updates ex)))
    \<and> rp_skipped_opcodes rp = {}"
proof -
  obtain rc contract b i ts tx ex estimated where rc: "rc_status rc" "\<not> rc_gas_used rc < ac_min_gas_used cfg"
    and ex: "traced_updates ae tx_hash (rc_status rc) contract = Inr ex" "state_updates ex \<noteq> []"
    and est: "analysis_estimate ae cfg ex b i contract (rc_from rc) (original_of rc tx) = Inr estimated"
    and rp: "rp = report_of cfg tx_hash rc contract b i ts tx ex estimated"
    using assms by (rule analyze_tx_from)
  obtain est heur failure where e: "estimated = (est, heur, failure)" by (cases estimated)
  obtain k where k: "compute_state_updates_from_tx (ae_hexd ae) (ae_node ae k) tx_hash True (Some contract) = Inr ex"
    using ex(1) rc(1) with_retry_Inr by (fastforce simp: traced_updates_def)
  have wide: "unat (ucast w :: u128) = unat w" for w :: u64
  proof -
    have "unat w < 2 ^ 64" using unsigned_less [of w] by simp
    then have "unat w < 2 ^ 128" by simp
    then show ?thesis by (simp add: unsigned_ucast_eq take_bit_nat_eq_self)
  qed
  show ?thesis
    using rc(2) ex(2) k compute_from_tx_skipped [OF k] analysis_estimate_flags [OF est [unfolded e]]
    by (auto simp: rp report_of_def e Let_def sat_simps wide not_less)
qed

text \<open>
  Which transactions are skipped, and why, once the receipt is there: a reverted one, then a
  creation, then one below the gas threshold, each exactly under its condition and before any
  trace is fetched; an empty trace is never a reason to skip.
\<close>

lemma analyze_tx_skip_reasons:
  assumes "ae_receipt ae tx_hash 1 = Inr (Some rc)"
  shows "(analyze_tx ae cfg tx_hash = Inl (Skipped SkipReverted) \<longleftrightarrow> \<not> rc_status rc)
    \<and> (analyze_tx ae cfg tx_hash = Inl (Skipped ContractCreation) \<longleftrightarrow> rc_status rc \<and> rc_to rc = None)
    \<and> (analyze_tx ae cfg tx_hash = Inl (Skipped BelowGasThreshold)
         \<longleftrightarrow> rc_status rc \<and> rc_to rc \<noteq> None \<and> rc_gas_used rc < ac_min_gas_used cfg)
    \<and> analyze_tx ae cfg tx_hash \<noteq> Inl (Skipped SkipEmptyTrace)
    \<and> analyze_tx ae cfg tx_hash \<noteq> Inl (Skipped NoContractCalled)"
proof -
  have first: "call_with_retry ae ''get_transaction_receipt'' (ae_receipt ae tx_hash) = Inr (Some rc)"
    using assms by (rule call_with_retry_first)
  have retry: "call_with_retry ae what f \<noteq> Inl (Skipped r)" for what r and f :: "u32 \<Rightarrow> string + 'x"
    by (auto simp: call_with_retry_def map_err_def split: sum.splits)
  have trace: "traced_updates ae tx_hash st c \<noteq> Inl (Skipped r)" for st c r
    by (auto simp: traced_updates_def map_err_def split: sum.splits)
  have est: "analysis_estimate ae cfg ex b i c s orig \<noteq> Inl (Skipped r)" for ex b i c s orig r
    by (auto simp: analysis_estimate_def measured_estimate_def Let_def map_err_def bind_res_def split: sum.splits)
  show ?thesis
    unfolding analyze_tx_def first bind_res_simps
    by (cases "rc_status rc"; cases "rc_to rc")
      (auto simp: res_simps retry trace est guard_res_def)
qed

section \<open>A sample analysis\<close>

text \<open>A transfer-like call whose trace stores one slot, analysed by the heuristic.\<close>

definition sample_receipt :: receipt where
  "sample_receipt = \<lparr>rc_status = True, rc_to = Some 170, rc_gas_used = 400000, rc_block_number = Some 9,
     rc_transaction_index = Some 0, rc_from = 3, rc_effective_gas_price = 7\<rparr>"

definition traced_node :: node where
  "traced_node = (sample_node no_write quiet_frame)
     \<lparr>debug_trace_transaction := (\<lambda>_ _. Inr (DefaultTrace sample_trace))\<rparr>"

definition sample_analyzer :: "(tx_env list) analyzer_env" where
  "sample_analyzer = \<lparr>ae_receipt = (\<lambda>_ _. Inr (Some sample_receipt)),
     ae_block_timestamp = (\<lambda>_ _. Inr (Some 1700000000)), ae_tx = (\<lambda>_ _. Inr None),
     ae_node = (\<lambda>_. traced_node), ae_show = (\<lambda>_. ''failed''), ae_build = (\<lambda>_. Inr toy_env),
     ae_executor = sample_executor, ae_jitter = (\<lambda>d. d), ae_hexd = sample_hexd, ae_abi = (\<lambda>_. [])\<rparr>"

lemma sample_traced: "traced_updates sample_analyzer h True 170 = Inr sample_extract"
proof -
  have "compute_state_updates_from_tx sample_hexd traced_node h True (Some 170) = Inr sample_extract"
    using sample_extracted
    by (simp add: compute_state_updates_from_tx_def get_tx_trace_def traced_node_def sample_trace_def
        sample_tree_def)
  then have "fst (with_retry jit cfg tr (\<lambda>_. compute_state_updates_from_tx sample_hexd traced_node h True (Some 170)))
      = Inr sample_extract" for jit cfg tr
    using with_retry_first [of "\<lambda>_. compute_state_updates_from_tx sample_hexd traced_node h True (Some 170)"]
    by blast
  then show ?thesis by (simp add: traced_updates_def sample_analyzer_def)
qed

lemma sample_analysis: "\<exists>rp. analyze_tx sample_analyzer (default_analyzer_config\<lparr>ac_heuristic_only := True\<rparr>) h = Inr rp"
proof -
  have retry: "call_with_retry sample_analyzer what (\<lambda>_. Inr v) = Inr v" for what and v :: 'x
    by (rule call_with_retry_first) simp
  have env: "ae_receipt sample_analyzer h = (\<lambda>_. Inr (Some sample_receipt))"
    "ae_block_timestamp sample_analyzer b = (\<lambda>_. Inr (Some 1700000000))"
    "ae_tx sample_analyzer h = (\<lambda>_. Inr None)" for b
    by (simp_all add: sample_analyzer_def)
  show ?thesis
    by (simp add: analyze_tx_def env retry sample_receipt_def sample_traced default_analyzer_config_def
        sample_extract_def analysis_estimate_def guard_res_def)
qed

theorem analyze_tx_report_witness:
  "\<exists>rp. analyze_tx sample_analyzer (default_analyzer_config\<lparr>ac_heuristic_only := True\<rparr>) 42 = Inr rp
     \<and> rp_is_heuristic rp \<and> unat (rp_gas_saved rp) = unat (rp_gas_used rp) - unat (rp_gaskiller_gas_estimate rp)"
proof -
  obtain rp where rp: "analyze_tx sample_analyzer (default_analyzer_config\<lparr>ac_heuristic_only := True\<rparr>) 42 = Inr rp"
    using sample_analysis by blast
  from analyze_tx_report [OF rp] rp show ?thesis by auto
qed

end
