(* ===== verification/Store.thy ===== *)
theory Store
  imports Analyzer Resolver Transition
begin

text \<open>
  The indexer's database, \<^verbatim>\<open>crates/indexer-store/src/lib.rs\<close> over the schema of its
  migrations: each table is a field of the record \<open>db\<close>, each method of \<open>Store\<close> the effect of
  its one SQL statement, conflict clauses and foreign keys included. Integers are stored as
  the source casts them (\<open>as i64\<close>, \<open>as i32\<close>). Postgres may refuse any statement: the argument
  \<open>flt\<close> says which method fails with which error. \<open>now()\<close> and \<open>chrono\<close>'s accepted timestamps
  are arguments.
\<close>

section \<open>Tables\<close>

record analysis_row =
  ar_chain_id :: int
  ar_block_number :: int
  ar_block_timestamp :: int
  ar_tx_hash :: b256
  ar_tx_index :: int
  ar_from_address :: address
  ar_to_address :: address
  ar_function_selector :: bytes
  ar_project_slug :: string
  ar_gas_used :: int
  ar_effective_gas_price_wei :: nat
  ar_gaskiller_gas_estimate :: int
  ar_gas_saved :: int
  ar_wei_saved :: nat
  ar_is_heuristic :: bool
  ar_failure_reason :: "string option"
  ar_state_update_count :: int
  ar_skipped_opcodes :: "string set"
  ar_reentered :: bool

record project_row =
  pr_name :: string
  pr_category :: "string option"
  pr_contact_email :: "string option"
  pr_contact_url :: "string option"
  pr_last_seen_at :: int
  pr_org_slug :: "string option"

record label_attempt =
  la_last_attempted_at :: int
  la_last_result :: string
  la_contract_name :: "string option"
  la_matched_slug :: "string option"

record selector_row =
  sr_primary_name :: "string option"
  sr_primary_sig :: "string option"
  sr_all_signatures :: "string list"
  sr_source :: string
  sr_fetched_at :: int

record exclusion =
  xc_reason :: string
  xc_created_by :: string
  xc_created_at :: int

record db =
  db_analysis :: "analysis_row list"
  db_projects :: "string \<rightharpoonup> project_row"
  db_address_project :: "int \<times> address \<rightharpoonup> string \<times> bool"
  db_label_attempts :: "int \<times> address \<rightharpoonup> label_attempt"
  db_eth_prices :: "int \<rightharpoonup> int"
  db_function_selectors :: "bytes \<rightharpoonup> selector_row"
  db_organizations :: "string \<rightharpoonup> string"
  db_exclusions :: "int \<times> address \<times> bytes \<rightharpoonup> exclusion"

definition empty_db :: db where
  "empty_db = \<lparr>db_analysis = [], db_projects = Map.empty, db_address_project = Map.empty,
     db_label_attempts = Map.empty, db_eth_prices = Map.empty, db_function_selectors = Map.empty,
     db_organizations = Map.empty, db_exclusions = Map.empty\<rparr>"

datatype store_error =
    SqlxError string
  | ForeignKeyViolation string
  | InvalidTimestamp u64

type_synonym faults = "string \<Rightarrow> string option"

definition exec_sql :: "faults \<Rightarrow> string \<Rightarrow> store_error + 'a \<Rightarrow> store_error + 'a" where
  "exec_sql flt what r = (case flt what of Some e \<Rightarrow> Inl (SqlxError e) | None \<Rightarrow> r)"

definition as_i64 :: "u64 \<Rightarrow> int" where "as_i64 w = sint w"

definition as_i32 :: "'a::len word \<Rightarrow> int" where "as_i32 w = sint (ucast w :: u32)"

section \<open>Analyses\<close>

definition row_of :: "analysis_report \<Rightarrow> string \<Rightarrow> analysis_row" where
  "row_of rp slug = \<lparr>ar_chain_id = as_i64 (rp_chain_id rp), ar_block_number = as_i64 (rp_block_number rp),
     ar_block_timestamp = as_i64 (rp_block_timestamp rp), ar_tx_hash = rp_tx_hash rp,
     ar_tx_index = as_i32 (rp_tx_index rp), ar_from_address = rp_from rp, ar_to_address = rp_to rp,
     ar_function_selector = rp_function_selector rp, ar_project_slug = slug,
     ar_gas_used = as_i64 (rp_gas_used rp), ar_effective_gas_price_wei = unat (rp_effective_gas_price_wei rp),
     ar_gaskiller_gas_estimate = as_i64 (rp_gaskiller_gas_estimate rp), ar_gas_saved = as_i64 (rp_gas_saved rp),
     ar_wei_saved = unat (rp_wei_saved rp), ar_is_heuristic = rp_is_heuristic rp,
     ar_failure_reason = rp_failure_reason rp, ar_state_update_count = as_i32 (rp_state_update_count rp),
     ar_skipped_opcodes = rp_skipped_opcodes rp, ar_reentered = rp_reentered rp\<rparr>"

definition row_key :: "analysis_row \<Rightarrow> int \<times> int \<times> int" where
  "row_key r = (ar_chain_id r, ar_block_number r, ar_tx_index r)"

definition insert_analysis :: "faults \<Rightarrow> (int \<Rightarrow> bool) \<Rightarrow> analysis_report \<Rightarrow> string \<Rightarrow> db \<Rightarrow> store_error + db" where
  "insert_analysis flt timestamp_ok rp slug d =
     (if \<not> timestamp_ok (as_i64 (rp_block_timestamp rp)) then Inl (InvalidTimestamp (rp_block_timestamp rp))
      else exec_sql flt ''insert_analysis''
        (Inr (if row_key (row_of rp slug) \<in> row_key ` set (db_analysis d) then d
              else d\<lparr>db_analysis := db_analysis d @ [row_of rp slug]\<rparr>)))"

section \<open>Projects and labels\<close>

definition upsert_project :: "faults \<Rightarrow> int \<Rightarrow> project_info \<Rightarrow> db \<Rightarrow> store_error + db" where
  "upsert_project flt now p d =
     exec_sql flt ''upsert_project''
       (Inr (d\<lparr>db_projects := (db_projects d)(pi_slug p \<mapsto>
          \<lparr>pr_name = pi_name p, pr_category = pi_category p, pr_contact_email = pi_contact_email p,
           pr_contact_url = pi_contact_url p, pr_last_seen_at = now,
           pr_org_slug = (case db_projects d (pi_slug p) of None \<Rightarrow> None | Some r \<Rightarrow> pr_org_slug r)\<rparr>)\<rparr>))"

definition require_project :: "string \<Rightarrow> db \<Rightarrow> store_error + db \<Rightarrow> store_error + db" where
  "require_project slug d r = (if db_projects d slug = None then Inl (ForeignKeyViolation slug) else r)"

definition upsert_address_project :: "faults \<Rightarrow> u64 \<Rightarrow> address \<Rightarrow> string \<Rightarrow> db \<Rightarrow> store_error + db" where
  "upsert_address_project flt chain_id a slug d =
     exec_sql flt ''upsert_address_project''
       (case db_address_project d (as_i64 chain_id, a) of
          Some (_, True) \<Rightarrow> Inr d
        | _ \<Rightarrow> require_project slug d
            (Inr (d\<lparr>db_address_project := (db_address_project d)((as_i64 chain_id, a) \<mapsto> (slug, False))\<rparr>)))"

definition upsert_manual_address_project :: "faults \<Rightarrow> u64 \<Rightarrow> address \<Rightarrow> string \<Rightarrow> db \<Rightarrow> store_error + db" where
  "upsert_manual_address_project flt chain_id a slug d =
     exec_sql flt ''upsert_manual_address_project''
       (require_project slug d
          (Inr (d\<lparr>db_address_project := (db_address_project d)((as_i64 chain_id, a) \<mapsto> (slug, True))\<rparr>)))"

definition rename_project :: "faults \<Rightarrow> int \<Rightarrow> string \<Rightarrow> string \<Rightarrow> db \<Rightarrow> store_error + bool \<times> db" where
  "rename_project flt now slug name d =
     exec_sql flt ''rename_project''
       (Inr (case db_projects d slug of
               None \<Rightarrow> (False, d)
             | Some r \<Rightarrow> (True, d\<lparr>db_projects := (db_projects d)(slug \<mapsto> r\<lparr>pr_name := name, pr_last_seen_at := now\<rparr>)\<rparr>)))"

definition is_manual_override :: "faults \<Rightarrow> u64 \<Rightarrow> address \<Rightarrow> db \<Rightarrow> store_error + bool" where
  "is_manual_override flt chain_id a d =
     exec_sql flt ''is_manual_override''
       (Inr (case db_address_project d (as_i64 chain_id, a) of None \<Rightarrow> False | Some (_, m) \<Rightarrow> m))"

definition is_unknown :: "string \<Rightarrow> bool" where
  "is_unknown slug = starts_with ''unknown:'' slug"

text \<open>The project a row is relabelled to by \<open>relabel_unknowns\<close>, if any.\<close>

definition relabel_target :: "db \<Rightarrow> analysis_row \<Rightarrow> string option" where
  "relabel_target d r =
     (case db_address_project d (ar_chain_id r, ar_to_address r) of
        Some (slug, _) \<Rightarrow> if is_unknown (ar_project_slug r) \<and> \<not> is_unknown slug then Some slug else None
      | None \<Rightarrow> None)"

definition relabel_unknowns :: "faults \<Rightarrow> db \<Rightarrow> store_error + nat \<times> db" where
  "relabel_unknowns flt d =
     exec_sql flt ''relabel_unknowns''
       (Inr (length (filter (\<lambda>r. relabel_target d r \<noteq> None) (db_analysis d)),
             d\<lparr>db_analysis := map (\<lambda>r. case relabel_target d r of
                 None \<Rightarrow> r | Some slug \<Rightarrow> r\<lparr>ar_project_slug := slug\<rparr>) (db_analysis d)\<rparr>))"

record unknown_address_row =
  ua_address :: address
  ua_wei_saved_total :: nat
  ua_tx_count :: nat

definition attempt_due :: "int \<Rightarrow> int \<Rightarrow> label_attempt option \<Rightarrow> bool" where
  "attempt_due now days l =
     (case l of
        None \<Rightarrow> True
      | Some l \<Rightarrow> la_last_result l \<in> {''matched'', ''error''} \<or> la_last_attempted_at l < now - days * 86400)"

definition labelable :: "int \<Rightarrow> u64 \<Rightarrow> int \<Rightarrow> db \<Rightarrow> analysis_row \<Rightarrow> bool" where
  "labelable now chain_id days d r \<longleftrightarrow>
     ar_chain_id r = as_i64 chain_id \<and> is_unknown (ar_project_slug r) \<and> ar_gas_saved r > 0
   \<and> ar_skipped_opcodes r = {} \<and> attempt_due now days (db_label_attempts d (ar_chain_id r, ar_to_address r))"

text \<open>Ties of the ranking, which SQL leaves open, are kept in order of first appearance.\<close>

definition top_unknown_addresses :: "faults \<Rightarrow> int \<Rightarrow> u64 \<Rightarrow> nat \<Rightarrow> int \<Rightarrow> db \<Rightarrow>
    store_error + unknown_address_row list" where
  "top_unknown_addresses flt now chain_id limit days d =
     (let rows = filter (labelable now chain_id days d) (db_analysis d);
          group = (\<lambda>a. filter (\<lambda>r. ar_to_address r = a) rows)
      in exec_sql flt ''top_unknown_addresses''
           (Inr (take limit (sort_key (\<lambda>g. - int (ua_wei_saved_total g))
              (map (\<lambda>a. \<lparr>ua_address = a, ua_wei_saved_total = sum_list (map ar_wei_saved (group a)),
                          ua_tx_count = length (group a)\<rparr>) (remdups (map ar_to_address rows)))))))"

definition upsert_label_attempt :: "faults \<Rightarrow> int \<Rightarrow> u64 \<Rightarrow> address \<Rightarrow> string \<Rightarrow> string option \<Rightarrow> string option \<Rightarrow>
    db \<Rightarrow> store_error + db" where
  "upsert_label_attempt flt now chain_id a result contract_name matched_slug d =
     exec_sql flt ''upsert_label_attempt''
       (Inr (d\<lparr>db_label_attempts := (db_label_attempts d)((as_i64 chain_id, a) \<mapsto>
          \<lparr>la_last_attempted_at = now, la_last_result = result, la_contract_name = contract_name,
           la_matched_slug =
             (case matched_slug of
                Some s \<Rightarrow> Some s
              | None \<Rightarrow> (case db_label_attempts d (as_i64 chain_id, a) of
                          None \<Rightarrow> None | Some l \<Rightarrow> la_matched_slug l))\<rparr>)\<rparr>))"

section \<open>Prices, selectors, organizations, exclusions\<close>

definition list_eth_price_days :: "faults \<Rightarrow> db \<Rightarrow> store_error + int list" where
  "list_eth_price_days flt d = exec_sql flt ''list_eth_price_days'' (Inr (sorted_list_of_set (dom (db_eth_prices d))))"

definition day_of :: "int \<Rightarrow> int" where
  "day_of ts = ts div 86400"

definition analysis_day_range :: "faults \<Rightarrow> db \<Rightarrow> store_error + (int \<times> int) option" where
  "analysis_day_range flt d =
     exec_sql flt ''analysis_day_range''
       (Inr (let ts = map ar_block_timestamp (db_analysis d)
             in if ts = [] then None else Some (day_of (Min (set ts)), day_of (Max (set ts)))))"

definition upsert_eth_price :: "faults \<Rightarrow> int \<Rightarrow> int \<Rightarrow> db \<Rightarrow> store_error + db" where
  "upsert_eth_price flt day usd d =
     exec_sql flt ''upsert_eth_price'' (Inr (d\<lparr>db_eth_prices := (db_eth_prices d)(day \<mapsto> usd)\<rparr>))"

definition unresolved_selectors :: "faults \<Rightarrow> u64 \<Rightarrow> nat \<Rightarrow> db \<Rightarrow> store_error + bytes list" where
  "unresolved_selectors flt chain_id limit d =
     (let rows = filter (\<lambda>r. ar_chain_id r = as_i64 chain_id
                   \<and> db_function_selectors d (ar_function_selector r) = None
                   \<and> ar_gas_saved r > 0 \<and> ar_skipped_opcodes r = {}) (db_analysis d);
          uses = (\<lambda>s. length (filter (\<lambda>r. ar_function_selector r = s) rows))
      in exec_sql flt ''unresolved_selectors''
           (Inr (filter (\<lambda>s. length s = 4)
              (take limit (sort_key (\<lambda>s. - int (uses s)) (remdups (map ar_function_selector rows)))))))"

definition upsert_function_selector :: "faults \<Rightarrow> int \<Rightarrow> bytes \<Rightarrow> string option \<Rightarrow> string option \<Rightarrow> string list \<Rightarrow>
    string \<Rightarrow> db \<Rightarrow> store_error + db" where
  "upsert_function_selector flt now selector name sig all_sigs source d =
     exec_sql flt ''upsert_function_selector''
       (Inr (d\<lparr>db_function_selectors := (db_function_selectors d)(selector \<mapsto>
          \<lparr>sr_primary_name = name, sr_primary_sig = sig, sr_all_signatures = all_sigs, sr_source = source,
           sr_fetched_at = now\<rparr>)\<rparr>))"

definition org_upsert :: "faults \<Rightarrow> string \<Rightarrow> string \<Rightarrow> db \<Rightarrow> store_error + db" where
  "org_upsert flt slug name d =
     exec_sql flt ''org_upsert'' (Inr (d\<lparr>db_organizations := (db_organizations d)(slug \<mapsto> name)\<rparr>))"

definition project_assign_org :: "faults \<Rightarrow> string \<Rightarrow> string option \<Rightarrow> db \<Rightarrow> store_error + bool \<times> db" where
  "project_assign_org flt slug org d =
     exec_sql flt ''project_assign_org''
       (case db_projects d slug of
          None \<Rightarrow> Inr (False, d)
        | Some r \<Rightarrow>
            if (case org of None \<Rightarrow> False | Some s \<Rightarrow> db_organizations d s = None)
            then Inl (ForeignKeyViolation (the org))
            else Inr (True, d\<lparr>db_projects := (db_projects d)(slug \<mapsto> r\<lparr>pr_org_slug := org\<rparr>)\<rparr>))"

definition exclusion_key :: "u64 \<Rightarrow> address \<Rightarrow> bytes option \<Rightarrow> int \<times> address \<times> bytes" where
  "exclusion_key chain_id a selector = (as_i64 chain_id, a, case selector of None \<Rightarrow> [] | Some s \<Rightarrow> s)"

definition blacklist_add :: "faults \<Rightarrow> int \<Rightarrow> u64 \<Rightarrow> address \<Rightarrow> bytes option \<Rightarrow> string \<Rightarrow> string \<Rightarrow> db \<Rightarrow>
    store_error + db" where
  "blacklist_add flt now chain_id a selector reason created_by d =
     exec_sql flt ''blacklist_add''
       (Inr (d\<lparr>db_exclusions := (db_exclusions d)(exclusion_key chain_id a selector \<mapsto>
          \<lparr>xc_reason = reason, xc_created_by = created_by, xc_created_at = now\<rparr>)\<rparr>))"

definition blacklist_remove :: "faults \<Rightarrow> u64 \<Rightarrow> address \<Rightarrow> bytes option \<Rightarrow> db \<Rightarrow> store_error + bool \<times> db" where
  "blacklist_remove flt chain_id a selector d =
     exec_sql flt ''blacklist_remove''
       (Inr (db_exclusions d (exclusion_key chain_id a selector) \<noteq> None,
             d\<lparr>db_exclusions := (db_exclusions d)(exclusion_key chain_id a selector := None)\<rparr>))"

section \<open>The statements as steps\<close>

text \<open>One completed statement; the flag marks a human edit.\<close>

inductive store_step :: "bool \<Rightarrow> db \<Rightarrow> db \<Rightarrow> bool" where
  "insert_analysis flt ok rp slug d = Inr d' \<Longrightarrow> store_step m d d'"
| "upsert_project flt now p d = Inr d' \<Longrightarrow> store_step m d d'"
| "upsert_address_project flt c a slug d = Inr d' \<Longrightarrow> store_step m d d'"
| "upsert_manual_address_project flt c a slug d = Inr d' \<Longrightarrow> store_step True d d'"
| "rename_project flt now slug name d = Inr (b, d') \<Longrightarrow> store_step m d d'"
| "relabel_unknowns flt d = Inr (n, d') \<Longrightarrow> store_step m d d'"
| "upsert_label_attempt flt now c a res cn ms d = Inr d' \<Longrightarrow> store_step m d d'"
| "upsert_eth_price flt day usd d = Inr d' \<Longrightarrow> store_step m d d'"
| "upsert_function_selector flt now sel n sg sgs src d = Inr d' \<Longrightarrow> store_step m d d'"
| "org_upsert flt slug name d = Inr d' \<Longrightarrow> store_step m d d'"
| "project_assign_org flt slug org d = Inr (b, d') \<Longrightarrow> store_step m d d'"
| "blacklist_add flt now c a sel reason who d = Inr d' \<Longrightarrow> store_step m d d'"
| "blacklist_remove flt c a sel d = Inr (b, d') \<Longrightarrow> store_step m d d'"

definition labels_ok :: "('k \<rightharpoonup> string \<times> bool) \<Rightarrow> (string \<rightharpoonup> project_row) \<Rightarrow> bool" where
  "labels_ok A P \<longleftrightarrow> (\<forall>k slug m. A k = Some (slug, m) \<longrightarrow> P slug \<noteq> None)"

definition orgs_ok :: "(string \<rightharpoonup> project_row) \<Rightarrow> (string \<rightharpoonup> string) \<Rightarrow> bool" where
  "orgs_ok P orgs \<longleftrightarrow> (\<forall>slug r org. P slug = Some r \<longrightarrow> pr_org_slug r = Some org \<longrightarrow> orgs org \<noteq> None)"

definition store_ok :: "db \<Rightarrow> bool" where
  "store_ok d \<longleftrightarrow>
     distinct (map row_key (db_analysis d)) \<and> labels_ok (db_address_project d) (db_projects d)
   \<and> orgs_ok (db_projects d) (db_organizations d)"

lemma labels_ok_upd:
  "labels_ok A P \<Longrightarrow> P slug \<noteq> None \<Longrightarrow> labels_ok (A(k \<mapsto> (slug, m))) P"
  "labels_ok A P \<Longrightarrow> labels_ok A (P(slug \<mapsto> r))"
  by (auto simp: labels_ok_def)

lemma orgs_ok_upd:
  "orgs_ok P orgs \<Longrightarrow> (\<And>org. pr_org_slug r = Some org \<Longrightarrow> orgs org \<noteq> None) \<Longrightarrow> orgs_ok (P(slug \<mapsto> r)) orgs"
  "orgs_ok P orgs \<Longrightarrow> orgs_ok P (orgs(org \<mapsto> name))"
  by (auto simp: orgs_ok_def)

lemma orgs_okD: "orgs_ok P orgs \<Longrightarrow> P slug = Some r \<Longrightarrow> pr_org_slug r = Some org \<Longrightarrow> \<exists>y. orgs org = Some y"
  by (auto simp: orgs_ok_def)

lemma exec_sql_Inr [res_simps]: "exec_sql flt what r = Inr x \<longleftrightarrow> flt what = None \<and> r = Inr x"
  by (auto simp: exec_sql_def split: option.splits)

lemma require_project_Inr [res_simps]: "require_project slug d r = Inr x \<longleftrightarrow> db_projects d slug \<noteq> None \<and> r = Inr x"
  by (auto simp: require_project_def)

lemmas store_defs = insert_analysis_def upsert_project_def upsert_address_project_def
  upsert_manual_address_project_def rename_project_def relabel_unknowns_def upsert_label_attempt_def
  upsert_eth_price_def upsert_function_selector_def org_upsert_def project_assign_org_def
  blacklist_add_def blacklist_remove_def

lemma relabel_key [simp]:
  "row_key (case relabel_target d r of None \<Rightarrow> r | Some slug \<Rightarrow> r\<lparr>ar_project_slug := slug\<rparr>) = row_key r"
  by (simp add: row_key_def split: option.splits)

lemma store_step_ok: "store_step m d d' \<Longrightarrow> store_ok d \<Longrightarrow> store_ok d'"
proof (induction rule: store_step.induct)
  case (2 flt now p d d' m)
  let ?org = "case db_projects d (pi_slug p) of None \<Rightarrow> None | Some r \<Rightarrow> pr_org_slug r"
  have "db_organizations d org \<noteq> None" if "?org = Some org" for org
    using that 2(2) orgs_okD by (auto simp: store_ok_def split: option.splits)
  with 2 show ?case
    by (auto simp: store_ok_def upsert_project_def res_simps intro!: labels_ok_upd orgs_ok_upd(1))
next
  case (6 flt d n d' m)
  then show ?case by (auto simp: store_ok_def relabel_unknowns_def res_simps o_def)
qed (auto simp: store_ok_def store_defs res_simps intro!: labels_ok_upd orgs_ok_upd dest: orgs_okD
      split: option.splits if_splits bool.splits prod.splits)

lemma empty_db_ok: "store_ok empty_db"
  by (simp add: store_ok_def empty_db_def labels_ok_def orgs_ok_def)

interpretation st: invariant_system "\<lambda>d. d = empty_db" "store_step m" store_ok for m
  by unfold_locales (auto simp: empty_db_ok intro: store_step_ok)

text \<open>
  The database stays consistent: whatever statements run against it, in whatever order and
  with whatever failures in between, no two analyses share a chain, block and transaction
  index, every labelled address names a project that exists, and every project's
  organization exists.
\<close>

lemma store_consistent:
  assumes "(store_step True)\<^sup>*\<^sup>* empty_db d"
  shows "store_ok d"
  using assms by (rule st.reachable_inv [OF refl])

section \<open>Human edits and recorded rows\<close>

definition override_kept :: "db \<Rightarrow> db \<Rightarrow> bool" where
  "override_kept d d' \<longleftrightarrow>
     (\<forall>k slug. db_address_project d k = Some (slug, True) \<longrightarrow> db_address_project d' k = Some (slug, True))"

lemma auto_step_keeps_override: "store_step False d d' \<Longrightarrow> override_kept d d'"
  by (induction "False" d d' rule: store_step.induct)
    (auto simp: override_kept_def store_defs res_simps split: option.splits if_splits bool.splits)

interpretation ov: run_relation "store_step False" override_kept
  by unfold_locales (auto simp: override_kept_def dest: auto_step_keeps_override [unfolded override_kept_def])

text \<open>
  C27. A human label is sticky: once an address is mapped by hand, no run of automatic statements
  (resolver refreshes, the labeler, workers, relabelling) changes its mapping.
\<close>

theorem manual_override_sticky:
  assumes "db_address_project d k = Some (slug, True)" and "(store_step False)\<^sup>*\<^sup>* d d'"
  shows "db_address_project d' k = Some (slug, True)"
  using ov.steps_rel [OF assms(2)] assms(1) by (cases k) (simp add: override_kept_def)

text \<open>A row up to its label, and what a run may do to it.\<close>

definition same_analysis :: "analysis_row \<Rightarrow> analysis_row \<Rightarrow> bool" where
  "same_analysis r r' \<longleftrightarrow>
     r'\<lparr>ar_project_slug := ar_project_slug r\<rparr> = r \<and> (\<not> is_unknown (ar_project_slug r) \<longrightarrow> r' = r)"

definition rows_kept :: "db \<Rightarrow> db \<Rightarrow> bool" where
  "rows_kept d d' \<longleftrightarrow>
     length (db_analysis d) \<le> length (db_analysis d')
   \<and> list_all2 same_analysis (db_analysis d) (take (length (db_analysis d)) (db_analysis d'))"

lemma same_analysis_refl: "same_analysis r r"
  by (simp add: same_analysis_def)

lemma same_analysis_trans: "same_analysis r r' \<Longrightarrow> same_analysis r' r'' \<Longrightarrow> same_analysis r r''"
  by (cases r; cases r'; cases r'') (auto simp: same_analysis_def)

lemma relabel_same: "same_analysis r (case relabel_target d r of None \<Rightarrow> r | Some slug \<Rightarrow> r\<lparr>ar_project_slug := slug\<rparr>)"
  by (cases r) (auto simp: same_analysis_def relabel_target_def split: option.splits if_splits)

lemma step_rows_kept: "store_step m d d' \<Longrightarrow> rows_kept d d'"
proof (induction rule: store_step.induct)
  case (6 flt d n d' m)
  then show ?case
    by (auto simp: rows_kept_def relabel_unknowns_def res_simps list_all2_conv_all_nth relabel_same)
qed (auto simp: rows_kept_def store_defs res_simps list.rel_refl same_analysis_refl
      split: option.splits if_splits bool.splits)

lemma rows_kept_trans: "rows_kept d d' \<Longrightarrow> rows_kept d' d'' \<Longrightarrow> rows_kept d d''"
  unfolding rows_kept_def
  by (auto simp: list_all2_conv_all_nth intro: same_analysis_trans)

interpretation rk: run_relation "store_step m" rows_kept for m
proof unfold_locales
  show "rows_kept d d" for d by (simp add: rows_kept_def list.rel_refl same_analysis_refl)
  show "rows_kept d t \<Longrightarrow> store_step m t u \<Longrightarrow> rows_kept d u" for d t u
    using rows_kept_trans step_rows_kept by blast
qed

text \<open>
  C26. No analysis is lost or rewritten: over any run of statements every recorded row stays where
  it is with all its columns, except that a row labelled unknown may receive a project, and a
  row with a project keeps it.
\<close>

theorem analyses_are_permanent:
  assumes "(store_step True)\<^sup>*\<^sup>* d d'" and "i < length (db_analysis d)"
  shows "i < length (db_analysis d') \<and> same_analysis (db_analysis d ! i) (db_analysis d' ! i)"
  using rk.steps_rel [OF assms(1)] assms(2)
  by (auto simp: rows_kept_def list_all2_conv_all_nth)

definition relabelled :: "db \<Rightarrow> analysis_row \<Rightarrow> analysis_row" where
  "relabelled d r = (case relabel_target d r of None \<Rightarrow> r | Some slug \<Rightarrow> r\<lparr>ar_project_slug := slug\<rparr>)"

lemma relabelled_settled: "relabel_target d (relabelled d r) = None"
  by (auto simp: relabelled_def relabel_target_def split: option.splits if_splits)

lemma relabelled_changes: "relabelled d r \<noteq> r \<longleftrightarrow> relabel_target d r \<noteq> None"
  by (cases r) (auto simp: relabelled_def relabel_target_def split: option.splits if_splits)

lemma relabel_target_db: "db_address_project d' = db_address_project d \<Longrightarrow> relabel_target d' r = relabel_target d r"
  by (simp add: relabel_target_def)

lemma count_changed:
  "length (filter (\<lambda>(r, r'). r \<noteq> r') (zip xs (map f xs))) = length (filter (\<lambda>r. f r \<noteq> r) xs)"
  by (induction xs) auto

text \<open>
  Relabelling is complete and idempotent: afterwards no row that is labelled unknown has an
  address mapped to a project, exactly the counted rows changed, and running it again changes
  nothing.
\<close>

lemma relabel_unknowns_complete:
  assumes "relabel_unknowns flt d = Inr (n, d')"
  shows "list_all (\<lambda>r. relabel_target d' r = None) (db_analysis d')
    \<and> n = length (filter (\<lambda>(r, r'). r \<noteq> r') (zip (db_analysis d) (db_analysis d')))
    \<and> relabel_unknowns flt d' = Inr (0, d')"
proof -
  have n: "n = length (filter (\<lambda>r. relabel_target d r \<noteq> None) (db_analysis d))"
    and d': "d' = d\<lparr>db_analysis := map (relabelled d) (db_analysis d)\<rparr>" and flt: "flt ''relabel_unknowns'' = None"
    using assms by (auto simp: relabel_unknowns_def res_simps relabelled_def cong: map_cong)
  have t: "relabel_target d' r = relabel_target d r" for r by (rule relabel_target_db) (simp add: d')
  have settled: "list_all (\<lambda>r. relabel_target d' r = None) (db_analysis d')"
    unfolding t by (simp add: d' list_all_iff relabelled_settled)
  have "filter (\<lambda>r. relabel_target d' r \<noteq> None) (db_analysis d') = []"
    using settled by (simp add: list_all_iff filter_empty_conv)
  moreover have "map (\<lambda>r. case relabel_target d' r of None \<Rightarrow> r | Some slug \<Rightarrow> r\<lparr>ar_project_slug := slug\<rparr>)
      (db_analysis d') = db_analysis d'"
    using settled by (intro map_idI) (simp add: list_all_iff)
  ultimately have "relabel_unknowns flt d' = Inr (0, d')"
    by (simp add: relabel_unknowns_def exec_sql_def flt)
  moreover have "n = length (filter (\<lambda>(r, r'). r \<noteq> r') (zip (db_analysis d) (db_analysis d')))"
    unfolding n d' by (simp add: count_changed relabelled_changes)
  ultimately show ?thesis using settled by blast
qed

text \<open>
  Recording an analysis is idempotent: once a report is in, recording it again, under whatever
  label, leaves the database as it is.
\<close>

lemma insert_analysis_idempotent:
  assumes "insert_analysis flt ok rp slug d = Inr d'"
  shows "insert_analysis flt ok rp slug' d' = Inr d'"
proof -
  have key: "row_key (row_of rp slug') = row_key (row_of rp slug)" by (simp add: row_key_def row_of_def)
  have ok: "ok (as_i64 (rp_block_timestamp rp))" "flt ''insert_analysis'' = None"
    and "d' = (if row_key (row_of rp slug) \<in> row_key ` set (db_analysis d) then d
               else d\<lparr>db_analysis := db_analysis d @ [row_of rp slug]\<rparr>)"
    using assms by (auto simp: insert_analysis_def res_simps split: if_splits)
  then have "row_key (row_of rp slug') \<in> row_key ` set (db_analysis d')" unfolding key by simp
  with ok show ?thesis by (simp add: insert_analysis_def exec_sql_def)
qed

section \<open>Sample statements\<close>

definition sample_report :: analysis_report where
  "sample_report = \<lparr>rp_chain_id = 1, rp_block_number = 9, rp_block_timestamp = 1700000000, rp_tx_hash = 42,
     rp_tx_index = 0, rp_from = 3, rp_to = 170, rp_function_selector = [1, 2, 3, 4], rp_gas_used = 400000,
     rp_effective_gas_price_wei = 7, rp_gaskiller_gas_estimate = 300000, rp_gas_saved = 100000,
     rp_wei_saved = 700000, rp_is_heuristic = False, rp_failure_reason = None, rp_state_update_count = 3,
     rp_skipped_opcodes = {}, rp_reentered = False\<rparr>"

definition sample_project :: project_info where
  "sample_project = \<lparr>pi_slug = ''dex'', pi_name = ''Dex'', pi_category = None, pi_contact_email = None,
     pi_contact_url = None\<rparr>"

definition sample_row :: project_row where
  "sample_row = \<lparr>pr_name = ''Dex'', pr_category = None, pr_contact_email = None, pr_contact_url = None,
     pr_last_seen_at = 5, pr_org_slug = None\<rparr>"

definition labelled_db :: "bool \<Rightarrow> db" where
  "labelled_db manual = empty_db\<lparr>db_analysis := [row_of sample_report ''unknown:0xaa''],
     db_projects := [''dex'' \<mapsto> sample_row], db_address_project := [(1, 170) \<mapsto> (''dex'', manual)]\<rparr>"

theorem manual_override_sticky_witness:
  "upsert_address_project (\<lambda>_. None) 1 170 ''unknown:0xaa'' (labelled_db True) = Inr (labelled_db True)
   \<and> db_address_project (labelled_db True) (1, 170) = Some (''dex'', True)"
proof -
  have up: "upsert_address_project (\<lambda>_. None) 1 170 ''unknown:0xaa'' (labelled_db True) = Inr (labelled_db True)"
    by (simp add: upsert_address_project_def exec_sql_def labelled_db_def as_i64_def)
  then have step: "(store_step False)\<^sup>*\<^sup>* (labelled_db True) (labelled_db True)"
    by (auto intro: store_step.intros)
  have "db_address_project (labelled_db True) (1, 170) = Some (''dex'', True)" by (simp add: labelled_db_def)
  from manual_override_sticky [OF this step] up show ?thesis by blast
qed

lemma sample_relabel:
  "relabel_unknowns (\<lambda>_. None) (labelled_db m) = Inr (1, (labelled_db m)\<lparr>db_analysis := [row_of sample_report ''dex'']\<rparr>)"
  by (simp add: relabel_unknowns_def exec_sql_def labelled_db_def relabel_target_def row_of_def sample_report_def
      as_i64_def is_unknown_def starts_with_def)

theorem analyses_are_permanent_witness:
  "\<exists>d'. relabel_unknowns (\<lambda>_. None) (labelled_db False) = Inr (1, d')
     \<and> same_analysis (row_of sample_report ''unknown:0xaa'') (db_analysis d' ! 0)"
proof -
  obtain d' where d': "relabel_unknowns (\<lambda>_. None) (labelled_db False) = Inr (1, d')"
    using sample_relabel by blast
  have steps: "(store_step True)\<^sup>*\<^sup>* (labelled_db False) d'"
    by (rule r_into_rtranclp) (rule store_step.intros(6) [OF d'])
  have "0 < length (db_analysis (labelled_db False))" by (simp add: labelled_db_def)
  from analyses_are_permanent [OF steps this] d' show ?thesis by (auto simp: labelled_db_def)
qed

end
