(* ===== verification/Job_Queue.thy ===== *)
theory Job_Queue
  imports Store
begin

text \<open>
  The job queue, the workers and the head tracker: \<^verbatim>\<open>queue.rs\<close>, \<^verbatim>\<open>worker.rs\<close> and
  \<^verbatim>\<open>head_tracker.rs\<close> of \<^verbatim>\<open>crates/indexer-service/src\<close>. Redis is the record \<open>queue\<close>; a job is
  kept as the value its JSON payload stands for. Every Redis command may fail: a command's
  failure is an argument, \<open>None\<close> when it succeeds. Each loop is modelled by one iteration;
  clock readings and the answers of the chain are arguments. Unix times are integers.
\<close>

section \<open>Queue\<close>

record analyze_tx_job =
  jb_chain_id :: u64
  jb_tx_hash :: b256
  jb_block_number :: u64
  jb_tx_index :: u64
  jb_attempt :: u32
  jb_enqueued_at :: int

definition age_secs :: "int \<Rightarrow> analyze_tx_job \<Rightarrow> int option" where
  "age_secs now j = (if jb_enqueued_at j > 0 then Some (now - jb_enqueued_at j) else None)"

definition next_attempt :: "analyze_tx_job \<Rightarrow> analyze_tx_job" where
  "next_attempt j = j\<lparr>jb_attempt := jb_attempt j + 1\<rparr>"

datatype queue_error = RedisError string

record dead_job =
  dj_job :: analyze_tx_job
  dj_failed_at :: int
  dj_reason :: analyzer_error

record queue =
  q_pending :: "analyze_tx_job list"
  q_dead :: "dead_job list"
  q_last_head :: "u64 option"
  q_skipped_blocks :: u64
  q_expired_jobs :: u64

type_synonym fault = "string option"

definition redis :: "fault \<Rightarrow> 'a \<Rightarrow> queue_error + 'a" where
  "redis flt r = (case flt of None \<Rightarrow> Inr r | Some e \<Rightarrow> Inl (RedisError e))"

definition enqueue :: "fault \<Rightarrow> analyze_tx_job \<Rightarrow> queue \<Rightarrow> queue_error + queue" where
  "enqueue flt j q = redis flt (q\<lparr>q_pending := q_pending q @ [j]\<rparr>)"

definition queue_depth :: "fault \<Rightarrow> queue \<Rightarrow> queue_error + nat" where
  "queue_depth flt q = redis flt (length (q_pending q))"

definition claim :: "fault \<Rightarrow> queue \<Rightarrow> queue_error + analyze_tx_job option \<times> queue" where
  "claim flt q =
     redis flt (case q_pending q of [] \<Rightarrow> (None, q) | j # js \<Rightarrow> (Some j, q\<lparr>q_pending := js\<rparr>))"

definition requeue :: "fault \<Rightarrow> analyze_tx_job \<Rightarrow> queue \<Rightarrow> queue_error + queue" where
  "requeue flt j q = enqueue flt j q"

definition publish_last_head :: "fault \<Rightarrow> u64 \<Rightarrow> queue \<Rightarrow> queue_error + queue" where
  "publish_last_head flt n q = redis flt (q\<lparr>q_last_head := Some n\<rparr>)"

definition incr_skipped_blocks :: "fault \<Rightarrow> u64 \<Rightarrow> queue \<Rightarrow> queue_error + queue" where
  "incr_skipped_blocks flt n q = redis flt (q\<lparr>q_skipped_blocks := q_skipped_blocks q + n\<rparr>)"

definition incr_expired_jobs :: "fault \<Rightarrow> u64 \<Rightarrow> queue \<Rightarrow> queue_error + queue" where
  "incr_expired_jobs flt n q = redis flt (q\<lparr>q_expired_jobs := q_expired_jobs q + n\<rparr>)"

definition dead_letter :: "fault \<Rightarrow> int \<Rightarrow> analyze_tx_job \<Rightarrow> analyzer_error \<Rightarrow> queue \<Rightarrow> queue_error + queue" where
  "dead_letter flt now j reason q =
     redis flt (q\<lparr>q_dead := q_dead q @ [\<lparr>dj_job = j, dj_failed_at = now, dj_reason = reason\<rparr>]\<rparr>)"

text \<open>A best-effort command: its failure is logged and the queue left as it is.\<close>

definition best_effort :: "queue \<Rightarrow> queue_error + queue \<Rightarrow> queue" where
  "best_effort q r = (case r of Inr q' \<Rightarrow> q' | Inl _ \<Rightarrow> q)"

section \<open>Worker\<close>

record worker_config =
  wc_max_retries :: u32
  wc_queue_job_ttl_secs :: u64
  wc_analyze_timeout_secs :: u64

datatype handle_error = StoreFailed store_error | QueueFailed queue_error

text \<open>
  What a worker meets in one iteration: clock, Redis and Postgres failures, the analyzer's
  answer (\<open>None\<close> when it exceeds the timeout), and its resolver.
\<close>

record worker_env =
  we_now :: int
  we_claim_fault :: fault
  we_expired_fault :: fault
  we_requeue_fault :: fault
  we_dead_fault :: fault
  we_store_faults :: faults
  we_timestamp_ok :: "int \<Rightarrow> bool"
  we_hex_encode :: "address \<Rightarrow> string"
  we_snapshot :: resolver_snapshot
  we_analyze :: "b256 \<Rightarrow> (analyzer_error + analysis_report) option"

definition and_then :: "('e + 'd) \<Rightarrow> 'd \<Rightarrow> ('d \<Rightarrow> ('e + unit) \<times> 'd) \<Rightarrow> ('e + unit) \<times> 'd" where
  "and_then r d f = (case r of Inl e \<Rightarrow> (Inl e, d) | Inr d' \<Rightarrow> f d')"

text \<open>The three statements of the success branch; the first failure ends it, keeping what is done.\<close>

definition persist :: "worker_env \<Rightarrow> analysis_report \<Rightarrow> db \<Rightarrow> (store_error + unit) \<times> db" where
  "persist we rp d =
     (let project = resolve (we_hex_encode we) (we_snapshot we) (rp_chain_id rp) (rp_to rp)
      in and_then (insert_analysis (we_store_faults we) (we_timestamp_ok we) rp (pi_slug project) d) d (\<lambda>d.
         and_then (upsert_project (we_store_faults we) (we_now we) project d) d (\<lambda>d.
         and_then (upsert_address_project (we_store_faults we) (rp_chain_id rp) (rp_to rp) (pi_slug project) d) d
           (\<lambda>d. (Inr (), d)))))"

definition handle :: "worker_config \<Rightarrow> worker_env \<Rightarrow> analyze_tx_job \<Rightarrow> queue \<times> db \<Rightarrow>
    (handle_error + unit) \<times> queue \<times> db" where
  "handle cfg we j = (\<lambda>(q, d).
     case (case we_analyze we (jb_tx_hash j) of
             None \<Rightarrow> Inl (RpcError (TimedOut (wc_analyze_timeout_secs cfg))) | Some r \<Rightarrow> r) of
       Inr rp \<Rightarrow> (case persist we rp d of (r, d) \<Rightarrow> (map_err StoreFailed r, q, d))
     | Inl (Skipped _) \<Rightarrow> (Inr (), q, d)
     | Inl e \<Rightarrow>
         if jb_attempt j + 1 < wc_max_retries cfg
         then (case requeue (we_requeue_fault we) (next_attempt j) q of
                 Inr q \<Rightarrow> (Inr (), q, d) | Inl er \<Rightarrow> (Inl (QueueFailed er), q, d))
         else (case dead_letter (we_dead_fault we) (we_now we) j e q of
                 Inr q \<Rightarrow> (Inr (), q, d) | Inl er \<Rightarrow> (Inl (QueueFailed er), q, d)))"

definition expired :: "worker_config \<Rightarrow> int \<Rightarrow> analyze_tx_job \<Rightarrow> bool" where
  "expired cfg now j \<longleftrightarrow>
     (let ttl_secs = as_i64 (wc_queue_job_ttl_secs cfg)
      in ttl_secs > 0 \<and> (case age_secs now j of None \<Rightarrow> False | Some age \<Rightarrow> age > ttl_secs))"

text \<open>
  One iteration of the worker's loop; the loop ends only on a failed claim. A failed \<open>handle\<close>
  is logged and the loop goes on.
\<close>

datatype worker_outcome =
    Idle
  | ExpiredJob analyze_tx_job
  | HandledJob analyze_tx_job "handle_error + unit"

definition worker_iteration :: "worker_config \<Rightarrow> worker_env \<Rightarrow> queue \<times> db \<Rightarrow>
    queue_error + worker_outcome \<times> queue \<times> db" where
  "worker_iteration cfg we = (\<lambda>(q, d).
     bind_res (claim (we_claim_fault we) q) (\<lambda>(job, q).
     case job of
       None \<Rightarrow> Inr (Idle, q, d)
     | Some j \<Rightarrow>
         if expired cfg (we_now we) j
         then Inr (ExpiredJob j, best_effort q (incr_expired_jobs (we_expired_fault we) 1 q), d)
         else (case handle cfg we j (q, d) of (r, q, d) \<Rightarrow> Inr (HandledJob j r, q, d))))"

section \<open>Head tracker\<close>

record tracker_config =
  tc_chain_id :: u64
  tc_max_queue_depth :: nat
  tc_max_blocks_behind :: u64

record tracker =
  ht_next_block :: u64
  ht_skipped_blocks :: u64

text \<open>
  What the tracker meets in one iteration: clock, head, Redis failures, the block it may fetch
  (\<open>None\<close> inside when it does not exist yet), and the failure of each push.
\<close>

record tracker_env =
  te_now :: int
  te_head :: "string + u64"
  te_publish_fault :: fault
  te_depth_fault :: fault
  te_skip_fault :: fault
  te_block :: "u64 \<Rightarrow> string + (b256 \<times> address option) list option"
  te_enqueue_fault :: "nat \<Rightarrow> fault"

datatype tracker_error = HeadFailed string | DepthFailed queue_error

datatype enqueue_error = BlockFailed string | BlockNotThere u64 | EnqueueFailed queue_error

fun enqueue_txs :: "tracker_config \<Rightarrow> tracker_env \<Rightarrow> u64 \<Rightarrow> nat \<Rightarrow> (b256 \<times> address option) list \<Rightarrow> queue \<Rightarrow>
    (enqueue_error + unit) \<times> queue" where
  "enqueue_txs cfg te n idx [] q = (Inr (), q)"
| "enqueue_txs cfg te n idx ((hash, dest) # txs) q =
     (if dest = None then enqueue_txs cfg te n (idx + 1) txs q
      else
        (case enqueue (te_enqueue_fault te idx)
                \<lparr>jb_chain_id = tc_chain_id cfg, jb_tx_hash = hash, jb_block_number = n,
                 jb_tx_index = of_nat idx, jb_attempt = 0, jb_enqueued_at = te_now te\<rparr> q of
           Inl e \<Rightarrow> (Inl (EnqueueFailed e), q)
         | Inr q \<Rightarrow> enqueue_txs cfg te n (idx + 1) txs q))"

definition enqueue_block :: "tracker_config \<Rightarrow> tracker_env \<Rightarrow> u64 \<Rightarrow> queue \<Rightarrow> (enqueue_error + unit) \<times> queue" where
  "enqueue_block cfg te n q =
     (case te_block te n of
        Inl e \<Rightarrow> (Inl (BlockFailed e), q)
      | Inr None \<Rightarrow> (Inl (BlockNotThere n), q)
      | Inr (Some txs) \<Rightarrow> enqueue_txs cfg te n 0 txs q)"

datatype tracker_outcome = Saturated | Waiting | RetryBlock u64 | FannedOut u64

definition tracker_start :: "u64 \<Rightarrow> tracker" where
  "tracker_start head = \<lparr>ht_next_block = head + 1, ht_skipped_blocks = 0\<rparr>"

definition skip_ahead :: "tracker_config \<Rightarrow> tracker_env \<Rightarrow> u64 \<Rightarrow> tracker \<times> queue \<Rightarrow> tracker \<times> queue" where
  "skip_ahead cfg te head = (\<lambda>(t, q).
     if tc_max_blocks_behind cfg > 0 \<and> sat_sub head (ht_next_block t) > tc_max_blocks_behind cfg
     then (let new_start = head - tc_max_blocks_behind cfg;
               skipped = new_start - ht_next_block t
           in (\<lparr>ht_next_block = new_start, ht_skipped_blocks = ht_skipped_blocks t + skipped\<rparr>,
               best_effort q (incr_skipped_blocks (te_skip_fault te) skipped q)))
     else (t, q))"

definition tracker_iteration :: "tracker_config \<Rightarrow> tracker_env \<Rightarrow> tracker \<times> queue \<Rightarrow>
    tracker_error + tracker_outcome \<times> tracker \<times> queue" where
  "tracker_iteration cfg te = (\<lambda>(t, q).
     bind_res (map_err HeadFailed (te_head te)) (\<lambda>head.
     let q = best_effort q (publish_last_head (te_publish_fault te) head q)
     in bind_res (map_err DepthFailed (queue_depth (te_depth_fault te) q)) (\<lambda>depth.
        if depth > tc_max_queue_depth cfg then Inr (Saturated, t, q)
        else
          (case skip_ahead cfg te head (t, q) of
             (t, q) \<Rightarrow>
               if head < ht_next_block t then Inr (Waiting, t, q)
               else
                 (case enqueue_block cfg te (ht_next_block t) q of
                    (Inl _, q) \<Rightarrow> Inr (RetryBlock (ht_next_block t), t, q)
                  | (Inr _, q) \<Rightarrow> Inr (FannedOut (ht_next_block t), t\<lparr>ht_next_block := ht_next_block t + 1\<rparr>, q))))))"

section \<open>The tracker accounts for every block\<close>

fun fanned :: "tracker_outcome \<Rightarrow> u64 list" where
  "fanned (FannedOut n) = [n]"
| "fanned _ = []"

lemma unat_Suc_u64: "x \<noteq> - 1 \<Longrightarrow> unat (x + 1 :: u64) = Suc (unat x)"
  by (metis Suc_eq_plus1 add.commute unatSuc word_neq_0_conv add_eq_0_iff2 add.right_neutral minus_unique)

lemma skip_ahead_accounts:
  assumes "skip_ahead cfg te head (t, q) = (t', q')"
  shows "unat (ht_next_block t') = unat (ht_next_block t) + unat (ht_skipped_blocks t' - ht_skipped_blocks t)"
    and "tc_max_blocks_behind cfg = 0 \<Longrightarrow> t' = t"
    and "tc_max_blocks_behind cfg > 0 \<Longrightarrow>
      unat head - unat (ht_next_block t') \<le> unat (tc_max_blocks_behind cfg)"
proof -
  let ?m = "tc_max_blocks_behind cfg"
  show "?m = 0 \<Longrightarrow> t' = t" using assms by (simp add: skip_ahead_def)
  show "?m > 0 \<Longrightarrow> unat head - unat (ht_next_block t') \<le> unat ?m"
    using assms by (auto simp: skip_ahead_def Let_def word_less_nat_alt sat_simps unat_sub word_le_nat_alt
        split: if_splits)
  show "unat (ht_next_block t') = unat (ht_next_block t) + unat (ht_skipped_blocks t' - ht_skipped_blocks t)"
  proof (cases "?m > 0 \<and> sat_sub head (ht_next_block t) > ?m")
    case True
    then have gt: "unat ?m < unat head - unat (ht_next_block t)" by (simp add: word_less_nat_alt sat_simps)
    then have new: "unat (head - ?m) = unat head - unat ?m"
      by (intro unat_sub) (simp add: word_le_nat_alt)
    have "unat (head - ?m - ht_next_block t) = unat (head - ?m) - unat (ht_next_block t)"
      using gt new by (intro unat_sub) (simp add: word_le_nat_alt)
    with gt new True assms show ?thesis by (auto simp: skip_ahead_def Let_def)
  next
    case False
    with assms show ?thesis by (auto simp: skip_ahead_def)
  qed
qed

lemma tracker_iteration_elim:
  assumes "tracker_iteration cfg te (t, q) = Inr (out, t', q')"
  obtains (saturated) head where "te_head te = Inr head" "out = Saturated" "t' = t"
  | (waiting) head q0 q1 where "te_head te = Inr head" "skip_ahead cfg te head (t, q0) = (t', q1)"
      "out = Waiting" "head < ht_next_block t'"
  | (retry) head q0 q1 where "te_head te = Inr head" "skip_ahead cfg te head (t, q0) = (t', q1)"
      "out = RetryBlock (ht_next_block t')" "\<not> head < ht_next_block t'"
  | (fan) head q0 t1 q1 where "te_head te = Inr head" "skip_ahead cfg te head (t, q0) = (t1, q1)"
      "out = FannedOut (ht_next_block t1)" "\<not> head < ht_next_block t1"
      "t' = t1\<lparr>ht_next_block := ht_next_block t1 + 1\<rparr>"
  using assms
  by (auto simp: tracker_iteration_def res_simps Let_def split: if_splits prod.splits sum.splits)

lemma tracker_iteration_facts:
  assumes "tracker_iteration cfg te (t, q) = Inr (out, t', q')" and "te_head te = Inr head" and "head \<noteq> - 1"
  shows "unat (ht_next_block t') = unat (ht_next_block t)
      + unat (ht_skipped_blocks t' - ht_skipped_blocks t) + length (fanned out)
    \<and> (\<forall>n \<in> set (fanned out). n \<le> head \<and> unat (ht_next_block t) \<le> unat n \<and> unat n < unat (ht_next_block t'))
    \<and> (tc_max_blocks_behind cfg = 0 \<longrightarrow> ht_skipped_blocks t' = ht_skipped_blocks t)
    \<and> (out \<noteq> Saturated \<longrightarrow> tc_max_blocks_behind cfg > 0 \<longrightarrow>
        unat head - unat (ht_next_block t') \<le> unat (tc_max_blocks_behind cfg))"
  using assms(1)
proof (cases rule: tracker_iteration_elim)
  case (fan head' q0 t1 q1)
  have h: "head' = head" using fan(1) assms(2) by simp
  note sk = skip_ahead_accounts [OF fan(2)]
  have "ht_next_block t1 \<noteq> - 1"
  proof
    assume "ht_next_block t1 = - 1"
    with fan(4) h have "head = - 1" by (metis not_less word_order.extremum_uniqueI)
    with assms(3) show False by simp
  qed
  then have suc: "unat (ht_next_block t') = Suc (unat (ht_next_block t1))"
    unfolding fan(5) by (simp add: unat_Suc_u64)
  show ?thesis using sk suc fan(3,4,5) h by auto
next
  case (waiting head' q0 q1)
  with skip_ahead_accounts [OF waiting(2)] assms(2) show ?thesis by auto
next
  case (retry head' q0 q1)
  with skip_ahead_accounts [OF retry(2)] assms(2) show ?thesis by auto
qed auto

lemma tracker_iteration_accounts:
  assumes "tracker_iteration cfg te (t, q) = Inr (out, t', q')" and "te_head te = Inr head" and "head \<noteq> - 1"
  shows "unat (ht_next_block t') = unat (ht_next_block t)
      + unat (ht_skipped_blocks t' - ht_skipped_blocks t) + length (fanned out)"
    and "n \<in> set (fanned out) \<Longrightarrow> n \<le> head \<and> unat (ht_next_block t) \<le> unat n \<and> unat n < unat (ht_next_block t')"
    and "tc_max_blocks_behind cfg = 0 \<Longrightarrow> ht_skipped_blocks t' = ht_skipped_blocks t"
    and "out \<noteq> Saturated \<Longrightarrow> tc_max_blocks_behind cfg > 0 \<Longrightarrow>
      unat head - unat (ht_next_block t') \<le> unat (tc_max_blocks_behind cfg)"
  using tracker_iteration_facts [OF assms] by blast+

text \<open>
  A run of the tracker with the blocks it fanned out. Workers and other trackers' pushes may
  change the queue between iterations; the chain's head is below the largest number.
\<close>

inductive tracker_run :: "tracker_config \<Rightarrow> tracker \<Rightarrow> u64 list \<Rightarrow> tracker \<Rightarrow> bool" for cfg where
  tr_nil: "tracker_run cfg t [] t"
| tr_step: "tracker_run cfg t bs t1 \<Longrightarrow> tracker_iteration cfg te (t1, q) = Inr (out, t2, q') \<Longrightarrow>
    te_head te = Inr head \<Longrightarrow> head \<noteq> - 1 \<Longrightarrow> tracker_run cfg t (bs @ fanned out) t2"

lemma fanned_single: "fanned out = [] \<or> (\<exists>n. fanned out = [n])"
  by (cases out) auto

text \<open>
  C11. The tracker accounts for every block: over any run the cursor advances by exactly the
  blocks fanned out, each once and in ascending order, plus the blocks counted as skipped;
  with no lag bound configured none is skipped.
\<close>

theorem tracker_accounts_for_every_block:
  assumes "tracker_run cfg t bs t'"
  shows "\<exists>sk. unat (ht_next_block t') = unat (ht_next_block t) + length bs + sk
    \<and> ht_skipped_blocks t' = ht_skipped_blocks t + of_nat sk
    \<and> sorted_wrt (<) (map unat bs)
    \<and> list_all (\<lambda>n. unat (ht_next_block t) \<le> unat n \<and> unat n < unat (ht_next_block t')) bs
    \<and> (if tc_max_blocks_behind cfg = 0 then sk = 0 else True)"
  using assms
proof (induction rule: tracker_run.induct)
  case (tr_nil t)
  then show ?case by (intro exI [of _ 0]) simp
next
  case (tr_step t bs t1 te q out t2 q' head)
  note it = tracker_iteration_accounts [OF tr_step.hyps(2-4)]
  from tr_step.IH obtain sk where sk: "unat (ht_next_block t1) = unat (ht_next_block t) + length bs + sk"
    "ht_skipped_blocks t1 = ht_skipped_blocks t + of_nat sk" "sorted_wrt (<) (map unat bs)"
    "list_all (\<lambda>n. unat (ht_next_block t) \<le> unat n \<and> unat n < unat (ht_next_block t1)) bs"
    "if tc_max_blocks_behind cfg = 0 then sk = 0 else True" by blast
  let ?d = "unat (ht_skipped_blocks t2 - ht_skipped_blocks t1)"
  have d: "ht_skipped_blocks t2 = ht_skipped_blocks t + of_nat (sk + ?d)"
    using sk(2) by (simp add: algebra_simps)
  have "sorted_wrt (<) (map unat (bs @ fanned out))"
    using sk(3,4) it(2) fanned_single [of out] by (auto simp: sorted_wrt_append list_all_iff)
  moreover have "list_all (\<lambda>n. unat (ht_next_block t) \<le> unat n \<and> unat n < unat (ht_next_block t2)) (bs @ fanned out)"
    using sk(1,4) it(1,2) by (fastforce simp: list_all_iff)
  moreover have "if tc_max_blocks_behind cfg = 0 then sk + ?d = 0 else True"
    using sk(5) it(3) by simp
  ultimately show ?case using sk(1) it(1) d by (intro exI [of _ "sk + ?d"]) simp
qed

text \<open>
  The lag is bounded: with \<open>max_blocks_behind\<close> set, every iteration that is not held back by
  a saturated queue leaves the cursor at most that many blocks behind the head.
\<close>

lemma tracker_lag_bounded:
  assumes "tracker_iteration cfg te (t, q) = Inr (out, t', q')" and "te_head te = Inr head" and "head \<noteq> - 1"
    and "out \<noteq> Saturated" and "tc_max_blocks_behind cfg > 0"
  shows "unat head - unat (ht_next_block t') \<le> unat (tc_max_blocks_behind cfg)"
  using tracker_iteration_accounts(4) [OF assms] .

section \<open>Jobs and attempts\<close>

definition job_ok :: "worker_config \<Rightarrow> analyze_tx_job \<Rightarrow> bool" where
  "job_ok cfg j \<longleftrightarrow> unat (jb_attempt j) < max 1 (unat (wc_max_retries cfg))"

definition dead_ok :: "worker_config \<Rightarrow> dead_job \<Rightarrow> bool" where
  "dead_ok cfg dj \<longleftrightarrow> job_ok cfg (dj_job dj) \<and> unat (wc_max_retries cfg) \<le> unat (jb_attempt (dj_job dj)) + 1"

definition queue_ok :: "worker_config \<Rightarrow> queue \<Rightarrow> bool" where
  "queue_ok cfg q \<longleftrightarrow> list_all (job_ok cfg) (q_pending q) \<and> list_all (dead_ok cfg) (q_dead q)"

lemma job_ok_attempt:
  assumes "job_ok cfg j"
  shows "unat (jb_attempt j + 1) = unat (jb_attempt j) + 1"
proof -
  have "unat (jb_attempt j) < 2 ^ 32 - 1"
    using assms unat_bounded [of "wc_max_retries cfg"] by (simp add: job_ok_def max_def split: if_splits)
  then have "jb_attempt j \<noteq> - 1" using unat_max_u32 by auto
  then show ?thesis by (simp add: unat_Suc_u32)
qed

text \<open>What becomes of the claimed job, whatever fails: the queue after \<open>handle\<close>.\<close>

lemma handle_queue:
  assumes "handle cfg we j (q, d) = (r, q', d')"
  shows "q' = q
    \<or> (jb_attempt j + 1 < wc_max_retries cfg \<and> q' = q\<lparr>q_pending := q_pending q @ [next_attempt j]\<rparr>)
    \<or> (\<not> jb_attempt j + 1 < wc_max_retries cfg
        \<and> (\<exists>e. q' = q\<lparr>q_dead := q_dead q @ [\<lparr>dj_job = j, dj_failed_at = we_now we, dj_reason = e\<rparr>]\<rparr>))"
  using assms
  by (auto simp: handle_def requeue_def enqueue_def dead_letter_def redis_def
      split: sum.splits analyzer_error.splits if_splits option.splits prod.splits)

lemma worker_iteration_elim:
  assumes "worker_iteration cfg we (q, d) = Inr (out, q', d')"
  obtains (idle) "q_pending q = []" "out = Idle" "q' = q" "d' = d"
  | (expired) j js where "q_pending q = j # js" "out = ExpiredJob j" "q_pending q' = js" "q_dead q' = q_dead q" "d' = d"
  | (handled) j js r where "q_pending q = j # js" "out = HandledJob j r"
      "handle cfg we j (q\<lparr>q_pending := js\<rparr>, d) = (r, q', d')"
proof (cases "q_pending q")
  case Nil
  with assms show ?thesis
    by (intro idle) (auto simp: worker_iteration_def claim_def redis_def res_simps split: option.splits)
next
  case (Cons j js)
  show ?thesis
  proof (cases "expired cfg (we_now we) j")
    case True
    with Cons assms show ?thesis
      by (intro expired [of j js])
        (auto simp: worker_iteration_def claim_def redis_def res_simps best_effort_def incr_expired_jobs_def
          split: option.splits)
  next
    case False
    obtain r q1 d1 where h: "handle cfg we j (q\<lparr>q_pending := js\<rparr>, d) = (r, q1, d1)" by (metis prod_cases3)
    with False Cons assms show ?thesis
      by (intro handled [of j js r])
        (auto simp: worker_iteration_def claim_def redis_def res_simps split: option.splits)
  qed
qed

lemma handle_queue_ok:
  assumes "handle cfg we j (q, d) = (r, q', d')" and "queue_ok cfg q" and "job_ok cfg j"
  shows "queue_ok cfg q'"
proof -
  have next_ok: "job_ok cfg (next_attempt j)" if "jb_attempt j + 1 < wc_max_retries cfg"
    using that job_ok_attempt [OF assms(3)] by (simp add: job_ok_def next_attempt_def word_less_nat_alt)
  have dead: "dead_ok cfg \<lparr>dj_job = j, dj_failed_at = t, dj_reason = e\<rparr>"
    if "\<not> jb_attempt j + 1 < wc_max_retries cfg" for t e
    using that assms(3) job_ok_attempt [OF assms(3)] by (simp add: dead_ok_def word_less_nat_alt)
  from handle_queue [OF assms(1)] assms(2) next_ok dead show ?thesis by (auto simp: queue_ok_def)
qed

lemma worker_iteration_queue_ok:
  assumes "worker_iteration cfg we (q, d) = Inr (out, q', d')" and "queue_ok cfg q"
  shows "queue_ok cfg q'"
  using assms(1)
proof (cases rule: worker_iteration_elim)
  case (handled j js r)
  show ?thesis
    by (rule handle_queue_ok [OF handled(3)]) (use handled(1) assms(2) in \<open>simp_all add: queue_ok_def\<close>)
qed (use assms(2) in \<open>auto simp: queue_ok_def\<close>)

section \<open>The queue drains\<close>

definition tries_left :: "worker_config \<Rightarrow> analyze_tx_job \<Rightarrow> nat" where
  "tries_left cfg j = max 1 (unat (wc_max_retries cfg)) - unat (jb_attempt j)"

definition work_left :: "worker_config \<Rightarrow> queue \<Rightarrow> nat" where
  "work_left cfg q = sum_list (map (tries_left cfg) (q_pending q))"

lemma worker_iteration_progress:
  assumes "worker_iteration cfg we (q, d) = Inr (out, q', d')" and "queue_ok cfg q"
  shows "work_left cfg q' \<le> work_left cfg q - 1"
  using assms(1)
proof (cases rule: worker_iteration_elim)
  case idle
  then show ?thesis by (simp add: work_left_def)
next
  case (expired j js)
  then have "job_ok cfg j" using assms(2) by (simp add: queue_ok_def)
  with expired show ?thesis by (simp add: work_left_def tries_left_def job_ok_def)
next
  case (handled j js r)
  then have ok: "job_ok cfg j" using assms(2) by (simp add: queue_ok_def)
  then have pos: "0 < tries_left cfg j" by (simp add: tries_left_def job_ok_def)
  have "tries_left cfg (next_attempt j) \<le> tries_left cfg j - 1"
    using job_ok_attempt [OF ok] by (simp add: tries_left_def next_attempt_def)
  with pos handled(1) handle_queue [OF handled(3)] show ?thesis by (auto simp: work_left_def)
qed

definition worker_runs :: "worker_config \<Rightarrow> worker_env list \<Rightarrow> queue \<times> db \<Rightarrow> queue_error + queue \<times> db" where
  "worker_runs cfg = fold_res (\<lambda>s we. bind_res (worker_iteration cfg we s) (\<lambda>(_, s). Inr s))"

lemma worker_iteration_claims:
  "we_claim_fault we = None \<Longrightarrow> \<exists>out q' d'. worker_iteration cfg we (q, d) = Inr (out, q', d')"
  by (auto simp: worker_iteration_def claim_def redis_def split: list.splits prod.splits)

text \<open>
  C10. The queue drains: when no new block is fanned out, workers that reach Redis empty it within
  as many iterations as its jobs have attempts left, whatever the analyses answer, time out
  with, or fail on.
\<close>

theorem worker_drains_queue:
  assumes "queue_ok cfg q" and "list_all (\<lambda>we. we_claim_fault we = None) envs"
    and "work_left cfg q \<le> length envs"
  shows "\<exists>q' d'. worker_runs cfg envs (q, d) = Inr (q', d') \<and> q_pending q' = []"
  using assms
proof (induction envs arbitrary: q d)
  case Nil
  have "q_pending q = []"
  proof (cases "q_pending q")
    case (Cons j js)
    with Nil have "0 < tries_left cfg j" by (simp add: queue_ok_def job_ok_def tries_left_def)
    with Nil Cons show ?thesis by (simp add: work_left_def)
  qed
  then show ?case by (simp add: worker_runs_def)
next
  case (Cons we envs)
  obtain out q1 d1 where it: "worker_iteration cfg we (q, d) = Inr (out, q1, d1)"
    using worker_iteration_claims Cons.prems(2) by fastforce
  have "queue_ok cfg q1" by (rule worker_iteration_queue_ok [OF it Cons.prems(1)])
  moreover have "work_left cfg q1 \<le> length envs"
    using worker_iteration_progress [OF it Cons.prems(1)] Cons.prems(3) by simp
  ultimately have "\<exists>q' d'. worker_runs cfg envs (q1, d1) = Inr (q', d') \<and> q_pending q' = []"
    using Cons.IH Cons.prems(2) by simp
  with it show ?case by (simp add: worker_runs_def)
qed

section \<open>The service\<close>

text \<open>
  Tracker, workers and every other client of the database, interleaved iteration by iteration
  on the shared queue and database.
\<close>

inductive service_step :: "tracker_config \<Rightarrow> worker_config \<Rightarrow> tracker \<times> queue \<times> db \<Rightarrow> tracker \<times> queue \<times> db \<Rightarrow> bool"
  for tc wc where
  "tracker_iteration tc te (t, q) = Inr (out, t', q') \<Longrightarrow> service_step tc wc (t, q, d) (t', q', d)"
| "worker_iteration wc we (q, d) = Inr (res, q', d') \<Longrightarrow> service_step tc wc (t, q, d) (t, q', d')"
| "store_step True d d' \<Longrightarrow> service_step tc wc (t, q, d) (t, q, d')"

definition empty_queue :: queue where
  "empty_queue = \<lparr>q_pending = [], q_dead = [], q_last_head = None, q_skipped_blocks = 0, q_expired_jobs = 0\<rparr>"

definition service_ok :: "worker_config \<Rightarrow> tracker \<times> queue \<times> db \<Rightarrow> bool" where
  "service_ok wc = (\<lambda>(t, q, d). queue_ok wc q \<and> store_ok d)"

lemma persist_from:
  fixes we rp defines "p \<equiv> resolve (we_hex_encode we) (we_snapshot we) (rp_chain_id rp) (rp_to rp)"
  assumes "persist we rp d = (r, d')"
  obtains (failed) e where "r = Inl e" and "d' = d"
  | (inserted) d1 where "insert_analysis (we_store_faults we) (we_timestamp_ok we) rp (pi_slug p) d = Inr d1"
      and "d' = d1" and "r \<noteq> Inr ()"
  | (registered) d1 d2 where "insert_analysis (we_store_faults we) (we_timestamp_ok we) rp (pi_slug p) d = Inr d1"
      and "upsert_project (we_store_faults we) (we_now we) p d1 = Inr d2" and "d' = d2" and "r \<noteq> Inr ()"
  | (done_) d1 d2 where "insert_analysis (we_store_faults we) (we_timestamp_ok we) rp (pi_slug p) d = Inr d1"
      and "upsert_project (we_store_faults we) (we_now we) p d1 = Inr d2"
      and "upsert_address_project (we_store_faults we) (rp_chain_id rp) (rp_to rp) (pi_slug p) d2 = Inr d'"
proof (cases "insert_analysis (we_store_faults we) (we_timestamp_ok we) rp (pi_slug p) d")
  case (Inl e)
  with assms show ?thesis by (intro failed [of e]) (simp_all add: persist_def Let_def and_then_def)
next
  case d1: (Inr d1)
  show ?thesis
  proof (cases "upsert_project (we_store_faults we) (we_now we) p d1")
    case (Inl e)
    with d1 assms show ?thesis by (intro inserted [of d1]) (auto simp: persist_def Let_def and_then_def)
  next
    case d2: (Inr d2)
    show ?thesis
    proof (cases "upsert_address_project (we_store_faults we) (rp_chain_id rp) (rp_to rp) (pi_slug p) d2")
      case (Inl e)
      with d1 d2 assms show ?thesis by (intro registered [of d1 d2]) (auto simp: persist_def Let_def and_then_def)
    next
      case (Inr d3)
      with d1 d2 assms show ?thesis by (intro done_ [of d1 d2]) (auto simp: persist_def Let_def and_then_def)
    qed
  qed
qed

lemma persist_steps: "persist we rp d = (r, d') \<Longrightarrow> (store_step True)\<^sup>*\<^sup>* d d'"
proof (elim persist_from)
  fix d1 d2
  let ?p = "resolve (we_hex_encode we) (we_snapshot we) (rp_chain_id rp) (rp_to rp)"
  assume a: "insert_analysis (we_store_faults we) (we_timestamp_ok we) rp (pi_slug ?p) d = Inr d1"
    "upsert_project (we_store_faults we) (we_now we) ?p d1 = Inr d2"
    "upsert_address_project (we_store_faults we) (rp_chain_id rp) (rp_to rp) (pi_slug ?p) d2 = Inr d'"
  have "store_step True d d1" "store_step True d1 d2" "store_step True d2 d'"
    using a by (auto intro: store_step.intros(1-3))
  then show ?thesis by (meson r_into_rtranclp rtranclp_trans)
next
  fix d1 d2
  let ?p = "resolve (we_hex_encode we) (we_snapshot we) (rp_chain_id rp) (rp_to rp)"
  assume a: "insert_analysis (we_store_faults we) (we_timestamp_ok we) rp (pi_slug ?p) d = Inr d1"
    "upsert_project (we_store_faults we) (we_now we) ?p d1 = Inr d2" "d' = d2"
  have "store_step True d d1" "store_step True d1 d2" using a by (auto intro: store_step.intros(1-2))
  with a(3) show ?thesis by (meson r_into_rtranclp rtranclp_trans)
qed (auto intro: store_step.intros(1))

lemma handle_steps: "handle cfg we j (q, d) = (r, q', d') \<Longrightarrow> (store_step True)\<^sup>*\<^sup>* d d'"
  by (auto simp: handle_def split: sum.splits analyzer_error.splits if_splits option.splits prod.splits
      dest: persist_steps)

lemma worker_iteration_store_ok:
  assumes "worker_iteration cfg we (q, d) = Inr (out, q', d')" and "store_ok d"
  shows "store_ok d'"
  using assms(1)
proof (cases rule: worker_iteration_elim)
  case (handled j js r)
  show ?thesis by (rule st.steps_inv [OF handle_steps [OF handled(3)] assms(2)])
qed (use assms(2) in auto)

lemma enqueue_txs_ok:
  "queue_ok wc q \<Longrightarrow> enqueue_txs cfg te n idx txs q = (r, q') \<Longrightarrow> queue_ok wc q'"
proof (induction cfg te n idx txs q arbitrary: r q' rule: enqueue_txs.induct)
  case (2 cfg te n idx hash dest txs q)
  show ?case
  proof (cases "dest = None \<or> te_enqueue_fault te idx \<noteq> None")
    case True
    then show ?thesis using 2 by (auto simp: enqueue_def redis_def split: if_splits)
  next
    case False
    then have d: "dest \<noteq> None" "te_enqueue_fault te idx = None" by auto
    let ?j = "\<lparr>jb_chain_id = tc_chain_id cfg, jb_tx_hash = hash, jb_block_number = n,
                 jb_tx_index = of_nat idx, jb_attempt = 0, jb_enqueued_at = te_now te\<rparr>"
    have enq: "enqueue (te_enqueue_fault te idx) ?j q = Inr (q\<lparr>q_pending := q_pending q @ [?j]\<rparr>)"
      using d(2) by (simp add: enqueue_def redis_def)
    have "queue_ok wc (q\<lparr>q_pending := q_pending q @ [?j]\<rparr>)"
      using "2.prems"(1) by (simp add: queue_ok_def job_ok_def)
    moreover have "enqueue_txs cfg te n (idx + 1) txs (q\<lparr>q_pending := q_pending q @ [?j]\<rparr>) = (r, q')"
      using "2.prems"(2) d enq by simp
    ultimately show ?thesis by (rule "2.IH"(2) [OF d(1) enq])
  qed
qed simp

lemma enqueue_block_ok: "queue_ok wc q \<Longrightarrow> enqueue_block cfg te n q = (r, q') \<Longrightarrow> queue_ok wc q'"
  by (auto simp: enqueue_block_def split: sum.splits option.splits intro: enqueue_txs_ok)

lemma tracker_iteration_queue_ok:
  assumes "tracker_iteration cfg te (t, q) = Inr (out, t', q')" and "queue_ok wc q"
  shows "queue_ok wc q'"
proof -
  have best: "queue_ok wc (best_effort q0 (publish_last_head flt n q0))"
    "queue_ok wc (best_effort q0 (incr_skipped_blocks flt n q0))" if "queue_ok wc q0" for q0 flt n
    using that by (auto simp: best_effort_def publish_last_head_def incr_skipped_blocks_def redis_def queue_ok_def
        split: option.splits)
  have skip: "queue_ok wc q1" if "skip_ahead cfg te head (t, q0) = (t1, q1)" "queue_ok wc q0" for head q0 t1 q1
    using that best(2) by (auto simp: skip_ahead_def Let_def split: if_splits)
  have fan: "queue_ok wc q2"
    if "enqueue_block cfg te n q1 = (r, q2)"
      "skip_ahead cfg te head (t, best_effort q (publish_last_head flt k q)) = (t1, q1)" for head flt k t1 q1 n r q2
    using that skip best(1) assms(2) enqueue_block_ok by blast
  show ?thesis
    using assms
    by (auto simp: tracker_iteration_def res_simps Let_def split: if_splits prod.splits sum.splits
        intro: best(1) skip fan)
qed

lemma service_step_ok: "service_step tc wc s s' \<Longrightarrow> service_ok wc s \<Longrightarrow> service_ok wc s'"
  by (induction rule: service_step.induct)
    (auto simp: service_ok_def intro: tracker_iteration_queue_ok worker_iteration_queue_ok
      worker_iteration_store_ok store_step_ok)

interpretation sv: invariant_system "\<lambda>s. \<exists>head. s = (tracker_start head, empty_queue, empty_db)"
  "service_step tc wc" "service_ok wc" for tc wc
proof unfold_locales
  show "\<exists>head. s = (tracker_start head, empty_queue, empty_db) \<Longrightarrow> service_ok wc s" for s
    by (auto simp: service_ok_def queue_ok_def empty_queue_def empty_db_ok)
qed (rule service_step_ok)

text \<open>
  C9. The service keeps its invariants: from a fresh start, however the tracker, the workers and
  the other clients of the database interleave and whatever fails, no queued job has used up
  its attempts, every dead-lettered job has, and the database is consistent.
\<close>

theorem service_invariant:
  assumes "(service_step tc wc)\<^sup>*\<^sup>* (tracker_start head, empty_queue, empty_db) (t, q, d)"
  shows "queue_ok wc q \<and> store_ok d"
proof -
  have "service_ok wc (t, q, d)" by (rule sv.reachable_inv [OF _ assms]) blast
  then show ?thesis by (simp add: service_ok_def)
qed

section \<open>Where jobs and labels are lost\<close>

text \<open>
  C38. A worker overwrites an automatic label: when a report names an address the worker's own
  resolver does not know, persisting it replaces the project the labeler or the refresher
  found for that address by the synthetic unknown one, and a later relabelling no longer
  reaches its rows.
\<close>

theorem worker_replaces_automatic_label:
  assumes "db_address_project d (as_i64 (rp_chain_id rp), rp_to rp) = Some (slug, False)"
    and "rs_addresses (we_snapshot we) (rp_chain_id rp, rp_to rp) = None"
    and "persist we rp d = (Inr (), d')"
  shows "db_address_project d' (as_i64 (rp_chain_id rp), rp_to rp)
      = Some (''unknown:0x'' @ we_hex_encode we (rp_to rp), False)
    \<and> list_all (\<lambda>r. if ar_chain_id r = as_i64 (rp_chain_id rp) \<and> ar_to_address r = rp_to rp
                     then relabel_target d' r = None else True) (db_analysis d')"
proof -
  let ?p = "unknown_project (we_hex_encode we) (rp_to rp)"
  have res: "resolve (we_hex_encode we) (we_snapshot we) (rp_chain_id rp) (rp_to rp) = ?p"
    using assms(2) by (simp add: resolve_def)
  obtain d1 d2 where d1: "insert_analysis (we_store_faults we) (we_timestamp_ok we) rp (pi_slug ?p) d = Inr d1"
    and d2: "upsert_project (we_store_faults we) (we_now we) ?p d1 = Inr d2"
    and d3: "upsert_address_project (we_store_faults we) (rp_chain_id rp) (rp_to rp) (pi_slug ?p) d2 = Inr d'"
    by (rule persist_from [OF assms(3), unfolded res]) auto
  have same: "db_address_project d2 = db_address_project d"
    using d1 d2 by (auto simp: insert_analysis_def upsert_project_def res_simps split: if_splits)
  have "db_address_project d' (as_i64 (rp_chain_id rp), rp_to rp) = Some (pi_slug ?p, False)"
    using d3 assms(1) by (auto simp: upsert_address_project_def res_simps same)
  then show ?thesis
    by (auto simp: unknown_project_def relabel_target_def is_unknown_def starts_with_def list_all_iff
        split: option.splits)
qed

text \<open>
  C39. A database failure loses the job: when the analysis succeeds and recording it fails, the
  worker goes on with the job in neither list and nothing recorded, so it is never retried.
\<close>

theorem store_failure_loses_job:
  assumes "q_pending q = j # js" and "we_claim_fault we = None" and "\<not> expired cfg (we_now we) j"
    and "we_analyze we (jb_tx_hash j) = Some (Inr rp)" and "we_timestamp_ok we (as_i64 (rp_block_timestamp rp))"
    and "we_store_faults we ''insert_analysis'' = Some e"
  shows "worker_iteration cfg we (q, d) = Inr (HandledJob j (Inl (StoreFailed (SqlxError e))), q\<lparr>q_pending := js\<rparr>, d)"
  using assms
  by (simp add: worker_iteration_def claim_def redis_def handle_def persist_def and_then_def insert_analysis_def
      exec_sql_def Let_def)

section \<open>A sample run\<close>

definition sample_tc :: tracker_config where
  "sample_tc = \<lparr>tc_chain_id = 1, tc_max_queue_depth = 100, tc_max_blocks_behind = 3\<rparr>"

definition sample_te :: tracker_env where
  "sample_te = \<lparr>te_now = 1700000000, te_head = Inr 20, te_publish_fault = None, te_depth_fault = None,
     te_skip_fault = None, te_block = (\<lambda>_. Inr (Some [(42, Some 170), (43, None)])),
     te_enqueue_fault = (\<lambda>_. None)\<rparr>"

definition sample_job :: analyze_tx_job where
  "sample_job = \<lparr>jb_chain_id = 1, jb_tx_hash = 42, jb_block_number = 17, jb_tx_index = 0, jb_attempt = 0,
     jb_enqueued_at = 1700000000\<rparr>"

definition sample_queue :: queue where
  "sample_queue = empty_queue\<lparr>q_pending := [sample_job], q_last_head := Some 20, q_skipped_blocks := 12\<rparr>"

lemma sample_fan_out:
  "tracker_iteration sample_tc sample_te (\<lparr>ht_next_block = 5, ht_skipped_blocks = 0\<rparr>, empty_queue)
     = Inr (FannedOut 17, \<lparr>ht_next_block = 18, ht_skipped_blocks = 12\<rparr>, sample_queue)"
  by (simp add: tracker_iteration_def sample_tc_def sample_te_def best_effort_def publish_last_head_def redis_def
      empty_queue_def queue_depth_def skip_ahead_def sat_sub_def incr_skipped_blocks_def enqueue_block_def
      enqueue_def sample_queue_def sample_job_def)

definition sample_wc :: worker_config where
  "sample_wc = \<lparr>wc_max_retries = 2, wc_queue_job_ttl_secs = 0, wc_analyze_timeout_secs = 60\<rparr>"

definition sample_we :: "faults \<Rightarrow> (analyzer_error + analysis_report) option \<Rightarrow> worker_env" where
  "sample_we flt r = \<lparr>we_now = 1700000100, we_claim_fault = None, we_expired_fault = None, we_requeue_fault = None,
     we_dead_fault = None, we_store_faults = flt, we_timestamp_ok = (\<lambda>_. True), we_hex_encode = (\<lambda>_. ''aa''),
     we_snapshot = empty_snapshot, we_analyze = (\<lambda>_. r)\<rparr>"

theorem tracker_accounts_for_every_block_witness:
  "tracker_run sample_tc \<lparr>ht_next_block = 5, ht_skipped_blocks = 0\<rparr> [17] \<lparr>ht_next_block = 18, ht_skipped_blocks = 12\<rparr>
   \<and> (\<exists>sk. (18 :: nat) = 5 + 1 + sk)"
proof -
  have "tracker_run sample_tc \<lparr>ht_next_block = 5, ht_skipped_blocks = 0\<rparr> ([] @ fanned (FannedOut 17))
      \<lparr>ht_next_block = 18, ht_skipped_blocks = 12\<rparr>"
    by (rule tr_step [OF tr_nil sample_fan_out, of 20]) (simp_all add: sample_te_def)
  then have run: "tracker_run sample_tc \<lparr>ht_next_block = 5, ht_skipped_blocks = 0\<rparr> [17]
      \<lparr>ht_next_block = 18, ht_skipped_blocks = 12\<rparr>" by simp
  from tracker_accounts_for_every_block [OF run] run show ?thesis by auto
qed

theorem worker_drains_queue_witness:
  "\<exists>q' d'. worker_runs sample_wc [sample_we (\<lambda>_. None) None, sample_we (\<lambda>_. None) None] (sample_queue, empty_db)
     = Inr (q', d') \<and> q_pending q' = []"
proof (rule worker_drains_queue)
  show "queue_ok sample_wc sample_queue"
    by (simp add: queue_ok_def sample_queue_def job_ok_def sample_job_def sample_wc_def empty_queue_def)
  show "list_all (\<lambda>we. we_claim_fault we = None) [sample_we (\<lambda>_. None) None, sample_we (\<lambda>_. None) None]"
    by (simp add: sample_we_def)
  show "work_left sample_wc sample_queue \<le> length [sample_we (\<lambda>_. None) None, sample_we (\<lambda>_. None) None]"
    by (simp add: work_left_def tries_left_def sample_queue_def sample_job_def sample_wc_def)
qed

theorem service_invariant_witness:
  "tracker_iteration sample_tc (sample_te\<lparr>te_head := Inr 5\<rparr>) (tracker_start 4, empty_queue)
     = Inr (FannedOut 5, \<lparr>ht_next_block = 6, ht_skipped_blocks = 0\<rparr>, empty_queue\<lparr>q_pending :=
         [sample_job\<lparr>jb_block_number := 5\<rparr>], q_last_head := Some 5\<rparr>)
   \<and> queue_ok sample_wc (empty_queue\<lparr>q_pending := [sample_job\<lparr>jb_block_number := 5\<rparr>], q_last_head := Some 5\<rparr>)"
proof -
  have it: "tracker_iteration sample_tc (sample_te\<lparr>te_head := Inr 5\<rparr>) (tracker_start 4, empty_queue)
     = Inr (FannedOut 5, \<lparr>ht_next_block = 6, ht_skipped_blocks = 0\<rparr>, empty_queue\<lparr>q_pending :=
         [sample_job\<lparr>jb_block_number := 5\<rparr>], q_last_head := Some 5\<rparr>)"
    by (simp add: tracker_iteration_def sample_tc_def sample_te_def best_effort_def publish_last_head_def redis_def
        empty_queue_def queue_depth_def skip_ahead_def sat_sub_def tracker_start_def enqueue_block_def
        enqueue_def sample_job_def)
  have "(service_step sample_tc sample_wc)\<^sup>*\<^sup>* (tracker_start 4, empty_queue, empty_db)
      (\<lparr>ht_next_block = 6, ht_skipped_blocks = 0\<rparr>,
       empty_queue\<lparr>q_pending := [sample_job\<lparr>jb_block_number := 5\<rparr>], q_last_head := Some 5\<rparr>, empty_db)"
    by (rule r_into_rtranclp) (rule service_step.intros(1) [OF it])
  from service_invariant [OF this] it show ?thesis by blast
qed

theorem worker_replaces_automatic_label_witness:
  "\<exists>d'. persist (sample_we (\<lambda>_. None) None) sample_report (labelled_db False) = (Inr (), d')
     \<and> db_address_project d' (1, 170) = Some (''unknown:0xaa'', False)"
proof -
  have key: "as_i64 (rp_chain_id sample_report) = 1" "rp_to sample_report = 170" "rp_chain_id sample_report = 1"
    by (simp_all add: as_i64_def sample_report_def)
  obtain d' where d': "persist (sample_we (\<lambda>_. None) None) sample_report (labelled_db False) = (Inr (), d')"
    by (simp add: persist_def and_then_def sample_we_def insert_analysis_def upsert_project_def
        upsert_address_project_def exec_sql_def require_project_def resolve_def empty_snapshot_def labelled_db_def
        key as_i64_def unknown_project_def Let_def)
  have lab: "db_address_project (labelled_db False) (as_i64 (rp_chain_id sample_report), rp_to sample_report)
      = Some (''dex'', False)"
    by (simp add: labelled_db_def key as_i64_def)
  have "rs_addresses (we_snapshot (sample_we (\<lambda>_. None) None)) (rp_chain_id sample_report, rp_to sample_report) = None"
    by (simp add: sample_we_def empty_snapshot_def)
  from worker_replaces_automatic_label [OF lab this d'] d' show ?thesis
    by (simp add: key sample_we_def as_i64_def)
qed

theorem store_failure_loses_job_witness:
  "worker_iteration sample_wc (sample_we (\<lambda>_. Some ''down'') (Some (Inr sample_report))) (sample_queue, empty_db)
     = Inr (HandledJob sample_job (Inl (StoreFailed (SqlxError ''down''))), sample_queue\<lparr>q_pending := []\<rparr>, empty_db)"
  by (rule store_failure_loses_job)
    (simp_all add: sample_queue_def sample_we_def expired_def age_secs_def sample_job_def sample_wc_def as_i64_def)

end
