(* ===== verification/Labeler.thy ===== *)
theory Labeler
  imports Job_Queue
begin

text \<open>
  The background tasks that give addresses their projects: the name dictionary of
  \<^verbatim>\<open>crates/indexer-resolver/src/etherscan.rs\<close>, the auto-labeler (\<^verbatim>\<open>labeler.rs\<close>), the resolver
  refresh (\<^verbatim>\<open>refresher.rs\<close>) and the selector resolver (\<^verbatim>\<open>fourbyte_resolver.rs\<close>) of
  \<^verbatim>\<open>crates/indexer-service/src\<close>. The HTTP clients' answers are arguments. Characters are read as
  ASCII.
\<close>

section \<open>Contract names\<close>

datatype contract_meta = Verified string bool "address option" | Unverified

definition is_upper :: "char \<Rightarrow> bool" where
  "is_upper c \<longleftrightarrow> of_char c \<ge> (65 :: nat) \<and> of_char c \<le> (90 :: nat)"

definition is_lower :: "char \<Rightarrow> bool" where
  "is_lower c \<longleftrightarrow> of_char c \<ge> (97 :: nat) \<and> of_char c \<le> (122 :: nat)"

definition is_digit :: "char \<Rightarrow> bool" where
  "is_digit c \<longleftrightarrow> of_char c \<ge> (48 :: nat) \<and> of_char c \<le> (57 :: nat)"

fun dash_words :: "char option \<Rightarrow> string \<Rightarrow> string" where
  "dash_words prev [] = []"
| "dash_words prev (c # cs) =
     (if is_upper c \<and> (case prev of None \<Rightarrow> False | Some p \<Rightarrow> is_lower p \<or> is_digit p) then ''-'' else [])
     @ to_lowercase_char c # dash_words (Some c) cs"

definition normalize_name :: "string \<Rightarrow> string" where
  "normalize_name s = map (\<lambda>c. if c = CHR ''_'' \<or> c = CHR '' '' then CHR ''-'' else c) (dash_words None s)"

definition strip_suffix :: "string \<Rightarrow> string \<Rightarrow> string option" where
  "strip_suffix suf s =
     (if length suf \<le> length s \<and> drop (length s - length suf) s = suf
      then Some (take (length s - length suf) s) else None)"

definition SUFFIXES :: "string list" where
  "SUFFIXES = [''-router02'', ''-routerv2'', ''-router'', ''-implementation'', ''-proxy'', ''-token'',
     ''-v4'', ''-v3'', ''-v2'', ''-v1'']"

fun strip_first :: "string list \<Rightarrow> string \<Rightarrow> string" where
  "strip_first [] s = s"
| "strip_first (suf # sufs) s = (case strip_suffix suf s of Some t \<Rightarrow> t | None \<Rightarrow> strip_first sufs s)"

definition strip_one_suffix :: "string \<Rightarrow> string" where
  "strip_one_suffix s = strip_first SUFFIXES s"

type_synonym name_dict = "string \<rightharpoonup> string"

definition dict_of :: "(string \<times> string) list \<Rightarrow> name_dict" where
  "dict_of entries = fold (\<lambda>(name, slug) m. m(normalize_name name \<mapsto> slug)) entries Map.empty"

fun lookup_stripped :: "name_dict \<Rightarrow> nat \<Rightarrow> string \<Rightarrow> string option" where
  "lookup_stripped m 0 s = None"
| "lookup_stripped m (Suc n) s =
     (let trimmed = strip_one_suffix s
      in if trimmed = s then None
         else (case m trimmed of Some slug \<Rightarrow> Some slug | None \<Rightarrow> lookup_stripped m n trimmed))"

definition lookup_name :: "name_dict \<Rightarrow> string \<Rightarrow> string option" where
  "lookup_name m name =
     (let normalized = normalize_name name
      in case m normalized of Some slug \<Rightarrow> Some slug | None \<Rightarrow> lookup_stripped m 4 normalized)"

section \<open>The labeler\<close>

record labeler_env =
  le_now :: int
  le_chain_id :: u64
  le_faults :: faults
  le_etherscan :: "address \<Rightarrow> resolver_error + contract_meta"
  le_blockscout :: "(address \<Rightarrow> resolver_error + contract_meta) option"
  le_names :: name_dict

text \<open>\<open>let _ = store.upsert_label_attempt(..)\<close>: a failure to record is dropped.\<close>

definition record_attempt :: "labeler_env \<Rightarrow> address \<Rightarrow> string \<Rightarrow> string option \<Rightarrow> string option \<Rightarrow> db \<Rightarrow> db" where
  "record_attempt le a result name slug d =
     (case upsert_label_attempt (le_faults le) (le_now le) (le_chain_id le) a result name slug d of
        Inr d' \<Rightarrow> d' | Inl _ \<Rightarrow> d)"

definition blockscout_meta :: "labeler_env \<Rightarrow> address \<Rightarrow> contract_meta option" where
  "blockscout_meta le a =
     (case le_blockscout le of
        None \<Rightarrow> None
      | Some bs \<Rightarrow> (case bs a of Inr m \<Rightarrow> Some m | Inl _ \<Rightarrow> None))"

definition fetch_meta :: "labeler_env \<Rightarrow> address \<Rightarrow> contract_meta option" where
  "fetch_meta le a = (case le_etherscan le a of Inr m \<Rightarrow> Some m | Inl _ \<Rightarrow> blockscout_meta le a)"

definition verified_name :: "labeler_env \<Rightarrow> address \<Rightarrow> contract_meta \<Rightarrow> string option" where
  "verified_name le a m =
     (case m of
        Verified name _ _ \<Rightarrow> Some name
      | Unverified \<Rightarrow> (case blockscout_meta le a of Some (Verified name _ _) \<Rightarrow> Some name | _ \<Rightarrow> None))"

definition label_address :: "labeler_env \<Rightarrow> address \<Rightarrow> string \<Rightarrow> string \<Rightarrow> db \<Rightarrow> db" where
  "label_address le a name slug d =
     (case upsert_project (le_faults le) (le_now le)
             \<lparr>pi_slug = slug, pi_name = name, pi_category = None, pi_contact_email = None, pi_contact_url = None\<rparr> d of
        Inl _ \<Rightarrow> record_attempt le a ''error'' (Some name) (Some slug) d
      | Inr d \<Rightarrow>
          (case upsert_address_project (le_faults le) (le_chain_id le) a slug d of
             Inl _ \<Rightarrow> record_attempt le a ''error'' (Some name) (Some slug) d
           | Inr d \<Rightarrow>
               record_attempt le a ''matched'' (Some name) (Some slug)
                 (case relabel_unknowns (le_faults le) d of Inr (_, d') \<Rightarrow> d' | Inl _ \<Rightarrow> d)))"

definition process_address :: "labeler_env \<Rightarrow> address \<Rightarrow> db \<Rightarrow> db" where
  "process_address le a d =
     (case fetch_meta le a of
        None \<Rightarrow> record_attempt le a ''error'' None None d
      | Some meta \<Rightarrow>
          (case verified_name le a meta of
             None \<Rightarrow> record_attempt le a ''unverified'' None None d
           | Some name \<Rightarrow>
               (case lookup_name (le_names le) name of
                  None \<Rightarrow> record_attempt le a ''no-match'' (Some name) None d
                | Some slug \<Rightarrow> label_address le a name slug d)))"

definition parse_addr_member :: "(string \<Rightarrow> bytes option) \<Rightarrow> string \<Rightarrow> address option" where
  "parse_addr_member hex_decode member =
     (case hex_decode member of
        None \<Rightarrow> None
      | Some bs \<Rightarrow> if length bs \<noteq> 20 then None else Some (word_rcat bs))"

section \<open>Refreshing the store\<close>

record refresh_outcome =
  ro_projects :: nat
  ro_addresses :: nat
  ro_relabeled :: nat

text \<open>
  The two loops over the snapshot, in the order its hash maps yield their entries: each failed
  upsert is skipped, each successful one counted.
\<close>

definition upsert_all :: "('x \<Rightarrow> db \<Rightarrow> store_error + db) \<Rightarrow> 'x list \<Rightarrow> db \<Rightarrow> nat \<times> db" where
  "upsert_all f xs d =
     fold (\<lambda>x (n, d). case f x d of Inr d' \<Rightarrow> (n + 1, d') | Inl _ \<Rightarrow> (n, d)) xs (0, d)"

definition persist_snapshot :: "faults \<Rightarrow> int \<Rightarrow> project_info list \<Rightarrow> ((u64 \<times> address) \<times> project_info) list \<Rightarrow>
    db \<Rightarrow> refresh_outcome \<times> db" where
  "persist_snapshot flt now ps addrs d =
     (let (np, d) = upsert_all (upsert_project flt now) ps d;
          (na, d) = upsert_all (\<lambda>((c, a), i). upsert_address_project flt c a (pi_slug i)) addrs d;
          (nr, d) = (case relabel_unknowns flt d of Inr (n, d') \<Rightarrow> (n, d') | Inl _ \<Rightarrow> (0, d))
      in (\<lparr>ro_projects = np, ro_addresses = na, ro_relabeled = nr\<rparr>, d))"

definition refresh_resolver_with :: "(string \<Rightarrow> bytes option) \<Rightarrow> faults \<Rightarrow> int \<Rightarrow>
    (resolver_snapshot \<Rightarrow> project_info list \<times> ((u64 \<times> address) \<times> project_info) list) \<Rightarrow>
    (resolver_error + overlay_entry list) option \<Rightarrow> (resolver_error + defillama_protocol list) option \<Rightarrow>
    resolver_snapshot \<times> db \<Rightarrow> refresh_outcome \<times> resolver_snapshot \<times> db" where
  "refresh_resolver_with hex_decode flt now entries overlay defillama = (\<lambda>(sn, d).
     case refresh hex_decode overlay defillama sn of
       (Inl _, sn) \<Rightarrow> (\<lparr>ro_projects = 0, ro_addresses = 0, ro_relabeled = 0\<rparr>, sn, d)
     | (Inr _, sn) \<Rightarrow>
         (case persist_snapshot flt now (fst (entries sn)) (snd (entries sn)) d of (ro, d) \<Rightarrow> (ro, sn, d)))"

section \<open>Selectors\<close>

record resolved_selector =
  rv_selector :: bytes
  rv_primary_name :: string
  rv_primary_sig :: string
  rv_all_signatures :: "string list"

definition resolve_selector :: "faults \<Rightarrow> int \<Rightarrow> (bytes \<Rightarrow> resolver_error + resolved_selector option) \<Rightarrow> bytes \<Rightarrow> db \<Rightarrow> db" where
  "resolve_selector flt now lookup sel d =
     (case lookup sel of
        Inr (Some r) \<Rightarrow>
          (case upsert_function_selector flt now (rv_selector r) (Some (rv_primary_name r)) (Some (rv_primary_sig r))
                  (rv_all_signatures r) ''fourbyte'' d of Inr d' \<Rightarrow> d' | Inl _ \<Rightarrow> d)
      | Inr None \<Rightarrow>
          (case upsert_function_selector flt now sel None None [] ''unresolved'' d of Inr d' \<Rightarrow> d' | Inl _ \<Rightarrow> d)
      | Inl _ \<Rightarrow> d)"

definition fourbyte_run_once :: "faults \<Rightarrow> int \<Rightarrow> u64 \<Rightarrow> nat \<Rightarrow> (bytes \<Rightarrow> resolver_error + resolved_selector option) \<Rightarrow>
    db \<Rightarrow> store_error + db" where
  "fourbyte_run_once flt now chain_id batch_size lookup d =
     bind_res (unresolved_selectors flt chain_id batch_size d) (\<lambda>sels.
     Inr (fold (resolve_selector flt now lookup) sels d))"

section \<open>What a labelling attempt leaves\<close>

text \<open>The project the sources and the dictionary give an address.\<close>

definition label_found :: "labeler_env \<Rightarrow> address \<Rightarrow> string option" where
  "label_found le a =
     (case fetch_meta le a of
        None \<Rightarrow> None
      | Some meta \<Rightarrow> (case verified_name le a meta of None \<Rightarrow> None | Some name \<Rightarrow> lookup_name (le_names le) name))"

lemma record_attempt_ok:
  assumes "le_faults le = (\<lambda>_. None)"
  shows "\<exists>l. db_label_attempts (record_attempt le a res name slug d) (as_i64 (le_chain_id le), a) = Some l
      \<and> la_last_result l = res \<and> la_last_attempted_at l = le_now le"
    and "db_address_project (record_attempt le a res name slug d) = db_address_project d"
    and "db_analysis (record_attempt le a res name slug d) = db_analysis d"
  using assms by (simp_all add: record_attempt_def upsert_label_attempt_def exec_sql_def)

lemma label_address_from:
  assumes "le_faults le = (\<lambda>_. None)"
  obtains d1 where "label_address le a name slug d = record_attempt le a ''matched'' (Some name) (Some slug) d1"
    and "list_all (\<lambda>r. relabel_target d1 r = None) (db_analysis d1)"
    and "db_address_project d1 (as_i64 (le_chain_id le), a)
      = (case db_address_project d (as_i64 (le_chain_id le), a) of
           Some (s, True) \<Rightarrow> Some (s, True) | _ \<Rightarrow> Some (slug, False))"
proof -
  let ?k = "(as_i64 (le_chain_id le), a)"
  obtain d1 where d1: "upsert_project (le_faults le) (le_now le)
      \<lparr>pi_slug = slug, pi_name = name, pi_category = None, pi_contact_email = None, pi_contact_url = None\<rparr> d = Inr d1"
    and d1': "db_projects d1 slug \<noteq> None" "db_address_project d1 = db_address_project d"
    by (simp add: upsert_project_def exec_sql_def assms)
  have "\<exists>d2. upsert_address_project (le_faults le) (le_chain_id le) a slug d1 = Inr d2
      \<and> db_address_project d2 ?k = (case db_address_project d ?k of
           Some (s, True) \<Rightarrow> Some (s, True) | _ \<Rightarrow> Some (slug, False))"
  proof (cases "\<exists>s. db_address_project d ?k = Some (s, True)")
    case True
    with d1' show ?thesis by (auto simp: upsert_address_project_def exec_sql_def assms)
  next
    case False
    with d1' show ?thesis
      by (auto simp: upsert_address_project_def exec_sql_def assms require_project_def
          split: option.splits bool.splits)
  qed
  then obtain d2 where d2: "upsert_address_project (le_faults le) (le_chain_id le) a slug d1 = Inr d2"
    and d2': "db_address_project d2 ?k = (case db_address_project d ?k of
           Some (s, True) \<Rightarrow> Some (s, True) | _ \<Rightarrow> Some (slug, False))" by blast
  define d3 where "d3 = d2\<lparr>db_analysis := map (relabelled d2) (db_analysis d2)\<rparr>"
  have d3: "relabel_unknowns (le_faults le) d2
      = Inr (length (filter (\<lambda>r. relabel_target d2 r \<noteq> None) (db_analysis d2)), d3)"
    by (simp add: relabel_unknowns_def exec_sql_def assms d3_def relabelled_def cong: map_cong)
  have t: "relabel_target d3 r = relabel_target d2 r" for r by (rule relabel_target_db) (simp add: d3_def)
  show thesis
  proof (rule that [of d3])
    show "label_address le a name slug d = record_attempt le a ''matched'' (Some name) (Some slug) d3"
      by (simp add: label_address_def d1 d2 d3)
    show "list_all (\<lambda>r. relabel_target d3 r = None) (db_analysis d3)"
      unfolding t by (simp add: d3_def list_all_iff relabelled_settled)
    show "db_address_project d3 ?k = (case db_address_project d ?k of
           Some (s, True) \<Rightarrow> Some (s, True) | _ \<Rightarrow> Some (slug, False))"
      using d2' by (simp add: d3_def)
  qed
qed

text \<open>
  A labelling attempt is recorded and effective: while the database answers, processing an
  address logs one attempt, \<open>matched\<close> exactly when the sources and the dictionary give a
  project; then the address maps to it unless a human mapped it before, and no recorded
  analysis that the mappings can label stays unknown. Otherwise no label and no analysis
  changes.
\<close>

lemma process_address_outcome:
  fixes le a d defines "d' \<equiv> process_address le a d" and "k \<equiv> (as_i64 (le_chain_id le), a)"
  assumes "le_faults le = (\<lambda>_. None)"
  shows "(\<exists>l. db_label_attempts d' k = Some l \<and> la_last_attempted_at l = le_now le
      \<and> (la_last_result l = ''matched'' \<longleftrightarrow> label_found le a \<noteq> None))
    \<and> (case label_found le a of
         None \<Rightarrow> db_address_project d' = db_address_project d \<and> db_analysis d' = db_analysis d
       | Some slug \<Rightarrow>
           db_address_project d' k = (case db_address_project d k of
               Some (s, True) \<Rightarrow> Some (s, True) | _ \<Rightarrow> Some (slug, False))
         \<and> list_all (\<lambda>r. relabel_target d' r = None) (db_analysis d'))"
proof (cases "label_found le a")
  case None
  then obtain res name where "d' = record_attempt le a res name None d" "res \<noteq> ''matched''"
    by (auto simp: d'_def process_address_def label_found_def split: option.splits)
  with None record_attempt_ok [OF assms(3)] show ?thesis unfolding k_def by fastforce
next
  case (Some slug)
  then obtain name where d': "d' = label_address le a name slug d"
    by (auto simp: d'_def process_address_def label_found_def split: option.splits)
  obtain d1 where d1: "label_address le a name slug d = record_attempt le a ''matched'' (Some name) (Some slug) d1"
    "list_all (\<lambda>r. relabel_target d1 r = None) (db_analysis d1)"
    "db_address_project d1 k = (case db_address_project d k of Some (s, True) \<Rightarrow> Some (s, True) | _ \<Rightarrow> Some (slug, False))"
    using label_address_from [OF assms(3)] unfolding k_def by blast
  note rec = record_attempt_ok [OF assms(3), of a "''matched''" "Some name" "Some slug" d1]
  have t: "relabel_target d' r = relabel_target d1 r" for r
    unfolding d' d1(1) by (rule relabel_target_db) (rule rec(2))
  have "list_all (\<lambda>r. relabel_target d' r = None) (db_analysis d')"
    unfolding t using d1(2) rec(3) by (simp add: d' d1(1))
  with Some rec d1(3) show ?thesis unfolding d' d1(1) k_def by auto
qed

definition sample_le :: labeler_env where
  "sample_le = \<lparr>le_now = 8, le_chain_id = 1, le_faults = (\<lambda>_. None),
     le_etherscan = (\<lambda>_. Inr (Verified ''DexRouter02'' False None)), le_blockscout = None,
     le_names = [''dex'' \<mapsto> ''dex'']\<rparr>"

lemma sample_label: "label_found sample_le a = Some ''dex''"
  by (simp add: label_found_def fetch_meta_def verified_name_def sample_le_def) code_simp

end
