(* ===== verification/Refresher.thy ===== *)
theory Refresher
  imports Labeler Std_Text "HOL-Library.List_Lexorder" "HOL-Library.Char_ord" "HOL-Library.Multiset"
begin

text \<open>
  The rest of the background tasks of \<^verbatim>\<open>crates/indexer-service/src\<close>: the priority queue between the
  labeler's producer and consumer (\<^verbatim>\<open>labeler.rs\<close>), and the ETH price snapshot and its backfill
  (\<^verbatim>\<open>refresher.rs\<close>). Redis' sorted set is a list of members with scores; the price service, the
  floating-point conversions and the clock are parameters.
\<close>

section \<open>The labeler's queue\<close>

type_synonym label_queue = "(string \<times> nat) list"

definition zadd :: "string \<Rightarrow> nat \<Rightarrow> label_queue \<Rightarrow> label_queue" where
  "zadd member score q = (member, score) # filter (\<lambda>e. fst e \<noteq> member) q"

text \<open>The greatest score, and among equal scores the greatest member.\<close>

definition outranks :: "string \<times> nat \<Rightarrow> string \<times> nat \<Rightarrow> bool" where
  "outranks x y \<longleftrightarrow> snd y < snd x \<or> snd y = snd x \<and> fst y < fst x"

fun top_entry :: "label_queue \<Rightarrow> (string \<times> nat) option" where
  "top_entry [] = None"
| "top_entry (e # q) =
     (case top_entry q of None \<Rightarrow> Some e | Some b \<Rightarrow> if outranks b e then Some b else Some e)"

definition zpopmax :: "label_queue \<Rightarrow> ((string \<times> nat) \<times> label_queue) option" where
  "zpopmax q =
     (case top_entry q of None \<Rightarrow> None | Some e \<Rightarrow> Some (e, filter (\<lambda>x. fst x \<noteq> fst e) q))"

record producer_env =
  pv_faults :: faults
  pv_now :: int
  pv_chain_id :: u64
  pv_batch_size :: nat
  pv_retry_days :: int
  pv_hex :: "address \<Rightarrow> string"
  pv_score :: "nat \<Rightarrow> nat"
  pv_zadd_ok :: "string \<Rightarrow> bool"
  pv_zcard_ok :: bool

definition queue_depth_of :: "producer_env \<Rightarrow> label_queue \<Rightarrow> int" where
  "queue_depth_of pv q = (if pv_zcard_ok pv then int (length q) else - 1)"

fun push_rows :: "producer_env \<Rightarrow> unknown_address_row list \<Rightarrow> nat \<times> label_queue \<Rightarrow> nat \<times> label_queue" where
  "push_rows pv [] (pushed, q) = (pushed, q)"
| "push_rows pv (row # rows) (pushed, q) =
     (let member = pv_hex pv (ua_address row)
      in if pv_zadd_ok pv member
         then push_rows pv rows (pushed + 1, zadd member (pv_score pv (ua_wei_saved_total row)) q)
         else (pushed, q))"

definition producer_tick_once :: "producer_env \<Rightarrow> db \<Rightarrow> label_queue \<Rightarrow> (store_error + nat \<times> int) \<times> label_queue" where
  "producer_tick_once pv d q =
     (case top_unknown_addresses (pv_faults pv) (pv_now pv) (pv_chain_id pv) (pv_batch_size pv) (pv_retry_days pv) d of
        Inl e \<Rightarrow> (Inl e, q)
      | Inr rows \<Rightarrow>
          if rows = [] then (Inr (0, queue_depth_of pv q), q)
          else (case push_rows pv rows (0, q) of
                  (pushed, q) \<Rightarrow> (Inr (pushed, queue_depth_of pv q), q)))"

text \<open>One round of the consumer; what it popped is returned beside the state.\<close>

definition consumer_iteration :: "(string \<Rightarrow> bytes option) \<Rightarrow> labeler_env \<Rightarrow> bool \<Rightarrow> label_queue \<times> db \<Rightarrow>
    (string \<times> nat) option \<times> label_queue \<times> db" where
  "consumer_iteration hex_decode le pop_ok = (\<lambda>(q, d).
     if \<not> pop_ok then (None, q, d)
     else
       (case zpopmax q of
          None \<Rightarrow> (None, q, d)
        | Some (e, q) \<Rightarrow>
            (case parse_addr_member hex_decode (fst e) of
               None \<Rightarrow> (Some e, q, d)
             | Some a \<Rightarrow> (Some e, q, process_address le a d))))"

fun consume :: "(string \<Rightarrow> bytes option) \<Rightarrow> labeler_env \<Rightarrow> nat \<Rightarrow> label_queue \<times> db \<Rightarrow>
    (string \<times> nat) list \<times> label_queue \<times> db" where
  "consume hex_decode le 0 s = ([], s)"
| "consume hex_decode le (Suc n) s =
     (case consumer_iteration hex_decode le True s of
        (None, s) \<Rightarrow> consume hex_decode le n s
      | (Some e, s) \<Rightarrow> (case consume hex_decode le n s of (es, s) \<Rightarrow> (e # es, s)))"

section \<open>Prices\<close>

record 'f price_env =
  pe_simple_price :: "string \<Rightarrow> string + 'f"
  pe_market_chart :: "string \<Rightarrow> string + ('f \<times> 'f) list"
  pe_secs :: "'f \<Rightarrow> int"
  pe_timestamp_ok :: "int \<Rightarrow> bool"
  pe_decimal :: "'f \<Rightarrow> int option"

datatype price_error =
    PriceUrlEmpty
  | PriceFetchFailed string
  | PriceStoreFailed store_error
  | DaysReversed int int
  | BaseUrlEmpty

text \<open>A price is printed with eight decimals and read back; what cannot be read is zero.\<close>

definition price_decimal :: "'f price_env \<Rightarrow> 'f \<Rightarrow> int" where
  "price_decimal pe p = (case pe_decimal pe p of None \<Rightarrow> 0 | Some x \<Rightarrow> x)"

definition refresh_eth_price_now :: "'f price_env \<Rightarrow> faults \<Rightarrow> int \<Rightarrow> string \<Rightarrow> db \<Rightarrow> price_error + int \<times> db" where
  "refresh_eth_price_now pe flt now price_url d =
     (if price_url = [] then Inl PriceUrlEmpty
      else
        (case pe_simple_price pe price_url of
           Inl e \<Rightarrow> Inl (PriceFetchFailed e)
         | Inr usd \<Rightarrow>
             (let price = price_decimal pe usd
              in case upsert_eth_price flt (day_of now) price d of
                   Inl e \<Rightarrow> Inl (PriceStoreFailed e) | Inr d' \<Rightarrow> Inr (price, d'))))"

definition refresh_eth_price :: "'f price_env \<Rightarrow> faults \<Rightarrow> int \<Rightarrow> string \<Rightarrow> db \<Rightarrow> db" where
  "refresh_eth_price pe flt now price_url d =
     (if price_url = [] then d
      else (case refresh_eth_price_now pe flt now price_url d of Inl _ \<Rightarrow> d | Inr (_, d') \<Rightarrow> d'))"

record backfill_outcome =
  bo_days_inserted :: nat
  bo_days_skipped :: nat
  bo_min_day :: "int option"
  bo_max_day :: "int option"

definition backfill_url :: "string \<Rightarrow> int \<Rightarrow> int \<Rightarrow> string" where
  "backfill_url base from_day to_day =
     rev (dropWhile (\<lambda>c. c = CHR ''/'') (rev base)) @ ''/coins/ethereum/market_chart/range?vs_currency=usd&from=''
       @ show_i64 (from_day * 86400) @ ''&to='' @ show_i64 (to_day * 86400 + 86399)"

definition om_or_insert :: "'k::linorder \<Rightarrow> 'v \<Rightarrow> ('k, 'v) omap \<Rightarrow> ('k, 'v) omap" where
  "om_or_insert k v m = (case map_of m k of None \<Rightarrow> om_insert k v m | Some _ \<Rightarrow> m)"

definition add_sample :: "'f price_env \<Rightarrow> 'f \<times> 'f \<Rightarrow> (int, 'f) omap \<Rightarrow> (int, 'f) omap" where
  "add_sample pe = (\<lambda>(ts, price) m.
     if pe_timestamp_ok pe (pe_secs pe ts) then om_or_insert (day_of (pe_secs pe ts)) price m else m)"

definition bucket_days :: "'f price_env \<Rightarrow> ('f \<times> 'f) list \<Rightarrow> (int, 'f) omap" where
  "bucket_days pe samples = fold (add_sample pe) samples []"

definition widen :: "(int \<Rightarrow> int \<Rightarrow> int) \<Rightarrow> int option \<Rightarrow> int \<Rightarrow> int option" where
  "widen f bound day = Some (case bound of None \<Rightarrow> day | Some b \<Rightarrow> f b day)"

fun backfill_days :: "'f price_env \<Rightarrow> faults \<Rightarrow> int set \<Rightarrow> int \<Rightarrow> int \<Rightarrow> (int, 'f) omap \<Rightarrow> backfill_outcome \<Rightarrow> db \<Rightarrow>
    (price_error + backfill_outcome) \<times> db" where
  "backfill_days pe flt existing from_day to_day [] bo d = (Inr bo, d)"
| "backfill_days pe flt existing from_day to_day ((day, price) # days) bo d =
     (if day < from_day \<or> to_day < day then backfill_days pe flt existing from_day to_day days bo d
      else if day \<in> existing
      then backfill_days pe flt existing from_day to_day days (bo\<lparr>bo_days_skipped := bo_days_skipped bo + 1\<rparr>) d
      else
        (case upsert_eth_price flt day (price_decimal pe price) d of
           Inl e \<Rightarrow> (Inl (PriceStoreFailed e), d)
         | Inr d' \<Rightarrow>
             backfill_days pe flt existing from_day to_day days
               (bo\<lparr>bo_days_inserted := bo_days_inserted bo + 1, bo_min_day := widen min (bo_min_day bo) day,
                   bo_max_day := widen max (bo_max_day bo) day\<rparr>) d'))"

definition backfill_eth_prices_now :: "'f price_env \<Rightarrow> faults \<Rightarrow> string \<Rightarrow> int \<Rightarrow> int \<Rightarrow> db \<Rightarrow>
    (price_error + backfill_outcome) \<times> db" where
  "backfill_eth_prices_now pe flt base from_day to_day d =
     (if from_day > to_day then (Inl (DaysReversed from_day to_day), d)
      else if base = [] then (Inl BaseUrlEmpty, d)
      else
        (case pe_market_chart pe (backfill_url base from_day to_day) of
           Inl e \<Rightarrow> (Inl (PriceFetchFailed e), d)
         | Inr samples \<Rightarrow>
             (case list_eth_price_days flt d of
                Inl e \<Rightarrow> (Inl (PriceStoreFailed e), d)
              | Inr existing \<Rightarrow>
                  backfill_days pe flt (set existing) from_day to_day (bucket_days pe samples)
                    \<lparr>bo_days_inserted = 0, bo_days_skipped = 0, bo_min_day = None, bo_max_day = None\<rparr> d)))"

section \<open>The backfill fills the gaps\<close>

text \<open>The price a day gets: that of its first sample with a readable time.\<close>

definition day_price :: "'f price_env \<Rightarrow> ('f \<times> 'f) list \<Rightarrow> int \<rightharpoonup> int" where
  "day_price pe samples =
     map_of (map (\<lambda>(ts, price). (day_of (pe_secs pe ts), price_decimal pe price))
       (filter (\<lambda>(ts, _). pe_timestamp_ok pe (pe_secs pe ts)) samples))"

lemma om_or_insert_ok: "om_ok m \<Longrightarrow> om_ok (om_or_insert k v m)"
  by (simp add: om_or_insert_def om_ok_insert split: option.splits)

lemma map_of_om_or_insert:
  "om_ok m \<Longrightarrow> map_of (om_or_insert k v m) k' = (case map_of m k' of None \<Rightarrow> if k' = k then Some v else None | Some x \<Rightarrow> Some x)"
  by (auto simp: om_or_insert_def map_of_om_insert split: option.splits)

lemma bucket_fold:
  "om_ok m \<Longrightarrow> om_ok (fold (add_sample pe) samples m)
    \<and> map_option (price_decimal pe) (map_of (fold (add_sample pe) samples m) day) =
       (case map_of m day of Some p \<Rightarrow> Some (price_decimal pe p) | None \<Rightarrow> day_price pe samples day)"
proof (induction samples arbitrary: m)
  case Nil
  then show ?case by (simp add: day_price_def split: option.splits)
next
  case (Cons e samples)
  obtain ts price where e: "e = (ts, price)" by fastforce
  have ok: "om_ok (add_sample pe e m)" using Cons.prems by (simp add: e add_sample_def om_or_insert_ok)
  have "(case map_of (add_sample pe e m) day of Some p \<Rightarrow> Some (price_decimal pe p) | None \<Rightarrow> day_price pe samples day)
      = (case map_of m day of Some p \<Rightarrow> Some (price_decimal pe p) | None \<Rightarrow> day_price pe (e # samples) day)"
    using Cons.prems by (auto simp: e add_sample_def map_of_om_or_insert day_price_def split: option.splits)
  with Cons.IH [OF ok] show ?case by simp
qed

lemma bucket_days_spec:
  "om_ok (bucket_days pe samples)" "map_option (price_decimal pe) (map_of (bucket_days pe samples) day) = day_price pe samples day"
  using bucket_fold [of "[]" pe samples day] by (simp_all add: bucket_days_def)

lemma widen_fold:
  "fold (\<lambda>day b. widen min b day) ds None = (if ds = [] then None else Some (Min (set ds)))"
  "fold (\<lambda>day b. widen max b day) ds None = (if ds = [] then None else Some (Max (set ds)))"
proof -
  have "fold (\<lambda>day b. widen min b day) ds (Some x) = Some (fold min ds x)"
    "fold (\<lambda>day b. widen max b day) ds (Some x) = Some (fold max ds x)" for x ds
    by (induction ds arbitrary: x) (simp_all add: widen_def min.commute max.commute)
  then show "fold (\<lambda>day b. widen min b day) ds None = (if ds = [] then None else Some (Min (set ds)))"
    "fold (\<lambda>day b. widen max b day) ds None = (if ds = [] then None else Some (Max (set ds)))"
    by (cases ds; simp add: widen_def flip: Min.set_eq_fold Max.set_eq_fold)+
qed

text \<open>The days a run inserts and skips, in the order of the buckets, and the prices it leaves.\<close>

definition gap_days :: "int set \<Rightarrow> int \<Rightarrow> int \<Rightarrow> (int, 'f) omap \<Rightarrow> int list" where
  "gap_days existing from_day to_day days = filter (\<lambda>x. from_day \<le> x \<and> x \<le> to_day \<and> x \<notin> existing) (om_keys days)"

definition known_days :: "int set \<Rightarrow> int \<Rightarrow> int \<Rightarrow> (int, 'f) omap \<Rightarrow> int list" where
  "known_days existing from_day to_day days = filter (\<lambda>x. from_day \<le> x \<and> x \<le> to_day \<and> x \<in> existing) (om_keys days)"

definition filled :: "'f price_env \<Rightarrow> (int, 'f) omap \<Rightarrow> int list \<Rightarrow> (int \<rightharpoonup> int) \<Rightarrow> int \<rightharpoonup> int" where
  "filled pe days gaps prices = (\<lambda>x. if x \<in> set gaps then map_option (price_decimal pe) (map_of days x) else prices x)"

lemma gap_days_Cons:
  "gap_days E f t ((day, price) # days) = (if f \<le> day \<and> day \<le> t \<and> day \<notin> E then [day] else []) @ gap_days E f t days"
  "known_days E f t ((day, price) # days) = (if f \<le> day \<and> day \<le> t \<and> day \<in> E then [day] else []) @ known_days E f t days"
  by (simp_all add: gap_days_def known_days_def om_keys_def)

lemma filled_Cons:
  assumes "day \<notin> set (om_keys days)"
  shows "filled pe ((day, price) # days) (gap_days E f t days) P = filled pe days (gap_days E f t days) P"
    and "filled pe ((day, price) # days) (day # gap_days E f t days) P
      = filled pe days (gap_days E f t days) (P(day \<mapsto> price_decimal pe price))"
  using assms by (auto simp: filled_def fun_eq_iff gap_days_def)

lemma backfill_days_spec:
  assumes "backfill_days pe flt E f t days bo d = (Inr bo', d')" and "distinct (om_keys days)"
  shows "d' = d\<lparr>db_eth_prices := filled pe days (gap_days E f t days) (db_eth_prices d)\<rparr>
    \<and> bo_days_inserted bo' = bo_days_inserted bo + length (gap_days E f t days)
    \<and> bo_days_skipped bo' = bo_days_skipped bo + length (known_days E f t days)
    \<and> bo_min_day bo' = fold (\<lambda>day b. widen min b day) (gap_days E f t days) (bo_min_day bo)
    \<and> bo_max_day bo' = fold (\<lambda>day b. widen max b day) (gap_days E f t days) (bo_max_day bo)"
  using assms
proof (induction days arbitrary: bo d)
  case Nil
  then show ?case by (simp add: gap_days_def known_days_def om_keys_def filled_def)
next
  case (Cons e days)
  obtain day price where e: "e = (day, price)" by fastforce
  have dist: "distinct (om_keys days)" "day \<notin> set (om_keys days)" using Cons.prems(2) by (simp_all add: om_keys_def e)
  note cons = gap_days_Cons [of E f t day price days] filled_Cons [OF dist(2)]
  consider (out) "day < f \<or> t < day" | (known) "f \<le> day" "day \<le> t" "day \<in> E"
    | (gap) "f \<le> day" "day \<le> t" "day \<notin> E" by linarith
  then show ?case
  proof cases
    case out
    with Cons.prems(1) have r: "backfill_days pe flt E f t days bo d = (Inr bo', d')" by (simp add: e)
    from Cons.IH [OF r dist(1)] out show ?thesis unfolding e by (auto simp: cons)
  next
    case known
    with Cons.prems(1) have r: "backfill_days pe flt E f t days (bo\<lparr>bo_days_skipped := bo_days_skipped bo + 1\<rparr>) d = (Inr bo', d')"
      by (simp add: e)
    from Cons.IH [OF r dist(1)] known show ?thesis unfolding e by (auto simp: cons)
  next
    case gap
    then have flt: "flt ''upsert_eth_price'' = None"
      using Cons.prems(1) by (auto simp: e upsert_eth_price_def exec_sql_def split: option.splits)
    have r: "backfill_days pe flt E f t days (bo\<lparr>bo_days_inserted := bo_days_inserted bo + 1,
        bo_min_day := widen min (bo_min_day bo) day, bo_max_day := widen max (bo_max_day bo) day\<rparr>)
        (d\<lparr>db_eth_prices := (db_eth_prices d)(day \<mapsto> price_decimal pe price)\<rparr>) = (Inr bo', d')"
      using gap Cons.prems(1) flt by (simp add: e upsert_eth_price_def exec_sql_def)
    from Cons.IH [OF r dist(1)] gap show ?thesis unfolding e by (simp add: cons fun_upd_def)
  qed
qed

lemma backfill_days_settled:
  "gap_days E f t days = [] \<Longrightarrow> \<exists>bo'. backfill_days pe flt E f t days bo d = (Inr bo', d) \<and> bo_days_inserted bo' = bo_days_inserted bo"
proof (induction days arbitrary: bo)
  case (Cons e days)
  obtain day price where e: "e = (day, price)" by fastforce
  with Cons.prems have gap: "gap_days E f t days = []" "\<not> (f \<le> day \<and> day \<le> t \<and> day \<notin> E)"
    by (auto simp: gap_days_Cons split: if_splits)
  show ?case using Cons.IH [OF gap(1), of bo] Cons.IH [OF gap(1), of "bo\<lparr>bo_days_skipped := bo_days_skipped bo + 1\<rparr>"] gap(2)
    by (auto simp: e not_le)
qed simp

lemma bucket_days_keys: "set (om_keys (bucket_days pe samples)) = dom (day_price pe samples)"
proof (rule set_eqI)
  fix day
  have "day_price pe samples day = None \<longleftrightarrow> map_of (bucket_days pe samples) day = None"
    unfolding bucket_days_spec(2) [symmetric] by simp
  then show "day \<in> set (om_keys (bucket_days pe samples)) \<longleftrightarrow> day \<in> dom (day_price pe samples)"
    by (simp add: domIff map_of_None_iff_keys)
qed

lemma gap_days_set: "set (gap_days (dom P) f t (bucket_days pe samples)) = {x \<in> {f..t} \<inter> dom (day_price pe samples). P x = None}"
  by (auto simp: gap_days_def bucket_days_keys domIff)

lemma backfill_runs_days:
  assumes "pe_market_chart pe (backfill_url base f t) = Inr samples" and "finite (dom (db_eth_prices d))"
    and "f \<le> t" "base \<noteq> []" "flt ''list_eth_price_days'' = None"
  shows "backfill_eth_prices_now pe flt base f t d = backfill_days pe flt (dom (db_eth_prices d)) f t (bucket_days pe samples)
    \<lparr>bo_days_inserted = 0, bo_days_skipped = 0, bo_min_day = None, bo_max_day = None\<rparr> d"
  using assms by (simp add: backfill_eth_prices_now_def list_eth_price_days_def exec_sql_def)

text \<open>
  C31. The backfill fills the gaps and nothing else: a day of the range without a price gets the price of
  its first sample, every price already there stays, whoever put it, days outside the range and every
  other table are untouched, and the counts and the first and last day reported are those of exactly the
  days inserted. Running it again on the same answer inserts nothing.
\<close>

theorem backfill_fills_gaps:
  fixes pe :: "'f price_env"
  assumes run: "backfill_eth_prices_now pe flt base f t d = (Inr bo, d')"
    and chart: "pe_market_chart pe (backfill_url base f t) = Inr samples" and fin: "finite (dom (db_eth_prices d))"
  defines "gaps \<equiv> {x \<in> {f..t} \<inter> dom (day_price pe samples). db_eth_prices d x = None}"
  shows "d' = d\<lparr>db_eth_prices := \<lambda>x. if x \<in> gaps then day_price pe samples x else db_eth_prices d x\<rparr>
    \<and> bo_days_inserted bo = card gaps \<and> bo_min_day bo = (if gaps = {} then None else Some (Min gaps))
    \<and> bo_max_day bo = (if gaps = {} then None else Some (Max gaps))
    \<and> (\<exists>bo'. backfill_eth_prices_now pe flt base f t d' = (Inr bo', d') \<and> bo_days_inserted bo' = 0)"
proof -
  let ?days = "bucket_days pe samples" and ?E = "dom (db_eth_prices d)"
  have ok: "f \<le> t" "base \<noteq> []" "flt ''list_eth_price_days'' = None"
    using run chart by (auto simp: backfill_eth_prices_now_def list_eth_price_days_def exec_sql_def split: if_splits option.splits)
  have days: "backfill_eth_prices_now pe flt base f t e = backfill_days pe flt (dom (db_eth_prices e)) f t ?days
      \<lparr>bo_days_inserted = 0, bo_days_skipped = 0, bo_min_day = None, bo_max_day = None\<rparr> e"
    if "finite (dom (db_eth_prices e))" for e using chart that ok by (rule backfill_runs_days)
  have dist: "distinct (om_keys ?days)" using om_ok_distinct [OF bucket_days_spec(1)] by (simp add: om_keys_def)
  have gaps: "set (gap_days ?E f t ?days) = gaps" by (simp add: gap_days_set gaps_def)
  have empty: "gap_days ?E f t ?days = [] \<longleftrightarrow> gaps = {}" by (simp flip: gaps)
  have "distinct (gap_days ?E f t ?days)" using dist by (simp add: gap_days_def)
  then have count: "length (gap_days ?E f t ?days) = card gaps" using distinct_card gaps by fastforce
  note spec = backfill_days_spec [OF run [unfolded days [OF fin]] dist]
  have "filled pe ?days (gap_days ?E f t ?days) (db_eth_prices d)
      = (\<lambda>x. if x \<in> gaps then day_price pe samples x else db_eth_prices d x)"
    by (rule ext) (simp add: filled_def gaps bucket_days_spec(2))
  with spec have d': "d' = d\<lparr>db_eth_prices := \<lambda>x. if x \<in> gaps then day_price pe samples x else db_eth_prices d x\<rparr>" by simp
  have "finite gaps" by (simp flip: gaps)
  moreover have "dom (db_eth_prices d') \<subseteq> ?E \<union> gaps" by (auto simp: d' split: if_splits)
  ultimately have fin': "finite (dom (db_eth_prices d'))" using fin by (meson finite_UnI finite_subset)
  have "set (gap_days (dom (db_eth_prices d')) f t ?days) = {}"
    unfolding gap_days_set by (auto simp: d' gaps_def split: if_splits)
  then have "\<exists>bo'. backfill_eth_prices_now pe flt base f t d' = (Inr bo', d') \<and> bo_days_inserted bo' = 0"
    using backfill_days_settled [of "dom (db_eth_prices d')" f t ?days pe flt] unfolding days [OF fin'] by fastforce
  with spec d' show ?thesis by (simp add: count widen_fold empty gaps)
qed

section \<open>A cycle of the labeler\<close>

lemma top_entry_None: "top_entry q = None \<longleftrightarrow> q = []"
  by (cases q) (auto split: option.splits)

lemma top_entry_max: "top_entry q = Some e \<Longrightarrow> e \<in> set q \<and> (\<forall>x \<in> set q. snd x \<le> snd e)"
proof (induction q arbitrary: e)
  case (Cons x q)
  show ?case
  proof (cases "top_entry q")
    case None
    with Cons.prems show ?thesis by (simp add: top_entry_None)
  next
    case (Some b)
    with Cons.prems Cons.IH [OF Some] show ?thesis by (fastforce simp: outranks_def split: if_splits)
  qed
qed simp

lemma zpopmax_Some:
  assumes "zpopmax q = Some (e, q')"
  shows "e \<in> set q" "\<forall>x \<in> set q. snd x \<le> snd e" "q' = filter (\<lambda>x. fst x \<noteq> fst e) q"
  using assms top_entry_max [of q] by (auto simp: zpopmax_def split: option.splits)

lemma zpopmax_None: "zpopmax q = None \<longleftrightarrow> q = []"
  using top_entry_None [of q] by (cases "top_entry q") (auto simp: zpopmax_def)

lemma filter_key_length:
  "distinct (map fst q) \<Longrightarrow> e \<in> set q \<Longrightarrow> length (filter (\<lambda>x. fst x \<noteq> fst e) q) + 1 = length q"
proof (induction q)
  case (Cons x q)
  have "filter (\<lambda>y. fst y \<noteq> fst x) q = q" using Cons.prems(1) by (auto simp: filter_id_conv image_iff)
  with Cons show ?case by auto
qed simp

lemma filter_key_mset:
  "distinct (map fst q) \<Longrightarrow> e \<in> set q \<Longrightarrow> mset q = add_mset e (mset (filter (\<lambda>x. fst x \<noteq> fst e) q))"
proof (induction q)
  case (Cons x q)
  have "filter (\<lambda>y. fst y \<noteq> fst x) q = q" using Cons.prems(1) by (auto simp: filter_id_conv image_iff)
  with Cons show ?case by (auto simp flip: mset_filter)
qed simp

lemma record_attempt_other:
  "k \<noteq> (as_i64 (le_chain_id le), a) \<Longrightarrow> db_label_attempts (record_attempt le a res name slug d) k = db_label_attempts d k"
  by (auto simp: record_attempt_def upsert_label_attempt_def exec_sql_def split: option.splits sum.splits)

lemma label_address_other:
  assumes "k \<noteq> (as_i64 (le_chain_id le), a)"
  shows "db_label_attempts (label_address le a name slug d) k = db_label_attempts d k"
  using assms
  by (auto simp: label_address_def record_attempt_other upsert_project_def upsert_address_project_def require_project_def
      relabel_unknowns_def exec_sql_def split: option.splits sum.splits if_splits bool.splits prod.splits)

lemma process_address_other:
  "k \<noteq> (as_i64 (le_chain_id le), a) \<Longrightarrow> db_label_attempts (process_address le a d) k = db_label_attempts d k"
  by (auto simp: process_address_def record_attempt_other label_address_other split: option.splits)

definition attempted :: "labeler_env \<Rightarrow> db \<Rightarrow> address \<Rightarrow> bool" where
  "attempted le d a \<longleftrightarrow>
     (\<exists>l. db_label_attempts d (as_i64 (le_chain_id le), a) = Some l \<and> la_last_attempted_at l = le_now le)"

lemma process_address_attempted:
  assumes "le_faults le = (\<lambda>_. None)"
  shows "attempted le (process_address le a d) a" and "attempted le d b \<Longrightarrow> attempted le (process_address le a d) b"
proof -
  show a: "attempted le (process_address le a d) a"
    using process_address_outcome [OF assms, of a d] unfolding attempted_def by blast
  show "attempted le (process_address le a d) b" if "attempted le d b"
    using that a process_address_other [of "(as_i64 (le_chain_id le), b)" le a d] by (cases "b = a") (auto simp: attempted_def)
qed

lemma consume_drains:
  assumes flt: "le_faults le = (\<lambda>_. None)"
  shows "distinct (map fst q) \<Longrightarrow> \<forall>e \<in> set q. parse_addr_member hex_decode (fst e) = Some (addr (fst e)) \<Longrightarrow>
    length q = n \<Longrightarrow> \<exists>es d'. consume hex_decode le n (q, d) = (es, [], d') \<and> mset es = mset q
      \<and> sorted_wrt (\<lambda>x y. snd y \<le> snd x) es \<and> (\<forall>b. attempted le d b \<or> b \<in> addr ` fst ` set q \<longrightarrow> attempted le d' b)"
proof (induction n arbitrary: q d)
  case (Suc n)
  then obtain e q' where pop: "zpopmax q = Some (e, q')" using zpopmax_None [of q] by (cases "zpopmax q") auto
  note e = zpopmax_Some [OF pop]
  let ?d = "process_address le (addr (fst e)) d"
  have "length q' = n" using filter_key_length [OF Suc.prems(1) e(1)] Suc.prems(3) e(3) by simp
  moreover have "distinct (map fst q')" using Suc.prems(1) e(3) by (simp add: distinct_map_filter)
  moreover have "\<forall>x \<in> set q'. parse_addr_member hex_decode (fst x) = Some (addr (fst x))" using Suc.prems(2) e(3) by simp
  ultimately obtain es d' where r: "consume hex_decode le n (q', ?d) = (es, [], d')" "mset es = mset q'"
    "sorted_wrt (\<lambda>x y. snd y \<le> snd x) es" "\<forall>b. attempted le ?d b \<or> b \<in> addr ` fst ` set q' \<longrightarrow> attempted le d' b"
    using Suc.IH by blast
  have q: "mset q = add_mset e (mset q')" unfolding e(3) using Suc.prems(1) e(1) by (rule filter_key_mset)
  then have qs: "set q = insert e (set q')" by (metis set_mset_add_mset_insert set_mset_mset)
  have "set es = set q'" using r(2) by (metis set_mset_mset)
  then have "sorted_wrt (\<lambda>x y. snd y \<le> snd x) (e # es)" using r(3) e(2) qs by simp
  moreover have "consume hex_decode le (Suc n) (q, d) = (e # es, [], d')"
    using r(1) pop Suc.prems(2) e(1) by (simp add: consumer_iteration_def)
  ultimately show ?case using r(2,4) q qs process_address_attempted [OF flt] by (intro exI [of _ "e # es"]) auto
qed auto

text \<open>The entry a row is queued as.\<close>

definition queued_as :: "producer_env \<Rightarrow> unknown_address_row \<Rightarrow> string \<times> nat" where
  "queued_as pv row = (pv_hex pv (ua_address row), pv_score pv (ua_wei_saved_total row))"

lemma push_rows_all:
  assumes "\<And>m. pv_zadd_ok pv m"
  shows "distinct (map fst (map (queued_as pv) rows @ q)) \<Longrightarrow>
    \<exists>q'. push_rows pv rows (n, q) = (n + length rows, q') \<and> mset q' = mset (map (queued_as pv) rows @ q)"
proof (induction rows arbitrary: n q)
  case (Cons row rows)
  have "filter (\<lambda>e. fst e \<noteq> pv_hex pv (ua_address row)) q = q"
    using Cons.prems by (auto simp: filter_id_conv queued_as_def image_iff)
  then have "zadd (pv_hex pv (ua_address row)) (pv_score pv (ua_wei_saved_total row)) q = queued_as pv row # q"
    by (simp add: zadd_def queued_as_def)
  then show ?case using Cons.IH [of "queued_as pv row # q" "n + 1"] Cons.prems assms by auto
qed simp

lemma top_unknown_distinct:
  "top_unknown_addresses flt now c limit days d = Inr rows \<Longrightarrow> distinct (map ua_address rows)"
proof -
  assume a: "top_unknown_addresses flt now c limit days d = Inr rows"
  define xs where "xs = map (\<lambda>a. \<lparr>ua_address = a, ua_wei_saved_total = sum_list (map ar_wei_saved
      (filter (\<lambda>r. ar_to_address r = a) (filter (labelable now c days d) (db_analysis d)))),
      ua_tx_count = length (filter (\<lambda>r. ar_to_address r = a) (filter (labelable now c days d) (db_analysis d)))\<rparr>)
    (remdups (map ar_to_address (filter (labelable now c days d) (db_analysis d))))"
  have rows: "rows = take limit (sort_key (\<lambda>g. - int (ua_wei_saved_total g)) xs)"
    using a by (simp add: top_unknown_addresses_def res_simps Let_def xs_def)
  have "distinct (map ua_address xs)" by (simp add: xs_def comp_def)
  then have "distinct (map ua_address (sort_key (\<lambda>g. - int (ua_wei_saved_total g)) xs))"
    by (metis mset_map mset_sort mset_eq_imp_distinct_iff)
  then show ?thesis unfolding rows by (simp add: take_map [symmetric])
qed


section \<open>Samples\<close>

definition toy_prices :: "int price_env" where
  "toy_prices = \<lparr>pe_simple_price = (\<lambda>_. Inr 5), pe_market_chart = (\<lambda>_. Inr [(100, 7), (200, 8), (86500, 9)]),
     pe_secs = id, pe_timestamp_ok = (\<lambda>_. True), pe_decimal = Some\<rparr>"

definition priced_db :: db where
  "priced_db = empty_db\<lparr>db_eth_prices := [1 \<mapsto> 3]\<rparr>"

theorem backfill_fills_gaps_witness:
  "\<exists>bo d'. backfill_eth_prices_now toy_prices (\<lambda>_. None) ''u'' 0 1 priced_db = (Inr bo, d')
     \<and> db_eth_prices d' 0 = Some 7 \<and> db_eth_prices d' 1 = Some 3 \<and> bo_days_inserted bo = 1"
proof -
  have chart: "pe_market_chart toy_prices (backfill_url ''u'' 0 1) = Inr [(100, 7), (200, 8), (86500, 9)]"
    by (simp add: toy_prices_def)
  have dom: "dom (db_eth_prices priced_db) = {1}" by (simp add: priced_db_def empty_db_def)
  then have fin: "finite (dom (db_eth_prices priced_db))" by simp
  have prices: "day_price toy_prices [(100, 7), (200, 8), (86500, 9)] = [0 \<mapsto> 7, 1 \<mapsto> 9]"
    by (auto simp: day_price_def toy_prices_def day_of_def price_decimal_def fun_eq_iff)
  have days: "bucket_days toy_prices [(100, 7), (200, 8), (86500, 9)] = [(0, 7), (1, 9)]"
    by (simp add: bucket_days_def add_sample_def om_or_insert_def toy_prices_def day_of_def)
  obtain bo d' where run: "backfill_eth_prices_now toy_prices (\<lambda>_. None) ''u'' 0 1 priced_db = (Inr bo, d')"
    using backfill_runs_days [OF chart fin, of "\<lambda>_. None"] by (simp add: dom days upsert_eth_price_def exec_sql_def)
  have "{x \<in> {0..1} \<inter> dom [0 \<mapsto> 7, 1 \<mapsto> 9 :: int]. db_eth_prices priced_db x = None} = {0 :: int}"
    by (auto simp: priced_db_def empty_db_def)
  with backfill_fills_gaps [OF run chart fin] run show ?thesis by (simp add: prices priced_db_def)
qed

lemma word_rcat_be_value: "(word_rcat (bs :: u8 list) :: 'a::len word) = of_nat (be_value bs)"
proof -
  have "horner_sum uint (2 ^ LENGTH(8)) (rev bs) = int (be_value bs)"
    by (induction bs rule: rev_induct) (simp_all add: be_value_snoc algebra_simps)
  then show ?thesis by (simp add: word_rcat_def)
qed

lemma word_rcat_be_bytes: "word_rcat (be_bytes 20 (unat a)) = (a :: address)"
proof -
  have "unat a < 256 ^ 20" using unsigned_less [of a] by simp
  then show ?thesis by (simp add: word_rcat_be_value be_value_be_bytes)
qed

definition byte_text :: "address \<Rightarrow> string" where
  "byte_text a = map (\<lambda>b. char_of (unat b)) (be_bytes 20 (unat a))"

definition text_bytes :: "string \<Rightarrow> bytes option" where
  "text_bytes s = Some (map (\<lambda>c. of_nat (of_char c)) s)"

lemma parse_byte_text: "parse_addr_member text_bytes (byte_text a) = Some a"
proof -
  have "of_nat (of_char (char_of (unat b) :: char)) = b" for b :: u8
  proof -
    have "unat b < 256" using unsigned_less [of b] by simp
    then show ?thesis by simp
  qed
  then show ?thesis by (simp add: parse_addr_member_def text_bytes_def byte_text_def comp_def word_rcat_be_bytes)
qed

definition toy_producer :: producer_env where
  "toy_producer = \<lparr>pv_faults = (\<lambda>_. None), pv_now = 8, pv_chain_id = 1, pv_batch_size = 5, pv_retry_days = 7,
     pv_hex = byte_text, pv_score = id, pv_zadd_ok = (\<lambda>_. True), pv_zcard_ok = True\<rparr>"

definition unlabelled_db :: db where
  "unlabelled_db = empty_db\<lparr>db_analysis := [row_of sample_report ''unknown:0xaa'']\<rparr>"

lemma toy_rows:
  "top_unknown_addresses (\<lambda>_. None) 8 1 5 7 unlabelled_db = Inr [\<lparr>ua_address = 170, ua_wei_saved_total = 700000, ua_tx_count = 1\<rparr>]"
  by (simp add: top_unknown_addresses_def exec_sql_def unlabelled_db_def labelable_def row_of_def sample_report_def as_i64_def
      is_unknown_def starts_with_def attempt_due_def empty_db_def)


end
