(* ===== verification/Rollups.thy ===== *)
theory Rollups
  imports Store Complex_Main
begin

text \<open>
  The daily rollups of the indexer: the materialized views \<open>project_daily\<close> and \<open>function_daily\<close> of
  the migrations, grouped from the table of analyses, and \<open>refresh_rollups\<close> of
  \<^verbatim>\<open>crates/indexer-store/src/lib.rs\<close>, which recomputes them. A numeric is a rational; divisions,
  averages and conversions, which Postgres rounds, are those of the record \<open>pg_env\<close>. The column
  \<open>heuristic_rate\<close>, which no query reads, is left out.
\<close>

section \<open>Grouping\<close>

definition group_by :: "('a \<Rightarrow> 'k) \<Rightarrow> 'a list \<Rightarrow> ('k \<times> 'a list) list" where
  "group_by f xs = map (\<lambda>k. (k, filter (\<lambda>x. f x = k) xs)) (remdups (map f xs))"

lemma group_by_keys: "map fst (group_by f xs) = remdups (map f xs)"
  by (simp add: group_by_def comp_def)

lemma group_by_rows:
  "(k, ys) \<in> set (group_by f xs) \<longleftrightarrow> k \<in> f ` set xs \<and> ys = filter (\<lambda>x. f x = k) xs"
  by (auto simp: group_by_def)

lemma group_by_nonempty: "(k, ys) \<in> set (group_by f xs) \<Longrightarrow> ys \<noteq> []"
  by (auto simp: group_by_rows filter_empty_conv)

lemma remdups_filter_keys: "remdups (map f (filter (\<lambda>x. P (f x)) xs)) = filter P (remdups (map f xs))"
  by (simp add: filter_map comp_def flip: remdups_filter)

text \<open>A condition on the key may be tested before or after grouping.\<close>

lemma group_by_filter: "group_by f (filter (\<lambda>x. P (f x)) xs) = filter (\<lambda>(k, ys). P k) (group_by f xs)"
proof -
  have "filter (\<lambda>x. P (f x) \<and> f x = k) xs = filter (\<lambda>x. f x = k) xs" if "P k" for k
    using that by (metis (mono_tags, lifting) filter_cong)
  then show ?thesis
    by (auto simp: group_by_def remdups_filter_keys filter_map comp_def conj_commute intro!: map_cong)
qed

lemma sum_by_key:
  fixes g :: "'a \<Rightarrow> 'b::comm_monoid_add"
  assumes "finite K" and "f ` set xs \<subseteq> K"
  shows "(\<Sum>k\<in>K. sum_list (map g (filter (\<lambda>x. f x = k) xs))) = sum_list (map g xs)"
  using assms(2)
proof (induction xs)
  case (Cons x xs)
  have "(\<Sum>k\<in>K. sum_list (map g (filter (\<lambda>y. f y = k) (x # xs))))
      = (\<Sum>k\<in>K. (if k = f x then g x else 0) + sum_list (map g (filter (\<lambda>y. f y = k) xs)))"
    by (intro sum.cong) auto
  also have "\<dots> = g x + sum_list (map g xs)"
    using Cons assms(1) by (simp add: sum.distrib)
  finally show ?case by simp
qed simp

text \<open>Summing over groups loses nothing and counts nothing twice.\<close>

lemma group_by_sum:
  fixes g :: "'a \<Rightarrow> 'b::comm_monoid_add"
  shows "sum_list (map (\<lambda>(k, ys). sum_list (map g ys)) (group_by f xs)) = sum_list (map g xs)"
  using sum_by_key [of "f ` set xs" f xs g]
  by (simp add: group_by_def comp_def sum_list_distinct_conv_sum_set)

text \<open>
  A view whose rows are made from groups: a sum over the rows of certain keys is the sum over the
  table's rows of those keys.
\<close>

lemma view_sum:
  fixes h :: "'a \<Rightarrow> 'b::comm_monoid_add"
  assumes "\<And>k ys. (k, ys) \<in> set (group_by f xs) \<Longrightarrow> g (mk k ys) = sum_list (map h ys)"
    and "\<And>k ys. (k, ys) \<in> set (group_by f xs) \<Longrightarrow> Q (mk k ys) \<longleftrightarrow> P k"
  shows "sum_list (map g (filter Q (map (\<lambda>(k, ys). mk k ys) (group_by f xs))))
    = sum_list (map h (filter (\<lambda>x. P (f x)) xs))"
proof -
  have "filter Q (map (\<lambda>(k, ys). mk k ys) (group_by f xs))
      = map (\<lambda>(k, ys). mk k ys) (filter (\<lambda>(k, ys). P k) (group_by f xs))"
    using assms(2) by (auto simp: filter_map comp_def case_prod_beta intro!: arg_cong [where f = "map _"] filter_cong)
  also have "map g \<dots> = map (\<lambda>(k, ys). sum_list (map h ys)) (filter (\<lambda>(k, ys). P k) (group_by f xs))"
    using assms(1) by (auto intro!: map_cong)
  also have "\<dots> = map (\<lambda>(k, ys). sum_list (map h ys)) (group_by f (filter (\<lambda>x. P (f x)) xs))"
    by (simp add: group_by_filter)
  finally show ?thesis by (simp add: group_by_sum)
qed

section \<open>The views\<close>

record 'f pg_env =
  pg_usd :: "nat \<Rightarrow> int \<Rightarrow> rat"
  pg_div :: "int \<Rightarrow> int \<Rightarrow> rat"
  pg_avg :: "rat list \<Rightarrow> rat"
  pg_float8 :: "rat \<Rightarrow> 'f"
  pg_fdiv :: "int \<Rightarrow> int \<Rightarrow> 'f"
  pg_median :: "'f list \<Rightarrow> 'f"

record project_day =
  pd_chain_id :: int
  pd_project_slug :: string
  pd_day :: int
  pd_tx_count :: nat
  pd_covered_tx_count :: nat
  pd_gas_used_total :: int
  pd_gas_saved_total :: int
  pd_wei_saved_total :: nat
  pd_wei_spent_total :: int
  pd_usd_saved_total :: rat
  pd_avg_savings_pct :: "rat option"

record function_day =
  fd_chain_id :: int
  fd_to_address :: address
  fd_function_selector :: bytes
  fd_project_slug :: string
  fd_day :: int
  fd_tx_count :: nat
  fd_gas_used_total :: int
  fd_gas_saved_total :: int
  fd_wei_saved_total :: nat
  fd_wei_spent_total :: int
  fd_usd_saved_total :: rat
  fd_avg_savings_pct :: "rat option"

record rollups =
  ru_project_daily :: "project_day list"
  ru_function_daily :: "function_day list"

text \<open>The rows a view counts, the day of a row, and the aggregates both views share.\<close>

definition counted :: "analysis_row \<Rightarrow> bool" where
  "counted r \<longleftrightarrow> ar_skipped_opcodes r = {} \<and> ar_gas_saved r > 0"

definition row_day :: "analysis_row \<Rightarrow> int" where
  "row_day r = day_of (ar_block_timestamp r)"

definition wei_spent :: "analysis_row \<Rightarrow> int" where
  "wei_spent r = ar_gas_used r * int (ar_effective_gas_price_wei r)"

definition usd_saved :: "'f pg_env \<Rightarrow> int option \<Rightarrow> analysis_row list \<Rightarrow> rat" where
  "usd_saved pg price rows = (case price of None \<Rightarrow> 0 | Some p \<Rightarrow> pg_usd pg (sum_list (map ar_wei_saved rows)) p)"

definition avg_of :: "'f pg_env \<Rightarrow> rat option list \<Rightarrow> rat option" where
  "avg_of pg xs = (case List.map_filter id xs of [] \<Rightarrow> None | ys \<Rightarrow> Some (pg_avg pg ys))"

definition savings_pct :: "'f pg_env \<Rightarrow> analysis_row \<Rightarrow> rat option" where
  "savings_pct pg r = (if ar_gas_used r = 0 then None else Some (pg_div pg (ar_gas_saved r) (ar_gas_used r)))"

definition project_day_row :: "'f pg_env \<Rightarrow> int \<times> string \<times> int \<times> int option \<Rightarrow> analysis_row list \<Rightarrow> project_day" where
  "project_day_row pg k rows = (case k of (c, slug, day, price) \<Rightarrow>
     \<lparr>pd_chain_id = c, pd_project_slug = slug, pd_day = day, pd_tx_count = length rows,
      pd_covered_tx_count = length (filter (\<lambda>r. ar_gas_saved r > 0) rows),
      pd_gas_used_total = sum_list (map ar_gas_used rows), pd_gas_saved_total = sum_list (map ar_gas_saved rows),
      pd_wei_saved_total = sum_list (map ar_wei_saved rows), pd_wei_spent_total = sum_list (map wei_spent rows),
      pd_usd_saved_total = usd_saved pg price rows, pd_avg_savings_pct = avg_of pg (map (savings_pct pg) rows)\<rparr>)"

definition project_daily :: "'f pg_env \<Rightarrow> db \<Rightarrow> project_day list" where
  "project_daily pg d =
     map (\<lambda>(k, rows). project_day_row pg k rows)
       (group_by (\<lambda>r. (ar_chain_id r, ar_project_slug r, row_day r, db_eth_prices d (row_day r)))
         (filter counted (db_analysis d)))"

definition function_day_row :: "'f pg_env \<Rightarrow> int \<times> address \<times> bytes \<times> string \<times> int \<times> int option \<Rightarrow> analysis_row list \<Rightarrow>
    function_day" where
  "function_day_row pg k rows = (case k of (c, a, sel, slug, day, price) \<Rightarrow>
     \<lparr>fd_chain_id = c, fd_to_address = a, fd_function_selector = sel, fd_project_slug = slug, fd_day = day,
      fd_tx_count = length rows,
      fd_gas_used_total = sum_list (map ar_gas_used rows), fd_gas_saved_total = sum_list (map ar_gas_saved rows),
      fd_wei_saved_total = sum_list (map ar_wei_saved rows), fd_wei_spent_total = sum_list (map wei_spent rows),
      fd_usd_saved_total = usd_saved pg price rows, fd_avg_savings_pct = avg_of pg (map (savings_pct pg) rows)\<rparr>)"

definition function_daily :: "'f pg_env \<Rightarrow> db \<Rightarrow> function_day list" where
  "function_daily pg d =
     map (\<lambda>(k, rows). function_day_row pg k rows)
       (group_by (\<lambda>r. (ar_chain_id r, ar_to_address r, ar_function_selector r, ar_project_slug r, row_day r,
           db_eth_prices d (row_day r)))
         (filter counted (db_analysis d)))"

definition rollups_of :: "'f pg_env \<Rightarrow> db \<Rightarrow> rollups" where
  "rollups_of pg d = \<lparr>ru_project_daily = project_daily pg d, ru_function_daily = function_daily pg d\<rparr>"

section \<open>Refreshing\<close>

text \<open>The unique index of each view, and one statement: it fails on a fault or on a second row of a key.\<close>

definition project_day_key :: "project_day \<Rightarrow> int \<times> string \<times> int" where
  "project_day_key p = (pd_chain_id p, pd_project_slug p, pd_day p)"

definition function_day_key :: "function_day \<Rightarrow> int \<times> address \<times> bytes \<times> string \<times> int" where
  "function_day_key f = (fd_chain_id f, fd_to_address f, fd_function_selector f, fd_project_slug f, fd_day f)"

definition refresh_view :: "faults \<Rightarrow> string \<Rightarrow> ('a \<Rightarrow> 'k) \<Rightarrow> 'a list \<Rightarrow> store_error + 'a list" where
  "refresh_view flt what key rows =
     exec_sql flt what (if distinct (map key rows) then Inr rows else Inl (SqlxError ''duplicate key value''))"

definition refresh_rollups :: "faults \<Rightarrow> 'f pg_env \<Rightarrow> db \<Rightarrow> rollups \<Rightarrow> (store_error + unit) \<times> rollups" where
  "refresh_rollups flt pg d ru =
     (case refresh_view flt ''project_daily'' project_day_key (project_daily pg d) of
        Inl e \<Rightarrow> (Inl e, ru)
      | Inr pds \<Rightarrow>
          (let ru = ru\<lparr>ru_project_daily := pds\<rparr>
           in case refresh_view flt ''function_daily'' function_day_key (function_daily pg d) of
                Inl e \<Rightarrow> (Inl e, ru)
              | Inr fds \<Rightarrow> (Inr (), ru\<lparr>ru_function_daily := fds\<rparr>)))"

text \<open>The price depends on the day only, so neither view ever holds a key twice.\<close>

lemma distinct_by_key:
  "distinct (map key (map (\<lambda>(k, ys). mk k ys) (group_by f xs)))"
  if "\<And>x y. x \<in> set xs \<Longrightarrow> y \<in> set xs \<Longrightarrow> p (f x) = p (f y) \<Longrightarrow> f x = f y" "\<And>k ys. key (mk k ys) = p k"
proof -
  have "map key (map (\<lambda>(k, ys). mk k ys) (group_by f xs)) = map p (remdups (map f xs))"
    using that(2) by (simp add: group_by_def comp_def)
  moreover have "inj_on p (f ` set xs)" using that(1) by (auto intro: inj_onI)
  ultimately show ?thesis by (simp add: distinct_map)
qed

lemma project_daily_distinct: "distinct (map project_day_key (project_daily pg d))"
  unfolding project_daily_def
  by (rule distinct_by_key [where p = "\<lambda>(c, slug, day, price). (c, slug, day)"])
    (auto simp: project_day_key_def project_day_row_def)

lemma function_daily_distinct: "distinct (map function_day_key (function_daily pg d))"
  unfolding function_daily_def
  by (rule distinct_by_key [where p = "\<lambda>(c, a, sel, slug, day, price). (c, a, sel, slug, day)"])
    (auto simp: function_day_key_def function_day_row_def)

lemma refresh_rollups_cases:
  "refresh_rollups flt pg d ru =
     (case flt ''project_daily'' of
        Some e \<Rightarrow> (Inl (SqlxError e), ru)
      | None \<Rightarrow> (case flt ''function_daily'' of
            Some e \<Rightarrow> (Inl (SqlxError e), ru\<lparr>ru_project_daily := project_daily pg d\<rparr>)
          | None \<Rightarrow> (Inr (), rollups_of pg d)))"
  by (simp add: refresh_rollups_def refresh_view_def exec_sql_def project_daily_distinct function_daily_distinct
      rollups_of_def split: option.splits)

lemma refresh_rollups_Inr: "refresh_rollups flt pg d ru = (Inr (), ru') \<Longrightarrow> ru' = rollups_of pg d"
  by (auto simp: refresh_rollups_cases split: option.splits)

section \<open>What the views hold\<close>

text \<open>Counts and amounts of the rows of a condition on chain, project and day.\<close>

lemma project_daily_sums:
  assumes "\<And>r. P (pd_chain_id r) (pd_project_slug r) (pd_day r) = Q r"
  shows "sum_list (map pd_tx_count (filter Q (project_daily pg d)))
      = length (filter (\<lambda>r. counted r \<and> P (ar_chain_id r) (ar_project_slug r) (row_day r)) (db_analysis d))"
    and "sum_list (map pd_wei_saved_total (filter Q (project_daily pg d)))
      = sum_list (map ar_wei_saved (filter (\<lambda>r. counted r \<and> P (ar_chain_id r) (ar_project_slug r) (row_day r)) (db_analysis d)))"
    and "sum_list (map pd_wei_spent_total (filter Q (project_daily pg d)))
      = sum_list (map wei_spent (filter (\<lambda>r. counted r \<and> P (ar_chain_id r) (ar_project_slug r) (row_day r)) (db_analysis d)))"
proof -
  note vs = view_sum [where Q = Q and mk = "project_day_row pg" and P = "\<lambda>(c, slug, day, price). P c slug day"]
  show "sum_list (map pd_tx_count (filter Q (project_daily pg d)))
      = length (filter (\<lambda>r. counted r \<and> P (ar_chain_id r) (ar_project_slug r) (row_day r)) (db_analysis d))"
    unfolding project_daily_def
    by (subst vs [where h = "\<lambda>_. 1"]) (auto simp: assms [symmetric] project_day_row_def sum_list_triv conj_commute split: prod.splits)
  show "sum_list (map pd_wei_saved_total (filter Q (project_daily pg d)))
      = sum_list (map ar_wei_saved (filter (\<lambda>r. counted r \<and> P (ar_chain_id r) (ar_project_slug r) (row_day r)) (db_analysis d)))"
    unfolding project_daily_def
    by (subst vs [where h = ar_wei_saved]) (auto simp: assms [symmetric] project_day_row_def conj_commute split: prod.splits)
  show "sum_list (map pd_wei_spent_total (filter Q (project_daily pg d)))
      = sum_list (map wei_spent (filter (\<lambda>r. counted r \<and> P (ar_chain_id r) (ar_project_slug r) (row_day r)) (db_analysis d)))"
    unfolding project_daily_def
    by (subst vs [where h = wei_spent]) (auto simp: assms [symmetric] project_day_row_def conj_commute split: prod.splits)
qed

lemma function_daily_sums:
  assumes "\<And>r. P (fd_chain_id r) (fd_to_address r) (fd_function_selector r) (fd_project_slug r) (fd_day r) = Q r"
  shows "sum_list (map fd_tx_count (filter Q (function_daily pg d)))
      = length (filter (\<lambda>r. counted r \<and> P (ar_chain_id r) (ar_to_address r) (ar_function_selector r) (ar_project_slug r)
          (row_day r)) (db_analysis d))"
    and "sum_list (map fd_wei_saved_total (filter Q (function_daily pg d)))
      = sum_list (map ar_wei_saved (filter (\<lambda>r. counted r \<and> P (ar_chain_id r) (ar_to_address r) (ar_function_selector r)
          (ar_project_slug r) (row_day r)) (db_analysis d)))"
proof -
  note vs = view_sum [where Q = Q and mk = "function_day_row pg" and P = "\<lambda>(c, a, sel, slug, day, price). P c a sel slug day"]
  show "sum_list (map fd_tx_count (filter Q (function_daily pg d)))
      = length (filter (\<lambda>r. counted r \<and> P (ar_chain_id r) (ar_to_address r) (ar_function_selector r) (ar_project_slug r)
          (row_day r)) (db_analysis d))"
    unfolding function_daily_def
    by (subst vs [where h = "\<lambda>_. 1"]) (auto simp: assms [symmetric] function_day_row_def sum_list_triv conj_commute split: prod.splits)
  show "sum_list (map fd_wei_saved_total (filter Q (function_daily pg d)))
      = sum_list (map ar_wei_saved (filter (\<lambda>r. counted r \<and> P (ar_chain_id r) (ar_to_address r) (ar_function_selector r)
          (ar_project_slug r) (row_day r)) (db_analysis d)))"
    unfolding function_daily_def
    by (subst vs [where h = ar_wei_saved]) (auto simp: assms [symmetric] function_day_row_def conj_commute split: prod.splits)
qed

section \<open>Samples\<close>

definition toy_pg :: "int pg_env" where
  "toy_pg = \<lparr>pg_usd = (\<lambda>wei price. of_nat wei * of_int price), pg_div = (\<lambda>a b. of_int a / of_int b),
     pg_avg = (\<lambda>xs. sum_list xs / of_nat (length xs)), pg_float8 = floor, pg_fdiv = (div),
     pg_median = (\<lambda>xs. sort xs ! (length xs div 2))\<rparr>"

definition no_rollups :: rollups where
  "no_rollups = \<lparr>ru_project_daily = [], ru_function_daily = []\<rparr>"

end
