(* ===== verification/Web_Admin.thy ===== *)
theory Web_Admin
  imports Web_Session Refresher Result_State Rollups
begin

text \<open>
  The pages of the web application that change something: the label endpoints of
  \<^verbatim>\<open>crates/indexer-web/src/labels.rs\<close> and the handlers of \<^verbatim>\<open>admin.rs\<close>, each behind the session of
  \<open>Web_Session\<close> and over the tables of \<open>Store\<close>. Rendering is left out: a page is the data its template
  gets.
\<close>

section \<open>Errors and the environment\<close>

datatype web_error =
    WebStore store_error
  | BadRequest string
  | NotFound
  | InternalError string store_error

fun error_response :: "web_error \<Rightarrow> nat \<times> string" where
  "error_response (BadRequest msg) = (400, msg)"
| "error_response NotFound = (404, ''not found'')"
| "error_response _ = (500, ''internal server error'')"

record web_env =
  we_faults :: faults
  we_now :: int
  we_chain_id :: int
  we_hex_encode :: "address \<Rightarrow> string"
  we_hex_decode :: "string \<Rightarrow> bytes option"

text \<open>A statement of the store, whose error becomes the handler's, and a query.\<close>

definition sql_st :: "(store_error \<Rightarrow> web_error) \<Rightarrow> (db \<Rightarrow> store_error + db) \<Rightarrow> (db, web_error, unit) st" where
  "sql_st err f d = (case f d of Inl e \<Rightarrow> (Inl (err e), d) | Inr d' \<Rightarrow> (Inr (), d'))"

definition sql_result :: "(store_error \<Rightarrow> web_error) \<Rightarrow> (db \<Rightarrow> store_error + 'a \<times> db) \<Rightarrow> (db, web_error, 'a) st" where
  "sql_result err f d = (case f d of Inl e \<Rightarrow> (Inl (err e), d) | Inr (x, d') \<Rightarrow> (Inr x, d'))"

definition sql_query :: "(db \<Rightarrow> store_error + 'a) \<Rightarrow> (db, web_error, 'a) st" where
  "sql_query f d = (case f d of Inl e \<Rightarrow> (Inl (WebStore e), d) | Inr x \<Rightarrow> (Inr x, d))"

text \<open>\<open>i64 as u64\<close>.\<close>

definition as_u64 :: "int \<Rightarrow> u64" where "as_u64 i = word_of_int i"

section \<open>Labels\<close>

record label_cell_view =
  lc_chain_id :: int
  lc_address_hex :: string
  lc_display_name :: string
  lc_project_slug :: string
  lc_is_unknown :: bool
  lc_is_manual :: bool

record label_edit_view =
  lv_chain_id :: int
  lv_address_hex :: string
  lv_current_slug :: string

record cell_query =
  cq_address :: string
  cq_chain_id :: "int option"

record override_form =
  of_address :: string
  of_chain_id :: int
  of_slug :: string
  of_project_name :: string

definition parse_addr :: "web_env \<Rightarrow> string \<Rightarrow> web_error + address" where
  "parse_addr we s =
     (case we_hex_decode we (strip_prefix ''0x'' (trim s)) of
        None \<Rightarrow> Inl (BadRequest ''invalid hex'')
      | Some bs \<Rightarrow> if length bs \<noteq> 20 then Inl (BadRequest ''address must be 20 bytes'') else Inr (word_rcat bs))"

definition slug_char :: "char \<Rightarrow> bool" where
  "slug_char c \<longleftrightarrow> is_lower c \<or> is_ascii_digit c \<or> c = CHR ''-''"

definition validate_slug :: "string \<Rightarrow> web_error + string" where
  "validate_slug s =
     (let s = trim s
      in if s = [] \<or> length s > 64 then Inl (BadRequest ''slug must be 1..=64 chars'')
         else if starts_with ''unknown:'' s then Inl (BadRequest ''override cannot start with `unknown:`'')
         else if \<not> list_all slug_char s then Inl (BadRequest ''slug must match [a-z0-9-]+'')
         else Inr s)"

definition resolved_label :: "faults \<Rightarrow> int \<Rightarrow> address \<Rightarrow> db \<Rightarrow> store_error + (string \<times> string option) option" where
  "resolved_label flt chain_id a d =
     exec_sql flt ''resolved_label''
       (Inr (case db_address_project d (chain_id, a) of
               None \<Rightarrow> None
             | Some (slug, _) \<Rightarrow> Some (slug, map_option pr_name (db_projects d slug))))"

definition build_cell :: "web_env \<Rightarrow> int \<Rightarrow> address \<Rightarrow> (db, web_error, label_cell_view) st" where
  "build_cell we chain_id a =
     bind_st (sql_query (resolved_label (we_faults we) chain_id a)) (\<lambda>resolved d.
     let is_manual = (case is_manual_override (we_faults we) (as_u64 chain_id) a d of Inl _ \<Rightarrow> False | Inr m \<Rightarrow> m);
         (slug, display) =
           (case resolved of
              Some (s, name) \<Rightarrow> (s, case name of None \<Rightarrow> s | Some n \<Rightarrow> n)
            | None \<Rightarrow> (''unknown:0x'' @ we_hex_encode we a, ''Unknown (0x'' @ we_hex_encode we a @ '')''))
     in ret_st \<lparr>lc_chain_id = chain_id, lc_address_hex = ''0x'' @ we_hex_encode we a, lc_display_name = display,
          lc_project_slug = slug, lc_is_unknown = starts_with ''unknown:'' slug, lc_is_manual = is_manual\<rparr> d)"

definition current_slug :: "web_env \<Rightarrow> int \<Rightarrow> address \<Rightarrow> (db, web_error, string) st" where
  "current_slug we chain_id a =
     bind_st (sql_query (resolved_label (we_faults we) chain_id a)) (\<lambda>resolved.
     ret_st (case resolved of
               Some (s, _) \<Rightarrow> if \<not> starts_with ''unknown:'' s then s else []
             | None \<Rightarrow> []))"

definition label_cell :: "web_env \<Rightarrow> cell_query \<Rightarrow> (db, web_error, label_cell_view) st" where
  "label_cell we q =
     (let chain_id = (case cq_chain_id q of None \<Rightarrow> we_chain_id we | Some c \<Rightarrow> c)
      in bind_st (lift_st (parse_addr we (cq_address q))) (build_cell we chain_id))"

definition label_edit :: "web_env \<Rightarrow> cell_query \<Rightarrow> (db, web_error, label_edit_view) st" where
  "label_edit we q =
     (let chain_id = (case cq_chain_id q of None \<Rightarrow> we_chain_id we | Some c \<Rightarrow> c)
      in bind_st (lift_st (parse_addr we (cq_address q))) (\<lambda>a.
         bind_st (current_slug we chain_id a) (\<lambda>current.
         ret_st \<lparr>lv_chain_id = chain_id, lv_address_hex = ''0x'' @ we_hex_encode we a, lv_current_slug = current\<rparr>)))"

text \<open>The writes of an override, and the cell it shows; the refresh in between is part of the route below.\<close>

definition label_writes :: "web_env \<Rightarrow> override_form \<Rightarrow> (db, web_error, address) st" where
  "label_writes we form =
     bind_st (lift_st (parse_addr we (of_address form))) (\<lambda>a.
     bind_st (lift_st (validate_slug (of_slug form))) (\<lambda>slug.
     let display_name = (if trim (of_project_name form) = [] then slug else trim (of_project_name form))
     in bind_st (sql_st WebStore (upsert_project (we_faults we) (we_now we)
          \<lparr>pi_slug = slug, pi_name = display_name, pi_category = None, pi_contact_email = None, pi_contact_url = None\<rparr>)) (\<lambda>_.
        bind_st (sql_st WebStore (upsert_manual_address_project (we_faults we) (as_u64 (of_chain_id form)) a slug)) (\<lambda>_.
        bind_st (sql_result WebStore (relabel_unknowns (we_faults we))) (\<lambda>_.
        ret_st a)))))"

definition label_override :: "web_env \<Rightarrow> override_form \<Rightarrow> (db, web_error, label_cell_view) st" where
  "label_override we form = bind_st (label_writes we form) (build_cell we (of_chain_id form))"

section \<open>Project names\<close>

record project_cell_view =
  pc_project_slug :: string
  pc_display_name :: string

record rename_form =
  rf_slug :: string
  rf_project_name :: string

definition project_header :: "faults \<Rightarrow> string \<Rightarrow> db \<Rightarrow> store_error + project_row option" where
  "project_header flt slug d = exec_sql flt ''project_header'' (Inr (db_projects d slug))"

definition build_project_cell :: "web_env \<Rightarrow> string \<Rightarrow> (db, web_error, project_cell_view) st" where
  "build_project_cell we slug =
     bind_st (sql_query (project_header (we_faults we) slug)) (\<lambda>header.
     ret_st \<lparr>pc_project_slug = slug, pc_display_name = (case header of None \<Rightarrow> slug | Some r \<Rightarrow> pr_name r)\<rparr>)"

definition project_cell :: "web_env \<Rightarrow> string \<Rightarrow> (db, web_error, project_cell_view) st" where
  "project_cell we slug = build_project_cell we slug"

definition project_edit :: "web_env \<Rightarrow> string \<Rightarrow> (db, web_error, project_cell_view) st" where
  "project_edit we slug =
     bind_st (sql_query (project_header (we_faults we) slug)) (\<lambda>row.
     ret_st \<lparr>pc_project_slug = slug, pc_display_name = (case row of None \<Rightarrow> slug | Some r \<Rightarrow> pr_name r)\<rparr>)"

definition project_rename :: "web_env \<Rightarrow> rename_form \<Rightarrow> (db, web_error, project_cell_view) st" where
  "project_rename we form =
     (let new_name = trim (rf_project_name form)
      in if new_name = [] \<or> length new_name > 128 then fail_st (BadRequest ''display name must be 1..=128 chars'')
         else if rf_slug form = [] then fail_st (BadRequest ''slug is required'')
         else
           bind_st (sql_result WebStore (rename_project (we_faults we) (we_now we) (rf_slug form) new_name)) (\<lambda>renamed.
           if \<not> renamed then fail_st NotFound else build_project_cell we (rf_slug form)))"

section \<open>Organizations\<close>

definition ascii_alnum :: "char \<Rightarrow> bool" where
  "ascii_alnum c \<longleftrightarrow> is_upper c \<or> is_lower c \<or> is_ascii_digit c"

fun slugify_loop :: "string \<Rightarrow> bool \<Rightarrow> string \<Rightarrow> string" where
  "slugify_loop [] pending_dash out = out"
| "slugify_loop (c # cs) pending_dash out =
     (if ascii_alnum c
      then slugify_loop cs False
             (out @ (if pending_dash \<and> out \<noteq> [] then [CHR ''-''] else []) @ [to_lowercase_char c])
      else slugify_loop cs True out)"

definition slugify :: "string \<Rightarrow> string" where
  "slugify name = slugify_loop name False []"

record org_create_form =
  oc_org_slug :: string
  oc_org_name :: string

definition orgs_create :: "web_env \<Rightarrow> org_create_form \<Rightarrow> (db, web_error, unit) st" where
  "orgs_create we form =
     (let name = trim (oc_org_name form);
          slug = (if trim (oc_org_slug form) = [] then slugify name else trim (oc_org_slug form))
      in if name = [] then fail_st (BadRequest ''organization name required'')
         else if slug = [] then fail_st (BadRequest ''include some letters or numbers'')
         else sql_st (InternalError ''org upsert'') (org_upsert (we_faults we) slug name))"

record org_assign_form =
  oa_project_slug :: string
  oa_org_slug :: string

definition orgs_assign :: "web_env \<Rightarrow> org_assign_form \<Rightarrow> (db, web_error, unit) st" where
  "orgs_assign we form =
     (let org = trim (oa_org_slug form); project = trim (oa_project_slug form);
          assigned = (if org = [] then None else Some org)
      in if project = [] then fail_st (BadRequest ''project_slug required'')
         else bind_st (sql_result (InternalError ''project assign org'') (project_assign_org (we_faults we) project assigned))
                (\<lambda>_. ret_st ()))"

section \<open>The blacklist\<close>

definition parse_hex :: "nat \<Rightarrow> web_env \<Rightarrow> string \<Rightarrow> bytes option" where
  "parse_hex n we s =
     (case we_hex_decode we (strip_prefix ''0x'' (trim s)) of
        None \<Rightarrow> None | Some bs \<Rightarrow> if length bs \<noteq> n then None else Some bs)"

definition parse_hex_address :: "web_env \<Rightarrow> string \<Rightarrow> address option" where
  "parse_hex_address we s = map_option word_rcat (parse_hex 20 we s)"

definition parse_hex_selector :: "web_env \<Rightarrow> string \<Rightarrow> bytes option" where
  "parse_hex_selector we s = parse_hex 4 we s"

record blacklist_form =
  bf_address :: string
  bf_selector :: "string option"
  bf_reason :: string

definition form_selector :: "web_env \<Rightarrow> string option \<Rightarrow> web_error + bytes option" where
  "form_selector we sel =
     (case sel of
        None \<Rightarrow> Inr None
      | Some s \<Rightarrow>
          if trim s = [] then Inr None
          else (case parse_hex_selector we (trim s) of
                  None \<Rightarrow> Inl (BadRequest ''invalid selector'') | Some b \<Rightarrow> Inr (Some b)))"

definition form_address :: "web_env \<Rightarrow> string \<Rightarrow> web_error + address" where
  "form_address we s =
     (case parse_hex_address we s of None \<Rightarrow> Inl (BadRequest ''invalid address'') | Some a \<Rightarrow> Inr a)"

definition admin_blacklist_add :: "web_env \<Rightarrow> string \<Rightarrow> blacklist_form \<Rightarrow> (db, web_error, unit) st" where
  "admin_blacklist_add we user form =
     bind_st (lift_st (form_address we (bf_address form))) (\<lambda>a.
     bind_st (lift_st (form_selector we (bf_selector form))) (\<lambda>selector.
     if trim (bf_reason form) = [] then fail_st (BadRequest ''reason is required'')
     else sql_st (InternalError ''blacklist add'')
            (blacklist_add (we_faults we) (we_now we) (as_u64 (we_chain_id we)) a selector (trim (bf_reason form)) user)))"

definition admin_blacklist_remove :: "web_env \<Rightarrow> blacklist_form \<Rightarrow> (db, web_error, unit) st" where
  "admin_blacklist_remove we form =
     bind_st (lift_st (form_address we (bf_address form))) (\<lambda>a.
     bind_st (lift_st (form_selector we (bf_selector form))) (\<lambda>selector.
     bind_st (sql_result (InternalError ''blacklist remove'')
       (blacklist_remove (we_faults we) (as_u64 (we_chain_id we)) a selector)) (\<lambda>_. ret_st ())))"

section \<open>The data floor and the refresh buttons\<close>

definition DATA_FLOOR_KEY :: string where "DATA_FLOOR_KEY = ''analyzer:config:data_floor''"
definition DEFAULT_DATA_FLOOR :: string where "DEFAULT_DATA_FLOOR = ''2026-05-25''"

text \<open>What the process holds: the tables, the Redis key of the floor, the floor the queries read, the labeler's queue, the views.\<close>

record web_state =
  ws_db :: db
  ws_floor_key :: "string option"
  ws_floor :: "int option"
  ws_label_queue :: label_queue
  ws_resolver :: resolver_snapshot
  ws_rollups :: rollups

record 'f admin_env =
  am_web :: web_env
  am_parse_date :: "string \<Rightarrow> int option"
  am_show_date :: "int \<Rightarrow> string"
  am_redis_set :: "string + unit"
  am_prices :: "'f price_env"
  am_price_url :: string
  am_coingecko_base_url :: string
  am_overlay :: "(resolver_error + overlay_entry list) option"
  am_defillama :: "(resolver_error + defillama_protocol list) option"
  am_entries :: "resolver_snapshot \<Rightarrow> project_info list \<times> ((u64 \<times> address) \<times> project_info) list"
  am_producer :: producer_env
  am_pg :: "'f pg_env"

datatype banner = BannerOk string | BannerErr string

definition load_data_floor :: "'f admin_env \<Rightarrow> string option \<Rightarrow> int option" where
  "load_data_floor am raw =
     (case raw of
        None \<Rightarrow> am_parse_date am DEFAULT_DATA_FLOOR
      | Some s \<Rightarrow>
          (let s = trim s
           in if s = [] \<or> to_lowercase s = ''none'' then None
              else (case am_parse_date am s of Some d \<Rightarrow> Some d | None \<Rightarrow> am_parse_date am DEFAULT_DATA_FLOOR)))"

definition set_data_floor :: "'f admin_env \<Rightarrow> string \<Rightarrow> web_state \<Rightarrow> banner \<times> web_state" where
  "set_data_floor am cutoff s =
     (let raw = trim cutoff
      in if raw = []
         then (case am_redis_set am of
                 Inl e \<Rightarrow> (BannerErr ''could not save'', s)
               | Inr _ \<Rightarrow> (BannerOk ''cleared'', s\<lparr>ws_floor_key := Some ''none'', ws_floor := None\<rparr>))
         else
           (case am_parse_date am raw of
              None \<Rightarrow> (BannerErr ''not a valid date'', s)
            | Some date \<Rightarrow>
                (case am_redis_set am of
                   Inl e \<Rightarrow> (BannerErr ''could not save'', s)
                 | Inr _ \<Rightarrow> (BannerOk ''set'', s\<lparr>ws_floor_key := Some (am_show_date am date), ws_floor := Some date\<rparr>))))"

definition refresh_views :: "'f admin_env \<Rightarrow> web_state \<Rightarrow> (store_error + unit) \<times> web_state" where
  "refresh_views am s =
     (case refresh_rollups (we_faults (am_web am)) (am_pg am) (ws_db s) (ws_rollups s) of
        (r, ru) \<Rightarrow> (r, s\<lparr>ws_rollups := ru\<rparr>))"

definition refresh_rollups_button :: "'f admin_env \<Rightarrow> web_state \<Rightarrow> banner \<times> web_state" where
  "refresh_rollups_button am s =
     (case refresh_views am s of
        (Inl e, t) \<Rightarrow> (BannerErr ''Rollup'', t)
      | (Inr _, t) \<Rightarrow> (BannerOk ''Rollup'', t))"

definition refresh_relabel :: "'f admin_env \<Rightarrow> web_state \<Rightarrow> banner \<times> web_state" where
  "refresh_relabel am s =
     (case relabel_unknowns (we_faults (am_web am)) (ws_db s) of
        Inl e \<Rightarrow> (BannerErr ''Relabel'', s)
      | Inr (n, d) \<Rightarrow> (BannerOk ''Relabel'', s\<lparr>ws_db := d\<rparr>))"

definition refresh_price_button :: "'f admin_env \<Rightarrow> web_state \<Rightarrow> banner \<times> web_state" where
  "refresh_price_button am s =
     (case refresh_eth_price_now (am_prices am) (we_faults (am_web am)) (we_now (am_web am)) (am_price_url am) (ws_db s) of
        Inl e \<Rightarrow> (BannerErr ''ETH price'', s)
      | Inr (price, d) \<Rightarrow> (BannerOk ''ETH price'', s\<lparr>ws_db := d\<rparr>))"

definition backfill_eth_prices :: "'f admin_env \<Rightarrow> web_state \<Rightarrow> banner \<times> web_state" where
  "backfill_eth_prices am s =
     (case analysis_day_range (we_faults (am_web am)) (ws_db s) of
        Inl e \<Rightarrow> (BannerErr ''ETH price backfill'', s)
      | Inr None \<Rightarrow> (BannerErr ''analysis table is empty'', s)
      | Inr (Some (from_day, last_day)) \<Rightarrow>
          (case backfill_eth_prices_now (am_prices am) (we_faults (am_web am)) (am_coingecko_base_url am) from_day
                  (max last_day (day_of (we_now (am_web am)))) (ws_db s) of
             (Inl e, d) \<Rightarrow> (BannerErr ''ETH price backfill'', s\<lparr>ws_db := d\<rparr>)
           | (Inr bo, d) \<Rightarrow> (BannerOk ''ETH price backfill'', s\<lparr>ws_db := d\<rparr>)))"

definition refresh_resolver_button :: "'f admin_env \<Rightarrow> web_state \<Rightarrow> banner \<times> web_state" where
  "refresh_resolver_button am s =
     (case refresh_resolver_with (we_hex_decode (am_web am)) (we_faults (am_web am)) (we_now (am_web am)) (am_entries am)
             (am_overlay am) (am_defillama am) (ws_resolver s, ws_db s) of
        (ro, sn, d) \<Rightarrow> (BannerOk ''Resolver'', s\<lparr>ws_resolver := sn, ws_db := d\<rparr>))"

definition refresh_labeler_button :: "'f admin_env \<Rightarrow> web_state \<Rightarrow> banner \<times> web_state" where
  "refresh_labeler_button am s =
     (case producer_tick_once (am_producer am) (ws_db s) (ws_label_queue s) of
        (Inl e, q) \<Rightarrow> (BannerErr ''Labeler queue'', s\<lparr>ws_label_queue := q\<rparr>)
      | (Inr _, q) \<Rightarrow> (BannerOk ''Labeler queue'', s\<lparr>ws_label_queue := q\<rparr>))"

section \<open>Diagnostics\<close>

text \<open>The cache and rate limit in front of the language model; times are in milliseconds.\<close>

record diagnose_cache =
  dc_last_response :: "(int \<times> string) option"
  dc_last_call_at :: "int option"

datatype diagnose_decision = ServeCached string | RateLimited int | CallModel

definition elapsed_secs :: "int \<Rightarrow> int \<Rightarrow> int" where
  "elapsed_secs now since = (now - since) div 1000"

definition diagnose_gate :: "int \<Rightarrow> int \<Rightarrow> int \<Rightarrow> diagnose_cache \<Rightarrow> diagnose_decision \<times> diagnose_cache" where
  "diagnose_gate ttl limit now c =
     (case (case dc_last_response c of
              Some (since, body) \<Rightarrow> if elapsed_secs now since < ttl then Some body else None
            | None \<Rightarrow> None) of
        Some body \<Rightarrow> (ServeCached body, c)
      | None \<Rightarrow>
          (case dc_last_call_at c of
             Some last_call \<Rightarrow>
               if elapsed_secs now last_call < limit then (RateLimited (limit - elapsed_secs now last_call), c)
               else (CallModel, c\<lparr>dc_last_call_at := Some now\<rparr>)
           | None \<Rightarrow> (CallModel, c\<lparr>dc_last_call_at := Some now\<rparr>)))"

definition diagnose_answered :: "int \<Rightarrow> string \<Rightarrow> diagnose_cache \<Rightarrow> diagnose_cache" where
  "diagnose_answered now body c = c\<lparr>dc_last_response := Some (now, body)\<rparr>"

text \<open>Which link targets of the answer are rendered.\<close>

definition looks_like_scheme :: "string \<Rightarrow> bool" where
  "looks_like_scheme s \<longleftrightarrow>
     (case s of [] \<Rightarrow> False | c # _ \<Rightarrow> is_upper c \<or> is_lower c)
   \<and> list_all (\<lambda>c. ascii_alnum c \<or> c \<in> set ''+-.'') s"

definition is_safe_url :: "string \<Rightarrow> bool" where
  "is_safe_url url =
     (let cleaned = filter (\<lambda>c. c \<notin> {CHR 0x09, CHR 0x0A, CHR 0x0D}) url; trimmed = dropWhile is_space cleaned
      in case split_colon trimmed of
           None \<Rightarrow> True
         | Some (scheme, _) \<Rightarrow>
             if \<not> looks_like_scheme scheme then True
             else to_lowercase scheme \<in> {''http'', ''https'', ''mailto''})"

section \<open>The routes\<close>

datatype action =
    LabelCell cell_query
  | LabelEdit cell_query
  | LabelOverride override_form
  | ProjectCell string
  | ProjectEdit string
  | ProjectRename rename_form
  | OrgsCreate org_create_form
  | OrgsAssign org_assign_form
  | BlacklistAdd blacklist_form
  | BlacklistRemove blacklist_form
  | SetDataFloor string
  | RefreshRollups
  | RefreshRelabel
  | RefreshEthPrice
  | BackfillEthPrices
  | RefreshResolver
  | RefreshLabeler

datatype reply = PageShown | BannerShown banner | ErrorShown nat string

definition on_db :: "(db, web_error, 'a) st \<Rightarrow> web_state \<Rightarrow> reply \<times> web_state" where
  "on_db m s =
     (case m (ws_db s) of
        (Inl e, d) \<Rightarrow> (case error_response e of (status, body) \<Rightarrow> ErrorShown status body, s\<lparr>ws_db := d\<rparr>)
      | (Inr _, d) \<Rightarrow> (PageShown, s\<lparr>ws_db := d\<rparr>))"

definition on_state :: "(web_state \<Rightarrow> banner \<times> web_state) \<Rightarrow> web_state \<Rightarrow> reply \<times> web_state" where
  "on_state f s = (case f s of (b, t) \<Rightarrow> (BannerShown b, t))"

text \<open>An override refreshes the views between its writes and the cell; a failure there is only logged.\<close>

definition label_override_page :: "'f admin_env \<Rightarrow> override_form \<Rightarrow> web_state \<Rightarrow> reply \<times> web_state" where
  "label_override_page am form s =
     (case label_writes (am_web am) form (ws_db s) of
        (Inl e, d) \<Rightarrow> (case error_response e of (status, body) \<Rightarrow> ErrorShown status body, s\<lparr>ws_db := d\<rparr>)
      | (Inr a, d) \<Rightarrow> on_db (build_cell (am_web am) (of_chain_id form) a) (snd (refresh_views am (s\<lparr>ws_db := d\<rparr>))))"

fun run_action :: "'f admin_env \<Rightarrow> string \<Rightarrow> action \<Rightarrow> web_state \<Rightarrow> reply \<times> web_state" where
  "run_action am user (LabelCell q) = on_db (label_cell (am_web am) q)"
| "run_action am user (LabelEdit q) = on_db (label_edit (am_web am) q)"
| "run_action am user (LabelOverride form) = label_override_page am form"
| "run_action am user (ProjectCell slug) = on_db (project_cell (am_web am) slug)"
| "run_action am user (ProjectEdit slug) = on_db (project_edit (am_web am) slug)"
| "run_action am user (ProjectRename form) = on_db (project_rename (am_web am) form)"
| "run_action am user (OrgsCreate form) = on_db (orgs_create (am_web am) form)"
| "run_action am user (OrgsAssign form) = on_db (orgs_assign (am_web am) form)"
| "run_action am user (BlacklistAdd form) = on_db (admin_blacklist_add (am_web am) user form)"
| "run_action am user (BlacklistRemove form) = on_db (admin_blacklist_remove (am_web am) form)"
| "run_action am user (SetDataFloor cutoff) = on_state (set_data_floor am cutoff)"
| "run_action am user RefreshRollups = on_state (refresh_rollups_button am)"
| "run_action am user RefreshRelabel = on_state (refresh_relabel am)"
| "run_action am user RefreshEthPrice = on_state (refresh_price_button am)"
| "run_action am user BackfillEthPrices = on_state (backfill_eth_prices am)"
| "run_action am user RefreshResolver = on_state (refresh_resolver_button am)"
| "run_action am user RefreshLabeler = on_state (refresh_labeler_button am)"

text \<open>A request: the extractor first, then the handler as the user it found.\<close>

definition serve :: "web_crypto \<Rightarrow> auth_state \<Rightarrow> 'f admin_env \<Rightarrow> web_request \<Rightarrow> action \<Rightarrow> web_state \<Rightarrow>
    (response + reply) \<times> web_state" where
  "serve wc auth am rq act s =
     (case from_request_parts wc auth (we_now (am_web am)) rq of
        Inl r \<Rightarrow> (Inl r, s)
      | Inr user \<Rightarrow> (case run_action am user act s of (reply, t) \<Rightarrow> (Inr reply, t)))"

section \<open>What a request may change\<close>

abbreviation edits :: "db \<Rightarrow> db \<Rightarrow> bool" where
  "edits \<equiv> (store_step True)\<^sup>*\<^sup>*"

interpretation hand_edits: kept_relation edits
  by unfold_locales auto

lemma sql_keeps:
  "(\<And>d d'. f d = Inr d' \<Longrightarrow> store_step True d d') \<Longrightarrow> st_keeps edits (sql_st err f)"
  "(\<And>d x d'. g d = Inr (x, d') \<Longrightarrow> store_step True d d') \<Longrightarrow> st_keeps edits (sql_result err g)"
  "st_keeps edits (sql_query q)"
  by (auto simp: st_keeps_def sql_st_def sql_result_def sql_query_def split: sum.splits)

lemma build_cell_keeps: "st_keeps edits (build_cell we chain_id a)"
  unfolding build_cell_def
  by (intro hand_edits.keeps_bind sql_keeps) (auto simp: st_keeps_def ret_st_def Let_def split: option.splits)

lemmas handler_keeps = hand_edits.keeps_intros sql_keeps build_cell_keeps store_step.intros

lemma handlers_keep:
  "st_keeps edits (label_cell we q)" "st_keeps edits (label_edit we q)" "st_keeps edits (label_writes we lform)"
  "st_keeps edits (project_cell we slug)" "st_keeps edits (project_edit we slug)" "st_keeps edits (project_rename we rform)"
  "st_keeps edits (orgs_create we oform)" "st_keeps edits (orgs_assign we aform)"
  "st_keeps edits (admin_blacklist_add we user bform)" "st_keeps edits (admin_blacklist_remove we bform)"
  unfolding label_cell_def label_edit_def label_writes_def project_cell_def project_edit_def project_rename_def
    build_project_cell_def orgs_create_def orgs_assign_def admin_blacklist_add_def admin_blacklist_remove_def
    current_slug_def Let_def
  by (intro handler_keeps | assumption)+

lemma upsert_all_edits:
  assumes "\<And>x d d'. f x d = Inr d' \<Longrightarrow> store_step True d d'"
  shows "edits d (snd (upsert_all f xs d))"
proof -
  have "edits (snd p) (snd (fold (\<lambda>x (n, d). case f x d of Inr d' \<Rightarrow> (n + 1, d') | Inl _ \<Rightarrow> (n, d)) xs p))" for p :: "nat \<times> db"
  proof (induction xs arbitrary: p)
    case (Cons x xs)
    obtain n d where p: "p = (n, d)" by fastforce
    show ?case
    proof (cases "f x d")
      case (Inl e)
      with Cons.IH [of "(n, d)"] show ?thesis by (simp add: p)
    next
      case (Inr d')
      with Cons.IH [of "(n + 1, d')"] assms [OF Inr] show ?thesis by (simp add: p converse_rtranclp_into_rtranclp)
    qed
  qed simp
  from this [of "(0, d)"] show ?thesis by (simp add: upsert_all_def)
qed

lemma persist_snapshot_edits: "persist_snapshot flt now ps addrs d = (ro, d') \<Longrightarrow> edits d d'"
proof -
  assume p: "persist_snapshot flt now ps addrs d = (ro, d')"
  obtain np d1 where d1: "upsert_all (upsert_project flt now) ps d = (np, d1)" by fastforce
  obtain na d2 where d2: "upsert_all (\<lambda>((c, a), i). upsert_address_project flt c a (pi_slug i)) addrs d1 = (na, d2)" by fastforce
  have "edits d d1" using upsert_all_edits [of "upsert_project flt now" d ps] store_step.intros(2) by (simp add: d1)
  moreover have "edits d1 d2"
    using upsert_all_edits [of "\<lambda>((c, a), i). upsert_address_project flt c a (pi_slug i)" d1 addrs] store_step.intros(3)
    by (auto simp: d2)
  moreover have "edits d2 d'"
    using p by (auto simp: persist_snapshot_def d1 d2 Let_def split: sum.splits intro: store_step.intros(6))
  ultimately show ?thesis by (meson rtranclp_trans)
qed

lemma backfill_days_edits: "backfill_days pe flt E f t days bo d = (r, d') \<Longrightarrow> edits d d'"
proof (induction days arbitrary: bo d)
  case (Cons e days)
  obtain day price where e: "e = (day, price)" by fastforce
  show ?case
  proof (cases "day < f \<or> t < day \<or> day \<in> E")
    case True
    with Cons.prems Cons.IH show ?thesis by (auto simp: e split: if_splits)
  next
    case False
    with Cons.prems Cons.IH store_step.intros(8) show ?thesis
      by (auto simp: e split: sum.splits) (meson converse_rtranclp_into_rtranclp)
  qed
qed simp

lemma backfill_edits: "backfill_eth_prices_now pe flt base f t d = (r, d') \<Longrightarrow> edits d d'"
  by (auto simp: backfill_eth_prices_now_def split: if_splits sum.splits dest: backfill_days_edits)

lemma set_data_floor_edits: "set_data_floor am cutoff s = (b, t) \<Longrightarrow> edits (ws_db s) (ws_db t)"
  by (auto simp: set_data_floor_def Let_def split: if_splits option.splits sum.splits)

lemma refresh_views_db: "ws_db (snd (refresh_views am s)) = ws_db s"
  by (simp add: refresh_views_def split: prod.splits)

lemma refresh_rollups_edits: "refresh_rollups_button am s = (b, t) \<Longrightarrow> edits (ws_db s) (ws_db t)"
  using refresh_views_db [of am s] by (auto simp: refresh_rollups_button_def split: sum.splits prod.splits)

lemma refresh_relabel_edits: "refresh_relabel am s = (b, t) \<Longrightarrow> edits (ws_db s) (ws_db t)"
  by (auto simp: refresh_relabel_def split: sum.splits dest!: store_step.intros(6) [of _ _ _ _ True])

lemma refresh_price_edits: "refresh_price_button am s = (b, t) \<Longrightarrow> edits (ws_db s) (ws_db t)"
  by (auto simp: refresh_price_button_def refresh_eth_price_now_def Let_def split: sum.splits if_splits
      dest!: store_step.intros(8) [of _ _ _ _ _ True])

lemma backfill_button_edits: "backfill_eth_prices am s = (b, t) \<Longrightarrow> edits (ws_db s) (ws_db t)"
  by (auto simp: backfill_eth_prices_def split: sum.splits option.splits prod.splits dest: backfill_edits)

lemma refresh_resolver_edits: "refresh_resolver_button am s = (b, t) \<Longrightarrow> edits (ws_db s) (ws_db t)"
  by (auto simp: refresh_resolver_button_def refresh_resolver_with_def split: sum.splits prod.splits dest: persist_snapshot_edits)

lemma refresh_labeler_edits: "refresh_labeler_button am s = (b, t) \<Longrightarrow> edits (ws_db s) (ws_db t)"
  by (auto simp: refresh_labeler_button_def split: sum.splits prod.splits)

lemmas buttons_edit = set_data_floor_edits refresh_rollups_edits refresh_relabel_edits refresh_price_edits backfill_button_edits
  refresh_resolver_edits refresh_labeler_edits

lemma on_db_edits: "st_keeps edits m \<Longrightarrow> on_db m s = (r, t) \<Longrightarrow> edits (ws_db s) (ws_db t)"
  by (auto simp: on_db_def split: prod.splits sum.splits dest: hand_edits.keepsD)

lemma label_override_page_edits: "label_override_page am form s = (r, t) \<Longrightarrow> edits (ws_db s) (ws_db t)"
proof -
  assume p: "label_override_page am form s = (r, t)"
  obtain q d where q: "label_writes (am_web am) form (ws_db s) = (q, d)" by fastforce
  have sd: "edits (ws_db s) d" using handlers_keep(3) q by (rule hand_edits.keepsD)
  show ?thesis
  proof (cases q)
    case (Inl e)
    with p q sd show ?thesis by (auto simp: label_override_page_def)
  next
    case (Inr a)
    with p q have "on_db (build_cell (am_web am) (of_chain_id form) a) (snd (refresh_views am (s\<lparr>ws_db := d\<rparr>))) = (r, t)"
      by (simp add: label_override_page_def)
    from on_db_edits [OF build_cell_keeps this] sd show ?thesis by (simp add: refresh_views_db)
  qed
qed

text \<open>The route of an override is the handler on the tables, and leaves the views refreshed.\<close>

lemma label_override_page_rollups:
  assumes "label_override_page am form s = (PageShown, t)" and "we_faults (am_web am) = (\<lambda>_. None)"
  shows "\<exists>cell. label_override (am_web am) form (ws_db s) = (Inr cell, ws_db t) \<and> ws_rollups t = rollups_of (am_pg am) (ws_db t)"
  using assms
  by (auto simp: label_override_page_def label_override_def bind_st_def on_db_def refresh_views_def refresh_rollups_cases
      build_cell_def sql_query_def ret_st_def Let_def resolved_label_def exec_sql_def
      split: prod.splits sum.splits option.splits)

lemma run_action_edits: "run_action am user act s = (r, t) \<Longrightarrow> edits (ws_db s) (ws_db t)"
  by (cases act) (auto simp: on_state_def split: prod.splits dest: on_db_edits [OF handlers_keep(1)] on_db_edits [OF handlers_keep(2)]
      label_override_page_edits on_db_edits [OF handlers_keep(4)] on_db_edits [OF handlers_keep(5)]
      on_db_edits [OF handlers_keep(6)] on_db_edits [OF handlers_keep(7)] on_db_edits [OF handlers_keep(8)]
      on_db_edits [OF handlers_keep(9)] on_db_edits [OF handlers_keep(10)] buttons_edit)


section \<open>Overriding a label\<close>

lemma as_i64_as_u64: "in_i64 c \<Longrightarrow> as_i64 (as_u64 c) = c"
  using signed_take_bit_int_eq_self [of 63 c] by (simp add: as_i64_def as_u64_def in_i64_def signed_of_int)

lemma validate_slug_known: "validate_slug s = Inr slug \<Longrightarrow> \<not> is_unknown slug"
  by (auto simp: validate_slug_def Let_def is_unknown_def split: if_splits)

lemma sql_Inr:
  "sql_st err f d = (Inr x, d') \<longleftrightarrow> f d = Inr d'" "sql_result err g d = (Inr y, d') \<longleftrightarrow> g d = Inr (y, d')"
  "sql_query q d = (Inr z, d') \<longleftrightarrow> q d = Inr z \<and> d' = d"
  by (auto simp: sql_st_def sql_result_def sql_query_def split: sum.splits)

lemma relabel_unknowns_rows:
  "relabel_unknowns flt d = Inr (n, d') \<Longrightarrow> d' = d\<lparr>db_analysis := map (relabelled d) (db_analysis d)\<rparr>"
  by (auto simp: relabel_unknowns_def res_simps relabelled_def cong: map_cong)

lemma build_cell_state: "build_cell we c a d = (r, d') \<Longrightarrow> d' = d"
  by (auto simp: build_cell_def bind_st_def sql_query_def ret_st_def Let_def split: sum.splits prod.splits)

text \<open>
  C30. An override takes effect: afterwards the address maps to the chosen project by hand, the cell
  shows the project under the given name and not as unknown, and every analysis of the address that
  was unknown belongs to the project. An analysis that an automatic label had already put under
  another project keeps that project.
\<close>

theorem label_override_effective:
  assumes run: "label_override we form d = (Inr cell, d')" and c: "in_i64 (of_chain_id form)"
  shows "\<exists>a slug. parse_addr we (of_address form) = Inr a \<and> validate_slug (of_slug form) = Inr slug
    \<and> db_address_project d' (of_chain_id form, a) = Some (slug, True)
    \<and> lc_project_slug cell = slug \<and> \<not> lc_is_unknown cell
    \<and> lc_display_name cell = (if trim (of_project_name form) = [] then slug else trim (of_project_name form))
    \<and> (lc_is_manual cell \<longleftrightarrow> we_faults we ''is_manual_override'' = None)
    \<and> (\<forall>i < length (db_analysis d). let r = db_analysis d ! i in
         (ar_chain_id r, ar_to_address r) = (of_chain_id form, a) \<longrightarrow>
         ar_project_slug (db_analysis d' ! i) = (if is_unknown (ar_project_slug r) then slug else ar_project_slug r))"
proof -
  define name where "name slug = (if trim (of_project_name form) = [] then slug else trim (of_project_name form))" for slug
  obtain a slug d1 d2 d3 n where a: "parse_addr we (of_address form) = Inr a" and slug: "validate_slug (of_slug form) = Inr slug"
    and d1: "upsert_project (we_faults we) (we_now we) \<lparr>pi_slug = slug, pi_name = name slug, pi_category = None,
        pi_contact_email = None, pi_contact_url = None\<rparr> d = Inr d1"
    and d2: "upsert_manual_address_project (we_faults we) (as_u64 (of_chain_id form)) a slug d1 = Inr d2"
    and d3: "relabel_unknowns (we_faults we) d2 = Inr (n, d3)" and cell: "build_cell we (of_chain_id form) a d3 = (Inr cell, d')"
    using run by (auto simp: label_override_def label_writes_def ret_st_def Let_def bind_st_Inr lift_st_eq sql_Inr name_def)
  have "d3 = d'" using build_cell_state [OF cell] by simp
  have d1': "db_projects d1 slug \<noteq> None" "map_option pr_name (db_projects d1 slug) = Some (name slug)" "db_analysis d1 = db_analysis d"
    using d1 by (auto simp: upsert_project_def res_simps)
  have d2': "db_address_project d2 (of_chain_id form, a) = Some (slug, True)" "db_projects d2 = db_projects d1"
    "db_analysis d2 = db_analysis d"
    using d2 d1'(3) by (auto simp: upsert_manual_address_project_def res_simps as_i64_as_u64 [OF c])
  have d': "d' = d2\<lparr>db_analysis := map (relabelled d2) (db_analysis d2)\<rparr>"
    using relabel_unknowns_rows [OF d3] \<open>d3 = d'\<close> by simp
  have known: "\<not> is_unknown slug" by (rule validate_slug_known [OF slug])
  have rows: "ar_project_slug (relabelled d2 r) = (if is_unknown (ar_project_slug r) then slug else ar_project_slug r)"
    if "(ar_chain_id r, ar_to_address r) = (of_chain_id form, a)" for r
    using that d2'(1) known by (auto simp: relabelled_def relabel_target_def)
  have "lc_project_slug cell = slug \<and> \<not> lc_is_unknown cell \<and> lc_display_name cell = name slug
      \<and> (lc_is_manual cell \<longleftrightarrow> we_faults we ''is_manual_override'' = None)"
    using cell [unfolded \<open>d3 = d'\<close>] d2' d1' known
    by (auto simp: build_cell_def bind_st_Inr sql_Inr resolved_label_def res_simps ret_st_def Let_def d' is_unknown_def
        is_manual_override_def exec_sql_def as_i64_as_u64 [OF c] split: option.splits sum.splits)
  with a slug d2' rows show ?thesis by (auto simp: d' name_def Let_def)
qed

section \<open>The floor after a restart\<close>

text \<open>chrono reads back the date it printed, and prints no blank text.\<close>

definition date_laws :: "'f admin_env \<Rightarrow> bool" where
  "date_laws am \<longleftrightarrow>
     (\<forall>d. am_parse_date am (am_show_date am d) = Some d \<and> trim (am_show_date am d) = am_show_date am d
        \<and> am_show_date am d \<noteq> [] \<and> to_lowercase (am_show_date am d) \<noteq> ''none'')"

text \<open>
  The floor the queries read is the one a restart would load: saving sets both, clearing included, and
  an attempt that fails changes neither.
\<close>

lemma floor_survives_restart:
  assumes "date_laws am" and "set_data_floor am cutoff s = (b, t)"
  shows "(case b of BannerOk _ \<Rightarrow> load_data_floor am (ws_floor_key t) = ws_floor t | BannerErr _ \<Rightarrow> t = s)"
proof -
  have "load_data_floor am (Some ''none'') = None" by (simp add: load_data_floor_def Let_def) code_simp
  moreover have "load_data_floor am (Some (am_show_date am d)) = Some d" for d
    using assms(1) by (simp add: date_laws_def load_data_floor_def Let_def)
  ultimately show ?thesis
    using assms(2) by (auto simp: set_data_floor_def Let_def split: if_splits option.splits sum.splits)
qed

section \<open>The model is called at most once per window\<close>

text \<open>Requests and answers in any order: the time, the cache, and when the model was called, latest first.\<close>

inductive diagnose_step :: "int \<Rightarrow> int \<Rightarrow> int \<times> diagnose_cache \<times> int list \<Rightarrow> int \<times> diagnose_cache \<times> int list \<Rightarrow> bool" for ttl limit where
  called: "now \<le> later \<Longrightarrow> diagnose_gate ttl limit later c = (CallModel, c') \<Longrightarrow>
    diagnose_step ttl limit (now, c, called_at) (later, c', later # called_at)"
| refused: "now \<le> later \<Longrightarrow> diagnose_gate ttl limit later c = (dec, c') \<Longrightarrow> dec \<noteq> CallModel \<Longrightarrow>
    diagnose_step ttl limit (now, c, called_at) (later, c', called_at)"
| answered: "now \<le> later \<Longrightarrow> diagnose_step ttl limit (now, c, called_at) (later, diagnose_answered later body c, called_at)"

definition diagnose_init :: "int \<Rightarrow> int \<times> diagnose_cache \<times> int list \<Rightarrow> bool" where
  "diagnose_init limit s \<longleftrightarrow> 0 \<le> limit \<and> snd s = (\<lparr>dc_last_response = None, dc_last_call_at = None\<rparr>, [])"

definition diagnose_inv :: "int \<Rightarrow> int \<times> diagnose_cache \<times> int list \<Rightarrow> bool" where
  "diagnose_inv limit = (\<lambda>(now, c, called_at).
     0 \<le> limit \<and> sorted_wrt (\<lambda>late early. early + 1000 * limit \<le> late) called_at \<and> (\<forall>t \<in> set called_at. t \<le> now)
   \<and> dc_last_call_at c = (case called_at of [] \<Rightarrow> None | t # _ \<Rightarrow> Some t))"

lemma gate_call:
  "diagnose_gate ttl limit now c = (CallModel, c') \<Longrightarrow> dc_last_call_at c' = Some now
    \<and> (\<forall>t. dc_last_call_at c = Some t \<longrightarrow> t + 1000 * limit \<le> now)"
  by (auto simp: diagnose_gate_def elapsed_secs_def split: option.splits if_splits prod.splits)

lemma gate_refused: "diagnose_gate ttl limit now c = (dec, c') \<Longrightarrow> dec \<noteq> CallModel \<Longrightarrow> c' = c"
  by (auto simp: diagnose_gate_def split: option.splits if_splits prod.splits)

interpretation diagnosis: invariant_system "diagnose_init limit" "diagnose_step ttl limit" "diagnose_inv limit" for ttl limit
proof
  show "diagnose_inv limit s" if "diagnose_init limit s" for s
    using that by (cases s) (simp add: diagnose_init_def diagnose_inv_def)
  show "diagnose_inv limit t" if "diagnose_step ttl limit s t" "diagnose_inv limit s" for s t
    using that
  proof cases
    case (called now later c c' called_at)
    with that(2) gate_call [OF called(4)] show ?thesis
      by (cases called_at) (auto simp: diagnose_inv_def)
  next
    case (refused now later c dec c' called_at)
    with that(2) gate_refused [OF refused(4,5)] show ?thesis by (fastforce simp: diagnose_inv_def)
  next
    case (answered now later c called_at body)
    with that(2) show ?thesis by (fastforce simp: diagnose_inv_def diagnose_answered_def)
  qed
qed


section \<open>Samples\<close>


definition toy_web :: web_env where
  "toy_web = \<lparr>we_faults = (\<lambda>_. None), we_now = 1700000000, we_chain_id = 1, we_hex_encode = (\<lambda>_. ''aa''),
     we_hex_decode = (\<lambda>_. Some [0, 0, 0, 0, 0, 0, 0, 0, 0, 0, 0, 0, 0, 0, 0, 0, 0, 0, 0, 170])\<rparr>"

definition toy_admin :: "int admin_env" where
  "toy_admin = \<lparr>am_web = toy_web, am_parse_date = (\<lambda>_. Some 5), am_show_date = (\<lambda>_. ''d''), am_redis_set = Inr (),
     am_prices = toy_prices, am_price_url = ''u'', am_coingecko_base_url = ''u'', am_overlay = None, am_defillama = None,
     am_entries = (\<lambda>_. ([], [])), am_producer = toy_producer, am_pg = toy_pg\<rparr>"

definition toy_state :: web_state where
  "toy_state = \<lparr>ws_db = unlabelled_db, ws_floor_key = None, ws_floor = Some 5, ws_label_queue = [], ws_resolver = empty_snapshot, ws_rollups = no_rollups\<rparr>"


definition toy_override :: override_form where
  "toy_override = \<lparr>of_address = ''0xaa'', of_chain_id = 1, of_slug = ''dex'', of_project_name = []\<rparr>"

lemma toy_parse: "parse_addr toy_web ''0xaa'' = Inr 170"
  by (simp add: parse_addr_def toy_web_def word_rcat_be_value be_value_def)

lemma toy_slug: "validate_slug ''dex'' = Inr ''dex''"
  by code_simp

text \<open>With a valid form and no fault of the database the edit goes through.\<close>

lemma label_override_succeeds:
  assumes a: "parse_addr we (of_address form) = Inr a" and slug: "validate_slug (of_slug form) = Inr slug"
    and up: "we_faults we = (\<lambda>_. None)"
  obtains cell d' where "label_override we form d = (Inr cell, d')"
proof -
  let ?pi = "\<lparr>pi_slug = slug, pi_name = if trim (of_project_name form) = [] then slug else trim (of_project_name form),
    pi_category = None, pi_contact_email = None, pi_contact_url = None\<rparr>"
  obtain d1 where d1: "upsert_project (we_faults we) (we_now we) ?pi d = Inr d1" and p1: "db_projects d1 slug \<noteq> None"
    by (simp add: up upsert_project_def exec_sql_def)
  obtain d2 where d2: "upsert_manual_address_project (we_faults we) (as_u64 (of_chain_id form)) a slug d1 = Inr d2"
    using p1 by (simp add: up upsert_manual_address_project_def require_project_def exec_sql_def)
  obtain n d3 where d3: "relabel_unknowns (we_faults we) d2 = Inr (n, d3)"
    by (simp add: up relabel_unknowns_def exec_sql_def)
  obtain cell where "build_cell we (of_chain_id form) a d3 = (Inr cell, d3)"
    by (simp add: up build_cell_def resolved_label_def exec_sql_def bind_st_def sql_query_def ret_st_def case_prod_unfold Let_def)
  with d1 d2 d3 have "label_override we form d = (Inr cell, d3)"
    by (simp add: label_override_def label_writes_def ret_st_def bind_st_def lift_st_def a slug sql_st_def sql_result_def Let_def)
  then show thesis by (rule that)
qed

theorem label_override_effective_witness:
  "\<exists>cell d'. label_override toy_web toy_override unlabelled_db = (Inr cell, d')
     \<and> ar_project_slug (db_analysis d' ! 0) = ''dex'' \<and> lc_is_manual cell"
proof -
  obtain cell d' where run: "label_override toy_web toy_override unlabelled_db = (Inr cell, d')"
    by (rule label_override_succeeds [of toy_web toy_override 170 "''dex''"])
      (simp_all add: toy_override_def toy_parse toy_slug, simp add: toy_web_def)
  have c: "in_i64 (of_chain_id toy_override)" by (simp add: toy_override_def in_i64_def)
  have row: "db_analysis unlabelled_db = [row_of sample_report ''unknown:0xaa'']" by (simp add: unlabelled_db_def)
  from label_override_effective [OF run c] obtain a where
    "parse_addr toy_web ''0xaa'' = Inr a" "lc_is_manual cell"
    "(ar_chain_id (row_of sample_report ''unknown:0xaa''), ar_to_address (row_of sample_report ''unknown:0xaa'')) = (1, a) \<longrightarrow>
       ar_project_slug (db_analysis d' ! 0) = (if is_unknown ''unknown:0xaa'' then ''dex'' else ''unknown:0xaa'')"
    by (auto simp: row toy_override_def toy_parse toy_slug toy_web_def Let_def row_of_def)
  with run show ?thesis
    by (auto simp: toy_parse row_of_def sample_report_def as_i64_def is_unknown_def starts_with_def)
qed

end
