(* ===== verification/Web_Queries.thy ===== *)
theory Web_Queries
  imports Rollups "HOL-Library.List_Lexorder" "HOL-Library.Char_ord" "HOL-Library.Product_Lexorder" "HOL-Library.Multiset"
begin

text \<open>
  The aggregate queries of \<^verbatim>\<open>crates/indexer-web/src/queries.rs\<close> over the tables of \<open>Store\<close> and the
  views of \<open>Rollups\<close>, each with its joins, conditions, grouping, order and limit. Days and times are
  those of UTC, in which the service runs. A column the query never leaves null is its value. The order
  of equal keys, which SQL leaves open, is that of the rows as the database meets them: the argument
  \<open>qv_scan\<close> for the lists that are paged, first appearance elsewhere.
\<close>

section \<open>Windows and the data floor\<close>

record 'f query_env =
  qv_pg :: "'f pg_env"
  qv_faults :: faults
  qv_now :: int
  qv_floor :: "int option"
  qv_scan :: "analysis_row list \<Rightarrow> analysis_row list"
  qv_inserted_at :: "analysis_row \<Rightarrow> int"
  qv_hex :: "address \<Rightarrow> string"

datatype window = Lifetime | Days int

definition floor_day :: "int option \<Rightarrow> int \<Rightarrow> bool" where
  "floor_day fl day \<longleftrightarrow> (case fl of None \<Rightarrow> True | Some d \<Rightarrow> d \<le> day)"

definition floor_ts :: "int option \<Rightarrow> int \<Rightarrow> bool" where
  "floor_ts fl ts \<longleftrightarrow> (case fl of None \<Rightarrow> True | Some d \<Rightarrow> d * 86400 \<le> ts)"

definition since_day :: "int \<Rightarrow> int \<Rightarrow> int" where
  "since_day now days = day_of (now - days * 86400)"

definition in_window :: "int \<Rightarrow> window \<Rightarrow> int \<Rightarrow> bool" where
  "in_window now w day \<longleftrightarrow> (case w of Lifetime \<Rightarrow> True | Days n \<Rightarrow> since_day now n \<le> day)"

definition visible_day :: "'f query_env \<Rightarrow> window \<Rightarrow> int \<Rightarrow> bool" where
  "visible_day qv w day \<longleftrightarrow> in_window (qv_now qv) w day \<and> floor_day (qv_floor qv) day"

definition visible_ts :: "'f query_env \<Rightarrow> int \<Rightarrow> bool" where
  "visible_ts qv ts \<longleftrightarrow> qv_now qv - 30 * 86400 \<le> ts \<and> floor_ts (qv_floor qv) ts"

definition paged :: "nat \<Rightarrow> nat \<Rightarrow> 'a list \<Rightarrow> 'a list" where
  "paged limit offset rows = take limit (drop offset rows)"

definition avg_float8 :: "'f pg_env \<Rightarrow> rat option list \<Rightarrow> 'f option" where
  "avg_float8 pg xs = map_option (pg_float8 pg) (avg_of pg xs)"

definition median_pct :: "'f pg_env \<Rightarrow> analysis_row list \<Rightarrow> 'f option" where
  "median_pct pg rows =
     (case map (\<lambda>r. pg_fdiv pg (ar_gas_saved r) (ar_gas_used r)) (filter (\<lambda>r. ar_gas_used r \<noteq> 0) rows) of
        [] \<Rightarrow> None
      | xs \<Rightarrow> Some (pg_median pg xs))"

definition project_name_of :: "db \<Rightarrow> string \<Rightarrow> string option" where
  "project_name_of d slug = map_option pr_name (db_projects d slug)"

section \<open>The overview\<close>

record overview_totals_row =
  ot_usd_saved :: rat
  ot_wei_saved :: nat
  ot_tx_count :: nat
  ot_project_count :: nat

definition overview_totals :: "'f query_env \<Rightarrow> int \<Rightarrow> window \<Rightarrow> rollups \<Rightarrow> store_error + overview_totals_row" where
  "overview_totals qv c w ru =
     (let rows = filter (\<lambda>p. pd_chain_id p = c \<and> visible_day qv w (pd_day p)) (ru_project_daily ru)
      in exec_sql (qv_faults qv) ''overview_totals''
           (Inr \<lparr>ot_usd_saved = sum_list (map pd_usd_saved_total rows), ot_wei_saved = sum_list (map pd_wei_saved_total rows),
                 ot_tx_count = sum_list (map pd_tx_count rows),
                 ot_project_count = length (remdups (map pd_project_slug rows))\<rparr>))"

record 'f leaderboard_row =
  lr_project_slug :: string
  lr_project_name :: "string option"
  lr_tx_count :: nat
  lr_wei_saved_total :: nat
  lr_wei_spent_total :: int
  lr_avg_savings_pct :: "'f option"
  lr_median_savings_pct_covered :: "'f option"

definition leaderboard_group :: "'f query_env \<Rightarrow> int \<Rightarrow> db \<Rightarrow> string \<Rightarrow> project_day list \<Rightarrow> 'f leaderboard_row" where
  "leaderboard_group qv c d slug rows =
     \<lparr>lr_project_slug = slug, lr_project_name = project_name_of d slug,
      lr_tx_count = sum_list (map pd_tx_count rows), lr_wei_saved_total = sum_list (map pd_wei_saved_total rows),
      lr_wei_spent_total = sum_list (map pd_wei_spent_total rows),
      lr_avg_savings_pct = avg_float8 (qv_pg qv) (map pd_avg_savings_pct rows),
      lr_median_savings_pct_covered = median_pct (qv_pg qv) (filter (\<lambda>r. ar_chain_id r = c \<and> ar_project_slug r = slug
        \<and> visible_ts qv (ar_block_timestamp r) \<and> ar_skipped_opcodes r = {} \<and> ar_gas_saved r > 0) (db_analysis d))\<rparr>"

definition leaderboard_30d :: "'f query_env \<Rightarrow> int \<Rightarrow> nat \<Rightarrow> nat \<Rightarrow> db \<Rightarrow> rollups \<Rightarrow> store_error + 'f leaderboard_row list" where
  "leaderboard_30d qv c limit offset d ru =
     exec_sql (qv_faults qv) ''leaderboard_30d''
       (Inr (paged limit offset (sort_key (\<lambda>r. - int (lr_tx_count r))
          (map (\<lambda>(slug, rows). leaderboard_group qv c d slug rows)
            (group_by pd_project_slug
              (filter (\<lambda>p. pd_chain_id p = c \<and> visible_day qv (Days 30) (pd_day p)) (ru_project_daily ru)))))))"

text \<open>An exclusion hides a whole contract or one of its functions.\<close>

definition excluded :: "db \<Rightarrow> int \<Rightarrow> address \<Rightarrow> bytes \<Rightarrow> bool" where
  "excluded d c a sel \<longleftrightarrow> db_exclusions d (c, a, []) \<noteq> None \<or> db_exclusions d (c, a, sel) \<noteq> None"

record 'f function_leader_row =
  fl_to_address :: address
  fl_function_selector :: bytes
  fl_project_slug :: string
  fl_project_name :: "string option"
  fl_function_name :: "string option"
  fl_function_sig :: "string option"
  fl_tx_count :: nat
  fl_wei_saved_total :: nat
  fl_wei_spent_total :: int
  fl_usd_saved :: rat
  fl_avg_savings_pct :: "'f option"
  fl_median_savings_pct :: "'f option"

definition selector_name :: "db \<Rightarrow> bytes \<Rightarrow> string option" where
  "selector_name d sel = Option.bind (db_function_selectors d sel) sr_primary_name"

definition selector_sig :: "db \<Rightarrow> bytes \<Rightarrow> string option" where
  "selector_sig d sel = Option.bind (db_function_selectors d sel) sr_primary_sig"

definition shown_functions :: "'f query_env \<Rightarrow> int \<Rightarrow> db \<Rightarrow> rollups \<Rightarrow> function_day list" where
  "shown_functions qv c d ru =
     filter (\<lambda>f. fd_chain_id f = c \<and> visible_day qv (Days 30) (fd_day f)
         \<and> \<not> excluded d c (fd_to_address f) (fd_function_selector f)) (ru_function_daily ru)"

definition covered_recent :: "'f query_env \<Rightarrow> int \<Rightarrow> analysis_row \<Rightarrow> bool" where
  "covered_recent qv c r \<longleftrightarrow> ar_chain_id r = c \<and> visible_ts qv (ar_block_timestamp r) \<and> counted r"

definition leaderboard_functions_30d :: "'f query_env \<Rightarrow> int \<Rightarrow> nat \<Rightarrow> nat \<Rightarrow> db \<Rightarrow> rollups \<Rightarrow>
    store_error + 'f function_leader_row list" where
  "leaderboard_functions_30d qv c limit offset d ru =
     exec_sql (qv_faults qv) ''leaderboard_functions_30d''
       (Inr (paged limit offset (sort_key (\<lambda>r. - int (fl_wei_saved_total r))
          (map (\<lambda>((a, sel, slug), rows).
              \<lparr>fl_to_address = a, fl_function_selector = sel, fl_project_slug = slug, fl_project_name = project_name_of d slug,
               fl_function_name = selector_name d sel, fl_function_sig = selector_sig d sel,
               fl_tx_count = sum_list (map fd_tx_count rows), fl_wei_saved_total = sum_list (map fd_wei_saved_total rows),
               fl_wei_spent_total = sum_list (map fd_wei_spent_total rows),
               fl_usd_saved = sum_list (map fd_usd_saved_total rows),
               fl_avg_savings_pct = avg_float8 (qv_pg qv) (map fd_avg_savings_pct rows),
               fl_median_savings_pct = median_pct (qv_pg qv)
                 (filter (\<lambda>r. covered_recent qv c r \<and> ar_to_address r = a \<and> ar_function_selector r = sel) (db_analysis d))\<rparr>)
            (group_by (\<lambda>f. (fd_to_address f, fd_function_selector f, fd_project_slug f)) (shown_functions qv c d ru))))))"

record 'f contract_leader_row =
  cl_to_address :: address
  cl_project_slug :: string
  cl_project_name :: "string option"
  cl_tx_count :: nat
  cl_function_count :: nat
  cl_wei_saved_total :: nat
  cl_wei_spent_total :: int
  cl_usd_saved :: rat
  cl_avg_savings_pct :: "'f option"
  cl_median_savings_pct :: "'f option"

definition leaderboard_contracts_30d :: "'f query_env \<Rightarrow> int \<Rightarrow> nat \<Rightarrow> nat \<Rightarrow> db \<Rightarrow> rollups \<Rightarrow>
    store_error + 'f contract_leader_row list" where
  "leaderboard_contracts_30d qv c limit offset d ru =
     exec_sql (qv_faults qv) ''leaderboard_contracts_30d''
       (Inr (paged limit offset (sort_key (\<lambda>r. - int (cl_wei_saved_total r))
          (map (\<lambda>((a, slug), rows).
              \<lparr>cl_to_address = a, cl_project_slug = slug, cl_project_name = project_name_of d slug,
               cl_tx_count = sum_list (map fd_tx_count rows),
               cl_function_count = length (remdups (map fd_function_selector rows)),
               cl_wei_saved_total = sum_list (map fd_wei_saved_total rows),
               cl_wei_spent_total = sum_list (map fd_wei_spent_total rows),
               cl_usd_saved = sum_list (map fd_usd_saved_total rows),
               cl_avg_savings_pct = avg_float8 (qv_pg qv) (map fd_avg_savings_pct rows),
               cl_median_savings_pct = median_pct (qv_pg qv)
                 (filter (\<lambda>r. covered_recent qv c r \<and> ar_to_address r = a) (db_analysis d))\<rparr>)
            (group_by (\<lambda>f. (fd_to_address f, fd_project_slug f)) (shown_functions qv c d ru))))))"

record daily_point =
  dp_day :: int
  dp_usd_saved :: rat
  dp_tx_count :: nat

definition daily_overview :: "'f query_env \<Rightarrow> int \<Rightarrow> int \<Rightarrow> rollups \<Rightarrow> store_error + daily_point list" where
  "daily_overview qv c days ru =
     exec_sql (qv_faults qv) ''daily_overview''
       (Inr (sort_key dp_day
          (map (\<lambda>(day, rows). \<lparr>dp_day = day, dp_usd_saved = sum_list (map pd_usd_saved_total rows),
                  dp_tx_count = sum_list (map pd_tx_count rows)\<rparr>)
            (group_by pd_day
              (filter (\<lambda>p. pd_chain_id p = c \<and> visible_day qv (Days days) (pd_day p)) (ru_project_daily ru))))))"

text \<open>
  The ranking of organizations. The join with \<open>function_daily\<close>, there for the number of contracts, repeats
  a project's day once for every function of the project on that day, and the sums count each copy.
\<close>

record 'f org_leader_row =
  og_org_name :: string
  og_project_count :: nat
  og_contract_count :: nat
  og_tx_count :: nat
  og_usd_saved :: rat
  og_wei_saved_total :: nat
  og_wei_spent_total :: int
  og_avg_savings_pct :: "'f option"

definition org_of :: "db \<Rightarrow> string \<Rightarrow> (string \<times> string) option" where
  "org_of d slug =
     (case db_projects d slug of
        None \<Rightarrow> None
      | Some p \<Rightarrow> (case pr_org_slug p of
            None \<Rightarrow> None
          | Some org \<Rightarrow> map_option (Pair org) (db_organizations d org)))"

definition join_functions :: "rollups \<Rightarrow> project_day \<Rightarrow> (project_day \<times> function_day option) list" where
  "join_functions ru p =
     (case filter (\<lambda>f. fd_project_slug f = pd_project_slug p \<and> fd_day f = pd_day p \<and> fd_chain_id f = pd_chain_id p)
             (ru_function_daily ru) of
        [] \<Rightarrow> [(p, None)]
      | fs \<Rightarrow> map (\<lambda>f. (p, Some f)) fs)"

definition leaderboard_orgs_30d :: "'f query_env \<Rightarrow> int \<Rightarrow> nat \<Rightarrow> nat \<Rightarrow> db \<Rightarrow> rollups \<Rightarrow> store_error + 'f org_leader_row list" where
  "leaderboard_orgs_30d qv c limit offset d ru =
     exec_sql (qv_faults qv) ''leaderboard_orgs_30d''
       (Inr (paged limit offset (sort_key (\<lambda>r. - int (og_wei_saved_total r))
          (map (\<lambda>(org, rows).
              \<lparr>og_org_name = snd (the org),
               og_project_count = length (remdups (map (pd_project_slug \<circ> fst) rows)),
               og_contract_count = length (remdups (map fd_to_address (List.map_filter snd rows))),
               og_tx_count = sum_list (map (pd_tx_count \<circ> fst) rows),
               og_usd_saved = sum_list (map (pd_usd_saved_total \<circ> fst) rows),
               og_wei_saved_total = sum_list (map (pd_wei_saved_total \<circ> fst) rows),
               og_wei_spent_total = sum_list (map (pd_wei_spent_total \<circ> fst) rows),
               og_avg_savings_pct = avg_float8 (qv_pg qv) (map (pd_avg_savings_pct \<circ> fst) rows)\<rparr>)
            (group_by (\<lambda>row. org_of d (pd_project_slug (fst row)))
              (concat (map (join_functions ru)
                (filter (\<lambda>p. pd_chain_id p = c \<and> visible_day qv (Days 30) (pd_day p) \<and> org_of d (pd_project_slug p) \<noteq> None)
                  (ru_project_daily ru)))))))))"

section \<open>A project\<close>

definition daily_for_project :: "'f query_env \<Rightarrow> int \<Rightarrow> string \<Rightarrow> int \<Rightarrow> rollups \<Rightarrow> store_error + daily_point list" where
  "daily_for_project qv c slug days ru =
     exec_sql (qv_faults qv) ''daily_for_project''
       (Inr (sort_key dp_day
          (map (\<lambda>p. \<lparr>dp_day = pd_day p, dp_usd_saved = pd_usd_saved_total p, dp_tx_count = pd_tx_count p\<rparr>)
            (filter (\<lambda>p. pd_chain_id p = c \<and> pd_project_slug p = slug \<and> visible_day qv (Days days) (pd_day p))
              (ru_project_daily ru)))))"

record 'f project_totals_row =
  pt_usd_saved :: rat
  pt_wei_saved :: nat
  pt_tx_count :: nat
  pt_avg_savings_pct :: "'f option"

definition project_totals :: "'f query_env \<Rightarrow> int \<Rightarrow> string \<Rightarrow> window \<Rightarrow> rollups \<Rightarrow> store_error + 'f project_totals_row" where
  "project_totals qv c slug w ru =
     (let rows = filter (\<lambda>p. pd_chain_id p = c \<and> pd_project_slug p = slug \<and> visible_day qv w (pd_day p)) (ru_project_daily ru)
      in exec_sql (qv_faults qv) ''project_totals''
           (Inr \<lparr>pt_usd_saved = sum_list (map pd_usd_saved_total rows), pt_wei_saved = sum_list (map pd_wei_saved_total rows),
                 pt_tx_count = sum_list (map pd_tx_count rows),
                 pt_avg_savings_pct = avg_float8 (qv_pg qv) (map pd_avg_savings_pct rows)\<rparr>))"

record 'k top_row =
  tr_key :: 'k
  tr_tx_count :: nat
  tr_gas_saved_total :: int
  tr_wei_saved_total :: nat

definition top_ten :: "(analysis_row \<Rightarrow> 'k) \<Rightarrow> analysis_row list \<Rightarrow> 'k top_row list" where
  "top_ten key rows =
     take 10 (sort_key (\<lambda>t. - int (tr_wei_saved_total t))
       (map (\<lambda>(k, rs). \<lparr>tr_key = k, tr_tx_count = length rs, tr_gas_saved_total = sum_list (map ar_gas_saved rs),
               tr_wei_saved_total = sum_list (map ar_wei_saved rs)\<rparr>) (group_by key rows)))"

definition top_contracts_for_project :: "'f query_env \<Rightarrow> int \<Rightarrow> string \<Rightarrow> db \<Rightarrow> store_error + address top_row list" where
  "top_contracts_for_project qv c slug d =
     exec_sql (qv_faults qv) ''top_contracts_for_project''
       (Inr (top_ten ar_to_address (filter (\<lambda>r. covered_recent qv c r \<and> ar_project_slug r = slug) (db_analysis d))))"

definition top_selectors_for_project :: "'f query_env \<Rightarrow> int \<Rightarrow> string \<Rightarrow> db \<Rightarrow> store_error + bytes top_row list" where
  "top_selectors_for_project qv c slug d =
     exec_sql (qv_faults qv) ''top_selectors_for_project''
       (Inr (top_ten ar_function_selector (filter (\<lambda>r. covered_recent qv c r \<and> ar_project_slug r = slug) (db_analysis d))))"

record tx_filters =
  tf_from :: "int option"
  tf_to :: "int option"
  tf_min_gas_saved :: "int option"

definition where_clause :: "tx_filters \<Rightarrow> analysis_row \<Rightarrow> bool" where
  "where_clause fs r \<longleftrightarrow>
     (case tf_from fs of None \<Rightarrow> True | Some d \<Rightarrow> d * 86400 \<le> ar_block_timestamp r)
   \<and> (case tf_to fs of None \<Rightarrow> True | Some d \<Rightarrow> ar_block_timestamp r < d * 86400)
   \<and> (case tf_min_gas_saved fs of None \<Rightarrow> True | Some m \<Rightarrow> m \<le> ar_gas_saved r)"

text \<open>The lists of transactions, newest first, one page at a time.\<close>

definition recent_matching :: "'f query_env \<Rightarrow> int \<Rightarrow> (analysis_row \<Rightarrow> bool) \<Rightarrow> tx_filters \<Rightarrow> analysis_row \<Rightarrow> bool" where
  "recent_matching qv c about fs r \<longleftrightarrow> ar_chain_id r = c \<and> about r \<and> counted r \<and> where_clause fs r
     \<and> floor_ts (qv_floor qv) (ar_block_timestamp r)"

definition recent_txs :: "'f query_env \<Rightarrow> int \<Rightarrow> (analysis_row \<Rightarrow> bool) \<Rightarrow> nat \<Rightarrow> nat \<Rightarrow> tx_filters \<Rightarrow> db \<Rightarrow> analysis_row list" where
  "recent_txs qv c about limit offset fs d =
     paged limit offset (sort_key (\<lambda>r. - ar_block_timestamp r)
       (qv_scan qv (filter (recent_matching qv c about fs) (db_analysis d))))"

definition recent_txs_for_project :: "'f query_env \<Rightarrow> int \<Rightarrow> string \<Rightarrow> nat \<Rightarrow> nat \<Rightarrow> tx_filters \<Rightarrow> db \<Rightarrow>
    store_error + analysis_row list" where
  "recent_txs_for_project qv c slug limit offset fs d =
     exec_sql (qv_faults qv) ''recent_txs_for_project'' (Inr (recent_txs qv c (\<lambda>r. ar_project_slug r = slug) limit offset fs d))"

section \<open>A contract and a function\<close>

definition contract_header :: "'f query_env \<Rightarrow> int \<Rightarrow> address \<Rightarrow> db \<Rightarrow> store_error + string \<times> string option" where
  "contract_header qv c a d =
     exec_sql (qv_faults qv) ''contract_header''
       (Inr (case db_address_project d (c, a) of
               Some (slug, _) \<Rightarrow> (slug, project_name_of d slug)
             | None \<Rightarrow> (''unknown:0x'' @ qv_hex qv a, None)))"

record 'f contract_totals_row =
  ct_usd_saved :: rat
  ct_wei_saved :: nat
  ct_tx_count :: nat
  ct_function_count :: nat
  ct_avg_savings_pct :: "'f option"

definition totals_of :: "'f query_env \<Rightarrow> nat \<Rightarrow> function_day list \<Rightarrow> 'f contract_totals_row" where
  "totals_of qv functions rows =
     \<lparr>ct_usd_saved = sum_list (map fd_usd_saved_total rows), ct_wei_saved = sum_list (map fd_wei_saved_total rows),
      ct_tx_count = sum_list (map fd_tx_count rows), ct_function_count = functions,
      ct_avg_savings_pct = avg_float8 (qv_pg qv) (map fd_avg_savings_pct rows)\<rparr>"

definition contract_totals :: "'f query_env \<Rightarrow> int \<Rightarrow> address \<Rightarrow> window \<Rightarrow> rollups \<Rightarrow> store_error + 'f contract_totals_row" where
  "contract_totals qv c a w ru =
     (let rows = filter (\<lambda>f. fd_chain_id f = c \<and> fd_to_address f = a \<and> visible_day qv w (fd_day f)) (ru_function_daily ru)
      in exec_sql (qv_faults qv) ''contract_totals''
           (Inr (totals_of qv (length (remdups (map fd_function_selector rows))) rows)))"

record 'f contract_function_row =
  cf_function_selector :: bytes
  cf_function_name :: "string option"
  cf_tx_count :: nat
  cf_usd_saved :: rat
  cf_avg_savings_pct :: "'f option"

definition functions_for_contract :: "'f query_env \<Rightarrow> int \<Rightarrow> address \<Rightarrow> db \<Rightarrow> rollups \<Rightarrow>
    store_error + 'f contract_function_row list" where
  "functions_for_contract qv c a d ru =
     exec_sql (qv_faults qv) ''functions_for_contract''
       (Inr (take 50 (sort_key (\<lambda>r. - cf_usd_saved r)
          (map (\<lambda>(sel, rows).
              \<lparr>cf_function_selector = sel, cf_function_name = selector_name d sel,
               cf_tx_count = sum_list (map fd_tx_count rows), cf_usd_saved = sum_list (map fd_usd_saved_total rows),
               cf_avg_savings_pct = avg_float8 (qv_pg qv) (map fd_avg_savings_pct rows)\<rparr>)
            (group_by fd_function_selector
              (filter (\<lambda>f. fd_chain_id f = c \<and> fd_to_address f = a \<and> visible_day qv (Days 30) (fd_day f))
                (ru_function_daily ru)))))))"

definition daily_for_contract :: "'f query_env \<Rightarrow> int \<Rightarrow> address \<Rightarrow> int \<Rightarrow> rollups \<Rightarrow> store_error + daily_point list" where
  "daily_for_contract qv c a days ru =
     exec_sql (qv_faults qv) ''daily_for_contract''
       (Inr (sort_key dp_day
          (map (\<lambda>(day, rows). \<lparr>dp_day = day, dp_usd_saved = sum_list (map fd_usd_saved_total rows),
                  dp_tx_count = sum_list (map fd_tx_count rows)\<rparr>)
            (group_by fd_day
              (filter (\<lambda>f. fd_chain_id f = c \<and> fd_to_address f = a \<and> visible_day qv (Days days) (fd_day f))
                (ru_function_daily ru))))))"

definition recent_txs_for_contract :: "'f query_env \<Rightarrow> int \<Rightarrow> address \<Rightarrow> nat \<Rightarrow> nat \<Rightarrow> tx_filters \<Rightarrow> db \<Rightarrow>
    store_error + analysis_row list" where
  "recent_txs_for_contract qv c a limit offset fs d =
     exec_sql (qv_faults qv) ''recent_txs_for_contract'' (Inr (recent_txs qv c (\<lambda>r. ar_to_address r = a) limit offset fs d))"

record function_header_row =
  fh_project_slug :: string
  fh_project_name :: "string option"
  fh_function_name :: "string option"
  fh_function_sig :: "string option"

definition function_header :: "'f query_env \<Rightarrow> int \<Rightarrow> address \<Rightarrow> bytes \<Rightarrow> db \<Rightarrow> store_error + function_header_row" where
  "function_header qv c a sel d =
     exec_sql (qv_faults qv) ''function_header''
       (Inr \<lparr>fh_project_slug = (case db_address_project d (c, a) of Some (slug, _) \<Rightarrow> slug | None \<Rightarrow> ''unknown:0x'' @ qv_hex qv a),
             fh_project_name = (case db_address_project d (c, a) of Some (slug, _) \<Rightarrow> project_name_of d slug | None \<Rightarrow> None),
             fh_function_name = selector_name d sel, fh_function_sig = selector_sig d sel\<rparr>)"

definition function_totals :: "'f query_env \<Rightarrow> int \<Rightarrow> address \<Rightarrow> bytes \<Rightarrow> window \<Rightarrow> rollups \<Rightarrow>
    store_error + 'f contract_totals_row" where
  "function_totals qv c a sel w ru =
     exec_sql (qv_faults qv) ''function_totals''
       (Inr (totals_of qv 1 (filter (\<lambda>f. fd_chain_id f = c \<and> fd_to_address f = a \<and> fd_function_selector f = sel
          \<and> visible_day qv w (fd_day f)) (ru_function_daily ru))))"

definition daily_for_function :: "'f query_env \<Rightarrow> int \<Rightarrow> address \<Rightarrow> bytes \<Rightarrow> int \<Rightarrow> rollups \<Rightarrow> store_error + daily_point list" where
  "daily_for_function qv c a sel days ru =
     exec_sql (qv_faults qv) ''daily_for_function''
       (Inr (sort_key dp_day
          (map (\<lambda>f. \<lparr>dp_day = fd_day f, dp_usd_saved = fd_usd_saved_total f, dp_tx_count = fd_tx_count f\<rparr>)
            (filter (\<lambda>f. fd_chain_id f = c \<and> fd_to_address f = a \<and> fd_function_selector f = sel
                \<and> visible_day qv (Days days) (fd_day f)) (ru_function_daily ru)))))"

definition recent_txs_for_function :: "'f query_env \<Rightarrow> int \<Rightarrow> address \<Rightarrow> bytes \<Rightarrow> nat \<Rightarrow> nat \<Rightarrow> tx_filters \<Rightarrow> db \<Rightarrow>
    store_error + analysis_row list" where
  "recent_txs_for_function qv c a sel limit offset fs d =
     exec_sql (qv_faults qv) ''recent_txs_for_function''
       (Inr (recent_txs qv c (\<lambda>r. ar_to_address r = a \<and> ar_function_selector r = sel) limit offset fs d))"

section \<open>Lists and candidates\<close>

definition list_orgs :: "faults \<Rightarrow> db \<Rightarrow> store_error + (string \<times> string) list" where
  "list_orgs flt d =
     exec_sql flt ''list_orgs''
       (Inr (sort_key snd (map (\<lambda>slug. (slug, the (db_organizations d slug))) (sorted_list_of_set (dom (db_organizations d))))))"

record project_list_row =
  pl_project_slug :: string
  pl_project_name :: string
  pl_org_slug :: "string option"

definition list_projects :: "faults \<Rightarrow> db \<Rightarrow> store_error + project_list_row list" where
  "list_projects flt d =
     exec_sql flt ''list_projects''
       (Inr (sort_key pl_project_name
          (map (\<lambda>slug. let p = the (db_projects d slug)
                in \<lparr>pl_project_slug = slug, pl_project_name = pr_name p, pl_org_slug = pr_org_slug p\<rparr>)
            (sorted_list_of_set (dom (db_projects d))))))"

record blacklist_row =
  bl_address :: address
  bl_selector :: "bytes option"
  bl_reason :: string
  bl_created_by :: string
  bl_created_at :: int

definition blacklist_list :: "faults \<Rightarrow> int \<Rightarrow> db \<Rightarrow> store_error + blacklist_row list" where
  "blacklist_list flt c d =
     exec_sql flt ''blacklist_list''
       (Inr (sort_key (\<lambda>b. - bl_created_at b)
          (map (\<lambda>(c', a, sel). let x = the (db_exclusions d (c', a, sel))
                in \<lparr>bl_address = a, bl_selector = (if sel = [] then None else Some sel), bl_reason = xc_reason x,
                    bl_created_by = xc_created_by x, bl_created_at = xc_created_at x\<rparr>)
            (sorted_list_of_set {k \<in> dom (db_exclusions d). fst k = c}))))"

record unresolved_selector_row =
  us_selector :: bytes
  us_example_address :: address
  us_tx_count :: nat
  us_wei_saved_total :: nat
  us_usd_saved_total :: rat

definition unresolved :: "db \<Rightarrow> bytes \<Rightarrow> bool" where
  "unresolved d sel \<longleftrightarrow> selector_name d sel = None
     \<or> (case db_function_selectors d sel of None \<Rightarrow> False | Some s \<Rightarrow> sr_source s = ''unresolved'')"

definition top_unresolved_selectors :: "'f query_env \<Rightarrow> int \<Rightarrow> nat \<Rightarrow> db \<Rightarrow> rollups \<Rightarrow>
    store_error + unresolved_selector_row list" where
  "top_unresolved_selectors qv c limit d ru =
     exec_sql (qv_faults qv) ''top_unresolved_selectors''
       (Inr (take limit (sort_key (\<lambda>r. - int (us_wei_saved_total r))
          (map (\<lambda>(sel, rows).
              \<lparr>us_selector = sel,
               us_example_address = fd_to_address (hd (sort_key (\<lambda>f. - int (fd_wei_saved_total f)) rows)),
               us_tx_count = sum_list (map fd_tx_count rows), us_wei_saved_total = sum_list (map fd_wei_saved_total rows),
               us_usd_saved_total = sum_list (map fd_usd_saved_total rows)\<rparr>)
            (group_by fd_function_selector
              (filter (\<lambda>f. fd_chain_id f = c \<and> visible_day qv (Days 30) (fd_day f) \<and> unresolved d (fd_function_selector f))
                (ru_function_daily ru)))))))"

record unknown_row =
  un_address :: address
  un_tx_count :: nat
  un_wei_saved_total :: nat
  un_last_seen :: int

definition top_unknowns :: "'f query_env \<Rightarrow> int \<Rightarrow> db \<Rightarrow> store_error + unknown_row list" where
  "top_unknowns qv c d =
     exec_sql (qv_faults qv) ''top_unknowns''
       (Inr (take 20 (sort_key (\<lambda>r. - int (un_wei_saved_total r))
          (map (\<lambda>(a, rows). \<lparr>un_address = a, un_tx_count = length rows, un_wei_saved_total = sum_list (map ar_wei_saved rows),
                  un_last_seen = Max (set (map ar_block_timestamp rows))\<rparr>)
            (group_by ar_to_address
              (filter (\<lambda>r. covered_recent qv c r \<and> is_unknown (ar_project_slug r)) (db_analysis d)))))))"

record candidate_row =
  cr_address :: address
  cr_first_seen :: int
  cr_last_seen :: int
  cr_tx_count :: nat
  cr_wei_saved_total :: nat
  cr_usd_saved_total :: rat

definition row_usd :: "'f pg_env \<Rightarrow> db \<Rightarrow> analysis_row \<Rightarrow> rat" where
  "row_usd pg d r = (case db_eth_prices d (row_day r) of None \<Rightarrow> 0 | Some p \<Rightarrow> pg_usd pg (ar_wei_saved r) p)"

definition new_high_savings_candidates :: "'f query_env \<Rightarrow> int \<Rightarrow> int \<Rightarrow> nat \<Rightarrow> nat \<Rightarrow> db \<Rightarrow> store_error + candidate_row list" where
  "new_high_savings_candidates qv c days min_wei limit d =
     exec_sql (qv_faults qv) ''new_high_savings_candidates''
       (Inr (take limit (sort_key (\<lambda>r. - int (cr_wei_saved_total r))
          (filter (\<lambda>r. qv_now qv - days * 86400 \<le> cr_first_seen r \<and> min_wei \<le> cr_wei_saved_total r)
            (map (\<lambda>(a, rows).
                \<lparr>cr_address = a, cr_first_seen = Min (set (map ar_block_timestamp rows)),
                 cr_last_seen = Max (set (map ar_block_timestamp rows)), cr_tx_count = length rows,
                 cr_wei_saved_total = sum_list (map ar_wei_saved rows),
                 cr_usd_saved_total = sum_list (map (row_usd (qv_pg qv) d) rows)\<rparr>)
              (group_by ar_to_address
                (filter (\<lambda>r. ar_chain_id r = c \<and> is_unknown (ar_project_slug r) \<and> counted r
                    \<and> floor_ts (qv_floor qv) (ar_block_timestamp r) \<and> db_exclusions d (c, ar_to_address r, []) = None)
                  (db_analysis d))))))))"

section \<open>Health\<close>

definition inserted_today :: "'f query_env \<Rightarrow> analysis_row \<Rightarrow> bool" where
  "inserted_today qv r \<longleftrightarrow> qv_now qv - 24 * 3600 \<le> qv_inserted_at qv r"

text \<open>The share as a fraction.\<close>

definition heuristic_rate_24h :: "'f query_env \<Rightarrow> int \<Rightarrow> db \<Rightarrow> store_error + (nat \<times> nat) option" where
  "heuristic_rate_24h qv c d =
     (let rows = filter (\<lambda>r. ar_chain_id r = c \<and> inserted_today qv r) (db_analysis d)
      in exec_sql (qv_faults qv) ''heuristic_rate_24h''
           (Inr (if rows = [] then None else Some (length (filter ar_is_heuristic rows), length rows))))"

definition error_category :: "string \<Rightarrow> string" where
  "error_category reason =
     (let s = to_lowercase reason
      in if str_contains s ''rate limit'' then ''rate_limit''
         else if str_contains s ''timeout'' then ''timeout''
         else if str_contains s ''response size'' then ''response_too_large''
         else if str_contains s ''429'' then ''rate_limit''
         else ''other'')"

definition error_categories_24h :: "'f query_env \<Rightarrow> int \<Rightarrow> db \<Rightarrow> store_error + (string \<times> nat) list" where
  "error_categories_24h qv c d =
     exec_sql (qv_faults qv) ''error_categories_24h''
       (Inr (sort_key (\<lambda>(_, n). - int n)
          (map (\<lambda>(cat, rows). (cat, length rows))
            (group_by (\<lambda>r. error_category (the (ar_failure_reason r)))
              (filter (\<lambda>r. ar_chain_id r = c \<and> ar_failure_reason r \<noteq> None \<and> inserted_today qv r) (db_analysis d))))))"

record analysis_health_row =
  ah_total_rows :: nat
  ah_latest_block :: "int option"
  ah_last_insert_age_secs :: "int option"

definition analysis_health :: "'f query_env \<Rightarrow> int \<Rightarrow> db \<Rightarrow> store_error + analysis_health_row" where
  "analysis_health qv c d =
     (let rows = filter (\<lambda>r. ar_chain_id r = c) (db_analysis d)
      in exec_sql (qv_faults qv) ''analysis_health''
           (Inr \<lparr>ah_total_rows = length rows,
                 ah_latest_block = (if rows = [] then None else Some (Max (set (map ar_block_number rows)))),
                 ah_last_insert_age_secs =
                   (if rows = [] then None else Some (qv_now qv - Max (set (map (qv_inserted_at qv) rows))))\<rparr>))"

section \<open>The pages agree\<close>

lemma sum_list_sort: "sum_list (map f (sort_key k xs)) = sum_list (map f xs)"
  for f :: "'a \<Rightarrow> 'b::comm_monoid_add"
  by (metis mset_map mset_sort sum_mset_sum_list)

lemma paged_all: "length xs \<le> limit \<Longrightarrow> paged limit 0 xs = xs"
  by (simp add: paged_def)

lemma group_by_length: "length (group_by f xs) = length (remdups (map f xs))"
  by (metis group_by_keys length_map)

text \<open>A column that sums a column of the groups' rows sums that column of all rows.\<close>

lemma group_sums:
  fixes g :: "'c \<Rightarrow> 'b::comm_monoid_add"
  assumes "\<And>k ys. g (mk k ys) = sum_list (map h ys)"
  shows "sum_list (map g (map (\<lambda>(k, ys). mk k ys) (group_by f xs))) = sum_list (map h xs)"
  using view_sum [where f = f and xs = xs and g = g and mk = mk and h = h and Q = "\<lambda>_. True" and P = "\<lambda>_. True"] assms
  by simp

lemma sorted_days:
  assumes "distinct (map dp_day xs)"
  shows "sorted_wrt (<) (map dp_day (sort_key dp_day xs))"
proof -
  have "distinct (map dp_day (sort_key dp_day xs))"
    using assms by (metis mset_eq_imp_distinct_iff mset_map mset_sort)
  then show ?thesis using sorted_sort_key [of dp_day xs] by (simp add: strict_sorted_iff)
qed

lemma visible_project_days:
  "ru = rollups_of pg d \<Longrightarrow>
   sum_list (map pd_tx_count (filter (\<lambda>p. pd_chain_id p = c \<and> visible_day qv w (pd_day p)) (ru_project_daily ru)))
     = length (filter (\<lambda>r. counted r \<and> ar_chain_id r = c \<and> visible_day qv w (row_day r)) (db_analysis d))"
  "ru = rollups_of pg d \<Longrightarrow>
   sum_list (map pd_wei_saved_total (filter (\<lambda>p. pd_chain_id p = c \<and> visible_day qv w (pd_day p)) (ru_project_daily ru)))
     = sum_list (map ar_wei_saved (filter (\<lambda>r. counted r \<and> ar_chain_id r = c \<and> visible_day qv w (row_day r)) (db_analysis d)))"
  by (simp_all add: rollups_of_def project_daily_sums [where P = "\<lambda>c' slug day. c' = c \<and> visible_day qv w day"])

text \<open>
  C0. The dashboard adds up: after a refresh, the totals of a window count exactly the analyses with
  savings and without skipped opcodes on its days above the floor, and their wei; the daily chart shows
  each day once, in order, and its counts and dollars sum to the totals; the ranking of projects, asked for
  as many rows as the totals count projects, sums to the totals of thirty days, and each of its rows shows
  what the project's own page shows.
\<close>

theorem dashboard_adds_up:
  fixes c :: int
  assumes "refresh_rollups flt pg d ru0 = (Inr (), ru)" and up: "qv_faults qv = (\<lambda>_. None)"
  defines "rows w \<equiv> filter (\<lambda>r. counted r \<and> ar_chain_id r = c \<and> visible_day qv w (row_day r)) (db_analysis d)"
  shows "(\<exists>t ps. overview_totals qv c (Days n) ru = Inr t \<and> daily_overview qv c n ru = Inr ps
      \<and> ot_tx_count t = length (rows (Days n)) \<and> ot_wei_saved t = sum_list (map ar_wei_saved (rows (Days n)))
      \<and> sum_list (map dp_tx_count ps) = ot_tx_count t \<and> sum_list (map dp_usd_saved ps) = ot_usd_saved t
      \<and> sorted_wrt (<) (map dp_day ps))
    \<and> (\<exists>t ls. overview_totals qv c (Days 30) ru = Inr t \<and> leaderboard_30d qv c (ot_project_count t) 0 d ru = Inr ls
      \<and> length ls = ot_project_count t \<and> sum_list (map lr_tx_count ls) = ot_tx_count t
      \<and> sum_list (map lr_wei_saved_total ls) = ot_wei_saved t
      \<and> (\<forall>l \<in> set ls. \<exists>pt. project_totals qv c (lr_project_slug l) (Days 30) ru = Inr pt
           \<and> pt_tx_count pt = lr_tx_count l \<and> pt_wei_saved pt = lr_wei_saved_total l
           \<and> pt_avg_savings_pct pt = lr_avg_savings_pct l))"
proof -
  have ru: "ru = rollups_of pg d" using assms(1) by (rule refresh_rollups_Inr)
  let ?days = "\<lambda>w. filter (\<lambda>p. pd_chain_id p = c \<and> visible_day qv w (pd_day p)) (ru_project_daily ru)"
  have sums: "sum_list (map pd_tx_count (?days w)) = length (rows w)"
    "sum_list (map pd_wei_saved_total (?days w)) = sum_list (map ar_wei_saved (rows w))" for w
    using visible_project_days [OF ru] by (simp_all add: rows_def)
  let ?pt = "\<lambda>day ys. \<lparr>dp_day = day, dp_usd_saved = sum_list (map pd_usd_saved_total ys), dp_tx_count = sum_list (map pd_tx_count ys)\<rparr>"
  let ?ps = "map (\<lambda>(day, ys). ?pt day ys) (group_by pd_day (?days (Days n)))"
  have "distinct (map dp_day ?ps)" by (simp add: group_by_def comp_def)
  moreover have "sum_list (map dp_tx_count ?ps) = sum_list (map pd_tx_count (?days (Days n)))"
    "sum_list (map dp_usd_saved ?ps) = sum_list (map pd_usd_saved_total (?days (Days n)))"
    by (rule group_sums; simp)+
  ultimately have daily: "\<exists>t ps. overview_totals qv c (Days n) ru = Inr t \<and> daily_overview qv c n ru = Inr ps
      \<and> ot_tx_count t = length (rows (Days n)) \<and> ot_wei_saved t = sum_list (map ar_wei_saved (rows (Days n)))
      \<and> sum_list (map dp_tx_count ps) = ot_tx_count t \<and> sum_list (map dp_usd_saved ps) = ot_usd_saved t
      \<and> sorted_wrt (<) (map dp_day ps)"
    unfolding overview_totals_def daily_overview_def exec_sql_def up Let_def
    by (simp add: sums sum_list_sort sorted_days)
  let ?g = "\<lambda>slug ys. leaderboard_group qv c d slug ys"
  let ?ls = "map (\<lambda>(slug, ys). ?g slug ys) (group_by pd_project_slug (?days (Days 30)))"
  have "sum_list (map lr_tx_count ?ls) = sum_list (map pd_tx_count (?days (Days 30)))"
    "sum_list (map lr_wei_saved_total ?ls) = sum_list (map pd_wei_saved_total (?days (Days 30)))"
    by (rule group_sums; simp add: leaderboard_group_def)+
  moreover have "\<exists>pt. project_totals qv c (lr_project_slug l) (Days 30) ru = Inr pt \<and> pt_tx_count pt = lr_tx_count l
      \<and> pt_wei_saved pt = lr_wei_saved_total l \<and> pt_avg_savings_pct pt = lr_avg_savings_pct l" if "l \<in> set ?ls" for l
  proof -
    from that obtain slug where l: "l = ?g slug (filter (\<lambda>p. pd_project_slug p = slug) (?days (Days 30)))"
      by (auto simp: group_by_rows)
    have "filter (\<lambda>p. pd_project_slug p = slug) (?days (Days 30))
        = filter (\<lambda>p. pd_chain_id p = c \<and> pd_project_slug p = slug \<and> visible_day qv (Days 30) (pd_day p)) (ru_project_daily ru)"
      unfolding filter_filter by (rule filter_cong) auto
    then show ?thesis by (simp add: l project_totals_def exec_sql_def up leaderboard_group_def Let_def)
  qed
  ultimately have "\<exists>t ls. overview_totals qv c (Days 30) ru = Inr t \<and> leaderboard_30d qv c (ot_project_count t) 0 d ru = Inr ls
      \<and> length ls = ot_project_count t \<and> sum_list (map lr_tx_count ls) = ot_tx_count t
      \<and> sum_list (map lr_wei_saved_total ls) = ot_wei_saved t
      \<and> (\<forall>l \<in> set ls. \<exists>pt. project_totals qv c (lr_project_slug l) (Days 30) ru = Inr pt
           \<and> pt_tx_count pt = lr_tx_count l \<and> pt_wei_saved pt = lr_wei_saved_total l
           \<and> pt_avg_savings_pct pt = lr_avg_savings_pct l)"
    unfolding overview_totals_def leaderboard_30d_def exec_sql_def up Let_def
    by (simp add: paged_all sum_list_sort group_by_length)
  with daily show ?thesis by blast
qed

section \<open>The ranking of organizations\<close>

definition functions_of :: "rollups \<Rightarrow> project_day \<Rightarrow> nat" where
  "functions_of ru p = length (filter (\<lambda>f. fd_project_slug f = pd_project_slug p \<and> fd_day f = pd_day p
     \<and> fd_chain_id f = pd_chain_id p) (ru_function_daily ru))"

lemma join_functions_copies:
  "map fst (join_functions ru p) = replicate (max 1 (functions_of ru p)) p"
  by (auto simp: join_functions_def functions_of_def comp_def map_replicate_const split: list.splits)

lemma joined_sum:
  fixes h :: "project_day \<Rightarrow> nat"
  shows "sum_list (map (h \<circ> fst) (filter (\<lambda>row. P (fst row)) (concat (map (join_functions ru) ps))))
    = sum_list (map (\<lambda>p. max 1 (functions_of ru p) * h p) (filter P ps))"
proof (induction ps)
  case (Cons p ps)
  have "map (h \<circ> fst) (filter (\<lambda>row. P (fst row)) (join_functions ru p))
      = map h (filter P (map fst (join_functions ru p)))"
    by (simp add: filter_map comp_def)
  then have "sum_list (map (h \<circ> fst) (filter (\<lambda>row. P (fst row)) (join_functions ru p)))
      = (if P p then max 1 (functions_of ru p) * h p else 0)"
    unfolding join_functions_copies by (simp add: sum_list_replicate)
  with Cons show ?case by (simp only: list.map concat.simps filter_append map_append sum_list_append filter.simps) simp
qed simp

text \<open>
  C0. The ranking of organizations counts too much: what it shows for an organization is not the sum over
  its projects' days but that sum with every day taken as many times as the project had functions on it.
\<close>

theorem org_ranking_counts_copies:
  assumes "leaderboard_orgs_30d qv c limit offset d ru = Inr rows" and "row \<in> set rows"
  shows "\<exists>org. org \<in> org_of d ` UNIV \<and> org \<noteq> None \<and> og_org_name row = snd (the org)
    \<and> (let days = filter (\<lambda>p. pd_chain_id p = c \<and> visible_day qv (Days 30) (pd_day p) \<and> org_of d (pd_project_slug p) = org)
          (ru_project_daily ru)
       in og_tx_count row = sum_list (map (\<lambda>p. max 1 (functions_of ru p) * pd_tx_count p) days)
        \<and> og_wei_saved_total row = sum_list (map (\<lambda>p. max 1 (functions_of ru p) * pd_wei_saved_total p) days))"
proof -
  let ?ps = "filter (\<lambda>p. pd_chain_id p = c \<and> visible_day qv (Days 30) (pd_day p) \<and> org_of d (pd_project_slug p) \<noteq> None)
      (ru_project_daily ru)"
  let ?joined = "concat (map (join_functions ru) ?ps)"
  obtain org ys where g: "(org, ys) \<in> set (group_by (\<lambda>r. org_of d (pd_project_slug (fst r))) ?joined)"
    and row: "og_org_name row = snd (the org)" "og_tx_count row = sum_list (map (pd_tx_count \<circ> fst) ys)"
      "og_wei_saved_total row = sum_list (map (pd_wei_saved_total \<circ> fst) ys)"
    using assms by (auto simp: leaderboard_orgs_30d_def exec_sql_def paged_def split: option.splits
        dest!: in_set_takeD in_set_dropD)
  have ys: "ys = filter (\<lambda>r. org_of d (pd_project_slug (fst r)) = org) ?joined" and "org \<in> org_of d ` UNIV"
    using g by (auto simp: group_by_rows)
  have "fst r = p" if "r \<in> set (join_functions ru p)" for r p
    using that arg_cong [OF join_functions_copies [of ru p], of set] by auto
  moreover obtain r p where "p \<in> set ?ps" "r \<in> set (join_functions ru p)" "org = org_of d (pd_project_slug (fst r))"
    using g by (auto simp: group_by_rows simp del: set_filter)
  ultimately have "org \<noteq> None" by auto
  have days: "filter (\<lambda>p. org_of d (pd_project_slug p) = org) ?ps
      = filter (\<lambda>p. pd_chain_id p = c \<and> visible_day qv (Days 30) (pd_day p) \<and> org_of d (pd_project_slug p) = org) (ru_project_daily ru)"
    unfolding filter_filter by (rule filter_cong) (use \<open>org \<noteq> None\<close> in auto)
  have "og_tx_count row = sum_list (map (\<lambda>p. max 1 (functions_of ru p) * pd_tx_count p)
        (filter (\<lambda>p. org_of d (pd_project_slug p) = org) ?ps))"
    "og_wei_saved_total row = sum_list (map (\<lambda>p. max 1 (functions_of ru p) * pd_wei_saved_total p)
        (filter (\<lambda>p. org_of d (pd_project_slug p) = org) ?ps))"
    unfolding row(2,3) ys by (rule joined_sum)+
  then show ?thesis
    unfolding days Let_def using row(1) \<open>org \<in> org_of d ` UNIV\<close> \<open>org \<noteq> None\<close> by blast
qed

section \<open>The blacklist\<close>

lemma in_paged: "x \<in> set (paged limit offset xs) \<Longrightarrow> x \<in> set xs"
  by (auto simp: paged_def dest: in_set_takeD in_set_dropD)

lemma shown_functions_not_excluded:
  "f \<in> set (shown_functions qv c d ru) \<Longrightarrow> \<not> excluded d c (fd_to_address f) (fd_function_selector f)"
  by (simp add: shown_functions_def)

lemma ranked_functions:
  assumes "leaderboard_functions_30d qv c limit offset d ru = Inr fs" and "r \<in> set fs"
  shows "\<exists>f \<in> set (shown_functions qv c d ru). fl_to_address r = fd_to_address f \<and> fl_function_selector r = fd_function_selector f"
proof -
  obtain a sel slug ys where "((a, sel, slug), ys) \<in> set (group_by (\<lambda>f. (fd_to_address f, fd_function_selector f, fd_project_slug f))
      (shown_functions qv c d ru))" "fl_to_address r = a" "fl_function_selector r = sel"
    using assms by (auto simp: leaderboard_functions_30d_def exec_sql_def split: option.splits dest!: in_paged)
  then show ?thesis by (auto simp: group_by_rows)
qed

lemma ranked_contracts:
  assumes "leaderboard_contracts_30d qv c limit offset d ru = Inr cs" and "r \<in> set cs"
  shows "\<exists>f \<in> set (shown_functions qv c d ru). cl_to_address r = fd_to_address f"
proof -
  obtain a slug ys where "((a, slug), ys) \<in> set (group_by (\<lambda>f. (fd_to_address f, fd_project_slug f)) (shown_functions qv c d ru))"
    "cl_to_address r = a"
    using assms by (auto simp: leaderboard_contracts_30d_def exec_sql_def split: option.splits dest!: in_paged)
  then show ?thesis by (auto simp: group_by_rows)
qed

lemma candidate_not_excluded:
  assumes "new_high_savings_candidates qv c days min_wei limit d = Inr ks" and "r \<in> set ks"
  shows "db_exclusions d (c, cr_address r, []) = None"
proof -
  let ?rows = "filter (\<lambda>r. ar_chain_id r = c \<and> is_unknown (ar_project_slug r) \<and> counted r
      \<and> floor_ts (qv_floor qv) (ar_block_timestamp r) \<and> db_exclusions d (c, ar_to_address r, []) = None) (db_analysis d)"
  obtain a ys where "(a, ys) \<in> set (group_by ar_to_address ?rows)" "cr_address r = a"
    using assms by (auto simp: new_high_savings_candidates_def exec_sql_def split: option.splits dest!: in_set_takeD)
  then have "cr_address r \<in> ar_to_address ` set ?rows" by (simp only: group_by_rows)
  then show ?thesis by auto
qed

text \<open>
  C0. The blacklist hides where it is joined and only there: once a contract is on it, neither ranking
  of functions or contracts and no list of candidates shows it, and once a function is, the ranking of
  functions does not. The ranking of projects, the top contracts of a project and the unknown
  contracts are what they were.
\<close>

theorem blacklist_hides:
  assumes "blacklist_add flt now chain a sel reason who d = Inr d'" and c: "c = as_i64 chain"
    and "leaderboard_functions_30d qv c n1 m1 d' ru = Inr fs" and "leaderboard_contracts_30d qv c n2 m2 d' ru = Inr cs"
    and "new_high_savings_candidates qv c days min_wei n3 d' = Inr ks"
  shows "(\<forall>f \<in> set fs. fl_to_address f = a \<longrightarrow> (\<exists>s. sel = Some s \<and> fl_function_selector f \<noteq> s))
    \<and> (sel = None \<longrightarrow> a \<notin> cl_to_address ` set cs \<and> a \<notin> cr_address ` set ks)
    \<and> leaderboard_30d qv c n4 m4 d' ru = leaderboard_30d qv c n4 m4 d ru
    \<and> top_contracts_for_project qv c slug d' = top_contracts_for_project qv c slug d
    \<and> top_unknowns qv c d' = top_unknowns qv c d"
proof -
  have d': "db_exclusions d' (c, a, case sel of None \<Rightarrow> [] | Some s \<Rightarrow> s) \<noteq> None"
    and same: "db_analysis d' = db_analysis d" "db_projects d' = db_projects d"
    using assms(1) by (auto simp: blacklist_add_def exclusion_key_def c exec_sql_def split: option.splits)
  have "\<exists>s. sel = Some s \<and> fl_function_selector f \<noteq> s" if "f \<in> set fs" "fl_to_address f = a" for f
    using ranked_functions [OF assms(3) that(1)] that(2) d' shown_functions_not_excluded
    by (cases sel) (fastforce simp: excluded_def)+
  moreover have "a \<notin> cl_to_address ` set cs" if "sel = None"
    using ranked_contracts [OF assms(4)] d' that shown_functions_not_excluded by (fastforce simp: excluded_def)
  moreover have "a \<notin> cr_address ` set ks" if "sel = None"
    using candidate_not_excluded [OF assms(5)] d' that by auto
  moreover have "leaderboard_30d qv c n4 m4 d' ru = leaderboard_30d qv c n4 m4 d ru"
    "top_contracts_for_project qv c slug d' = top_contracts_for_project qv c slug d" "top_unknowns qv c d' = top_unknowns qv c d"
    by (simp_all add: leaderboard_30d_def leaderboard_group_def project_name_of_def top_contracts_for_project_def top_unknowns_def same)
  ultimately show ?thesis by blast
qed

section \<open>A sample chain\<close>

text \<open>Two transactions of one day, to two functions of a contract whose project belongs to an organization.\<close>

definition toy_row :: "int \<Rightarrow> bytes \<Rightarrow> analysis_row" where
  "toy_row i sel = \<lparr>ar_chain_id = 1, ar_block_number = 7, ar_block_timestamp = 86400, ar_tx_hash = 0, ar_tx_index = i,
     ar_from_address = 187, ar_to_address = 170, ar_function_selector = sel, ar_project_slug = ''dex'', ar_gas_used = 100,
     ar_effective_gas_price_wei = 2, ar_gaskiller_gas_estimate = 60, ar_gas_saved = 40, ar_wei_saved = 80,
     ar_is_heuristic = False, ar_failure_reason = None, ar_state_update_count = 1, ar_skipped_opcodes = {}, ar_reentered = False\<rparr>"

definition toy_db :: db where
  "toy_db = empty_db\<lparr>db_analysis := [toy_row 0 [1, 0, 0, 0], toy_row 1 [2, 0, 0, 0]],
     db_projects := [''dex'' \<mapsto> \<lparr>pr_name = ''Dex'', pr_category = None, pr_contact_email = None, pr_contact_url = None,
       pr_last_seen_at = 0, pr_org_slug = Some ''o''\<rparr>], db_organizations := [''o'' \<mapsto> ''Org'']\<rparr>"

definition toy_query :: "int query_env" where
  "toy_query = \<lparr>qv_pg = toy_pg, qv_faults = (\<lambda>_. None), qv_now = 90000, qv_floor = None, qv_scan = (\<lambda>xs. xs),
     qv_inserted_at = ar_block_timestamp, qv_hex = (\<lambda>_. ''aa'')\<rparr>"

lemma toy_refresh: "refresh_rollups (\<lambda>_. None) toy_pg toy_db no_rollups = (Inr (), rollups_of toy_pg toy_db)"
  by (simp add: refresh_rollups_cases)

lemma toy_visible: "visible_day toy_query (Days n) 1 \<longleftrightarrow> day_of (90000 - n * 86400) \<le> 1"
  by (simp add: visible_day_def in_window_def since_day_def floor_day_def toy_query_def)

lemma toy_views:
  "map pd_tx_count (project_daily toy_pg toy_db) = [2]" "map pd_day (project_daily toy_pg toy_db) = [1]"
  "map pd_project_slug (project_daily toy_pg toy_db) = [''dex'']" "map pd_chain_id (project_daily toy_pg toy_db) = [1]"
  "map fd_function_selector (function_daily toy_pg toy_db) = [[1, 0, 0, 0], [2, 0, 0, 0]]"
  "map fd_day (function_daily toy_pg toy_db) = [1, 1]" "map fd_project_slug (function_daily toy_pg toy_db) = [''dex'', ''dex'']"
  "map fd_chain_id (function_daily toy_pg toy_db) = [1, 1]" "map fd_to_address (function_daily toy_pg toy_db) = [170, 170]"
  by (simp_all add: project_daily_def function_daily_def group_by_def project_day_row_def function_day_row_def counted_def
      row_day_def day_of_def toy_db_def toy_row_def empty_db_def)

theorem dashboard_adds_up_witness:
  "\<exists>t ps. overview_totals toy_query 1 (Days 7) (rollups_of toy_pg toy_db) = Inr t
     \<and> daily_overview toy_query 1 7 (rollups_of toy_pg toy_db) = Inr ps
     \<and> ot_tx_count t = 2 \<and> sum_list (map dp_tx_count ps) = 2"
proof -
  have up: "qv_faults toy_query = (\<lambda>_. None)" by (simp add: toy_query_def)
  have "length (filter (\<lambda>r. counted r \<and> ar_chain_id r = 1 \<and> visible_day toy_query (Days 7) (row_day r)) (db_analysis toy_db)) = 2"
    by (simp add: toy_db_def toy_row_def empty_db_def counted_def row_day_def day_of_def toy_visible)
  with conjunct1 [OF dashboard_adds_up [OF toy_refresh up, of 1 7]] show ?thesis by metis
qed

text \<open>The organization is shown with four transactions.\<close>

theorem org_ranking_counts_copies_witness:
  "\<exists>row. leaderboard_orgs_30d toy_query 1 50 0 toy_db (rollups_of toy_pg toy_db) = Inr [row]
     \<and> og_org_name row = ''Org'' \<and> og_tx_count row = 4"
proof -
  let ?ru = "rollups_of toy_pg toy_db"
  obtain p where p: "project_daily toy_pg toy_db = [p]" "pd_tx_count p = 2" "pd_day p = 1" "pd_project_slug p = ''dex''" "pd_chain_id p = 1"
    using toy_views(1-4) by (cases "project_daily toy_pg toy_db") auto
  obtain f g where f: "function_daily toy_pg toy_db = [f, g]" "fd_day f = 1" "fd_day g = 1" "fd_project_slug f = ''dex''"
      "fd_project_slug g = ''dex''" "fd_chain_id f = 1" "fd_chain_id g = 1"
    using toy_views(5-8) by (cases "function_daily toy_pg toy_db") (auto simp: Cons_eq_map_conv map_eq_Cons_conv)
  have org: "org_of toy_db ''dex'' = Some (''o'', ''Org'')" by (simp add: org_of_def toy_db_def)
  have vis: "visible_day toy_query (Days 30) 1" by (simp add: toy_visible day_of_def)
  have copies: "functions_of ?ru p = 2" using p f by (simp add: functions_of_def rollups_of_def)
  obtain row where row: "leaderboard_orgs_30d toy_query 1 50 0 toy_db ?ru = Inr [row]"
    using p f org vis by (simp add: leaderboard_orgs_30d_def exec_sql_def toy_query_def [THEN arg_cong [where f = qv_faults]]
        join_functions_def rollups_of_def group_by_def paged_def)
  from org_ranking_counts_copies [OF row] obtain org where o: "og_org_name row = snd (the org)" "org \<noteq> None" "org \<in> org_of toy_db ` UNIV"
    "og_tx_count row = sum_list (map (\<lambda>p. max 1 (functions_of ?ru p) * pd_tx_count p)
       (filter (\<lambda>p. pd_chain_id p = 1 \<and> visible_day toy_query (Days 30) (pd_day p) \<and> org_of toy_db (pd_project_slug p) = org)
         (ru_project_daily ?ru)))"
    by (auto simp: Let_def)
  have "org = Some (''o'', ''Org'')" using o(2,3) by (auto simp: org_of_def toy_db_def empty_db_def split: option.splits if_splits)
  with o p org vis copies row show ?thesis by (auto simp: rollups_of_def)
qed

theorem blacklist_hides_witness:
  "\<exists>d' fs. blacklist_add (\<lambda>_. None) 0 1 170 None ''test'' ''bd'' toy_db = Inr d'
     \<and> leaderboard_functions_30d toy_query 1 50 0 d' (rollups_of toy_pg toy_db) = Inr fs \<and> 170 \<notin> fl_to_address ` set fs"
proof -
  obtain d' where d': "blacklist_add (\<lambda>_. None) 0 1 170 None ''test'' ''bd'' toy_db = Inr d'"
    by (simp add: blacklist_add_def exec_sql_def)
  have c: "1 = as_i64 1" by (simp add: as_i64_def)
  obtain fs where fs: "leaderboard_functions_30d toy_query 1 50 0 d' (rollups_of toy_pg toy_db) = Inr fs"
    by (simp add: leaderboard_functions_30d_def exec_sql_def toy_query_def)
  obtain cs where cs: "leaderboard_contracts_30d toy_query 1 50 0 d' (rollups_of toy_pg toy_db) = Inr cs"
    by (simp add: leaderboard_contracts_30d_def exec_sql_def toy_query_def)
  obtain ks where ks: "new_high_savings_candidates toy_query 1 14 0 25 d' = Inr ks"
    by (simp add: new_high_savings_candidates_def exec_sql_def toy_query_def)
  from blacklist_hides [OF d' c fs cs ks] d' fs show ?thesis by auto
qed

end
