(* ===== verification/Web_Pages.thy ===== *)
theory Web_Pages
  imports Web_Admin Web_Queries
begin

text \<open>
  The read-only pages: the handlers of \<^verbatim>\<open>crates/indexer-web/src/handlers/public.rs\<close> and the pages of
  \<^verbatim>\<open>admin.rs\<close> that change nothing. A page is the data its template gets, made from the queries of
  \<open>Web_Queries\<close> in the order the handler runs them, the first error ending it. Arithmetic and printing of
  \<open>f64\<close>, hex, dates and Redis are the records \<open>f64_ops\<close> and \<open>page_env\<close>.
\<close>

section \<open>Numbers and times\<close>

record 'f f64_ops =
  f_of_decimal :: "rat \<Rightarrow> 'f"
  f_lit :: "rat \<Rightarrow> 'f"
  f_le :: "'f \<Rightarrow> 'f \<Rightarrow> bool"
  f_less :: "'f \<Rightarrow> 'f \<Rightarrow> bool"
  f_eq :: "'f \<Rightarrow> 'f \<Rightarrow> bool"
  f_mult :: "'f \<Rightarrow> 'f \<Rightarrow> 'f"
  f_div :: "'f \<Rightarrow> 'f \<Rightarrow> 'f"
  f_fixed :: "nat \<Rightarrow> 'f \<Rightarrow> string"
  f_exp :: "nat \<Rightarrow> 'f \<Rightarrow> string"
  f_max :: "'f \<Rightarrow> 'f \<Rightarrow> 'f"
  f_whole :: "'f \<Rightarrow> nat option"

record 'f page_env =
  wp_query :: "'f query_env"
  wp_f64 :: "'f f64_ops"
  wp_chain_id :: int
  wp_explorer_tx_url :: string
  wp_explorer_address_url :: string
  wp_hex :: "bytes \<Rightarrow> string"
  wp_hex_hash :: "b256 \<Rightarrow> string"
  wp_hex_decode :: "string \<Rightarrow> bytes option"
  wp_parse_date :: "string \<Rightarrow> int option"
  wp_show_date :: "int \<Rightarrow> string"
  wp_show_time :: "int \<Rightarrow> string"

definition format_usd_value :: "'f f64_ops \<Rightarrow> 'f \<Rightarrow> string" where
  "format_usd_value f v =
     (if f_le f (f_lit f 1000000) v then CHR ''$'' # f_fixed f 2 (f_div f v (f_lit f 1000000)) @ ''M''
      else if f_le f (f_lit f 1000) v then CHR ''$'' # f_fixed f 2 (f_div f v (f_lit f 1000)) @ ''K''
      else CHR ''$'' # f_fixed f 2 v)"

definition format_usd :: "'f f64_ops \<Rightarrow> rat \<Rightarrow> string" where
  "format_usd f b = format_usd_value f (f_of_decimal f b)"

definition format_eth_value :: "'f f64_ops \<Rightarrow> 'f \<Rightarrow> string" where
  "format_eth_value f v =
     (if f_eq f v (f_lit f 0) then ''0 ETH''
      else if f_less f v (f_lit f (1 / 10000)) then f_exp f 6 v @ '' ETH''
      else if f_less f v (f_lit f 1) then f_fixed f 6 v @ '' ETH''
      else f_fixed f 4 v @ '' ETH'')"

definition eth_of_wei :: "'f f64_ops \<Rightarrow> nat \<Rightarrow> 'f" where
  "eth_of_wei f wei = f_div f (f_of_decimal f (of_nat wei)) (f_lit f (10 ^ 18))"

definition format_eth :: "'f f64_ops \<Rightarrow> nat \<Rightarrow> string" where
  "format_eth f wei = format_eth_value f (eth_of_wei f wei)"

definition dash :: string where "dash = [CHR 0xE2, CHR 0x80, CHR 0x94]"

definition format_pct :: "'f f64_ops \<Rightarrow> 'f option \<Rightarrow> string" where
  "format_pct f v = (case v of Some x \<Rightarrow> f_fixed f 1 (f_mult f x (f_lit f 100)) @ ''%'' | None \<Rightarrow> dash)"

definition ratio_bd :: "'f f64_ops \<Rightarrow> rat \<Rightarrow> rat \<Rightarrow> 'f option" where
  "ratio_bd f num denom =
     (let d = f_of_decimal f denom in if f_eq f d (f_lit f 0) then None else Some (f_div f (f_of_decimal f num) d))"

text \<open>\<open>num_seconds\<close> and the division of \<open>i64\<close>: a time ahead of the clock prints its negative seconds.\<close>

definition format_when :: "'f page_env \<Rightarrow> int \<Rightarrow> string" where
  "format_when wp ts =
     (let secs = qv_now (wp_query wp) - ts
      in if secs < 60 then show_i64 secs @ ''s ago''
         else if secs < 3600 then show_i64 (secs div 60) @ ''m ago''
         else if secs < 86400 then show_i64 (secs div 3600) @ ''h ago''
         else wp_show_time wp ts)"

definition addr_hex :: "'f page_env \<Rightarrow> address \<Rightarrow> string" where
  "addr_hex wp a = ''0x'' @ qv_hex (wp_query wp) a"

definition sel_hex :: "'f page_env \<Rightarrow> bytes \<Rightarrow> string" where
  "sel_hex wp s = ''0x'' @ wp_hex wp s"

section \<open>Filters and paging\<close>

record tx_query =
  tq_page :: "u32 option"
  tq_from :: "string option"
  tq_to :: "string option"
  tq_min_gas_saved :: "int option"

record tx_paging_view =
  tp_page :: u32
  tp_has_prev :: bool
  tp_has_next :: bool
  tp_from :: string
  tp_to :: string
  tp_min_gas_saved :: string
  tp_prev_qs :: string
  tp_next_qs :: string

definition TX_PAGE_SIZE :: u32 where "TX_PAGE_SIZE = 50"

definition build_tx_filters :: "'f page_env \<Rightarrow> tx_query \<Rightarrow> tx_filters" where
  "build_tx_filters wp q =
     \<lparr>tf_from = Option.bind (tq_from q) (wp_parse_date wp), tf_to = Option.bind (tq_to q) (wp_parse_date wp),
      tf_min_gas_saved = tq_min_gas_saved q\<rparr>"

definition current_page :: "tx_query \<Rightarrow> u32" where
  "current_page q = max (case tq_page q of None \<Rightarrow> 1 | Some p \<Rightarrow> p) 1"

fun join_params :: "string list \<Rightarrow> string" where
  "join_params [] = []"
| "join_params [p] = p"
| "join_params (p # q # ps) = p @ CHR ''&'' # join_params (q # ps)"

definition query_params :: "tx_query \<Rightarrow> (string \<times> string) list" where
  "query_params q =
     (case tq_from q of None \<Rightarrow> [] | Some s \<Rightarrow> if s = [] then [] else [(''from'', s)])
   @ (case tq_to q of None \<Rightarrow> [] | Some s \<Rightarrow> if s = [] then [] else [(''to'', s)])
   @ (case tq_min_gas_saved q of None \<Rightarrow> [] | Some m \<Rightarrow> [(''min_gas_saved'', show_i64 m)])"

definition query_string :: "tx_query \<Rightarrow> u32 \<Rightarrow> string" where
  "query_string q p = join_params (map (\<lambda>(k, v). k @ CHR ''='' # v) (query_params q @ [(''page'', show_nat (unat p))]))"

text \<open>The successor of the last page number wraps, as it does in a release build.\<close>

definition paging_view :: "tx_query \<Rightarrow> nat \<Rightarrow> tx_paging_view" where
  "paging_view q rows_returned =
     (let page = current_page q
      in \<lparr>tp_page = page, tp_has_prev = (page > 1), tp_has_next = (of_nat rows_returned \<ge> TX_PAGE_SIZE),
          tp_from = (case tq_from q of None \<Rightarrow> [] | Some s \<Rightarrow> s), tp_to = (case tq_to q of None \<Rightarrow> [] | Some s \<Rightarrow> s),
          tp_min_gas_saved = (case tq_min_gas_saved q of None \<Rightarrow> [] | Some m \<Rightarrow> show_i64 m),
          tp_prev_qs = query_string q (max (sat_sub page 1) 1), tp_next_qs = query_string q (page + 1)\<rparr>)"

definition tx_offset :: "tx_query \<Rightarrow> nat" where
  "tx_offset q = (unat (current_page q) - 1) * unat TX_PAGE_SIZE"

record recent_tx_view =
  rv_block_number :: int
  rv_tx_hash_hex :: string
  rv_gas_used :: int
  rv_gas_saved :: int
  rv_wei_saved :: string
  rv_when :: string

definition recent_tx_view_of :: "'f page_env \<Rightarrow> analysis_row \<Rightarrow> recent_tx_view" where
  "recent_tx_view_of wp r =
     \<lparr>rv_block_number = ar_block_number r, rv_tx_hash_hex = ''0x'' @ wp_hex_hash wp (ar_tx_hash r),
      rv_gas_used = ar_gas_used r, rv_gas_saved = ar_gas_saved r, rv_wei_saved = format_eth (wp_f64 wp) (ar_wei_saved r),
      rv_when = format_when wp (ar_block_timestamp r)\<rparr>"

section \<open>The overview\<close>

record totals_view =
  tv_usd_saved :: string
  tv_eth_saved :: string
  tv_tx_count :: nat
  tv_project_count :: nat

definition totals_view_of :: "'f f64_ops \<Rightarrow> overview_totals_row \<Rightarrow> totals_view" where
  "totals_view_of f t =
     \<lparr>tv_usd_saved = format_usd f (ot_usd_saved t), tv_eth_saved = format_eth f (ot_wei_saved t),
      tv_tx_count = ot_tx_count t, tv_project_count = ot_project_count t\<rparr>"

record projection_view =
  pj_monthly_usd :: string
  pj_monthly_eth :: string
  pj_yearly_usd :: string
  pj_yearly_eth :: string

definition projection :: "'f f64_ops \<Rightarrow> overview_totals_row \<Rightarrow> projection_view" where
  "projection f t =
     (let usd_30d = f_of_decimal f (ot_usd_saved t); eth_30d = eth_of_wei f (ot_wei_saved t);
          year = f_div f (f_lit f 365) (f_lit f 30)
      in \<lparr>pj_monthly_usd = format_usd_value f usd_30d, pj_monthly_eth = format_eth_value f eth_30d,
          pj_yearly_usd = format_usd_value f (f_mult f usd_30d year), pj_yearly_eth = format_eth_value f (f_mult f eth_30d year)\<rparr>)"

record function_leader_view =
  fv_address_hex :: string
  fv_selector_hex :: string
  fv_function_name :: string
  fv_function_sig :: string
  fv_project_slug :: string
  fv_project_display :: string
  fv_tx_count :: nat
  fv_usd_saved :: string
  fv_avg_savings_pct_pct :: string
  fv_median_savings_pct_pct :: string
  fv_savings_of_spend_pct :: string

definition or_default :: "string \<Rightarrow> string option \<Rightarrow> string" where
  "or_default s x = (case x of None \<Rightarrow> s | Some y \<Rightarrow> y)"

definition of_spend :: "'f f64_ops \<Rightarrow> nat \<Rightarrow> int \<Rightarrow> string" where
  "of_spend f saved spent = format_pct f (ratio_bd f (of_nat saved) (of_int spent))"

definition function_leader_view_of :: "'f page_env \<Rightarrow> 'f function_leader_row \<Rightarrow> function_leader_view" where
  "function_leader_view_of wp r =
     (let f = wp_f64 wp
      in \<lparr>fv_address_hex = addr_hex wp (fl_to_address r), fv_selector_hex = sel_hex wp (fl_function_selector r),
          fv_function_name = or_default [] (fl_function_name r), fv_function_sig = or_default [] (fl_function_sig r),
          fv_project_slug = fl_project_slug r, fv_project_display = or_default (fl_project_slug r) (fl_project_name r),
          fv_tx_count = fl_tx_count r, fv_usd_saved = format_usd f (fl_usd_saved r),
          fv_avg_savings_pct_pct = format_pct f (fl_avg_savings_pct r),
          fv_median_savings_pct_pct = format_pct f (fl_median_savings_pct r),
          fv_savings_of_spend_pct = of_spend f (fl_wei_saved_total r) (fl_wei_spent_total r)\<rparr>)"

record org_leader_view =
  ov_org_name :: string
  ov_project_count :: nat
  ov_contract_count :: nat
  ov_tx_count :: nat
  ov_usd_saved :: string
  ov_avg_savings_pct_pct :: string
  ov_savings_of_spend_pct :: string

definition org_leader_view_of :: "'f page_env \<Rightarrow> 'f org_leader_row \<Rightarrow> org_leader_view" where
  "org_leader_view_of wp r =
     (let f = wp_f64 wp
      in \<lparr>ov_org_name = og_org_name r, ov_project_count = og_project_count r, ov_contract_count = og_contract_count r,
          ov_tx_count = og_tx_count r, ov_usd_saved = format_usd f (og_usd_saved r),
          ov_avg_savings_pct_pct = format_pct f (og_avg_savings_pct r),
          ov_savings_of_spend_pct = of_spend f (og_wei_saved_total r) (og_wei_spent_total r)\<rparr>)"

text \<open>The address of a synthetic slug, for the link that overrides it.\<close>

definition unknown_address_of :: "string \<Rightarrow> string option" where
  "unknown_address_of slug = (if starts_with ''unknown:0x'' slug then Some (''0x'' @ drop 10 slug) else None)"

record contract_leader_view =
  cv_address_hex :: string
  cv_project_slug :: string
  cv_project_display :: string
  cv_tx_count :: nat
  cv_function_count :: nat
  cv_usd_saved :: string
  cv_avg_savings_pct_pct :: string
  cv_median_savings_pct_pct :: string
  cv_savings_of_spend_pct :: string
  cv_unknown_address_hex :: "string option"

definition contract_leader_view_of :: "'f page_env \<Rightarrow> 'f contract_leader_row \<Rightarrow> contract_leader_view" where
  "contract_leader_view_of wp r =
     (let f = wp_f64 wp
      in \<lparr>cv_address_hex = addr_hex wp (cl_to_address r), cv_project_slug = cl_project_slug r,
          cv_project_display = or_default (cl_project_slug r) (cl_project_name r), cv_tx_count = cl_tx_count r,
          cv_function_count = cl_function_count r, cv_usd_saved = format_usd f (cl_usd_saved r),
          cv_avg_savings_pct_pct = format_pct f (cl_avg_savings_pct r),
          cv_median_savings_pct_pct = format_pct f (cl_median_savings_pct r),
          cv_savings_of_spend_pct = of_spend f (cl_wei_saved_total r) (cl_wei_spent_total r),
          cv_unknown_address_hex = unknown_address_of (cl_project_slug r)\<rparr>)"

record leader_view =
  lw_project_slug :: string
  lw_display_name :: string
  lw_tx_count :: nat
  lw_avg_savings_pct_pct :: string
  lw_savings_of_spend_pct :: string
  lw_median_savings_pct_pct :: string
  lw_unknown_address_hex :: "string option"

definition leader_view_of :: "'f page_env \<Rightarrow> 'f leaderboard_row \<Rightarrow> leader_view" where
  "leader_view_of wp r =
     (let f = wp_f64 wp
      in \<lparr>lw_project_slug = lr_project_slug r, lw_display_name = or_default (lr_project_slug r) (lr_project_name r),
          lw_tx_count = lr_tx_count r, lw_avg_savings_pct_pct = format_pct f (lr_avg_savings_pct r),
          lw_savings_of_spend_pct = of_spend f (lr_wei_saved_total r) (lr_wei_spent_total r),
          lw_median_savings_pct_pct = format_pct f (lr_median_savings_pct_covered r),
          lw_unknown_address_hex = unknown_address_of (lr_project_slug r)\<rparr>)"

record 'f daily_view =
  dv_day :: string
  dv_usd_saved :: 'f
  dv_tx_count :: nat

definition daily_view_of :: "'f page_env \<Rightarrow> daily_point \<Rightarrow> 'f daily_view" where
  "daily_view_of wp p =
     \<lparr>dv_day = wp_show_date wp (dp_day p), dv_usd_saved = f_of_decimal (wp_f64 wp) (dp_usd_saved p), dv_tx_count = dp_tx_count p\<rparr>"

datatype leaders =
    LeadFunctions "function_leader_view list"
  | LeadContracts "contract_leader_view list"
  | LeadOrgs "org_leader_view list"
  | LeadProjects "leader_view list"

record 'f overview_page =
  op_user :: string
  op_chain_id :: int
  op_totals_lifetime :: totals_view
  op_totals_30d :: totals_view
  op_totals_7d :: totals_view
  op_totals_24h :: totals_view
  op_projection :: projection_view
  op_leaders :: leaders
  op_daily_30d :: "'f daily_view list"

abbreviation ask :: "store_error + 'a \<Rightarrow> (('a \<Rightarrow> web_error + 'b) \<Rightarrow> web_error + 'b)" where
  "ask q \<equiv> bind_res (map_err WebStore q)"

definition overview_leaders :: "'f page_env \<Rightarrow> string option \<Rightarrow> db \<Rightarrow> rollups \<Rightarrow> web_error + leaders" where
  "overview_leaders wp pivot d ru =
     (let qv = wp_query wp; c = wp_chain_id wp
      in if pivot = Some ''contracts''
         then ask (leaderboard_contracts_30d qv c 50 0 d ru) (\<lambda>rs. Inr (LeadContracts (map (contract_leader_view_of wp) rs)))
         else if pivot = Some ''projects''
         then ask (leaderboard_30d qv c 50 0 d ru) (\<lambda>rs. Inr (LeadProjects (map (leader_view_of wp) rs)))
         else if pivot = Some ''orgs''
         then ask (leaderboard_orgs_30d qv c 50 0 d ru) (\<lambda>rs. Inr (LeadOrgs (map (org_leader_view_of wp) rs)))
         else ask (leaderboard_functions_30d qv c 50 0 d ru) (\<lambda>rs. Inr (LeadFunctions (map (function_leader_view_of wp) rs))))"

definition overview :: "'f page_env \<Rightarrow> string \<Rightarrow> string option \<Rightarrow> db \<Rightarrow> rollups \<Rightarrow> web_error + 'f overview_page" where
  "overview wp user pivot d ru =
     (let qv = wp_query wp; c = wp_chain_id wp; f = wp_f64 wp
      in ask (overview_totals qv c Lifetime ru) (\<lambda>lifetime.
         ask (overview_totals qv c (Days 30) ru) (\<lambda>t30.
         ask (overview_totals qv c (Days 7) ru) (\<lambda>t7.
         ask (overview_totals qv c (Days 1) ru) (\<lambda>t1.
         bind_res (overview_leaders wp pivot d ru) (\<lambda>ls.
         ask (daily_overview qv c 30 ru) (\<lambda>ps.
         Inr \<lparr>op_user = user, op_chain_id = c, op_totals_lifetime = totals_view_of f lifetime,
              op_totals_30d = totals_view_of f t30, op_totals_7d = totals_view_of f t7, op_totals_24h = totals_view_of f t1,
              op_projection = projection f t30, op_leaders = ls, op_daily_30d = map (daily_view_of wp) ps\<rparr>)))))))"

section \<open>A project\<close>

record top_row_view =
  tw_hex :: string
  tw_tx_count :: nat
  tw_gas_saved_total :: int
  tw_wei_saved_total :: string

definition top_row_view_of :: "'f page_env \<Rightarrow> ('k \<Rightarrow> string) \<Rightarrow> 'k top_row \<Rightarrow> top_row_view" where
  "top_row_view_of wp hex r =
     \<lparr>tw_hex = hex (tr_key r), tw_tx_count = tr_tx_count r, tw_gas_saved_total = tr_gas_saved_total r,
      tw_wei_saved_total = format_eth (wp_f64 wp) (tr_wei_saved_total r)\<rparr>"

record 'f project_page =
  pp_user :: string
  pp_chain_id :: int
  pp_explorer_tx_url :: string
  pp_project_slug :: string
  pp_project_name :: string
  pp_category :: string
  pp_contact_email :: string
  pp_contact_url :: string
  pp_totals_lifetime :: totals_view
  pp_totals_30d :: totals_view
  pp_avg_savings_pct_30d :: string
  pp_daily_90d :: "'f daily_view list"
  pp_top_contracts :: "top_row_view list"
  pp_top_selectors :: "top_row_view list"
  pp_recent_txs :: "recent_tx_view list"
  pp_paging :: tx_paging_view

definition project_totals_view :: "'f f64_ops \<Rightarrow> 'f project_totals_row \<Rightarrow> totals_view" where
  "project_totals_view f t =
     \<lparr>tv_usd_saved = format_usd f (pt_usd_saved t), tv_eth_saved = format_eth f (pt_wei_saved t),
      tv_tx_count = pt_tx_count t, tv_project_count = 0\<rparr>"

definition project_page_of :: "'f page_env \<Rightarrow> string \<Rightarrow> string \<Rightarrow> tx_query \<Rightarrow> db \<Rightarrow> rollups \<Rightarrow> web_error + 'f project_page" where
  "project_page_of wp user slug tx_q d ru =
     (let qv = wp_query wp; c = wp_chain_id wp; f = wp_f64 wp
      in ask (project_header (qv_faults qv) slug d) (\<lambda>header.
         ask (project_totals qv c slug Lifetime ru) (\<lambda>lifetime.
         ask (project_totals qv c slug (Days 30) ru) (\<lambda>t30.
         ask (daily_for_project qv c slug 90 ru) (\<lambda>ps.
         ask (top_contracts_for_project qv c slug d) (\<lambda>cs.
         ask (top_selectors_for_project qv c slug d) (\<lambda>ss.
         ask (recent_txs_for_project qv c slug (unat TX_PAGE_SIZE) (tx_offset tx_q) (build_tx_filters wp tx_q) d) (\<lambda>recent.
         Inr \<lparr>pp_user = user, pp_chain_id = c, pp_explorer_tx_url = wp_explorer_tx_url wp, pp_project_slug = slug,
              pp_project_name = or_default slug (map_option pr_name header),
              pp_category = or_default dash (Option.bind header pr_category),
              pp_contact_email = or_default [] (Option.bind header pr_contact_email),
              pp_contact_url = or_default [] (Option.bind header pr_contact_url),
              pp_totals_lifetime = project_totals_view f lifetime, pp_totals_30d = project_totals_view f t30,
              pp_avg_savings_pct_30d = format_pct f (pt_avg_savings_pct t30), pp_daily_90d = map (daily_view_of wp) ps,
              pp_top_contracts = map (top_row_view_of wp (addr_hex wp)) cs,
              pp_top_selectors = map (top_row_view_of wp (sel_hex wp)) ss,
              pp_recent_txs = map (recent_tx_view_of wp) recent, pp_paging = paging_view tx_q (length recent)\<rparr>))))))))"

section \<open>A contract and a function\<close>

definition parse_path :: "'f page_env \<Rightarrow> nat \<Rightarrow> string \<Rightarrow> bytes option" where
  "parse_path wp n s =
     (case wp_hex_decode wp (strip_prefix ''0x'' s) of
        None \<Rightarrow> None
      | Some bs \<Rightarrow> if length bs \<noteq> n then None else Some bs)"

definition parse_path_address :: "'f page_env \<Rightarrow> string \<Rightarrow> address option" where
  "parse_path_address wp s = map_option (\<lambda>bs. word_rcat bs) (parse_path wp 20 s)"

definition parse_path_selector :: "'f page_env \<Rightarrow> string \<Rightarrow> bytes option" where
  "parse_path_selector wp s = parse_path wp 4 s"

record contract_function_view =
  kf_selector_hex :: string
  kf_function_name :: string
  kf_tx_count :: nat
  kf_usd_saved :: string
  kf_avg_savings_pct_pct :: string

definition contract_function_view_of :: "'f page_env \<Rightarrow> 'f contract_function_row \<Rightarrow> contract_function_view" where
  "contract_function_view_of wp r =
     \<lparr>kf_selector_hex = sel_hex wp (cf_function_selector r), kf_function_name = or_default [] (cf_function_name r),
      kf_tx_count = cf_tx_count r, kf_usd_saved = format_usd (wp_f64 wp) (cf_usd_saved r),
      kf_avg_savings_pct_pct = format_pct (wp_f64 wp) (cf_avg_savings_pct r)\<rparr>"

definition contract_totals_view :: "'f f64_ops \<Rightarrow> 'f contract_totals_row \<Rightarrow> totals_view" where
  "contract_totals_view f t =
     \<lparr>tv_usd_saved = format_usd f (ct_usd_saved t), tv_eth_saved = format_eth f (ct_wei_saved t),
      tv_tx_count = ct_tx_count t, tv_project_count = 0\<rparr>"

record 'f contract_page_view =
  kp_user :: string
  kp_chain_id :: int
  kp_explorer_tx_url :: string
  kp_explorer_address_url :: string
  kp_address_hex :: string
  kp_project_slug :: string
  kp_project_display :: string
  kp_totals_lifetime :: totals_view
  kp_totals_30d :: totals_view
  kp_function_count :: nat
  kp_avg_savings_pct_30d :: string
  kp_daily_90d :: "'f daily_view list"
  kp_functions :: "contract_function_view list"
  kp_recent_txs :: "recent_tx_view list"
  kp_paging :: tx_paging_view

definition contract_page :: "'f page_env \<Rightarrow> string \<Rightarrow> string \<Rightarrow> tx_query \<Rightarrow> db \<Rightarrow> rollups \<Rightarrow> web_error + 'f contract_page_view" where
  "contract_page wp user address_hex tx_q d ru =
     (let qv = wp_query wp; c = wp_chain_id wp; f = wp_f64 wp
      in bind_res (ok_or (BadRequest ''invalid address'') (parse_path_address wp address_hex)) (\<lambda>a.
         ask (contract_header qv c a d) (\<lambda>(slug, name).
         ask (contract_totals qv c a Lifetime ru) (\<lambda>lifetime.
         ask (contract_totals qv c a (Days 30) ru) (\<lambda>t30.
         ask (daily_for_contract qv c a 90 ru) (\<lambda>ps.
         ask (functions_for_contract qv c a d ru) (\<lambda>fs.
         ask (recent_txs_for_contract qv c a (unat TX_PAGE_SIZE) (tx_offset tx_q) (build_tx_filters wp tx_q) d) (\<lambda>recent.
         Inr \<lparr>kp_user = user, kp_chain_id = c, kp_explorer_tx_url = wp_explorer_tx_url wp,
              kp_explorer_address_url = wp_explorer_address_url wp, kp_address_hex = addr_hex wp a, kp_project_slug = slug,
              kp_project_display = or_default slug name, kp_totals_lifetime = contract_totals_view f lifetime,
              kp_totals_30d = contract_totals_view f t30, kp_function_count = ct_function_count t30,
              kp_avg_savings_pct_30d = format_pct f (ct_avg_savings_pct t30), kp_daily_90d = map (daily_view_of wp) ps,
              kp_functions = map (contract_function_view_of wp) fs,
              kp_recent_txs = map (recent_tx_view_of wp) recent, kp_paging = paging_view tx_q (length recent)\<rparr>))))))))"

record 'f function_page_view =
  np_user :: string
  np_chain_id :: int
  np_explorer_tx_url :: string
  np_explorer_address_url :: string
  np_address_hex :: string
  np_selector_hex :: string
  np_function_name :: string
  np_function_sig :: string
  np_project_slug :: string
  np_project_display :: string
  np_totals_lifetime :: totals_view
  np_totals_30d :: totals_view
  np_avg_savings_pct_30d :: string
  np_daily_90d :: "'f daily_view list"
  np_recent_txs :: "recent_tx_view list"
  np_paging :: tx_paging_view

definition function_page :: "'f page_env \<Rightarrow> string \<Rightarrow> string \<Rightarrow> string \<Rightarrow> tx_query \<Rightarrow> db \<Rightarrow> rollups \<Rightarrow>
    web_error + 'f function_page_view" where
  "function_page wp user address_hex selector_hex tx_q d ru =
     (let qv = wp_query wp; c = wp_chain_id wp; f = wp_f64 wp
      in bind_res (ok_or (BadRequest ''invalid address'') (parse_path_address wp address_hex)) (\<lambda>a.
         bind_res (ok_or (BadRequest ''invalid selector'') (parse_path_selector wp selector_hex)) (\<lambda>sel.
         ask (function_header qv c a sel d) (\<lambda>header.
         ask (function_totals qv c a sel Lifetime ru) (\<lambda>lifetime.
         ask (function_totals qv c a sel (Days 30) ru) (\<lambda>t30.
         ask (daily_for_function qv c a sel 90 ru) (\<lambda>ps.
         ask (recent_txs_for_function qv c a sel (unat TX_PAGE_SIZE) (tx_offset tx_q) (build_tx_filters wp tx_q) d) (\<lambda>recent.
         Inr \<lparr>np_user = user, np_chain_id = c, np_explorer_tx_url = wp_explorer_tx_url wp,
              np_explorer_address_url = wp_explorer_address_url wp, np_address_hex = addr_hex wp a,
              np_selector_hex = sel_hex wp sel, np_function_name = or_default [] (fh_function_name header),
              np_function_sig = or_default [] (fh_function_sig header), np_project_slug = fh_project_slug header,
              np_project_display = or_default (fh_project_slug header) (fh_project_name header),
              np_totals_lifetime = contract_totals_view f lifetime, np_totals_30d = contract_totals_view f t30,
              np_avg_savings_pct_30d = format_pct f (ct_avg_savings_pct t30), np_daily_90d = map (daily_view_of wp) ps,
              np_recent_txs = map (recent_tx_view_of wp) recent, np_paging = paging_view tx_q (length recent)\<rparr>))))))))"

section \<open>Unknowns\<close>

record unknown_contract_view =
  uc_address_hex :: string
  uc_tx_count :: nat
  uc_wei_saved :: string
  uc_last_seen :: string

record unresolved_selector_view =
  uv_selector_hex :: string
  uv_example_address_hex :: string
  uv_tx_count :: nat
  uv_wei_saved :: string
  uv_usd_saved :: string

datatype unknowns_tab = UnknownContracts "unknown_contract_view list" | UnresolvedSelectors "unresolved_selector_view list"

record unknowns_page =
  uk_user :: string
  uk_chain_id :: int
  uk_explorer_address_url :: string
  uk_tab :: unknowns_tab

definition unknowns_tab_of :: "'f page_env \<Rightarrow> string option \<Rightarrow> db \<Rightarrow> rollups \<Rightarrow> web_error + unknowns_tab" where
  "unknowns_tab_of wp tab d ru =
     (let qv = wp_query wp; c = wp_chain_id wp; f = wp_f64 wp
      in if tab = Some ''selectors''
         then ask (top_unresolved_selectors qv c 50 d ru) (\<lambda>rs. Inr (UnresolvedSelectors (map (\<lambda>r.
                \<lparr>uv_selector_hex = sel_hex wp (us_selector r), uv_example_address_hex = addr_hex wp (us_example_address r),
                 uv_tx_count = us_tx_count r, uv_wei_saved = format_eth f (us_wei_saved_total r),
                 uv_usd_saved = format_usd f (us_usd_saved_total r)\<rparr>) rs)))
         else ask (top_unknowns qv c d) (\<lambda>rs. Inr (UnknownContracts (map (\<lambda>r.
                \<lparr>uc_address_hex = addr_hex wp (un_address r), uc_tx_count = un_tx_count r,
                 uc_wei_saved = format_eth f (un_wei_saved_total r), uc_last_seen = format_when wp (un_last_seen r)\<rparr>) rs))))"

definition unknowns :: "'f page_env \<Rightarrow> string \<Rightarrow> string option \<Rightarrow> db \<Rightarrow> rollups \<Rightarrow> web_error + unknowns_page" where
  "unknowns wp user tab d ru =
     bind_res (unknowns_tab_of wp tab d ru) (\<lambda>t.
       Inr \<lparr>uk_user = user, uk_chain_id = wp_chain_id wp, uk_explorer_address_url = wp_explorer_address_url wp, uk_tab = t\<rparr>)"

section \<open>Administration\<close>

record candidate_view =
  kv_address_hex :: string
  kv_first_seen :: string
  kv_last_seen :: string
  kv_tx_count :: nat
  kv_eth_saved :: string
  kv_usd_saved :: string

record 'f candidates_fragment =
  cg_candidates :: "candidate_view list"
  cg_days :: int
  cg_min_eth :: 'f

definition candidate_view_of :: "'f page_env \<Rightarrow> candidate_row \<Rightarrow> candidate_view" where
  "candidate_view_of wp r =
     \<lparr>kv_address_hex = addr_hex wp (cr_address r), kv_first_seen = format_when wp (cr_first_seen r),
      kv_last_seen = format_when wp (cr_last_seen r), kv_tx_count = cr_tx_count r,
      kv_eth_saved = format_eth (wp_f64 wp) (cr_wei_saved_total r), kv_usd_saved = format_usd (wp_f64 wp) (cr_usd_saved_total r)\<rparr>"

definition candidates_partial :: "'f page_env \<Rightarrow> int option \<Rightarrow> 'f option \<Rightarrow> db \<Rightarrow> web_error + 'f candidates_fragment" where
  "candidates_partial wp q_days q_min_eth d =
     (let f = wp_f64 wp;
          days = min 365 (max 1 (case q_days of None \<Rightarrow> 14 | Some n \<Rightarrow> n));
          min_eth = f_max f (case q_min_eth of None \<Rightarrow> f_lit f 0 | Some m \<Rightarrow> m) (f_lit f 0);
          min_wei = (case f_whole f (f_mult f min_eth (f_lit f (10 ^ 18))) of None \<Rightarrow> 0 | Some n \<Rightarrow> n)
      in ask (new_high_savings_candidates (wp_query wp) (wp_chain_id wp) days min_wei 25 d) (\<lambda>rows.
         Inr \<lparr>cg_candidates = map (candidate_view_of wp) rows, cg_days = days, cg_min_eth = min_eth\<rparr>))"

record project_assign_view =
  pa_project_slug :: string
  pa_project_name :: string
  pa_org_slug :: string

record orgs_page_view =
  ogp_user :: string
  ogp_chain_id :: int
  ogp_orgs :: "(string \<times> string) list"
  ogp_projects :: "project_assign_view list"

definition orgs_page :: "'f page_env \<Rightarrow> string \<Rightarrow> db \<Rightarrow> web_error + orgs_page_view" where
  "orgs_page wp user d =
     (let flt = qv_faults (wp_query wp)
      in ask (list_orgs flt d) (\<lambda>orgs.
         ask (list_projects flt d) (\<lambda>ps.
         Inr \<lparr>ogp_user = user, ogp_chain_id = wp_chain_id wp, ogp_orgs = orgs,
              ogp_projects = map (\<lambda>p. \<lparr>pa_project_slug = pl_project_slug p, pa_project_name = pl_project_name p,
                  pa_org_slug = or_default [] (pl_org_slug p)\<rparr>) ps\<rparr>)))"

record blacklist_row_view =
  bv_address_hex :: string
  bv_selector_hex :: string
  bv_reason :: string
  bv_created_by :: string
  bv_when :: string

record blacklist_page_view =
  bp_user :: string
  bp_chain_id :: int
  bp_rows :: "blacklist_row_view list"

definition blacklist_page :: "'f page_env \<Rightarrow> string \<Rightarrow> db \<Rightarrow> web_error + blacklist_page_view" where
  "blacklist_page wp user d =
     ask (blacklist_list (qv_faults (wp_query wp)) (wp_chain_id wp) d) (\<lambda>rows.
     Inr \<lparr>bp_user = user, bp_chain_id = wp_chain_id wp,
          bp_rows = map (\<lambda>r. \<lparr>bv_address_hex = addr_hex wp (bl_address r),
              bv_selector_hex = (case bl_selector r of None \<Rightarrow> ''(whole contract)'' | Some s \<Rightarrow> sel_hex wp s),
              bv_reason = bl_reason r, bv_created_by = bl_created_by r, bv_when = wp_show_time wp (bl_created_at r)\<rparr>) rows\<rparr>)"

text \<open>What Redis answers, nothing where a read fails or the key is absent.\<close>

record health_redis =
  hr_pending :: "int option"
  hr_dead :: "int option"
  hr_last_head :: "int option"
  hr_blocks_skipped :: "int option"
  hr_jobs_dropped_stale :: "int option"
  hr_blocks_behind_warn_threshold :: int

record health_view =
  hv_last_seen_block :: "int option"
  hv_latest_analyzed_block :: "int option"
  hv_blocks_behind :: "int option"
  hv_falls_behind :: bool
  hv_blocks_behind_threshold :: int
  hv_pending_queue :: int
  hv_dead_letter :: int
  hv_blocks_skipped :: int
  hv_jobs_dropped_stale :: int
  hv_last_insert_age_secs :: "int option"
  hv_total_rows :: nat
  hv_heuristic_rate_24h :: "(nat \<times> nat) option"
  hv_error_categories :: "(string \<times> nat) list"

definition or_zero :: "int option \<Rightarrow> int" where
  "or_zero x = (case x of None \<Rightarrow> 0 | Some n \<Rightarrow> n)"

definition collect_health :: "'f page_env \<Rightarrow> health_redis \<Rightarrow> db \<Rightarrow> web_error + health_view" where
  "collect_health wp hr d =
     (let qv = wp_query wp; c = wp_chain_id wp
      in ask (analysis_health qv c d) (\<lambda>ah.
         ask (heuristic_rate_24h qv c d) (\<lambda>rate.
         ask (error_categories_24h qv c d) (\<lambda>cats.
         let blocks_behind = (case (hr_last_head hr, ah_latest_block ah) of (Some h, Some a) \<Rightarrow> Some (h - a) | _ \<Rightarrow> None);
             threshold = hr_blocks_behind_warn_threshold hr
         in Inr \<lparr>hv_last_seen_block = hr_last_head hr, hv_latest_analyzed_block = ah_latest_block ah,
              hv_blocks_behind = blocks_behind,
              hv_falls_behind = (case blocks_behind of None \<Rightarrow> False | Some b \<Rightarrow> b > threshold),
              hv_blocks_behind_threshold = threshold, hv_pending_queue = or_zero (hr_pending hr),
              hv_dead_letter = or_zero (hr_dead hr), hv_blocks_skipped = or_zero (hr_blocks_skipped hr),
              hv_jobs_dropped_stale = or_zero (hr_jobs_dropped_stale hr),
              hv_last_insert_age_secs = ah_last_insert_age_secs ah, hv_total_rows = ah_total_rows ah,
              hv_heuristic_rate_24h = rate, hv_error_categories = cats\<rparr>))))"

record admin_page_view =
  ap_user :: string
  ap_health :: health_view
  ap_chain_id :: int
  ap_data_floor :: string

definition admin_page :: "'f page_env \<Rightarrow> string \<Rightarrow> health_redis \<Rightarrow> db \<Rightarrow> web_error + admin_page_view" where
  "admin_page wp user hr d =
     bind_res (collect_health wp hr d) (\<lambda>health.
     Inr \<lparr>ap_user = user, ap_health = health, ap_chain_id = wp_chain_id wp,
          ap_data_floor = (case qv_floor (wp_query wp) of None \<Rightarrow> [] | Some day \<Rightarrow> wp_show_date wp day)\<rparr>)"

section \<open>The pages of a list\<close>

lemma concat_pages: "concat (map (\<lambda>i. paged m (m * i) xs) [0..<n]) = take (m * n) xs"
proof (induction n)
  case (Suc n)
  then show ?case by (simp add: paged_def take_add add.commute [of m])
qed simp

lemma current_page_of: "0 < p \<Longrightarrow> p < 2 ^ 32 \<Longrightarrow> current_page (q\<lparr>tq_page := Some (of_nat p)\<rparr>) = of_nat p"
  by (cases "p = 1") (auto simp: current_page_def max_def word_le_nat_alt unat_of_nat)

lemma full_page:
  assumes "n \<le> 50"
  shows "TX_PAGE_SIZE \<le> (of_nat n :: u32) \<longleftrightarrow> n = 50"
  using assms by (auto simp: TX_PAGE_SIZE_def word_le_nat_alt unat_of_nat)

lemma project_page_recent:
  assumes "qv_faults (wp_query wp) = (\<lambda>_. None)"
    and "recent_txs_for_project (wp_query wp) (wp_chain_id wp) slug (unat TX_PAGE_SIZE) (tx_offset q) (build_tx_filters wp q) d = Inr rows"
  obtains pg where "project_page_of wp user slug q d ru = Inr pg" "pp_recent_txs pg = map (recent_tx_view_of wp) rows"
    "pp_paging pg = paging_view q (length rows)"
  using assms
  by (simp add: project_page_of_def project_header_def project_totals_def daily_for_project_def top_contracts_for_project_def
      top_selectors_for_project_def exec_sql_def Let_def map_err_def bind_res_def)

text \<open>
  C0. The pages of a project's transactions lead through all of them: from the first page to the one
  without a next link, every matching transaction is shown exactly once, newest first, and each page
  but the first links back, whatever the database makes of equal times as long as it does so every time.
\<close>

theorem tx_pages_complete:
  fixes q :: tx_query and slug :: string and d :: db
  assumes scan: "\<And>xs. mset (qv_scan (wp_query wp) xs) = mset xs" and up: "qv_faults (wp_query wp) = (\<lambda>_. None)"
  defines "matching \<equiv> filter (recent_matching (wp_query wp) (wp_chain_id wp) (\<lambda>r. ar_project_slug r = slug) (build_tx_filters wp q))
      (db_analysis d)"
  defines "n \<equiv> length matching div 50 + 1"
  assumes small: "n < 2 ^ 32"
  shows "\<exists>pages. length pages = n \<and> mset (concat pages) = mset matching
    \<and> sorted_wrt (\<lambda>r s. ar_block_timestamp s \<le> ar_block_timestamp r) (concat pages)
    \<and> (\<forall>i < n. \<exists>pg. project_page_of wp user slug (q\<lparr>tq_page := Some (of_nat (i + 1))\<rparr>) d ru = Inr pg
         \<and> pp_recent_txs pg = map (recent_tx_view_of wp) (pages ! i)
         \<and> (tp_has_next (pp_paging pg) \<longleftrightarrow> i + 1 < n) \<and> (tp_has_prev (pp_paging pg) \<longleftrightarrow> 0 < i))"
proof -
  define xs where "xs = sort_key (\<lambda>r. - ar_block_timestamp r) (qv_scan (wp_query wp) matching)"
  have xs: "mset xs = mset matching" by (simp add: xs_def scan)
  then have len: "length xs = length matching" by (metis size_mset)
  have sorted: "sorted_wrt (\<lambda>r s. ar_block_timestamp s \<le> ar_block_timestamp r) xs"
    using sorted_sort_key [of "\<lambda>r. - ar_block_timestamp r"] by (simp add: xs_def sorted_map)
  let ?page = "\<lambda>i. paged 50 (50 * i) xs"
  have "length xs \<le> 50 * n" unfolding len n_def using dividend_less_div_times [of 50 "length matching"] by simp
  then have all: "concat (map ?page [0..<n]) = xs" by (simp only: concat_pages take_all)
  have "\<exists>pg. project_page_of wp user slug (q\<lparr>tq_page := Some (of_nat (i + 1))\<rparr>) d ru = Inr pg
      \<and> pp_recent_txs pg = map (recent_tx_view_of wp) (?page i)
      \<and> (tp_has_next (pp_paging pg) \<longleftrightarrow> i + 1 < n) \<and> (tp_has_prev (pp_paging pg) \<longleftrightarrow> 0 < i)" if i: "i < n" for i
  proof -
    let ?q = "q\<lparr>tq_page := Some (of_nat (i + 1))\<rparr>"
    have page: "current_page ?q = of_nat (i + 1)" using i small by (intro current_page_of) auto
    have nat: "unat (of_nat (i + 1) :: u32) = i + 1" using i small by (simp only: unat_of_nat) simp
    have filt: "build_tx_filters wp ?q = build_tx_filters wp q" by (simp add: build_tx_filters_def)
    have off: "tx_offset ?q = 50 * i" by (simp only: tx_offset_def page nat) (simp add: TX_PAGE_SIZE_def)
    have rows: "recent_txs_for_project (wp_query wp) (wp_chain_id wp) slug (unat TX_PAGE_SIZE) (tx_offset ?q)
        (build_tx_filters wp ?q) d = Inr (?page i)"
      by (simp only: off filt) (simp add: recent_txs_for_project_def exec_sql_def up recent_txs_def xs_def matching_def TX_PAGE_SIZE_def)
    have next_link: "TX_PAGE_SIZE \<le> (of_nat (length (?page i)) :: u32) \<longleftrightarrow> i + 1 < n"
      by (subst full_page) (auto simp: paged_def len n_def)
    have prev: "(1 :: u32) < of_nat (i + 1) \<longleftrightarrow> 0 < i" using nat by (simp only: word_less_nat_alt) simp
    obtain pg where pg: "project_page_of wp user slug ?q d ru = Inr pg" "pp_recent_txs pg = map (recent_tx_view_of wp) (?page i)"
        "pp_paging pg = paging_view ?q (length (?page i))"
      using up rows by (rule project_page_recent)
    have "tp_has_next (pp_paging pg) \<longleftrightarrow> i + 1 < n" "tp_has_prev (pp_paging pg) \<longleftrightarrow> 0 < i"
      unfolding pg(3) paging_view_def Let_def page using next_link prev by simp_all
    with pg show ?thesis by blast
  qed
  then show ?thesis
    using all xs sorted by (intro exI [of _ "map ?page [0..<n]"]) simp
qed

text \<open>
  The order is by time alone, and the transactions of a block share their time: when the database meets
  equal times in another order for the second page, a transaction is shown twice and another never.
\<close>

lemma pages_may_repeat:
  fixes qv :: "'f query_env"
  assumes "filter (recent_matching qv c about fs) (db_analysis d) = r # rs" and "length rs = 50" and "distinct (r # rs)"
    and "\<forall>s \<in> set rs. ar_block_timestamp s = ar_block_timestamp r"
  shows "\<exists>p1 p2. p1 = recent_txs (qv\<lparr>qv_scan := \<lambda>xs. xs\<rparr>) c about 50 0 fs d \<and> p2 = recent_txs (qv\<lparr>qv_scan := rev\<rparr>) c about 50 50 fs d
    \<and> r \<in> set p1 \<inter> set p2 \<and> last rs \<notin> set p1 \<union> set p2"
proof -
  have same: "recent_matching (qv\<lparr>qv_scan := f\<rparr>) c about fs = recent_matching qv c about fs" for f
    by (rule ext) (simp add: recent_matching_def)
  have sort: "sort_key (\<lambda>r. - ar_block_timestamp r) xs = xs" if "set xs \<subseteq> set (r # rs)" for xs
  proof (rule sort_key_id_if_sorted)
    have "\<forall>s \<in> set xs. ar_block_timestamp s = ar_block_timestamp r" using that assms(4) by auto
    then have "map (\<lambda>r. - ar_block_timestamp r) xs = replicate (length xs) (- ar_block_timestamp r)"
      by (simp add: map_replicate_const [symmetric])
    then show "sorted (map (\<lambda>r. - ar_block_timestamp r) xs)" by simp
  qed
  obtain ss z where rs: "rs = ss @ [z]" using assms(2) by (metis append_butlast_last_id length_0_conv zero_neq_numeral)
  have page: "recent_txs (qv\<lparr>qv_scan := f\<rparr>) c about 50 offset fs d = paged 50 offset (f (r # rs))"
    if "set (f (r # rs)) \<subseteq> set (r # rs)" for f offset
    using sort [OF that] by (simp add: recent_txs_def same assms(1) del: sort_key_simps)
  have "recent_txs (qv\<lparr>qv_scan := \<lambda>xs. xs\<rparr>) c about 50 0 fs d = r # ss"
    using assms(2) by (simp add: page paged_def rs)
  moreover have "recent_txs (qv\<lparr>qv_scan := rev\<rparr>) c about 50 50 fs d = [r]"
    using assms(2) page [of rev 50] by (auto simp: paged_def rs)
  ultimately show ?thesis using assms(3) by (auto simp: rs)
qed

section \<open>Samples\<close>

definition toy_f64 :: "int f64_ops" where
  "toy_f64 = \<lparr>f_of_decimal = floor, f_lit = floor, f_le = (\<le>), f_less = (<), f_eq = (=), f_mult = (*), f_div = (div),
     f_fixed = (\<lambda>_. show_i64), f_exp = (\<lambda>_. show_i64), f_max = max, f_whole = (\<lambda>x. Some (nat x))\<rparr>"

definition toy_pages :: "int page_env" where
  "toy_pages = \<lparr>wp_query = toy_query, wp_f64 = toy_f64, wp_chain_id = 1, wp_explorer_tx_url = [], wp_explorer_address_url = [],
     wp_hex = (\<lambda>_. ''bb''), wp_hex_hash = (\<lambda>_. ''cc''), wp_hex_decode = (\<lambda>_. None), wp_parse_date = (\<lambda>_. None),
     wp_show_date = show_i64, wp_show_time = show_i64\<rparr>"

definition toy_tx_query :: tx_query where
  "toy_tx_query = \<lparr>tq_page = None, tq_from = None, tq_to = None, tq_min_gas_saved = None\<rparr>"

theorem tx_pages_complete_witness:
  "\<exists>pg. project_page_of toy_pages ''bd'' ''dex'' (toy_tx_query\<lparr>tq_page := Some 1\<rparr>) toy_db no_rollups = Inr pg
     \<and> length (pp_recent_txs pg) = 2 \<and> \<not> tp_has_next (pp_paging pg) \<and> \<not> tp_has_prev (pp_paging pg)"
proof -
  have scan: "mset (qv_scan (wp_query toy_pages) xs) = mset xs" for xs by (simp add: toy_pages_def toy_query_def)
  have up: "qv_faults (wp_query toy_pages) = (\<lambda>_. None)" by (simp add: toy_pages_def toy_query_def)
  let ?m = "filter (recent_matching (wp_query toy_pages) (wp_chain_id toy_pages) (\<lambda>r. ar_project_slug r = ''dex'')
      (build_tx_filters toy_pages toy_tx_query)) (db_analysis toy_db)"
  have m: "length ?m = 2"
    by (simp add: recent_matching_def counted_def where_clause_def floor_ts_def build_tx_filters_def toy_pages_def toy_query_def
        toy_tx_query_def toy_db_def toy_row_def)
  have small: "length ?m div 50 + 1 < 2 ^ 32" unfolding m by simp
  from tx_pages_complete [OF scan up small, of "''bd''" no_rollups] obtain pages where
    p: "length pages = 1" "mset (concat pages) = mset ?m"
    and pg: "\<forall>i < 1. \<exists>pg. project_page_of toy_pages ''bd'' ''dex'' (toy_tx_query\<lparr>tq_page := Some (of_nat (i + 1))\<rparr>) toy_db no_rollups = Inr pg
         \<and> pp_recent_txs pg = map (recent_tx_view_of toy_pages) (pages ! i)
         \<and> (tp_has_next (pp_paging pg) \<longleftrightarrow> i + 1 < 1) \<and> (tp_has_prev (pp_paging pg) \<longleftrightarrow> 0 < i)"
    unfolding m by auto
  obtain page where "pages = [page]" using p(1) by (cases pages) auto
  moreover have "length page = 2" using p(2) m \<open>pages = [page]\<close> by (metis concat.simps append_Nil2 size_mset)
  ultimately show ?thesis using pg by auto
qed

end
