(* ===== verification/Diagnostics.thy ===== *)
theory Diagnostics
  imports Web_Pages
begin

text \<open>
  The operational snapshot of \<^verbatim>\<open>crates/indexer-web/src/diagnostics.rs\<close> that the language model gets. It is
  best effort: a read that fails leaves its default, and the snapshot is made all the same.
\<close>

section \<open>The bundle\<close>

record service_health =
  sh_head_block :: "int option"
  sh_latest_analyzed_block :: "int option"
  sh_blocks_behind :: "int option"
  sh_pending_queue_depth :: int
  sh_dead_letter_depth :: int
  sh_labeler_queue_depth :: int
  sh_blocks_skipped :: int
  sh_jobs_dropped_stale :: int
  sh_last_insert_age_secs :: "int option"
  sh_total_rows :: nat

record throughput =
  th_rows_last_1h :: nat
  th_rows_last_24h :: nat
  th_rows_last_7d :: nat

record unknown_entry =
  uy_address :: string
  uy_tx_count :: nat
  uy_wei_saved :: string

record labeler_outcome =
  lo_address :: string
  lo_last_result :: string
  lo_contract_name :: "string option"
  lo_matched_slug :: "string option"

record recent_event =
  re_ts :: string
  re_level :: string
  re_target :: string
  re_message :: string

record diagnostics_bundle =
  bu_service_health :: service_health
  bu_throughput :: throughput
  bu_top_unknowns :: "unknown_entry list"
  bu_recent_labeler_outcomes :: "labeler_outcome list"
  bu_recent_events :: "recent_event list"
  bu_chain_id :: int
  bu_etherscan_enabled :: bool

text \<open>What Redis answers beside the counters of the health page, and the entries of its event stream.\<close>

record diagnostics_env =
  dn_redis :: health_redis
  dn_labeler_depth :: "int option"
  dn_events :: "nat \<Rightarrow> (string \<times> (string \<times> string) list) list option"
  dn_etherscan_hint :: string

definition or_empty :: "store_error + 'a \<Rightarrow> 'a \<Rightarrow> 'a" where
  "or_empty r x = (case r of Inl _ \<Rightarrow> x | Inr y \<Rightarrow> y)"

definition count_since :: "'f query_env \<Rightarrow> int \<Rightarrow> int \<Rightarrow> db \<Rightarrow> nat" where
  "count_since qv c secs d =
     or_empty (exec_sql (qv_faults qv) ''count_since''
       (Inr (length (filter (\<lambda>r. ar_chain_id r = c \<and> qv_now qv - secs \<le> qv_inserted_at qv r) (db_analysis d))))) 0"

definition collect_throughput :: "'f query_env \<Rightarrow> int \<Rightarrow> db \<Rightarrow> throughput" where
  "collect_throughput qv c d =
     \<lparr>th_rows_last_1h = count_since qv c 3600 d, th_rows_last_24h = count_since qv c 86400 d,
      th_rows_last_7d = count_since qv c (7 * 86400) d\<rparr>"

definition collect_top_unknowns :: "'f page_env \<Rightarrow> nat \<Rightarrow> db \<Rightarrow> unknown_entry list" where
  "collect_top_unknowns wp limit d =
     (let qv = wp_query wp
      in map (\<lambda>(a, n, wei). \<lparr>uy_address = addr_hex wp a, uy_tx_count = n, uy_wei_saved = show_nat wei\<rparr>)
        (or_empty (exec_sql (qv_faults qv) ''collect_top_unknowns''
          (Inr (take limit (sort_key (\<lambda>(a, n, wei). - int wei)
            (map (\<lambda>(a, rows). (a, length rows, sum_list (map ar_wei_saved rows)))
              (group_by ar_to_address
                (filter (\<lambda>r. ar_chain_id r = wp_chain_id wp \<and> is_unknown (ar_project_slug r)
                    \<and> qv_now qv - 30 * 86400 \<le> ar_block_timestamp r) (db_analysis d)))))))) []))"

definition collect_labeler_outcomes :: "'f page_env \<Rightarrow> nat \<Rightarrow> db \<Rightarrow> labeler_outcome list" where
  "collect_labeler_outcomes wp limit d =
     map (\<lambda>((c, a), l). \<lparr>lo_address = addr_hex wp a, lo_last_result = la_last_result l,
             lo_contract_name = la_contract_name l, lo_matched_slug = la_matched_slug l\<rparr>)
       (or_empty (exec_sql (qv_faults (wp_query wp)) ''collect_labeler_outcomes''
         (Inr (take limit (sort_key (\<lambda>(k, l). - la_last_attempted_at l)
           (map (\<lambda>k. (k, the (db_label_attempts d k)))
             (sorted_list_of_set {k \<in> dom (db_label_attempts d). fst k = wp_chain_id wp})))))) [])"

text \<open>Collecting the fields into a map keeps the last value of a key.\<close>

definition event_of :: "string \<times> (string \<times> string) list \<Rightarrow> recent_event" where
  "event_of e = (case e of (i, pairs) \<Rightarrow>
     let field = (\<lambda>k. or_default [] (map_of (rev pairs) k))
     in \<lparr>re_ts = i, re_level = field ''level'', re_target = field ''target'', re_message = field ''message''\<rparr>)"

definition collect_recent_events :: "diagnostics_env \<Rightarrow> nat \<Rightarrow> recent_event list" where
  "collect_recent_events dn limit = (case dn_events dn limit of None \<Rightarrow> [] | Some es \<Rightarrow> map event_of es)"

definition collect :: "'f page_env \<Rightarrow> diagnostics_env \<Rightarrow> db \<Rightarrow> diagnostics_bundle" where
  "collect wp dn d =
     (let qv = wp_query wp; c = wp_chain_id wp; hr = dn_redis dn;
          analysis = (case analysis_health qv c d of Inl _ \<Rightarrow> None | Inr a \<Rightarrow> Some a);
          latest = Option.bind analysis ah_latest_block;
          head_block = hr_last_head hr
      in \<lparr>bu_service_health =
            \<lparr>sh_head_block = head_block, sh_latest_analyzed_block = latest,
             sh_blocks_behind = (case (latest, head_block) of (Some a, Some h) \<Rightarrow> Some (h - a) | _ \<Rightarrow> None),
             sh_pending_queue_depth = or_zero (hr_pending hr), sh_dead_letter_depth = or_zero (hr_dead hr),
             sh_labeler_queue_depth = or_zero (dn_labeler_depth dn), sh_blocks_skipped = or_zero (hr_blocks_skipped hr),
             sh_jobs_dropped_stale = or_zero (hr_jobs_dropped_stale hr),
             sh_last_insert_age_secs = Option.bind analysis ah_last_insert_age_secs,
             sh_total_rows = (case analysis of None \<Rightarrow> 0 | Some a \<Rightarrow> ah_total_rows a)\<rparr>,
          bu_throughput = collect_throughput qv c d, bu_top_unknowns = collect_top_unknowns wp 10 d,
          bu_recent_labeler_outcomes = collect_labeler_outcomes wp 10 d, bu_recent_events = collect_recent_events dn 25,
          bu_chain_id = c, bu_etherscan_enabled = (dn_etherscan_hint dn \<noteq> [])\<rparr>)"

section \<open>The two views of health\<close>

text \<open>What the model is told is what the health page shows, whenever that page can be shown at all.\<close>

lemma bundle_agrees_with_health_page:
  assumes "collect_health wp (dn_redis dn) d = Inr hv"
  defines "sh \<equiv> bu_service_health (collect wp dn d)"
  shows "sh_head_block sh = hv_last_seen_block hv" "sh_latest_analyzed_block sh = hv_latest_analyzed_block hv"
    "sh_blocks_behind sh = hv_blocks_behind hv" "sh_pending_queue_depth sh = hv_pending_queue hv"
    "sh_dead_letter_depth sh = hv_dead_letter hv" "sh_last_insert_age_secs sh = hv_last_insert_age_secs hv"
    "sh_total_rows sh = hv_total_rows hv"
  using assms(1)
  by (auto simp: sh_def collect_def collect_health_def Let_def res_simps split: option.splits)

text \<open>The windows of the throughput are nested.\<close>

lemma length_filter_mono: "(\<And>x. P x \<Longrightarrow> Q x) \<Longrightarrow> length (filter P xs) \<le> length (filter Q xs)"
  by (induction xs) (auto simp: le_Suc_eq)

lemma throughput_nested:
  "th_rows_last_1h (collect_throughput qv c d) \<le> th_rows_last_24h (collect_throughput qv c d)"
  "th_rows_last_24h (collect_throughput qv c d) \<le> th_rows_last_7d (collect_throughput qv c d)"
  by (auto simp: collect_throughput_def count_since_def or_empty_def exec_sql_def split: option.splits intro!: length_filter_mono)

end
